(* ===== verification/Prelude.thy ===== *)
theory Prelude
  imports
    Main
    "HOL-Library.Char_ord"
    "HOL-Library.List_Lexorder"
    "HOL-Library.Product_Lexorder"
begin

text \<open>
  Shared vocabulary of the development: instants and durations, results that may be an
  error, and database tables as lists of rows with the handful of SQL operations the
  services use.  The lemmas here carry the component proofs; the collection
  \<open>table_simps\<close> holds the facts on lookups after inserts, updates and deletions.
\<close>

named_theorems table_simps

subsection \<open>Instants and durations\<close>

text \<open>
  A Python \<open>datetime\<close> with a time zone is an instant.  It is counted in microseconds
  (the resolution of \<open>datetime\<close>); a naive value read back from SQLite is an instant in
  UTC, which is what \<open>_utc\<close> and its copies in the sources make of it.
\<close>

type_synonym time = int

definition seconds :: "int \<Rightarrow> time" where
  "seconds n = n * 1000000"

definition days :: "int \<Rightarrow> time" where
  "days n = seconds (n * 86400)"

definition utc_date :: "time \<Rightarrow> int" where
  "utc_date t = t div days 1"

lemma seconds_mono [simp]: "seconds m \<le> seconds n \<longleftrightarrow> m \<le> n"
  by (simp add: seconds_def)

lemma seconds_less [simp]: "seconds m < seconds n \<longleftrightarrow> m < n"
  by (simp add: seconds_def)

lemma seconds_pos [simp]: "0 < seconds n \<longleftrightarrow> 0 < n"
  by (simp add: seconds_def)

lemma seconds_le_0 [simp]: "seconds n \<le> 0 \<longleftrightarrow> n \<le> 0"
  by (simp add: seconds_def)

lemma seconds_nonneg [simp]: "0 \<le> seconds n \<longleftrightarrow> 0 \<le> n"
  by (simp add: seconds_def)

subsection \<open>Strings\<close>

text \<open>
  Identifiers, states and codes are ASCII and are modelled as \<open>string\<close>.  Free text that
  the code measures with \<open>len\<close> is a list of Unicode code points, as a Python \<open>str\<close> is.
\<close>

type_synonym pystr = "nat list"

definition lit :: "string \<Rightarrow> pystr" where
  "lit s = map of_char s"

lemma length_lit [simp]: "length (lit s) = length s"
  by (simp add: lit_def)

subsection \<open>Results\<close>

text \<open>
  A Python function that may raise returns \<open>Inl\<close> of the exception or \<open>Inr\<close> of its
  value; \<open>and_then\<close> runs the rest of a body when no exception was raised.
\<close>

definition and_then :: "'e + 'a \<Rightarrow> ('a \<Rightarrow> 'e + 'b) \<Rightarrow> 'e + 'b" where
  "and_then r f = (case r of Inl e \<Rightarrow> Inl e | Inr x \<Rightarrow> f x)"

lemma and_then_simps [simp]:
  "and_then (Inl e) f = Inl e"
  "and_then (Inr x) f = f x"
  by (simp_all add: and_then_def)

lemma and_then_Inr [simp]:
  "and_then r f = Inr y \<longleftrightarrow> (\<exists>x. r = Inr x \<and> f x = Inr y)"
  by (cases r) auto

definition require :: "bool \<Rightarrow> 'e \<Rightarrow> 'e + unit" where
  "require ok e = (if ok then Inr () else Inl e)"

lemma require_Inr [simp]: "require ok e = Inr u \<longleftrightarrow> ok"
  by (simp add: require_def)

lemma require_True [simp]: "require True e = Inr ()"
  by (simp add: require_def)

lemma require_False [simp]: "require False e = Inl e"
  by (simp add: require_def)

subsection \<open>Tables\<close>

text \<open>
  A table is the list of its rows.  \<open>get_row\<close> is \<open>session.get\<close>, \<open>row_where\<close> is
  \<open>session.scalar(select(...).where(...))\<close>, \<open>rows_where\<close> is \<open>session.scalars(...)\<close>,
  \<open>save_row\<close> is the flush of one mutated row, \<open>update_where\<close> and \<open>delete_where\<close> are the
  bulk statements, and \<open>order_by\<close> is an ascending \<open>ORDER BY\<close> on a tuple of columns.
\<close>

definition get_row :: "('r \<Rightarrow> 'k) \<Rightarrow> 'k \<Rightarrow> 'r list \<Rightarrow> 'r option" where
  "get_row key k t = find (\<lambda>r. key r = k) t"

definition row_where :: "('r \<Rightarrow> bool) \<Rightarrow> 'r list \<Rightarrow> 'r option" where
  "row_where p t = find p t"

definition rows_where :: "('r \<Rightarrow> bool) \<Rightarrow> 'r list \<Rightarrow> 'r list" where
  "rows_where p t = filter p t"

definition exists_where :: "('r \<Rightarrow> bool) \<Rightarrow> 'r list \<Rightarrow> bool" where
  "exists_where p t = list_ex p t"

definition insert_row :: "'r \<Rightarrow> 'r list \<Rightarrow> 'r list" where
  "insert_row r t = t @ [r]"

definition save_row :: "('r \<Rightarrow> 'k) \<Rightarrow> 'r \<Rightarrow> 'r list \<Rightarrow> 'r list" where
  "save_row key r t = map (\<lambda>x. if key x = key r then r else x) t"

definition update_where :: "('r \<Rightarrow> bool) \<Rightarrow> ('r \<Rightarrow> 'r) \<Rightarrow> 'r list \<Rightarrow> 'r list" where
  "update_where p f t = map (\<lambda>x. if p x then f x else x) t"

definition delete_where :: "('r \<Rightarrow> bool) \<Rightarrow> 'r list \<Rightarrow> 'r list" where
  "delete_where p t = filter (\<lambda>x. \<not> p x) t"

definition delete_row :: "('r \<Rightarrow> 'k) \<Rightarrow> 'k \<Rightarrow> 'r list \<Rightarrow> 'r list" where
  "delete_row key k t = delete_where (\<lambda>r. key r = k) t"

definition order_by :: "('r \<Rightarrow> 'o::linorder) \<Rightarrow> 'r list \<Rightarrow> 'r list" where
  "order_by f t = sort_key f t"

definition first_row :: "'r list \<Rightarrow> 'r option" where
  "first_row t = (case t of [] \<Rightarrow> None | r # _ \<Rightarrow> Some r)"

definition unique_by :: "('r \<Rightarrow> 'k) \<Rightarrow> 'r list \<Rightarrow> bool" where
  "unique_by key t = distinct (map key t)"


subsection \<open>What the table operations do\<close>

lemma set_insert_row [simp]: "set (insert_row r t) = insert r (set t)"
  by (simp add: insert_row_def)

lemma set_delete_where [simp]: "set (delete_where p t) = {r \<in> set t. \<not> p r}"
  by (simp add: delete_where_def)

lemma set_delete_row [simp]: "set (delete_row key k t) = {r \<in> set t. key r \<noteq> k}"
  by (simp add: delete_row_def)

lemma set_rows_where [simp]: "set (rows_where p t) = {r \<in> set t. p r}"
  by (simp add: rows_where_def)

lemma set_update_where: "set (update_where p f t) = (\<lambda>x. if p x then f x else x) ` set t"
  by (simp add: update_where_def)

lemma set_save_row:
  "x \<in> set (save_row key r t) \<longleftrightarrow>
     (x = r \<and> (\<exists>y \<in> set t. key y = key r)) \<or> (x \<in> set t \<and> key x \<noteq> key r)"
  by (auto simp: save_row_def)

lemma set_order_by [simp]: "set (order_by f t) = set t"
  by (simp add: order_by_def)

lemma exists_where_iff [simp]: "exists_where p t \<longleftrightarrow> (\<exists>r \<in> set t. p r)"
  by (simp add: exists_where_def list_ex_iff)

lemma row_where_SomeD: "row_where p t = Some r \<Longrightarrow> r \<in> set t \<and> p r"
  by (auto simp: row_where_def find_Some_iff)

lemma row_where_None: "row_where p t = None \<longleftrightarrow> (\<forall>r \<in> set t. \<not> p r)"
  by (auto simp: row_where_def find_None_iff)

lemma row_where_ex: "r \<in> set t \<Longrightarrow> p r \<Longrightarrow> \<exists>r'. row_where p t = Some r'"
  by (cases "row_where p t") (auto simp: row_where_None)

lemma get_row_SomeD: "get_row key k t = Some r \<Longrightarrow> r \<in> set t \<and> key r = k"
  by (auto simp: get_row_def find_Some_iff)

lemma get_row_None: "get_row key k t = None \<longleftrightarrow> (\<forall>r \<in> set t. key r \<noteq> k)"
  by (auto simp: get_row_def find_None_iff)

lemma get_row_Nil [simp]: "get_row key k [] = None"
  by (simp add: get_row_None)

lemma get_row_Cons:
  "get_row key k (x # t) = (if key x = k then Some x else get_row key k t)"
  by (simp add: get_row_def)

lemma get_row_unique:
  "unique_by key t \<Longrightarrow> r \<in> set t \<Longrightarrow> get_row key (key r) t = Some r"
  by (induction t) (auto simp: get_row_Cons unique_by_def)

lemma get_row_iff:
  "unique_by key t \<Longrightarrow> get_row key k t = Some r \<longleftrightarrow> r \<in> set t \<and> key r = k"
  by (auto dest: get_row_SomeD intro: get_row_unique)

lemma unique_byD: "unique_by key t \<Longrightarrow> x \<in> set t \<Longrightarrow> y \<in> set t \<Longrightarrow> key x = key y \<Longrightarrow> x = y"
  by (auto simp: unique_by_def distinct_map inj_on_def)

lemma row_where_unique:
  assumes "unique_by key t" and "r \<in> set t" and "p r"
    and p: "\<And>x. x \<in> set t \<Longrightarrow> p x \<Longrightarrow> key x = key r"
  shows "row_where p t = Some r"
proof (cases "row_where p t")
  case None
  with assms(2,3) show ?thesis by (auto simp: row_where_None)
next
  case (Some r')
  then have r': "r' \<in> set t" "p r'" by (auto dest: row_where_SomeD)
  then have "r' = r" by (intro unique_byD [OF assms(1) _ assms(2)] p)
  with Some show ?thesis by simp
qed

lemma row_where_insert:
  "row_where p (insert_row r t) =
     (case row_where p t of None \<Rightarrow> if p r then Some r else None | Some x \<Rightarrow> Some x)"
  by (induction t) (auto simp: row_where_def insert_row_def)

lemma row_where_save:
  "(\<And>y. y \<in> set t \<Longrightarrow> key y = key r \<Longrightarrow> p y = p r) \<Longrightarrow>
     row_where p (save_row key r t) = map_option (\<lambda>y. if key y = key r then r else y) (row_where p t)"
  by (induction t) (auto simp: row_where_def save_row_def)

lemma row_where_update:
  "(\<And>y. p (f y) = p y) \<Longrightarrow>
     row_where p (update_where q f t) = map_option (\<lambda>y. if q y then f y else y) (row_where p t)"
  by (induction t) (auto simp: row_where_def update_where_def)

lemma get_row_insert [table_simps]:
  "get_row key k (insert_row r t) =
     (case get_row key k t of None \<Rightarrow> if key r = k then Some r else None | Some x \<Rightarrow> Some x)"
  by (induction t) (auto simp: insert_row_def get_row_Cons)

lemma get_row_save [table_simps]:
  "get_row key k (save_row key r t) =
     (if k = key r then map_option (\<lambda>_. r) (get_row key k t) else get_row key k t)"
  by (induction t) (auto simp: save_row_def get_row_Cons)

lemma get_row_delete_row [table_simps]:
  "get_row key k (delete_row key k' t) = (if k = k' then None else get_row key k t)"
  by (induction t) (auto simp: delete_row_def delete_where_def get_row_Cons)

lemma get_row_update_where [table_simps]:
  assumes "\<And>x. key (f x) = key x"
  shows "get_row key k (update_where p f t) =
     map_option (\<lambda>x. if p x then f x else x) (get_row key k t)"
  using assms by (induction t) (auto simp: update_where_def get_row_Cons)

lemma unique_insert_row [simp]:
  "unique_by key (insert_row r t) \<longleftrightarrow> unique_by key t \<and> key r \<notin> key ` set t"
  by (auto simp: unique_by_def insert_row_def)

lemma map_key_save_row [simp]: "map key (save_row key r t) = map key t"
  by (induction t) (auto simp: save_row_def)

lemma keys_save_row [simp]: "key ` set (save_row key r t) = key ` set t"
  by (metis map_key_save_row set_map)

lemma image_save_row: "f ` set (save_row key r t) \<subseteq> insert (f r) (f ` set t)"
  by (auto simp: set_save_row)

lemma image_update_where [simp]: "(\<And>x. g (f x) = g x) \<Longrightarrow> g ` set (update_where p f t) = g ` set t"
  by (induction t) (auto simp: update_where_def)

lemma unique_save_row [simp]: "unique_by key (save_row key r t) \<longleftrightarrow> unique_by key t"
  by (simp add: unique_by_def)

text \<open>A flush that keeps a second column of the row keeps that column of the table.\<close>

lemma map_save_row:
  assumes "unique_by key t" and "x \<in> set t" and "key x = key r" and "f x = f r"
  shows "map f (save_row key r t) = map f t"
proof -
  have "f y = f r" if "y \<in> set t" "key y = key r" for y
    using unique_byD [OF assms(1) that(1) assms(2)] that assms(3,4) by simp
  then show ?thesis by (auto simp: save_row_def)
qed

lemma unique_save_row_other:
  "unique_by key t \<Longrightarrow> x \<in> set t \<Longrightarrow> key x = key r \<Longrightarrow> f x = f r \<Longrightarrow>
     unique_by f (save_row key r t) \<longleftrightarrow> unique_by f t"
  by (simp add: unique_by_def [of f] map_save_row)

text \<open>
  A partial unique index: saving a row keeps it when the row keeps its column and the flush does
  not bring the row under the condition of the index.
\<close>

lemma unique_filter_save:
  assumes "unique_by f (filter P t)"
    and "\<And>x. x \<in> set t \<Longrightarrow> key x = key r \<Longrightarrow> f x = f r \<and> (P r \<longrightarrow> P x)"
  shows "unique_by f (filter P (save_row key r t))"
proof -
  let ?g = "\<lambda>x. if key x = key r then r else x"
  have "map f (filter P (save_row key r t)) = map f (filter (\<lambda>x. P (?g x)) (filter P t))"
    using assms(2) by (induction t) (auto simp: save_row_def)
  with assms(1) show ?thesis by (simp only: unique_by_def distinct_map_filter)
qed

lemma unique_filter_insert:
  "unique_by f (filter P t) \<Longrightarrow> \<forall>x \<in> set t. P x \<longrightarrow> f x \<noteq> f r \<Longrightarrow> unique_by f (filter P (insert_row r t))"
  by (auto simp: unique_by_def insert_row_def)

lemma unique_filter_delete: "unique_by f (filter P t) \<Longrightarrow> unique_by f (filter P (delete_row key k t))"
proof -
  assume "unique_by f (filter P t)"
  then have "unique_by f (filter (\<lambda>x. key x \<noteq> k) (filter P t))" unfolding unique_by_def by (rule distinct_map_filter)
  moreover have "filter P (delete_row key k t) = filter (\<lambda>x. key x \<noteq> k) (filter P t)"
    by (simp add: delete_row_def delete_where_def conj_commute)
  ultimately show ?thesis by simp
qed

lemma get_row_self: "get_row key k t = Some r \<Longrightarrow> get_row key (key r) t = Some r"
  using get_row_SomeD by metis

lemma list_all_save_row: "list_all P t \<Longrightarrow> P r \<Longrightarrow> list_all P (save_row key r t)"
  by (auto simp: list_all_iff set_save_row)

lemma list_all_insert_row [simp]: "list_all P (insert_row r t) \<longleftrightarrow> P r \<and> list_all P t"
  by (auto simp: list_all_iff)

lemma list_all_delete_where: "list_all P t \<Longrightarrow> list_all P (delete_where p t)"
  by (auto simp: list_all_iff)

lemma list_all_delete_row: "list_all P t \<Longrightarrow> list_all P (delete_row key k t)"
  by (auto simp: list_all_iff)

lemma list_all_update_where:
  "list_all P t \<Longrightarrow> (\<And>x. x \<in> set t \<Longrightarrow> P x \<Longrightarrow> p x \<Longrightarrow> P (f x)) \<Longrightarrow> list_all P (update_where p f t)"
  by (auto simp: list_all_iff set_update_where)

lemma unique_delete_where: "unique_by key t \<Longrightarrow> unique_by key (delete_where p t)"
  by (simp add: unique_by_def delete_where_def distinct_map_filter)

lemma unique_delete_row: "unique_by f t \<Longrightarrow> unique_by f (delete_row key k t)"
  by (simp add: delete_row_def unique_delete_where)

lemma unique_update_where:
  "(\<And>x. key (f x) = key x) \<Longrightarrow> unique_by key (update_where p f t) \<longleftrightarrow> unique_by key t"
  by (simp add: unique_by_def update_where_def o_def if_distrib cong: if_cong)

lemmas unique_intros = unique_delete_where unique_delete_row
lemmas list_all_intros = list_all_save_row list_all_delete_where list_all_delete_row

text \<open>\<open>ORDER BY ... LIMIT 1\<close> returns a least row, and no row only from an empty result.\<close>

lemma first_row_None [simp]: "first_row t = None \<longleftrightarrow> t = []"
  by (simp add: first_row_def split: list.splits)

lemma order_by_Nil [simp]: "order_by f t = [] \<longleftrightarrow> t = []"
  using set_order_by [of f t] by (metis set_empty)

lemma first_row_order_byD:
  assumes "first_row (order_by f t) = Some r"
  shows "r \<in> set t" and "x \<in> set t \<Longrightarrow> f r \<le> f x"
proof -
  obtain rs where rs: "order_by f t = r # rs"
    using assms by (auto simp: first_row_def split: list.splits)
  then have *: "set t = insert r (set rs)"
    by (metis list.simps(15) set_order_by)
  show "r \<in> set t" by (simp add: *)
  have "sorted (map f (r # rs))"
    by (metis order_by_def rs sorted_sort_key)
  then show "x \<in> set t \<Longrightarrow> f r \<le> f x" by (auto simp: *)
qed

subsection \<open>The contract of a keyed table\<close>

text \<open>
  What a service relies on when it addresses a row by its primary key: a lookup after an
  insert, a flush or a deletion, and that each of them keeps keys unique.
\<close>

locale keyed_table =
  fixes key :: "'r \<Rightarrow> 'k"
    and lookup :: "'k \<Rightarrow> 't \<Rightarrow> 'r option"
    and add :: "'r \<Rightarrow> 't \<Rightarrow> 't"
    and save :: "'r \<Rightarrow> 't \<Rightarrow> 't"
    and remove :: "'k \<Rightarrow> 't \<Rightarrow> 't"
    and wf :: "'t \<Rightarrow> bool"
  assumes lookup_key: "lookup k t = Some r \<Longrightarrow> key r = k"
    and lookup_add: "lookup (key r) t = None \<Longrightarrow>
          lookup k (add r t) = (if k = key r then Some r else lookup k t)"
    and lookup_save: "lookup k (save r t) =
          (if k = key r \<and> lookup k t \<noteq> None then Some r else lookup k t)"
    and lookup_remove: "lookup k (remove k' t) = (if k = k' then None else lookup k t)"
    and wf_add: "wf t \<Longrightarrow> lookup (key r) t = None \<Longrightarrow> wf (add r t)"
    and wf_save: "wf t \<Longrightarrow> wf (save r t)"
    and wf_remove: "wf t \<Longrightarrow> wf (remove k t)"
begin

lemma lookup_save_same: "lookup (key r) t = Some x \<Longrightarrow> lookup (key r) (save r t) = Some r"
  by (simp add: lookup_save)

lemma save_then_remove: "lookup k (remove (key r) (save r t)) = lookup k (remove (key r) t)"
  by (simp add: lookup_save lookup_remove)

lemma save_twice: "key r = key r' \<Longrightarrow> lookup k (save r' (save r t)) = lookup k (save r' t)"
  by (auto simp: lookup_save)

end

interpretation tbl: keyed_table key "get_row key" insert_row "save_row key" "delete_row key" "unique_by key"
  for key :: "'r \<Rightarrow> 'k"
proof (unfold_locales, goal_cases)
  case 1 then show ?case by (auto dest: get_row_SomeD)
next
  case (2 r t k) then show ?case
    by (cases "k = key r") (auto simp: get_row_insert split: option.splits)
next
  case (3 k r t) then show ?case by (auto simp: get_row_save)
next
  case 4 then show ?case by (simp add: get_row_delete_row)
next
  case 5 then show ?case by (auto simp: get_row_None)
next
  case 6 then show ?case by simp
next
  case 7 then show ?case by (rule unique_delete_row)
qed

end
