(* ===== verification/Schema.thy ===== *)
theory Schema
  imports Prelude
begin

text \<open>
  The ledger of \<open>apps/api/app/models.py\<close>: one record per table row and one record \<open>db\<close>
  that holds the tables.  A row carries the columns that the modelled operations read or
  write; columns with a \<open>CHECK ... IN\<close> constraint are enumerations with one constructor
  per admitted value.  Resource types are stored as strings in the ledger; here they are a
  datatype with \<open>Other_T\<close> for every string outside the retention lineage.
\<close>

subsection \<open>Resource types\<close>

datatype resource_type =
    Document_T | Document_Version_T | Post_T | Post_Version_T
  | Agent_Identity_T | Agent_Mandate_T | Agent_Grant_T
  | Connection_Request_T | Connection_T | Conversation_T | Message_T
  | Notification_T | Contact_Request_T
  | Organization_T | Organization_Membership_T | Job_T | Application_T
  | Verification_T | Verification_Evidence_T | Verification_Event_T
  | Moderation_Case_T | Moderation_Decision_T | Moderation_Appeal_T
  | Moderation_Audit_Event_T | Post_Report_T | Post_Moderation_Event_T
  | Other_T string

type_synonym resource = "resource_type \<times> string"

fun type_name :: "resource_type \<Rightarrow> string" where
  "type_name Document_T = ''document''"
| "type_name Document_Version_T = ''document_version''"
| "type_name Post_T = ''post''"
| "type_name Post_Version_T = ''post_version''"
| "type_name Agent_Identity_T = ''agent_identity''"
| "type_name Agent_Mandate_T = ''agent_mandate''"
| "type_name Agent_Grant_T = ''agent_grant''"
| "type_name Connection_Request_T = ''connection_request''"
| "type_name Connection_T = ''connection''"
| "type_name Conversation_T = ''conversation''"
| "type_name Message_T = ''message''"
| "type_name Notification_T = ''notification''"
| "type_name Contact_Request_T = ''contact_request''"
| "type_name Organization_T = ''organization''"
| "type_name Organization_Membership_T = ''organization_membership''"
| "type_name Job_T = ''job''"
| "type_name Application_T = ''application''"
| "type_name Verification_T = ''organization_verification''"
| "type_name Verification_Evidence_T = ''organization_verification_evidence''"
| "type_name Verification_Event_T = ''organization_verification_event''"
| "type_name Moderation_Case_T = ''moderation_case''"
| "type_name Moderation_Decision_T = ''moderation_decision''"
| "type_name Moderation_Appeal_T = ''moderation_appeal''"
| "type_name Moderation_Audit_Event_T = ''moderation_audit_event''"
| "type_name Post_Report_T = ''post_report''"
| "type_name Post_Moderation_Event_T = ''post_moderation_event''"
| "type_name (Other_T s) = s"

subsection \<open>Canonical documents and posts\<close>

record document_row =
  doc_id :: string
  doc_kind :: string
  doc_owner_id :: string
  doc_public_identifier :: string
  doc_visibility :: string
  doc_current_version :: int
  doc_updated_at :: time

record document_version_row =
  dv_id :: string
  dv_document_id :: string
  dv_version :: int
  dv_sha256 :: string
  dv_storage_path :: string

datatype post_status = Published | Withdrawn | Withheld

record post_row =
  post_id :: string
  post_owner_id :: string
  post_author_profile_document_id :: string
  post_author_profile_handle :: string
  post_status :: post_status
  post_current_version :: int
  post_sha256 :: string
  post_storage_path :: string
  post_published_at :: time
  post_updated_at :: time
  post_withdrawn_at :: "time option"
  post_withheld_at :: "time option"

record post_version_row =
  pv_id :: string
  pv_post_id :: string

subsection \<open>Post moderation\<close>

record post_report_row =
  report_id :: string
  report_post_id :: string
  report_case_id :: string
  report_reporter_owner_id :: string
  report_reason_code :: string
  report_narrative :: "pystr option"
  report_created_at :: time

datatype case_status =
    Open | Dismissed | Case_Withheld | Appealed | Appeal_Upheld | Appeal_Overturned
  | Legacy_Withheld | Legacy_Withdrawn

record moderation_case_row =
  case_id :: string
  case_post_id :: string
  case_subject_owner_id :: string
  case_status :: case_status
  case_created_at :: time
  case_updated_at :: time
  case_closed_at :: "time option"
  case_retention_expires_at :: "time option"
  case_sensitive_purged_at :: "time option"

datatype decision_action = No_Action | Withhold

record moderation_decision_row =
  dec_id :: string
  dec_case_id :: string
  dec_post_id :: string
  dec_moderator_id :: string
  dec_moderator_role :: string
  dec_action :: decision_action
  dec_reason_code :: string
  dec_subject_explanation :: pystr
  dec_internal_rationale :: "pystr option"
  dec_evidence :: "pystr option"
  dec_evidence_snapshot_sha256 :: "string option"
  dec_decided_at :: time

datatype appeal_status = Submitted | Upheld | Overturned

record moderation_appeal_row =
  apl_id :: string
  apl_case_id :: string
  apl_decision_id :: string
  apl_subject_owner_id :: string
  apl_rationale :: "pystr option"
  apl_status :: appeal_status
  apl_submitted_at :: time
  apl_reviewed_at :: "time option"
  apl_reviewer_id :: "string option"
  apl_reviewer_role :: "string option"
  apl_subject_explanation :: "pystr option"
  apl_internal_rationale :: "pystr option"
  apl_review_snapshot_sha256 :: "string option"

record moderation_audit_event_row =
  aud_id :: string
  aud_case_id :: string
  aud_post_id :: string
  aud_event_type :: string
  aud_actor_id :: string
  aud_actor_role :: string
  aud_safe_metadata :: pystr
  aud_occurred_at :: time

record post_moderation_event_row =
  pme_id :: string
  pme_post_id :: string

subsection \<open>Agents\<close>

record agent_identity_row =
  ai_id :: string
  ai_profile_document_id :: string

record agent_mandate_row =
  am_id :: string
  am_identity_id :: string

record agent_grant_row =
  ag_id :: string
  ag_resource_type :: resource_type
  ag_resource_id :: "string option"
  ag_mandate_id :: "string option"

subsection \<open>The private social graph\<close>

datatype request_status = Pending | Accepted | Rejected | Request_Blocked

record connection_request_row =
  cr_id :: string
  cr_pair_owner_low :: string
  cr_pair_owner_high :: string
  cr_requester_owner_id :: string
  cr_recipient_owner_id :: string
  cr_requester_profile_handle :: string
  cr_recipient_profile_handle :: string
  cr_requested_messaging :: bool
  cr_recipient_messaging_consent :: "bool option"
  cr_status :: request_status
  cr_requester_actor_id :: string
  cr_requester_actor_method :: string
  cr_decision_actor_id :: "string option"
  cr_created_at :: time
  cr_updated_at :: time
  cr_decided_at :: "time option"
  cr_retention_expires_at :: time

datatype connection_status = Active | Removed | Blocked

record connection_row =
  con_id :: string
  con_request_id :: string
  con_pair_owner_low :: string
  con_pair_owner_high :: string
  con_requester_owner_id :: string
  con_recipient_owner_id :: string
  con_requester_profile_handle :: string
  con_recipient_profile_handle :: string
  con_requested_messaging :: bool
  con_recipient_messaging_consent :: bool
  con_messaging_enabled :: bool
  con_status :: connection_status
  con_created_at :: time
  con_updated_at :: time
  con_ended_at :: "time option"
  con_ended_by_owner_id :: "string option"
  con_retention_expires_at :: time

datatype conversation_status = Conv_Active | Conv_Closed | Conv_Blocked

record conversation_row =
  cv_id :: string
  cv_connection_id :: string
  cv_pair_owner_low :: string
  cv_pair_owner_high :: string
  cv_status :: conversation_status
  cv_created_by_owner_id :: string
  cv_created_at :: time
  cv_closed_at :: "time option"
  cv_retention_expires_at :: time

record message_row =
  msg_id :: string
  msg_conversation_id :: string
  msg_sender_owner_id :: string
  msg_sender_actor_id :: string
  msg_sender_actor_method :: string
  msg_markdown :: pystr
  msg_content_sha256 :: string
  msg_created_at :: time
  msg_retention_expires_at :: time

record notification_row =
  ntf_id :: string
  ntf_recipient_owner_id :: string
  ntf_type :: string
  ntf_actor_owner_id :: "string option"
  ntf_resource_type :: resource_type
  ntf_resource_id :: string
  ntf_created_at :: time
  ntf_read_at :: "time option"
  ntf_retention_expires_at :: time

record connection_block_row =
  blk_id :: string
  blk_blocker_owner_id :: string
  blk_blocked_owner_id :: string
  blk_created_at :: time

record rate_bucket_row =
  rb_owner_id :: string
  rb_bucket_date :: int
  rb_count :: int
  rb_updated_at :: time

record content_block_row =
  pcb_id :: string
  pcb_blocker_owner_id :: string
  pcb_blocked_owner_id :: string
  pcb_created_at :: time

record contact_request_row =
  ctr_id :: string
  ctr_retention_expires_at :: time

subsection \<open>Recruiting\<close>

record job_row =
  job_id :: string
  job_organization_id :: string

record application_row =
  app_id :: string
  app_job_id :: string
  app_snapshot_sha256 :: string
  app_snapshot_size_bytes :: "int option"
  app_snapshot_storage_path :: "string option"
  app_retention_policy_version :: string
  app_retention_expires_at :: time

record organization_membership_row =
  om_id :: string
  om_organization_id :: string

record organization_verification_row =
  ov_id :: string
  ov_organization_id :: string

record verification_evidence_row =
  ve_id :: string
  ve_verification_id :: string
  ve_artifact_sha256 :: string
  ve_artifact_size_bytes :: int
  ve_storage_path :: string
  ve_retention_expires_at :: time

datatype verification_state =
    V_Submitted | V_Under_Review | V_Active | V_Rejected | V_Expired | V_Suspended | V_Revoked

record verification_event_row =
  vv_id :: string
  vv_verification_id :: string
  vv_to_state :: verification_state
  vv_expires_at :: "time option"
  vv_occurred_at :: time

subsection \<open>Retention, receipts and events\<close>

datatype task_state = Queued | Leased | Completed | Dead_Letter

record lifecycle_task_row =
  task_id :: string
  task_resource_type :: resource_type
  task_resource_id :: string
  task_policy_version :: string
  task_state :: task_state
  task_attempts :: int
  task_available_at :: time
  task_lease_expires_at :: "time option"
  task_claimed_by :: "string option"
  task_claim_token :: "string option"
  task_last_error_code :: "string option"
  task_created_at :: time
  task_completed_at :: "time option"

record retention_hold_row =
  hold_id :: string
  hold_resource_type :: resource_type
  hold_resource_id :: string
  hold_purpose :: pystr
  hold_authority :: string
  hold_expires_at :: time
  hold_review_at :: time
  hold_created_at :: time
  hold_released_at :: "time option"
  hold_released_by_authority :: "string option"

record retention_tombstone_row =
  tomb_id :: string
  tomb_resource_type :: resource_type
  tomb_resource_id :: string
  tomb_policy_version :: string
  tomb_task_id :: string
  tomb_disposed_at :: time

datatype erasure_phase =
    Conceal | Revoke | Detach | Delete_Row | Delete_File | Unindex | Provider | Postcheck | Backup

datatype erasure_state = E_Queued | E_Leased | E_Completed | E_Held | E_Dead_Letter

record erasure_item_row =
  ei_id :: string
  ei_resource_type :: resource_type
  ei_resource_id :: string
  ei_phase :: erasure_phase
  ei_state :: erasure_state

record idempotency_row =
  idem_owner_id :: string
  idem_key :: string
  idem_operation :: string
  idem_request_hash :: string
  idem_response_status :: nat
  idem_response_body :: pystr
  idem_response_headers :: "(string \<times> string) list"
  idem_resource_type :: "resource_type option"
  idem_resource_id :: "string option"

record change_event_row =
  ce_owner_id :: string
  ce_event_type :: string
  ce_resource_type :: resource_type
  ce_resource_id :: string
  ce_actor_id :: string
  ce_actor_method :: string
  ce_grant_id :: "string option"
  ce_payload :: pystr
  ce_occurred_at :: time

record peer_bucket_row =
  pb_direct_peer_hmac :: string
  pb_bucket_date :: int
  pb_request_count :: int

subsection \<open>The ledger\<close>

record db =
  documents :: "document_row list"
  document_versions :: "document_version_row list"
  posts :: "post_row list"
  post_versions :: "post_version_row list"
  post_reports :: "post_report_row list"
  moderation_cases :: "moderation_case_row list"
  moderation_decisions :: "moderation_decision_row list"
  moderation_appeals :: "moderation_appeal_row list"
  moderation_audit_events :: "moderation_audit_event_row list"
  post_moderation_events :: "post_moderation_event_row list"
  agent_identities :: "agent_identity_row list"
  agent_mandates :: "agent_mandate_row list"
  agent_grants :: "agent_grant_row list"
  connection_requests :: "connection_request_row list"
  connections :: "connection_row list"
  conversations :: "conversation_row list"
  messages :: "message_row list"
  notifications :: "notification_row list"
  connection_blocks :: "connection_block_row list"
  connection_request_buckets :: "rate_bucket_row list"
  message_buckets :: "rate_bucket_row list"
  post_report_buckets :: "rate_bucket_row list"
  post_content_blocks :: "content_block_row list"
  contact_requests :: "contact_request_row list"
  jobs :: "job_row list"
  applications :: "application_row list"
  organization_memberships :: "organization_membership_row list"
  organization_verifications :: "organization_verification_row list"
  verification_evidence :: "verification_evidence_row list"
  verification_events :: "verification_event_row list"
  lifecycle_tasks :: "lifecycle_task_row list"
  retention_holds :: "retention_hold_row list"
  retention_tombstones :: "retention_tombstone_row list"
  backup_authority :: "string list"
  erasure_items :: "erasure_item_row list"
  idempotency_records :: "idempotency_row list"
  change_events :: "change_event_row list"
  direct_peer_buckets :: "peer_bucket_row list"

definition empty_db :: db where
  "empty_db =
     \<lparr>documents = [], document_versions = [], posts = [], post_versions = [], post_reports = [],
      moderation_cases = [], moderation_decisions = [], moderation_appeals = [],
      moderation_audit_events = [], post_moderation_events = [], agent_identities = [],
      agent_mandates = [], agent_grants = [], connection_requests = [], connections = [],
      conversations = [], messages = [], notifications = [], connection_blocks = [],
      connection_request_buckets = [], message_buckets = [], post_report_buckets = [],
      post_content_blocks = [], contact_requests = [], jobs = [],
      applications = [], organization_memberships = [], organization_verifications = [],
      verification_evidence = [], verification_events = [], lifecycle_tasks = [],
      retention_holds = [], retention_tombstones = [], backup_authority = [],
      erasure_items = [], idempotency_records = [], change_events = [],
      direct_peer_buckets = []\<rparr>"

end
