(* ===== verification/HoldLineage.thy ===== *)
theory HoldLineage
  imports Schema "HOL-Library.Multiset"
begin

text \<open>
  The canonical-resource ancestry of \<open>services/hold_lineage.py\<close>.  \<open>hold_parent\<close> is one
  turn of the loop of \<open>hold_ancestors\<close>, \<open>hold_children\<close> the children that
  \<open>hold_descendants\<close> enumerates for one resource.  The locale \<open>lineage\<close> states what the two
  directions promise each other; the loops compute its closures, so a hold on a resource
  reaches exactly the resources whose ancestor walk meets it.
\<close>

subsection \<open>One step up, one step down\<close>

definition hold_parent :: "db \<Rightarrow> resource \<Rightarrow> resource option" where
  "hold_parent d r =
     (case r of (rt, i) \<Rightarrow>
       (case rt of
          Document_Version_T \<Rightarrow>
            map_option (\<lambda>row. (Document_T, dv_document_id row)) (get_row dv_id i (document_versions d))
        | Post_Version_T \<Rightarrow>
            map_option (\<lambda>row. (Post_T, pv_post_id row)) (get_row pv_id i (post_versions d))
        | Agent_Mandate_T \<Rightarrow>
            map_option (\<lambda>row. (Agent_Identity_T, am_identity_id row)) (get_row am_id i (agent_mandates d))
        | Agent_Identity_T \<Rightarrow>
            map_option (\<lambda>row. (Document_T, ai_profile_document_id row)) (get_row ai_id i (agent_identities d))
        | Agent_Grant_T \<Rightarrow>
            (case get_row ag_id i (agent_grants d) of
               None \<Rightarrow> None
             | Some row \<Rightarrow>
                 (case ag_mandate_id row of
                    Some m \<Rightarrow> Some (Agent_Mandate_T, m)
                  | None \<Rightarrow>
                      (case ag_resource_id row of
                         None \<Rightarrow> None
                       | Some k \<Rightarrow>
                           if (ag_resource_type row = Document_T \<or> ag_resource_type row = Organization_T)
                              \<and> k \<noteq> []
                           then Some (ag_resource_type row, k) else None)))
        | Connection_T \<Rightarrow>
            map_option (\<lambda>row. (Connection_Request_T, con_request_id row)) (get_row con_id i (connections d))
        | Conversation_T \<Rightarrow>
            map_option (\<lambda>row. (Connection_T, cv_connection_id row)) (get_row cv_id i (conversations d))
        | Message_T \<Rightarrow>
            map_option (\<lambda>row. (Conversation_T, msg_conversation_id row)) (get_row msg_id i (messages d))
        | Job_T \<Rightarrow>
            map_option (\<lambda>row. (Organization_T, job_organization_id row)) (get_row job_id i (jobs d))
        | Application_T \<Rightarrow>
            map_option (\<lambda>row. (Job_T, app_job_id row)) (get_row app_id i (applications d))
        | Verification_Evidence_T \<Rightarrow>
            map_option (\<lambda>row. (Verification_T, ve_verification_id row)) (get_row ve_id i (verification_evidence d))
        | Verification_Event_T \<Rightarrow>
            map_option (\<lambda>row. (Verification_T, vv_verification_id row)) (get_row vv_id i (verification_events d))
        | Verification_T \<Rightarrow>
            map_option (\<lambda>row. (Organization_T, ov_organization_id row)) (get_row ov_id i (organization_verifications d))
        | Organization_Membership_T \<Rightarrow>
            map_option (\<lambda>row. (Organization_T, om_organization_id row)) (get_row om_id i (organization_memberships d))
        | Moderation_Decision_T \<Rightarrow>
            map_option (\<lambda>row. (Moderation_Case_T, dec_case_id row)) (get_row dec_id i (moderation_decisions d))
        | Moderation_Appeal_T \<Rightarrow>
            map_option (\<lambda>row. (Moderation_Case_T, apl_case_id row)) (get_row apl_id i (moderation_appeals d))
        | Moderation_Audit_Event_T \<Rightarrow>
            map_option (\<lambda>row. (Moderation_Case_T, aud_case_id row)) (get_row aud_id i (moderation_audit_events d))
        | Post_Report_T \<Rightarrow>
            map_option (\<lambda>row. (Moderation_Case_T, report_case_id row)) (get_row report_id i (post_reports d))
        | Moderation_Case_T \<Rightarrow>
            map_option (\<lambda>row. (Post_T, case_post_id row)) (get_row case_id i (moderation_cases d))
        | Post_Moderation_Event_T \<Rightarrow>
            map_option (\<lambda>row. (Post_T, pme_post_id row)) (get_row pme_id i (post_moderation_events d))
        | _ \<Rightarrow> None))"

definition child_rows :: "resource_type \<Rightarrow> ('r \<Rightarrow> string) \<Rightarrow> ('r \<Rightarrow> bool) \<Rightarrow> 'r list \<Rightarrow> resource list" where
  "child_rows rt key p t = map (\<lambda>row. (rt, key row)) (rows_where p t)"

definition hold_children :: "db \<Rightarrow> resource \<Rightarrow> resource list" where
  "hold_children d r =
     (case r of (rt, i) \<Rightarrow>
       (case rt of
          Document_T \<Rightarrow>
            child_rows Document_Version_T dv_id (\<lambda>row. dv_document_id row = i) (document_versions d)
            @ child_rows Agent_Identity_T ai_id (\<lambda>row. ai_profile_document_id row = i) (agent_identities d)
            @ child_rows Agent_Grant_T ag_id
                (\<lambda>row. ag_resource_type row = Document_T \<and> ag_resource_id row = Some i) (agent_grants d)
        | Post_T \<Rightarrow>
            child_rows Post_Version_T pv_id (\<lambda>row. pv_post_id row = i) (post_versions d)
            @ child_rows Moderation_Case_T case_id (\<lambda>row. case_post_id row = i) (moderation_cases d)
            @ child_rows Post_Moderation_Event_T pme_id (\<lambda>row. pme_post_id row = i) (post_moderation_events d)
        | Agent_Identity_T \<Rightarrow>
            child_rows Agent_Mandate_T am_id (\<lambda>row. am_identity_id row = i) (agent_mandates d)
        | Agent_Mandate_T \<Rightarrow>
            child_rows Agent_Grant_T ag_id (\<lambda>row. ag_mandate_id row = Some i) (agent_grants d)
        | Connection_Request_T \<Rightarrow>
            child_rows Connection_T con_id (\<lambda>row. con_request_id row = i) (connections d)
        | Connection_T \<Rightarrow>
            child_rows Conversation_T cv_id (\<lambda>row. cv_connection_id row = i) (conversations d)
        | Conversation_T \<Rightarrow>
            child_rows Message_T msg_id (\<lambda>row. msg_conversation_id row = i) (messages d)
        | Organization_T \<Rightarrow>
            child_rows Job_T job_id (\<lambda>row. job_organization_id row = i) (jobs d)
            @ child_rows Organization_Membership_T om_id (\<lambda>row. om_organization_id row = i) (organization_memberships d)
            @ child_rows Verification_T ov_id (\<lambda>row. ov_organization_id row = i) (organization_verifications d)
            @ child_rows Agent_Grant_T ag_id
                (\<lambda>row. ag_resource_type row = Organization_T \<and> ag_resource_id row = Some i) (agent_grants d)
        | Job_T \<Rightarrow>
            child_rows Application_T app_id (\<lambda>row. app_job_id row = i) (applications d)
        | Verification_T \<Rightarrow>
            child_rows Verification_Evidence_T ve_id (\<lambda>row. ve_verification_id row = i) (verification_evidence d)
            @ child_rows Verification_Event_T vv_id (\<lambda>row. vv_verification_id row = i) (verification_events d)
        | Moderation_Case_T \<Rightarrow>
            child_rows Moderation_Decision_T dec_id (\<lambda>row. dec_case_id row = i) (moderation_decisions d)
            @ child_rows Moderation_Appeal_T apl_id (\<lambda>row. apl_case_id row = i) (moderation_appeals d)
            @ child_rows Moderation_Audit_Event_T aud_id (\<lambda>row. aud_case_id row = i) (moderation_audit_events d)
            @ child_rows Post_Report_T report_id (\<lambda>row. report_case_id row = i) (post_reports d)
        | _ \<Rightarrow> []))"

text \<open>The depth of a resource type in the ownership forest: every step changes it by one way only.\<close>

fun depth :: "resource_type \<Rightarrow> nat" where
  "depth Document_Version_T = 1"
| "depth Post_Version_T = 1"
| "depth Agent_Identity_T = 1"
| "depth Agent_Mandate_T = 2"
| "depth Agent_Grant_T = 3"
| "depth Connection_T = 1"
| "depth Conversation_T = 2"
| "depth Message_T = 3"
| "depth Job_T = 1"
| "depth Application_T = 2"
| "depth Organization_Membership_T = 1"
| "depth Verification_T = 1"
| "depth Verification_Evidence_T = 2"
| "depth Verification_Event_T = 2"
| "depth Moderation_Case_T = 1"
| "depth Moderation_Decision_T = 2"
| "depth Moderation_Appeal_T = 2"
| "depth Moderation_Audit_Event_T = 2"
| "depth Post_Report_T = 2"
| "depth Post_Moderation_Event_T = 1"
| "depth _ = 0"

lemma depth_le: "depth rt \<le> 3"
  by (cases rt) simp_all

lemma hold_parent_depth: "hold_parent d r = Some p \<Longrightarrow> depth (fst p) < depth (fst r)"
  by (cases r; cases "fst r") (auto simp: hold_parent_def split: option.splits if_splits)

lemma set_child_rows [simp]:
  "c \<in> set (child_rows rt key p t) \<longleftrightarrow> (\<exists>row \<in> set t. p row \<and> c = (rt, key row))"
  by (auto simp: child_rows_def)

lemma hold_children_depth: "c \<in> set (hold_children d r) \<Longrightarrow> depth (fst r) < depth (fst c)"
  by (cases r; cases "fst r") (auto simp: hold_children_def)

subsection \<open>The loops\<close>

text \<open>
  \<open>hold_ancestors\<close> walks up until a resource has no parent (or would repeat one); the depth
  of the current resource falls in every turn.
\<close>

function ancestors_loop :: "db \<Rightarrow> resource set \<Rightarrow> resource \<Rightarrow> resource set" where
  "ancestors_loop d anc cur =
     (case hold_parent d cur of
        None \<Rightarrow> anc
      | Some p \<Rightarrow> if p \<in> anc then anc else ancestors_loop d (insert p anc) p)"
  by pat_completeness auto
termination
  by (relation "measure (\<lambda>(d, anc, cur). depth (fst cur))") (auto dest: hold_parent_depth)

declare ancestors_loop.simps [simp del]

definition hold_ancestors :: "db \<Rightarrow> resource \<Rightarrow> resource set" where
  "hold_ancestors d r = ancestors_loop d {} r"

text \<open>
  \<open>hold_descendants\<close> pops a resource off a stack, and protects and pushes each child it has
  not seen.  The stack shrinks in the multiset order of the heights of its entries.
\<close>

fun push_children :: "resource list \<Rightarrow> resource set \<Rightarrow> resource list \<Rightarrow> resource set \<times> resource list" where
  "push_children [] prot pending = (prot, pending)"
| "push_children (c # cs) prot pending =
     (if c \<notin> prot then push_children cs (insert c prot) (pending @ [c])
      else push_children cs prot pending)"

lemma push_children_prot: "fst (push_children cs prot pending) = prot \<union> set cs"
  by (induction cs prot pending rule: push_children.induct) auto

lemma push_children_pending:
  "\<exists>new. snd (push_children cs prot pending) = pending @ new \<and> set new = set cs - prot"
proof (induction cs prot pending rule: push_children.induct)
  case (2 c cs prot pending)
  show ?case
  proof (cases "c \<in> prot")
    case True
    with 2 show ?thesis by auto
  next
    case False
    with 2 obtain new where "snd (push_children cs (insert c prot) (pending @ [c])) = pending @ [c] @ new"
      and "set new = set cs - insert c prot" by auto
    with False show ?thesis by (intro exI [of _ "c # new"]) auto
  qed
qed auto

lemma push_children_eq:
  "\<exists>new. push_children cs prot pending = (prot \<union> set cs, pending @ new) \<and> set new = set cs - prot"
  using push_children_prot [of cs prot pending] push_children_pending [of cs prot pending]
  by (metis prod.collapse)

definition height_bag :: "resource list \<Rightarrow> nat multiset" where
  "height_bag pending = mset (map (\<lambda>r. 4 - depth (fst r)) pending)"

lemma height_bag_step:
  assumes "pending \<noteq> []"
  shows "(height_bag (snd (push_children (hold_children d (last pending)) prot (butlast pending))),
          height_bag pending) \<in> mult less_than"
proof -
  let ?p = "last pending" and ?rest = "butlast pending"
  obtain new where new: "snd (push_children (hold_children d ?p) prot ?rest) = ?rest @ new"
    and sub: "set new = set (hold_children d ?p) - prot"
    using push_children_pending by blast
  have "height_bag pending = height_bag (?rest @ [?p])" using assms by simp
  then have split: "height_bag pending = height_bag ?rest + {#4 - depth (fst ?p)#}"
    by (simp only: height_bag_def map_append mset_append) simp
  have join: "height_bag (?rest @ new) = height_bag ?rest + height_bag new"
    by (simp add: height_bag_def)
  have less: "k < 4 - depth (fst ?p)" if "k \<in># height_bag new" for k
  proof -
    from that obtain c where c: "c \<in> set new" and k: "k = 4 - depth (fst c)"
      by (auto simp: height_bag_def)
    from c sub have "depth (fst ?p) < depth (fst c)" by (auto intro: hold_children_depth)
    with depth_le [of "fst c"] k show ?thesis by simp
  qed
  have "(height_bag ?rest + height_bag new, height_bag ?rest + {#4 - depth (fst ?p)#})
      \<in> mult less_than"
    using less by (intro one_step_implies_mult) auto
  then show ?thesis using new split by (simp add: join)
qed

function descendants_loop :: "db \<Rightarrow> resource set \<Rightarrow> resource list \<Rightarrow> resource set" where
  "descendants_loop d prot pending =
     (if pending = [] then prot
      else (case push_children (hold_children d (last pending)) prot (butlast pending) of
              (prot', pending') \<Rightarrow> descendants_loop d prot' pending'))"
  by pat_completeness auto
termination
proof (relation "inv_image (mult less_than) (\<lambda>(d, prot, pending). height_bag pending)", goal_cases)
  case 1
  show ?case by (intro wf_inv_image wf_mult wf_less_than)
next
  case (2 d prot pending prot' pending')
  then have "pending' = snd (push_children (hold_children d (last pending)) prot (butlast pending))"
    by (metis snd_conv)
  with 2(1) height_bag_step [of pending d prot] show ?case by simp
qed

declare descendants_loop.simps [simp del]

definition hold_descendants :: "db \<Rightarrow> resource \<Rightarrow> resource set" where
  "hold_descendants d r = descendants_loop d {r} [r]"


subsection \<open>The contract between the two directions\<close>

definition above :: "('r \<Rightarrow> 'r option) \<Rightarrow> 'r \<Rightarrow> 'r set" where
  "above parent r = {p. (r, p) \<in> {(x, y). parent x = Some y}\<^sup>+}"

definition below :: "('r \<Rightarrow> 'r list) \<Rightarrow> 'r \<Rightarrow> 'r set" where
  "below children r = {c. (r, c) \<in> {(x, y). y \<in> set (children x)}\<^sup>*}"

lemma above_unfold:
  "above parent r = (case parent r of None \<Rightarrow> {} | Some p \<Rightarrow> insert p (above parent p))"
proof (cases "parent r")
  case None
  then show ?thesis by (auto simp: above_def dest: tranclD)
next
  case (Some p)
  then have "(r, x) \<in> {(x, y). parent x = Some y}\<^sup>+ \<longleftrightarrow>
      x = p \<or> (p, x) \<in> {(x, y). parent x = Some y}\<^sup>+" for x
    by (subst trancl_unfold_left) (auto simp: rtrancl_eq_or_trancl)
  with Some show ?thesis by (auto simp: above_def)
qed

lemma below_refl [simp]: "r \<in> below children r"
  by (simp add: below_def)

lemma below_step: "x \<in> below children r \<Longrightarrow> y \<in> set (children x) \<Longrightarrow> y \<in> below children r"
  by (auto simp: below_def intro: rtrancl_into_rtrancl)

lemma below_least:
  assumes "r \<in> S" and "\<And>x. x \<in> S \<Longrightarrow> set (children x) \<subseteq> S"
  shows "below children r \<subseteq> S"
proof
  fix c assume "c \<in> below children r"
  then have "(r, c) \<in> {(x, y). y \<in> set (children x)}\<^sup>*" by (simp add: below_def)
  then show "c \<in> S" by (induction rule: rtrancl_induct) (use assms in auto)
qed

locale lineage =
  fixes parent :: "'d \<Rightarrow> 'r \<Rightarrow> 'r option"
    and children :: "'d \<Rightarrow> 'r \<Rightarrow> 'r list"
    and ok :: "'d \<Rightarrow> bool"
    and rank :: "'r \<Rightarrow> nat"
  assumes parent_rank: "parent d r = Some p \<Longrightarrow> rank p < rank r"
    and children_iff: "ok d \<Longrightarrow> c \<in> set (children d r) \<longleftrightarrow> parent d c = Some r"
begin

lemma above_rank: "p \<in> above (parent d) r \<Longrightarrow> rank p < rank r"
proof -
  assume "p \<in> above (parent d) r"
  then have "(r, p) \<in> {(x, y). parent d x = Some y}\<^sup>+" by (simp add: above_def)
  then show ?thesis by (induction rule: trancl_induct) (auto dest!: parent_rank)
qed

lemma no_cycle: "r \<notin> above (parent d) r"
  using above_rank by blast

lemma below_iff_above:
  assumes "ok d"
  shows "c \<in> below (children d) r \<longleftrightarrow> c = r \<or> r \<in> above (parent d) c"
proof -
  have "{(x, y). y \<in> set (children d x)} = {(x, y). parent d x = Some y}\<inverse>"
    using children_iff [OF assms] by auto
  then have "c \<in> below (children d) r \<longleftrightarrow> (c, r) \<in> {(x, y). parent d x = Some y}\<^sup>*"
    by (simp add: below_def rtrancl_converse)
  then show ?thesis by (auto simp: above_def rtrancl_eq_or_trancl)
qed

end

subsection \<open>The ledger keeps the contract\<close>

text \<open>
  Primary keys are unique, and an agent grant bound to a mandate carries no document or
  organization of its own: the mandate route creates it with resource type \<open>owner\<close>.
\<close>

definition grant_ok :: "agent_grant_row \<Rightarrow> bool" where
  "grant_ok g \<longleftrightarrow>
     (ag_resource_type g = Document_T \<or> ag_resource_type g = Organization_T \<longrightarrow>
        ag_mandate_id g = None \<and> ag_resource_id g \<noteq> Some [])"

definition lineage_ok :: "db \<Rightarrow> bool" where
  "lineage_ok d \<longleftrightarrow>
     unique_by dv_id (document_versions d) \<and> unique_by pv_id (post_versions d) \<and>
     unique_by am_id (agent_mandates d) \<and> unique_by ai_id (agent_identities d) \<and>
     unique_by ag_id (agent_grants d) \<and> list_all grant_ok (agent_grants d) \<and>
     unique_by con_id (connections d) \<and> unique_by cv_id (conversations d) \<and>
     unique_by msg_id (messages d) \<and> unique_by job_id (jobs d) \<and>
     unique_by app_id (applications d) \<and> unique_by ve_id (verification_evidence d) \<and>
     unique_by vv_id (verification_events d) \<and> unique_by ov_id (organization_verifications d) \<and>
     unique_by om_id (organization_memberships d) \<and> unique_by dec_id (moderation_decisions d) \<and>
     unique_by apl_id (moderation_appeals d) \<and> unique_by aud_id (moderation_audit_events d) \<and>
     unique_by report_id (post_reports d) \<and> unique_by case_id (moderation_cases d) \<and>
     unique_by pme_id (post_moderation_events d)"

lemma grant_parent_iff:
  assumes "unique_by ag_id (agent_grants d)" and "list_all grant_ok (agent_grants d)"
  shows "hold_parent d (Agent_Grant_T, i) = Some (rt, j) \<longleftrightarrow>
     (\<exists>g \<in> set (agent_grants d). ag_id g = i \<and>
        (rt = Agent_Mandate_T \<and> ag_mandate_id g = Some j \<or>
         (rt = Document_T \<or> rt = Organization_T) \<and> ag_resource_type g = rt \<and> ag_resource_id g = Some j))"
proof (cases "get_row ag_id i (agent_grants d)")
  case None
  then have "ag_id g \<noteq> i" if "g \<in> set (agent_grants d)" for g
    using that by (simp add: get_row_None)
  with None show ?thesis by (auto simp: hold_parent_def)
next
  case (Some g)
  then have g: "g \<in> set (agent_grants d)" "ag_id g = i" by (auto dest: get_row_SomeD)
  then have ok: "grant_ok g" using assms(2) by (simp add: list_all_iff)
  have uniq: "g' = g" if "g' \<in> set (agent_grants d)" "ag_id g' = i" for g'
    using that g assms(1) by (auto intro: unique_byD)
  have ex: "(\<exists>g' \<in> set (agent_grants d). ag_id g' = i \<and> P g') = P g" for P
  proof
    assume "\<exists>g' \<in> set (agent_grants d). ag_id g' = i \<and> P g'"
    then obtain g' where "g' \<in> set (agent_grants d)" "ag_id g' = i" "P g'" by blast
    with uniq show "P g" by simp
  next
    assume "P g"
    with g show "\<exists>g' \<in> set (agent_grants d). ag_id g' = i \<and> P g'" by blast
  qed
  show ?thesis
    unfolding ex using Some ok
    by (cases "ag_mandate_id g"; cases "ag_resource_id g"; cases rt)
      (auto simp: hold_parent_def grant_ok_def)
qed

lemma hold_children_iff:
  assumes "lineage_ok d"
  shows "c \<in> set (hold_children d r) \<longleftrightarrow> hold_parent d c = Some r"
proof -
  obtain ct ci rt ri where eq: "c = (ct, ci)" "r = (rt, ri)" by (cases c; cases r)
  show ?thesis
  proof (cases "ct = Agent_Grant_T")
    case True
    with assms show ?thesis
      by (cases rt) (auto simp: eq hold_children_def lineage_ok_def grant_parent_iff)
  next
    case False
    with assms show ?thesis
      by (cases ct; cases rt) (auto simp: eq hold_children_def hold_parent_def get_row_iff lineage_ok_def)
  qed
qed

interpretation hold: lineage hold_parent hold_children lineage_ok "\<lambda>r. depth (fst r)"
  by unfold_locales (auto intro: hold_parent_depth simp: hold_children_iff)

subsection \<open>The loops compute the closures\<close>

lemma ancestors_loop_eq:
  "\<forall>a \<in> anc. depth (fst cur) \<le> depth (fst a) \<Longrightarrow>
     ancestors_loop d anc cur = anc \<union> above (hold_parent d) cur"
proof (induction d anc cur rule: ancestors_loop.induct)
  case (1 d anc cur)
  show ?case
  proof (cases "hold_parent d cur")
    case None
    then show ?thesis by (simp add: ancestors_loop.simps above_unfold [of _ cur])
  next
    case (Some p)
    then have less: "depth (fst p) < depth (fst cur)" by (rule hold_parent_depth)
    with "1.prems" have "p \<notin> anc" by force
    moreover have "\<forall>a \<in> insert p anc. depth (fst p) \<le> depth (fst a)"
      using less "1.prems" by force
    ultimately have "ancestors_loop d (insert p anc) p = insert p anc \<union> above (hold_parent d) p"
      using "1.IH" [OF Some] by blast
    with Some \<open>p \<notin> anc\<close> show ?thesis
      by (simp add: ancestors_loop.simps [of d anc cur] above_unfold [of _ cur])
  qed
qed

lemma hold_ancestors_above: "hold_ancestors d r = above (hold_parent d) r"
  by (simp add: hold_ancestors_def ancestors_loop_eq)

lemma descendants_loop_sound:
  "prot \<subseteq> below (hold_children d) r \<Longrightarrow> set pending \<subseteq> below (hold_children d) r \<Longrightarrow>
     descendants_loop d prot pending \<subseteq> below (hold_children d) r"
proof (induction d prot pending rule: descendants_loop.induct)
  case (1 d prot pending)
  show ?case
  proof (cases "pending = []")
    case True
    with "1.prems" show ?thesis by (simp add: descendants_loop.simps)
  next
    case False
    let ?cs = "hold_children d (last pending)"
    obtain prot' pending' new where eq: "push_children ?cs prot (butlast pending) = (prot', pending')"
      and p': "prot' = prot \<union> set ?cs" "pending' = butlast pending @ new"
      and sub: "set new = set ?cs - prot"
      using push_children_eq [of ?cs prot "butlast pending"] by blast
    have "last pending \<in> below (hold_children d) r" using False "1.prems"(2) by auto
    then have cs: "set ?cs \<subseteq> below (hold_children d) r" by (auto intro: below_step)
    have "descendants_loop d prot' pending' \<subseteq> below (hold_children d) r"
    proof (rule "1.IH" [OF False eq [symmetric]])
      show "prot' \<subseteq> below (hold_children d) r" using "1.prems"(1) cs by (simp add: p')
      have "set (butlast pending) \<subseteq> below (hold_children d) r"
        using "1.prems"(2) by (auto dest: in_set_butlastD)
      then show "set pending' \<subseteq> below (hold_children d) r" using cs sub by (auto simp: p')
    qed
    with False eq show ?thesis by (simp add: descendants_loop.simps [of d prot pending])
  qed
qed

lemma descendants_loop_closed:
  "set pending \<subseteq> prot \<Longrightarrow>
   (\<And>x. x \<in> prot \<Longrightarrow> x \<in> set pending \<or> set (hold_children d x) \<subseteq> prot) \<Longrightarrow>
   prot \<subseteq> descendants_loop d prot pending \<and>
   (\<forall>x \<in> descendants_loop d prot pending. set (hold_children d x) \<subseteq> descendants_loop d prot pending)"
proof (induction d prot pending rule: descendants_loop.induct)
  case (1 d prot pending)
  show ?case
  proof (cases "pending = []")
    case True
    then have "descendants_loop d prot pending = prot" by (simp add: descendants_loop.simps)
    with True "1.prems" show ?thesis by auto
  next
    case False
    let ?cs = "hold_children d (last pending)"
    obtain prot' pending' new where eq: "push_children ?cs prot (butlast pending) = (prot', pending')"
      and p': "prot' = prot \<union> set ?cs" "pending' = butlast pending @ new"
      and sub: "set new = set ?cs - prot"
      using push_children_eq [of ?cs prot "butlast pending"] by blast
    have split: "set pending = insert (last pending) (set (butlast pending))"
      using append_butlast_last_id [OF False] by (metis list.set(1,2) set_append sup_bot_right Un_insert_right)
    have sub': "set pending' \<subseteq> prot'"
      using "1.prems"(1) sub split by (auto simp: p')
    have clo: "x \<in> set pending' \<or> set (hold_children d x) \<subseteq> prot'" if "x \<in> prot'" for x
    proof (cases "x = last pending")
      case True
      then show ?thesis by (simp add: p')
    next
      case False
      with that sub split "1.prems"(2) [of x] show ?thesis by (auto simp: p')
    qed
    have "prot' \<subseteq> descendants_loop d prot' pending' \<and>
        (\<forall>x \<in> descendants_loop d prot' pending'.
           set (hold_children d x) \<subseteq> descendants_loop d prot' pending')"
      by (rule "1.IH" [OF False eq [symmetric]]) (use sub' clo in auto)
    moreover have "descendants_loop d prot pending = descendants_loop d prot' pending'"
      using False eq by (simp add: descendants_loop.simps [of d prot pending])
    ultimately show ?thesis by (auto simp: p')
  qed
qed

lemma hold_descendants_below: "hold_descendants d r = below (hold_children d) r"
proof
  show "hold_descendants d r \<subseteq> below (hold_children d) r"
    unfolding hold_descendants_def by (rule descendants_loop_sound) auto
  have "{r} \<subseteq> hold_descendants d r \<and>
      (\<forall>x \<in> hold_descendants d r. set (hold_children d x) \<subseteq> hold_descendants d r)"
    unfolding hold_descendants_def by (rule descendants_loop_closed) auto
  then show "below (hold_children d) r \<subseteq> hold_descendants d r"
    by (intro below_least) auto
qed

text \<open>
  C1. A preservation hold reaches exactly what disposal will look up.  On a ledger with unique
  primary keys, the resources that \<open>hold_descendants\<close> locks when a hold on \<open>r\<close> is accepted
  are \<open>r\<close> itself and precisely the resources from which \<open>hold_ancestors\<close>, the walk that the
  disposal workers make before they destroy anything, arrives at \<open>r\<close>.
\<close>

theorem hold_reaches_exactly_descendants:
  assumes "lineage_ok d"
  shows "c \<in> hold_descendants d r \<longleftrightarrow> c = r \<or> r \<in> hold_ancestors d c"
  unfolding hold_descendants_below hold_ancestors_above by (rule hold.below_iff_above [OF assms])

definition sample_lineage :: db where
  "sample_lineage = empty_db
     \<lparr>document_versions := [\<lparr>dv_id = ''v1'', dv_document_id = ''d1'', dv_version = 1,
        dv_sha256 = ''h'', dv_storage_path = ''p''\<rparr>],
      agent_identities := [\<lparr>ai_id = ''i1'', ai_profile_document_id = ''d1''\<rparr>],
      agent_mandates := [\<lparr>am_id = ''m1'', am_identity_id = ''i1''\<rparr>],
      agent_grants :=
        [\<lparr>ag_id = ''g1'', ag_resource_type = Other_T ''owner'', ag_resource_id = None,
          ag_mandate_id = Some ''m1''\<rparr>,
         \<lparr>ag_id = ''g2'', ag_resource_type = Document_T, ag_resource_id = Some ''d2'',
          ag_mandate_id = None\<rparr>]\<rparr>"

theorem hold_reaches_exactly_descendants_witness:
  "lineage_ok sample_lineage \<and>
   (Agent_Grant_T, ''g1'') \<in> hold_descendants sample_lineage (Document_T, ''d1'') \<and>
   (Agent_Grant_T, ''g2'') \<notin> hold_descendants sample_lineage (Document_T, ''d1'')"
proof -
  have ok: "lineage_ok sample_lineage" by code_simp
  have "(Document_T, ''d1'') \<in> hold_ancestors sample_lineage (Agent_Grant_T, ''g1'')"
    and "(Document_T, ''d1'') \<notin> hold_ancestors sample_lineage (Agent_Grant_T, ''g2'')"
    by code_simp+
  with ok show ?thesis by (simp add: hold_reaches_exactly_descendants)
qed

end
