(* ===== verification/PyText.thy ===== *)
theory PyText
  imports Prelude
begin

text \<open>
  What the sources use of Python's \<open>str\<close>, \<open>bytes\<close>, \<open>int\<close> and \<open>uuid.UUID\<close>.  A \<open>str\<close> is a
  list of code points (\<open>pystr\<close>); a \<open>bytes\<close> value a list of byte values.
\<close>

type_synonym pybytes = "nat list"

subsection \<open>White space, stripping and character classes\<close>

text \<open>The code points for which \<open>str.isspace\<close> holds, which \<open>str.strip()\<close> removes at both ends.\<close>

definition py_space :: "nat \<Rightarrow> bool" where
  "py_space c \<longleftrightarrow>
     (9 \<le> c \<and> c \<le> 13) \<or> (28 \<le> c \<and> c \<le> 32) \<or> c = 133 \<or> c = 160 \<or> c = 5760 \<or>
     (8192 \<le> c \<and> c \<le> 8202) \<or> c = 8232 \<or> c = 8233 \<or> c = 8239 \<or> c = 8287 \<or> c = 12288"

definition strip_by :: "('a \<Rightarrow> bool) \<Rightarrow> 'a list \<Rightarrow> 'a list" where
  "strip_by p s = rev (dropWhile p (rev (dropWhile p s)))"

abbreviation strip :: "pystr \<Rightarrow> pystr" where
  "strip s \<equiv> strip_by py_space s"

definition lower_alnum :: "nat \<Rightarrow> bool" where
  "lower_alnum c \<longleftrightarrow> (97 \<le> c \<and> c \<le> 122) \<or> (48 \<le> c \<and> c \<le> 57)"

definition lower_hex :: "nat \<Rightarrow> bool" where
  "lower_hex c \<longleftrightarrow> (48 \<le> c \<and> c \<le> 57) \<or> (97 \<le> c \<and> c \<le> 102)"

definition hex_digit :: "nat \<Rightarrow> bool" where
  "hex_digit c \<longleftrightarrow> lower_hex c \<or> (65 \<le> c \<and> c \<le> 70)"

lemma dropWhile_length_le: "length (dropWhile p s) \<le> length s"
  by (induction s) auto

lemma strip_by_length: "length (strip_by p s) \<le> length s"
  unfolding strip_by_def
  by (metis dropWhile_length_le le_trans length_rev)

lemma set_strip_by: "set (strip_by p s) \<subseteq> set s"
proof
  fix x assume "x \<in> set (strip_by p s)"
  then have "x \<in> set (dropWhile p (rev (dropWhile p s)))" by (simp add: strip_by_def)
  then have "x \<in> set (dropWhile p s)" using set_dropWhileD by fastforce
  then show "x \<in> set s" using set_dropWhileD by fastforce
qed

lemma dropWhile_hd: "dropWhile p s \<noteq> [] \<Longrightarrow> \<not> p (hd (dropWhile p s))"
  by (rule hd_dropWhile) (simp add: dropWhile_eq_Nil_conv)

text \<open>Stripping is idempotent, and is the identity on a text with no white space at its ends.\<close>

lemma strip_by_id:
  assumes "s = [] \<or> (\<not> p (hd s) \<and> \<not> p (last s))"
  shows "strip_by p s = s"
proof (cases s rule: rev_cases)
  case Nil
  then show ?thesis by (simp add: strip_by_def)
next
  case (snoc ys y)
  with assms have last: "\<not> p y" and hd: "\<not> p (hd s)" by auto
  obtain x xs where s: "s = x # xs" using snoc by (metis Nil_is_append_conv list.exhaust not_Cons_self2)
  have "dropWhile p s = s" using hd by (simp add: s)
  moreover have "dropWhile p (rev s) = rev s" using last by (simp add: snoc)
  ultimately show ?thesis by (simp add: strip_by_def)
qed

lemma strip_by_ends:
  "strip_by p s = [] \<or> (\<not> p (hd (strip_by p s)) \<and> \<not> p (last (strip_by p s)))"
proof (cases "strip_by p s = []")
  case False
  let ?t = "dropWhile p s"
  have ne: "dropWhile p (rev ?t) \<noteq> []" using False by (simp add: strip_by_def)
  then have "last (strip_by p s) = hd (dropWhile p (rev ?t))"
    by (simp add: strip_by_def last_rev)
  with dropWhile_hd [OF ne] have 1: "\<not> p (last (strip_by p s))" by simp
  have "?t \<noteq> []" using ne by (metis dropWhile.simps(1) rev.simps(1))
  obtain ws where "rev ?t = ws @ dropWhile p (rev ?t)"
    by (metis takeWhile_dropWhile_id)
  then have "?t = strip_by p s @ rev ws"
    by (metis rev_append rev_rev_ident strip_by_def)
  then have "hd (strip_by p s) = hd ?t" using False by (metis hd_append2)
  with dropWhile_hd [OF \<open>?t \<noteq> []\<close>] have "\<not> p (hd (strip_by p s))" by simp
  with 1 show ?thesis by simp
qed simp

lemma strip_by_idem [simp]: "strip_by p (strip_by p s) = strip_by p s"
  using strip_by_id strip_by_ends by blast

subsection \<open>UTF-8\<close>

text \<open>\<open>len(s.encode("utf-8"))\<close>; encoding a lone surrogate raises \<open>UnicodeEncodeError\<close>.\<close>

definition surrogate :: "nat \<Rightarrow> bool" where
  "surrogate c \<longleftrightarrow> 55296 \<le> c \<and> c \<le> 57343"

text \<open>Integer comparison, so that evaluation does not count up to the bounds.\<close>

lemma surrogate_code [code]: "surrogate c \<longleftrightarrow> 55296 \<le> int c \<and> int c \<le> 57343"
  by (auto simp: surrogate_def)

definition utf8_width :: "nat \<Rightarrow> nat" where
  "utf8_width c = (if c < 128 then 1 else if c < 2048 then 2 else if c < 65536 then 3 else 4)"

fun utf8_length :: "pystr \<Rightarrow> nat option" where
  "utf8_length [] = Some 0"
| "utf8_length (c # cs) =
     (if surrogate c then None else map_option (\<lambda>n. utf8_width c + n) (utf8_length cs))"

lemma utf8_length_bounds:
  "utf8_length s = Some n \<Longrightarrow> length s \<le> n \<and> n \<le> 4 * length s"
  by (induction s arbitrary: n) (fastforce simp: utf8_width_def split: if_splits)+

lemma utf8_length_append:
  "utf8_length (s @ t) =
     (case utf8_length s of None \<Rightarrow> None | Some m \<Rightarrow> map_option (\<lambda>n. m + n) (utf8_length t))"
proof (induction s)
  case Nil
  then show ?case by (cases "utf8_length t") auto
next
  case (Cons c s)
  then show ?case by (cases "utf8_length s"; cases "utf8_length t") auto
qed

text \<open>\<open>s.encode("utf-8")\<close> and the strict \<open>b.decode("utf-8")\<close>: no overlong forms, no surrogates.\<close>

definition scalar_value :: "nat \<Rightarrow> bool" where
  "scalar_value c \<longleftrightarrow> c < 1114112 \<and> \<not> surrogate c"

definition encode_char :: "nat \<Rightarrow> pybytes" where
  "encode_char c =
     (if c < 128 then [c]
      else if c < 2048 then [192 + c div 64, 128 + c mod 64]
      else if c < 65536 then [224 + c div 4096, 128 + c div 64 mod 64, 128 + c mod 64]
      else [240 + c div 262144, 128 + c div 4096 mod 64, 128 + c div 64 mod 64, 128 + c mod 64])"

fun utf8_encode :: "pystr \<Rightarrow> pybytes option" where
  "utf8_encode [] = Some []"
| "utf8_encode (c # cs) =
     (if surrogate c then None else map_option (\<lambda>bs. encode_char c @ bs) (utf8_encode cs))"

definition continuation :: "nat \<Rightarrow> bool" where
  "continuation b \<longleftrightarrow> 128 \<le> b \<and> b < 192"

definition decode_char :: "pybytes \<Rightarrow> (nat \<times> pybytes) option" where
  "decode_char bs =
     (case bs of
        [] \<Rightarrow> None
      | b # r \<Rightarrow>
          if b < 128 then Some (b, r)
          else if 194 \<le> b \<and> b < 224 then
            (case r of
               b1 # r1 \<Rightarrow> if continuation b1 then Some ((b - 192) * 64 + (b1 - 128), r1) else None
             | _ \<Rightarrow> None)
          else if 224 \<le> b \<and> b < 240 then
            (case r of
               b1 # b2 # r2 \<Rightarrow>
                 (let c = (b - 224) * 4096 + (b1 - 128) * 64 + (b2 - 128) in
                  if continuation b1 \<and> continuation b2 \<and> 2048 \<le> c \<and> \<not> surrogate c
                  then Some (c, r2) else None)
             | _ \<Rightarrow> None)
          else if 240 \<le> b \<and> b < 245 then
            (case r of
               b1 # b2 # b3 # r3 \<Rightarrow>
                 (let c = (b - 240) * 262144 + (b1 - 128) * 4096 + (b2 - 128) * 64 + (b3 - 128) in
                  if continuation b1 \<and> continuation b2 \<and> continuation b3 \<and> 65536 \<le> c \<and> c < 1114112
                  then Some (c, r3) else None)
             | _ \<Rightarrow> None)
          else None)"

lemma decode_char_shorter: "decode_char bs = Some (c, r) \<Longrightarrow> length r < length bs"
  by (auto simp: decode_char_def Let_def split: list.splits if_splits)

function utf8_decode :: "pybytes \<Rightarrow> pystr option" where
  "utf8_decode bs =
     (if bs = [] then Some []
      else (case decode_char bs of
              None \<Rightarrow> None
            | Some (c, r) \<Rightarrow> map_option (\<lambda>cs. c # cs) (utf8_decode r)))"
  by pat_completeness auto
termination
  by (relation "measure length") (auto dest: decode_char_shorter)

declare utf8_decode.simps [simp del]

lemma digits_64_2: "(c div 4096) * 4096 + (c div 64 mod 64) * 64 + c mod 64 = (c::nat)"
proof -
  have "c div 4096 = c div 64 div 64" by (simp add: div_mult2_eq [symmetric])
  then have "(c div 4096) * 64 + c div 64 mod 64 = c div 64" by simp
  then have "((c div 4096) * 64 + c div 64 mod 64) * 64 + c mod 64 = c" by simp
  then show ?thesis by (simp add: algebra_simps)
qed

lemma digits_64_3:
  "(c div 262144) * 262144 + (c div 4096 mod 64) * 4096 + (c div 64 mod 64) * 64 + c mod 64 = (c::nat)"
proof -
  have "c div 262144 = c div 4096 div 64" by (simp add: div_mult2_eq [symmetric])
  then have "(c div 262144) * 64 + c div 4096 mod 64 = c div 4096" by simp
  then have "((c div 262144) * 64 + c div 4096 mod 64) * 4096 = (c div 4096) * 4096" by simp
  with digits_64_2 [of c] show ?thesis by (simp add: algebra_simps)
qed

lemma decode_encode_char:
  assumes "scalar_value c"
  shows "decode_char (encode_char c @ bs) = Some (c, bs)"
proof -
  have mod: "x mod 64 < 64" for x :: nat by simp
  consider "c < 128" | "128 \<le> c" "c < 2048" | "2048 \<le> c" "c < 65536" | "65536 \<le> c" by linarith
  then show ?thesis
  proof cases
    case 1
    then show ?thesis by (simp add: encode_char_def decode_char_def)
  next
    case 2
    then have "2 \<le> c div 64" "c div 64 < 32" by auto
    with 2 mod [of c] show ?thesis by (simp add: encode_char_def decode_char_def continuation_def)
  next
    case 3
    then have "c div 4096 < 16" by auto
    with 3 assms mod [of c] mod [of "c div 64"] digits_64_2 [of c] show ?thesis
      by (simp add: encode_char_def decode_char_def continuation_def Let_def scalar_value_def)
  next
    case 4
    then have "c div 262144 < 5" using assms by (auto simp: scalar_value_def)
    with 4 assms mod [of c] mod [of "c div 64"] mod [of "c div 4096"] digits_64_3 [of c] show ?thesis
      by (simp add: encode_char_def decode_char_def continuation_def Let_def scalar_value_def)
  qed
qed

lemma encode_char_nonempty [simp]: "encode_char c \<noteq> []"
  by (simp add: encode_char_def)

lemma utf8_round_trip:
  "list_all scalar_value s \<Longrightarrow> \<exists>bs. utf8_encode s = Some bs \<and> utf8_decode bs = Some s"
proof (induction s)
  case Nil
  then show ?case by (simp add: utf8_decode.simps)
next
  case (Cons c s)
  then obtain bs where bs: "utf8_encode s = Some bs" "utf8_decode bs = Some s" by auto
  have "utf8_decode (encode_char c @ bs) = Some (c # s)"
    using Cons.prems bs by (subst utf8_decode.simps) (simp add: decode_encode_char)
  with Cons.prems bs show ?case by (auto simp: scalar_value_def)
qed

lemma length_encode_char: "length (encode_char c) = utf8_width c"
  by (simp add: utf8_width_def encode_char_def)

lemma utf8_encode_length: "utf8_length s = map_option length (utf8_encode s)"
  by (induction s) (auto simp: option.map_comp comp_def length_encode_char)

subsection \<open>\<open>int(s, 16)\<close> and \<open>uuid.UUID(s)\<close>\<close>

fun hex_digits :: "pystr \<Rightarrow> bool" where
  "hex_digits [] = False"
| "hex_digits [c] = hex_digit c"
| "hex_digits (c # d # cs) =
     (hex_digit c \<and> (if d = 95 then hex_digits cs else hex_digits (d # cs)))"

definition drop_sign :: "pystr \<Rightarrow> pystr" where
  "drop_sign s = (case s of c # cs \<Rightarrow> if c = 43 \<or> c = 45 then cs else s | [] \<Rightarrow> [])"

definition drop_0x :: "pystr \<Rightarrow> pystr" where
  "drop_0x s =
     (case s of
        c # x # cs \<Rightarrow>
          if c = 48 \<and> (x = 120 \<or> x = 88)
          then (case cs of u # us \<Rightarrow> if u = 95 then us else cs | [] \<Rightarrow> [])
          else s
      | _ \<Rightarrow> s)"

definition int16_ok :: "pystr \<Rightarrow> bool" where
  "int16_ok s = hex_digits (drop_0x (drop_sign (strip s)))"

fun remove_prefix_all :: "nat \<Rightarrow> 'a list \<Rightarrow> 'a list \<Rightarrow> 'a list" where
  "remove_prefix_all 0 pat s = s"
| "remove_prefix_all (Suc n) pat [] = []"
| "remove_prefix_all (Suc n) pat (c # cs) =
     (if pat \<noteq> [] \<and> take (length pat) (c # cs) = pat
      then remove_prefix_all n pat (drop (length pat) (c # cs))
      else c # remove_prefix_all n pat cs)"

text \<open>\<open>s.replace(pat, "")\<close>: every step consumes a character, so the length is fuel enough.\<close>

definition erase :: "'a list \<Rightarrow> 'a list \<Rightarrow> 'a list" where
  "erase pat s = remove_prefix_all (length s) pat s"

definition uuid_hex :: "pystr \<Rightarrow> pystr" where
  "uuid_hex s =
     erase (lit ''-'') (strip_by (\<lambda>c. c = 123 \<or> c = 125) (erase (lit ''uuid:'') (erase (lit ''urn:'') s)))"

definition uuid_ok :: "pystr \<Rightarrow> bool" where
  "uuid_ok s \<longleftrightarrow> length (uuid_hex s) = 32 \<and> int16_ok (uuid_hex s)"

end
