(* ===== verification/Storage.thy ===== *)
theory Storage
  imports PyText
begin

text \<open>
  The verified reads and deletions of \<open>services/storage.py\<close> (class \<open>VersionStore\<close>).  The
  store is the tree below its root, as a list of (path components, node); a symbolic link
  is opaque, and what a system call that follows links answers for it is the parameter
  \<open>stat_follows\<close>.  SHA-256 is the parameter \<open>sha\<close> and holds for every function: nothing
  below relies on what it computes.  The system calls can fail, which the argument
  \<open>fault\<close> says, and a read may return fewer bytes than asked for, which \<open>grants\<close> says.
\<close>

subsection \<open>Paths\<close>

fun split_on :: "'a \<Rightarrow> 'a list \<Rightarrow> 'a list list" where
  "split_on c [] = [[]]"
| "split_on c (x # xs) =
     (if x = c then [] # split_on c xs
      else (case split_on c xs of [] \<Rightarrow> [[x]] | w # ws \<Rightarrow> (x # w) # ws))"

fun join_on :: "'a list \<Rightarrow> 'a list list \<Rightarrow> 'a list" where
  "join_on sep [] = []"
| "join_on sep [w] = w"
| "join_on sep (w # v # ws) = w @ sep @ join_on sep (v # ws)"

text \<open>\<open>PurePosixPath(s).parts\<close> of a relative path, and \<open>as_posix\<close> of it.\<close>

definition posix_parts :: "string \<Rightarrow> string list" where
  "posix_parts s = filter (\<lambda>p. p \<noteq> [] \<and> p \<noteq> ''.'') (split_on CHR ''/'' s)"

definition as_posix :: "string list \<Rightarrow> string" where
  "as_posix parts = (if parts = [] then ''.'' else join_on ''/'' parts)"

subsection \<open>The tree\<close>

datatype node = Directory | Regular pybytes | Symlink

type_synonym tree = "(string list \<times> node) list"

datatype walked = Found node | Missing | Through_Link

definition node_at :: "tree \<Rightarrow> string list \<Rightarrow> node option" where
  "node_at t path = (if path = [] then Some Directory else map_of t path)"

fun walk :: "tree \<Rightarrow> string list \<Rightarrow> string list \<Rightarrow> walked" where
  "walk t here [] = (case node_at t here of None \<Rightarrow> Missing | Some n \<Rightarrow> Found n)"
| "walk t here (p # ps) =
     (case node_at t here of
        Some Directory \<Rightarrow> walk t (here @ [p]) ps
      | Some Symlink \<Rightarrow> Through_Link
      | _ \<Rightarrow> Missing)"

text \<open>\<open>Path.exists\<close>, which follows links.\<close>

definition path_exists :: "(string list \<Rightarrow> bool) \<Rightarrow> tree \<Rightarrow> string list \<Rightarrow> bool" where
  "path_exists stat_follows t parts =
     (case walk t [] parts of
        Found Symlink \<Rightarrow> stat_follows parts
      | Found _ \<Rightarrow> True
      | Missing \<Rightarrow> False
      | Through_Link \<Rightarrow> stat_follows parts)"

definition unlink :: "tree \<Rightarrow> string list \<Rightarrow> tree" where
  "unlink t parts = filter (\<lambda>e. fst e \<noteq> parts) t"

subsection \<open>Exceptions and system-call failures\<close>

datatype storage_error = Storage_Integrity_Error | Value_Error | Index_Error

datatype fault = No_Fault | Read_Fault | Unlink_Fault | Fsync_Fault

definition application_snapshot_relative_path :: "string \<Rightarrow> storage_error + string" where
  "application_snapshot_relative_path i =
     (if uuid_ok (lit i) then Inr (''applications/'' @ i @ ''/snapshot.md'') else Inl Value_Error)"

definition verified_byte_target :: "string \<Rightarrow> storage_error + string list" where
  "verified_byte_target path =
     (let parts = posix_parts path in
      if path = [] \<or> CHR 0x5C \<in> set path then Inl Storage_Integrity_Error
      else if hd path = CHR ''/'' \<or> ''..'' \<in> set parts then Inl Storage_Integrity_Error
      else if as_posix parts \<noteq> path then Inl Storage_Integrity_Error
      else Inr parts)"

definition validate_byte_expectations :: "string \<Rightarrow> int \<Rightarrow> int \<Rightarrow> storage_error + unit" where
  "validate_byte_expectations sha256 sz max_size =
     (if length sha256 \<noteq> 64 \<or> \<not> list_all lower_hex (lit sha256)
         \<or> sz < 0 \<or> max_size < 0 \<or> sz > max_size
      then Inl Storage_Integrity_Error else Inr ())"

subsection \<open>Reading\<close>

text \<open>
  The loop of \<open>_read_bounded_descriptor\<close>: each \<open>os.read\<close> asks for at most 65536 and at most
  \<open>remaining\<close> bytes and is granted at least one while there are any; \<open>grants\<close> is what the
  kernel grants in each turn (a short read), and it grants everything once the list is used up.
\<close>

function read_loop :: "nat list \<Rightarrow> nat \<Rightarrow> pybytes \<Rightarrow> pybytes \<Rightarrow> pybytes" where
  "read_loop grants remaining rest chunks =
     (if remaining = 0 \<or> rest = [] then chunks
      else
        (let asked = min 65536 remaining;
             n = (case grants of [] \<Rightarrow> asked | g # _ \<Rightarrow> min asked (max 1 g));
             chunk = take n rest
         in read_loop (tl grants) (remaining - length chunk) (drop n rest) (chunks @ chunk)))"
  by pat_completeness auto
termination
  by (relation "measure (\<lambda>(grants, remaining, rest, chunks). length rest)")
    (auto split: list.splits)

declare read_loop.simps [simp del]

definition read_bounded_descriptor ::
    "nat list \<Rightarrow> node \<Rightarrow> int \<Rightarrow> int \<Rightarrow> storage_error + pybytes" where
  "read_bounded_descriptor grants n sz max_size =
     (case n of
        Regular content \<Rightarrow>
          if int (length content) \<noteq> sz \<or> int (length content) > max_size
          then Inl Storage_Integrity_Error
          else
            (let payload = read_loop grants (nat (max_size + 1)) content [] in
             if int (length payload) \<noteq> sz \<or> int (length payload) > max_size
             then Inl Storage_Integrity_Error else Inr payload)
      | _ \<Rightarrow> Inl Storage_Integrity_Error)"

text \<open>
  \<open>_read_verified_bytes_posix\<close>: every component is opened relative to its directory with
  \<open>O_NOFOLLOW\<close>, so a link anywhere on the path is an \<open>OSError\<close>, which the caller turns into
  \<open>StorageIntegrityError\<close>.  The empty tuple of parts has no last element.
\<close>

definition read_verified_bytes_posix ::
    "nat list \<Rightarrow> fault \<Rightarrow> tree \<Rightarrow> string list \<Rightarrow> int \<Rightarrow> int \<Rightarrow> storage_error + pybytes" where
  "read_verified_bytes_posix grants fault t parts sz max_size =
     (if fault = Read_Fault then Inl Storage_Integrity_Error
      else if parts = [] then Inl Index_Error
      else
        (case walk t [] parts of
           Found Symlink \<Rightarrow> Inl Storage_Integrity_Error
         | Found n \<Rightarrow> read_bounded_descriptor grants n sz max_size
         | _ \<Rightarrow> Inl Storage_Integrity_Error))"

definition read_verified_bytes ::
    "(pybytes \<Rightarrow> string) \<Rightarrow> nat list \<Rightarrow> fault \<Rightarrow> tree \<Rightarrow> string \<Rightarrow> string \<Rightarrow> int \<Rightarrow> int
      \<Rightarrow> storage_error + pybytes" where
  "read_verified_bytes sha grants fault t path sha256 sz max_size =
     and_then (verified_byte_target path) (\<lambda>parts.
     and_then (validate_byte_expectations sha256 sz max_size) (\<lambda>_.
     and_then (read_verified_bytes_posix grants fault t parts sz max_size) (\<lambda>payload.
     if sha payload \<noteq> sha256 then Inl Storage_Integrity_Error else Inr payload)))"

text \<open>
  \<open>read_verified\<close> of a Markdown version: \<open>content\<close> is what \<open>target.read_bytes()\<close> returns, with
  no value when the path leaves the store or the read raises.
\<close>

definition read_verified :: "(pybytes \<Rightarrow> string) \<Rightarrow> pybytes option \<Rightarrow> string \<Rightarrow> storage_error + pystr" where
  "read_verified sha content expected_sha256 =
     (case content of
        None \<Rightarrow> Inl Storage_Integrity_Error
      | Some payload \<Rightarrow>
          if sha payload \<noteq> expected_sha256 then Inl Storage_Integrity_Error
          else
            (case utf8_decode payload of
               None \<Rightarrow> Inl Storage_Integrity_Error
             | Some decoded \<Rightarrow> if 13 \<in> set decoded then Inl Storage_Integrity_Error else Inr decoded))"

subsection \<open>Deleting\<close>

text \<open>
  The result is the new tree together with the exception, if any: an \<open>fsync\<close> of the
  directory that fails comes after the file is gone.
\<close>

definition delete_verified_exact ::
    "(pybytes \<Rightarrow> string) \<Rightarrow> (string list \<Rightarrow> bool) \<Rightarrow> nat list \<Rightarrow> fault \<Rightarrow> tree
      \<Rightarrow> string \<Rightarrow> string \<Rightarrow> int \<Rightarrow> int \<Rightarrow> tree \<times> (storage_error + unit)" where
  "delete_verified_exact sha stat_follows grants fault t path sha256 sz max_size =
     (case verified_byte_target path of
        Inl e \<Rightarrow> (t, Inl e)
      | Inr parts \<Rightarrow>
          if \<not> path_exists stat_follows t parts then (t, Inr ())
          else
            (case read_verified_bytes sha grants fault t path sha256 sz max_size of
               Inl e \<Rightarrow> (t, Inl e)
             | Inr _ \<Rightarrow>
                 if fault = Unlink_Fault then (t, Inl Storage_Integrity_Error)
                 else if fault = Fsync_Fault then (unlink t parts, Inl Storage_Integrity_Error)
                 else (unlink t parts, Inr ())))"

subsection \<open>What reading guarantees\<close>

text \<open>However the kernel cuts the file into reads, the loop returns its first \<open>remaining\<close> bytes.\<close>

lemma read_loop_eq [code]: "read_loop grants remaining rest chunks = chunks @ take remaining rest"
proof (induction grants remaining rest chunks rule: read_loop.induct)
  case (1 grants remaining rest chunks)
  show ?case
  proof (cases "remaining = 0 \<or> rest = []")
    case True
    then show ?thesis by (auto simp: read_loop.simps)
  next
    case False
    define n where "n = (case grants of [] \<Rightarrow> min 65536 remaining
        | g # _ \<Rightarrow> min (min 65536 remaining) (max 1 g))"
    have le: "n \<le> remaining" by (cases grants) (auto simp: n_def)
    have "read_loop grants remaining rest chunks =
        read_loop (tl grants) (remaining - length (take n rest)) (drop n rest) (chunks @ take n rest)"
      using False by (subst read_loop.simps) (simp add: n_def Let_def)
    also have "\<dots> = (chunks @ take n rest) @ take (remaining - length (take n rest)) (drop n rest)"
      by (rule "1.IH" [OF False refl n_def refl])
    also have "\<dots> = chunks @ take remaining rest"
    proof (cases "length rest \<le> n")
      case True
      with le show ?thesis by simp
    next
      case False
      with le have "take n rest @ take (remaining - n) (drop n rest) = take remaining rest"
        by (metis le_add_diff_inverse take_add)
      with False show ?thesis by (simp add: min_def)
    qed
    finally show ?thesis .
  qed
qed

lemma read_bounded_descriptor_Inr:
  "read_bounded_descriptor grants n sz max_size = Inr payload \<longleftrightarrow>
     n = Regular payload \<and> int (length payload) = sz \<and> sz \<le> max_size"
proof (cases n)
  case (Regular content)
  show ?thesis
  proof (cases "int (length content) = sz \<and> int (length content) \<le> max_size")
    case True
    then have "length content \<le> nat (max_size + 1)" by linarith
    with True Regular show ?thesis
      by (auto simp: read_bounded_descriptor_def read_loop_eq)
  next
    case False
    with Regular show ?thesis by (auto simp: read_bounded_descriptor_def)
  qed
qed (simp_all add: read_bounded_descriptor_def)

lemma read_verified_bytes_posix_Inr:
  "read_verified_bytes_posix grants fault t parts sz max_size = Inr payload \<longleftrightarrow>
     fault \<noteq> Read_Fault \<and> parts \<noteq> [] \<and> walk t [] parts = Found (Regular payload) \<and>
     int (length payload) = sz \<and> sz \<le> max_size"
  by (auto simp: read_verified_bytes_posix_def read_bounded_descriptor_Inr
      split: walked.splits node.splits)

lemma read_verified_bytes_Inr:
  "read_verified_bytes sha grants fault t path sha256 sz max_size = Inr payload \<longleftrightarrow>
     (\<exists>parts. verified_byte_target path = Inr parts \<and> parts \<noteq> [] \<and>
        walk t [] parts = Found (Regular payload)) \<and>
     fault \<noteq> Read_Fault \<and> sha payload = sha256 \<and> int (length payload) = sz \<and>
     validate_byte_expectations sha256 sz max_size = Inr ()"
  by (auto simp: read_verified_bytes_def read_verified_bytes_posix_Inr
      validate_byte_expectations_def split: if_splits)

lemma walk_Found: "walk t here ps = Found n \<Longrightarrow> node_at t (here @ ps) = Some n"
  by (induction t here ps rule: walk.induct)
    (auto split: option.splits node.splits)

lemma node_at_unlink:
  "parts \<noteq> [] \<Longrightarrow> node_at (unlink t parts) p = (if p = parts then None else node_at t p)"
  by (induction t) (auto simp: node_at_def unlink_def)

lemma walk_missing: "node_at t (here @ ps) = None \<Longrightarrow> walk t here ps \<noteq> Found n"
  using walk_Found by fastforce

lemma walk_no_link:
  "(\<And>k. k \<le> length ps \<Longrightarrow> node_at t (here @ take k ps) \<noteq> Some Symlink) \<Longrightarrow>
     walk t here ps \<noteq> Through_Link"
proof (induction t here ps rule: walk.induct)
  case (2 t here p ps)
  have "node_at t here \<noteq> Some Symlink" using "2.prems" [of 0] by simp
  moreover have "node_at t ((here @ [p]) @ take k ps) \<noteq> Some Symlink" if "k \<le> length ps" for k
    using "2.prems" [of "Suc k"] that by simp
  ultimately show ?case using "2.IH" by (auto split: option.splits node.splits)
qed (auto split: option.splits)

lemma walk_Found_prefix:
  "walk t here ps = Found n \<Longrightarrow> k < length ps \<Longrightarrow> node_at t (here @ take k ps) = Some Directory"
proof (induction t here ps arbitrary: k rule: walk.induct)
  case (2 t here p ps)
  then have dir: "node_at t here = Some Directory"
    by (auto split: option.splits node.splits)
  with 2 show ?case by (cases k) auto
qed simp

subsection \<open>What deletion guarantees\<close>

lemma delete_verified_exact_cases:
  assumes "delete_verified_exact sha stat_follows grants fault t path sha256 sz max_size = (t', res)"
  obtains (unchanged) "t' = t"
    | (removed) parts payload where "verified_byte_target path = Inr parts" and "parts \<noteq> []"
        and "walk t [] parts = Found (Regular payload)" and "sha payload = sha256"
        and "int (length payload) = sz" and "t' = unlink t parts"
proof (cases "t' = t")
  case False
  then obtain parts payload where "verified_byte_target path = Inr parts"
    and "read_verified_bytes sha grants fault t path sha256 sz max_size = Inr payload"
    and "t' = unlink t parts"
    using assms unfolding delete_verified_exact_def
    by (auto split: sum.splits if_splits)
  with removed show ?thesis by (auto simp: read_verified_bytes_Inr)
qed (rule unchanged)

text \<open>Once the file is unlinked the path no longer exists, so a repeated call succeeds.\<close>

lemma unlinked_not_exists:
  assumes "walk t [] parts = Found (Regular payload)" and "parts \<noteq> []"
  shows "\<not> path_exists stat_follows (unlink t parts) parts"
proof -
  have dirs: "node_at t (take k parts) = Some Directory" if "k < length parts" for k
    using walk_Found_prefix [OF assms(1) that] by simp
  have gone: "node_at (unlink t parts) ([] @ parts) = None"
    using assms(2) by (simp add: node_at_unlink)
  have "node_at (unlink t parts) ([] @ take k parts) \<noteq> Some Symlink" if "k \<le> length parts" for k
    using that dirs [of k] gone assms(2)
    by (cases "k = length parts") (auto simp: node_at_unlink)
  then have "walk (unlink t parts) [] parts \<noteq> Through_Link" by (rule walk_no_link)
  with walk_missing [OF gone] show ?thesis
    by (cases "walk (unlink t parts) [] parts") (auto simp: path_exists_def)
qed

lemma delete_success_absent:
  assumes call: "delete_verified_exact sha stat_follows grants fault t path sha256 sz max_size = (t', Inr ())"
    and target: "verified_byte_target path = Inr parts" and nonroot: "parts \<noteq> []"
  shows "\<not> path_exists stat_follows t' parts"
proof (cases "path_exists stat_follows t parts")
  case True
  with call target obtain payload
    where read: "read_verified_bytes sha grants fault t path sha256 sz max_size = Inr payload"
      and t': "t' = unlink t parts"
    by (auto simp: delete_verified_exact_def split: sum.splits if_splits)
  then have "walk t [] parts = Found (Regular payload)"
    using target by (auto simp: read_verified_bytes_Inr)
  from unlinked_not_exists [OF this nonroot] t' show ?thesis by simp
next
  case False
  with call target show ?thesis by (simp add: delete_verified_exact_def)
qed

lemma delete_success_target:
  "delete_verified_exact sha stat_follows grants fault t path sha256 sz max_size = (t', Inr ()) \<Longrightarrow>
     verified_byte_target path = Inr (posix_parts path)"
  by (auto simp: delete_verified_exact_def verified_byte_target_def Let_def split: if_splits)

text \<open>
  A verified read returns exactly the bytes of the named regular file or nothing.  However
  the kernel splits the reads, the call succeeds precisely when the path is canonical, every
  component above the file is a directory and not a link, the file is regular, and its length
  and digest are the ones the ledger expects within the stated maximum.
\<close>

lemma read_verified_bytes_exact:
  "read_verified_bytes sha grants No_Fault t path sha256 sz max_size = Inr payload \<longleftrightarrow>
     validate_byte_expectations sha256 sz max_size = Inr () \<and>
     (\<exists>parts. verified_byte_target path = Inr parts \<and> parts \<noteq> [] \<and>
        walk t [] parts = Found (Regular payload)) \<and>
     sha payload = sha256 \<and> int (length payload) = sz"
  by (auto simp: read_verified_bytes_Inr)

text \<open>
  C9. Deletion removes nothing but the exact verified bytes.  Whatever fails, every other path
  of the store keeps its node; when the file is gone it was a regular file with the expected
  length and digest reached without following a link; when the call reports success the path
  does not exist any more; and when it fails after the file was unlinked (the directory could
  not be synced) repeating the call succeeds.
\<close>

theorem delete_verified_exact_safe:
  assumes call: "delete_verified_exact sha stat_follows grants fault t path sha256 sz max_size = (t', res)"
    and target: "verified_byte_target path = Inr parts" and nonroot: "parts \<noteq> []"
  shows "(p \<noteq> parts \<longrightarrow> node_at t' p = node_at t p) \<and>
     (node_at t' parts \<noteq> node_at t parts \<longrightarrow>
        (\<exists>payload. walk t [] parts = Found (Regular payload) \<and> sha payload = sha256 \<and>
           int (length payload) = sz)) \<and>
     (res = Inr () \<longrightarrow> \<not> path_exists stat_follows t' parts) \<and>
     (t' \<noteq> t \<longrightarrow> delete_verified_exact sha stat_follows grants2 No_Fault t' path sha256 sz max_size
        = (t', Inr ()))"
proof -
  have ok: "res = Inr () \<Longrightarrow> \<not> path_exists stat_follows t' parts"
    using call by (simp add: delete_success_absent [OF _ target nonroot])
  show ?thesis using call
  proof (cases rule: delete_verified_exact_cases)
    case unchanged
    then show ?thesis using ok by simp
  next
    case (removed parts' payload)
    then have [simp]: "parts' = parts" using target by simp
    have gone: "\<not> path_exists stat_follows t' parts"
      using unlinked_not_exists [OF removed(3,2)] removed(6) by simp
    then have "delete_verified_exact sha stat_follows grants2 No_Fault t' path sha256 sz max_size = (t', Inr ())"
      by (simp add: delete_verified_exact_def target)
    with removed gone nonroot show ?thesis by (simp add: node_at_unlink)
  qed
qed

definition sample_tree :: tree where
  "sample_tree = [([''a''], Directory), ([''a'', ''f''], Regular [104, 105]), ([''b''], Symlink)]"

definition sample_sha :: "pybytes \<Rightarrow> string" where
  "sample_sha b = replicate 64 CHR ''0''"

theorem delete_verified_exact_safe_witness:
  "delete_verified_exact sample_sha (\<lambda>_. True) [1] Fsync_Fault sample_tree ''a/f'' (replicate 64 CHR ''0'') 2 9
     = ([([''a''], Directory), ([''b''], Symlink)], Inl Storage_Integrity_Error) \<and>
   delete_verified_exact sample_sha (\<lambda>_. True) [] No_Fault [([''a''], Directory), ([''b''], Symlink)]
     ''a/f'' (replicate 64 CHR ''0'') 2 9 = ([([''a''], Directory), ([''b''], Symlink)], Inr ())"
proof -
  have 1: "delete_verified_exact sample_sha (\<lambda>_. True) [1] Fsync_Fault sample_tree ''a/f'' (replicate 64 CHR ''0'') 2 9
     = ([([''a''], Directory), ([''b''], Symlink)], Inl Storage_Integrity_Error)"
    by code_simp
  have 2: "verified_byte_target ''a/f'' = Inr [''a'', ''f'']" by code_simp
  have "[([''a''], Directory), ([''b''], Symlink)] \<noteq> sample_tree" by (simp add: sample_tree_def)
  with delete_verified_exact_safe [OF 1 2, of "[]" "[]"] 1 show ?thesis by simp
qed

end
