(* ===== verification/WorkQueue.thy ===== *)
theory WorkQueue
  imports Prelude
begin

text \<open>
  The contract that the two leased work queues of the program share (retention disposal in
  \<open>services/retention.py\<close> and search projection in \<open>services/search_projection.py\<close>): a claim
  takes a free or expired task under a fresh token, only the holder of the token may settle it,
  and everything else leaves leases alone.  Two workers therefore never both settle one lease.
\<close>

datatype ('c, 'p, 'o) queue_op = Claim 'c | Settle 'p | Other 'o

locale leased_queue =
  fixes lease :: "'s \<Rightarrow> 'k \<Rightarrow> ('tok \<times> time) option"
    and inv :: "'s \<Rightarrow> bool"
    and clock :: "'c \<Rightarrow> time"
    and claim :: "'c \<Rightarrow> 's \<Rightarrow> 's"
    and claimant :: "'p \<Rightarrow> 'k \<times> 'tok"
    and settle :: "'p \<Rightarrow> 's \<Rightarrow> 's"
    and other_ok :: "'o \<Rightarrow> 's \<Rightarrow> bool"
    and other :: "'o \<Rightarrow> 's \<Rightarrow> 's"
  assumes inv_claim: "inv s \<Longrightarrow> inv (claim c s)"
    and inv_settle: "inv s \<Longrightarrow> inv (settle p s)"
    and inv_other: "inv s \<Longrightarrow> other_ok x s \<Longrightarrow> inv (other x s)"
    and claim_live: "inv s \<Longrightarrow> lease s k = Some (tok, e) \<Longrightarrow> clock c < e \<Longrightarrow>
          lease (claim c s) k = Some (tok, e)"
    and settle_frame: "inv s \<Longrightarrow> lease s k = Some (tok, e) \<Longrightarrow> claimant p \<noteq> (k, tok) \<Longrightarrow>
          lease (settle p s) k = Some (tok, e)"
    and settle_stale: "inv s \<Longrightarrow> claimant p = (k, tok) \<Longrightarrow>
          \<forall>e. lease s k \<noteq> Some (tok, e) \<Longrightarrow> settle p s = s"
    and settle_ends: "inv s \<Longrightarrow> claimant p = (k, tok) \<Longrightarrow> lease (settle p s) k \<noteq> Some (tok, e)"
    and other_frame: "inv s \<Longrightarrow> other_ok x s \<Longrightarrow> lease s k = Some (tok, e) \<Longrightarrow>
          lease (other x s) k = Some (tok, e)"
begin

text \<open>Runs of the queue; the label list records what was done.\<close>

inductive run :: "'s \<Rightarrow> ('c, 'p, 'o) queue_op list \<Rightarrow> 's \<Rightarrow> bool" where
  run_nil: "run s [] s"
| run_claim: "run s ops s' \<Longrightarrow> run s (ops @ [Claim c]) (claim c s')"
| run_settle: "run s ops s' \<Longrightarrow> run s (ops @ [Settle p]) (settle p s')"
| run_other: "run s ops s' \<Longrightarrow> other_ok x s' \<Longrightarrow> run s (ops @ [Other x]) (other x s')"

lemma run_inv: "run s ops s' \<Longrightarrow> inv s \<Longrightarrow> inv s'"
  by (induction rule: run.induct) (auto intro: inv_claim inv_settle inv_other)

text \<open>A lease stays with its holder until it expires or its holder settles it.\<close>

lemma lease_kept:
  assumes "run s ops s'" and "inv s" and "lease s k = Some (tok, e)"
    and "\<And>c. Claim c \<in> set ops \<Longrightarrow> clock c < e"
    and "\<And>p. Settle p \<in> set ops \<Longrightarrow> claimant p \<noteq> (k, tok)"
  shows "lease s' k = Some (tok, e)"
  using assms
proof (induction rule: run.induct)
  case run_nil
  then show ?case by simp
next
  case (run_claim s ops s' c)
  then have "lease s' k = Some (tok, e)" by simp
  with run_claim show ?case by (intro claim_live) (auto dest: run_inv)
next
  case (run_settle s ops s' p)
  then have "lease s' k = Some (tok, e)" by simp
  with run_settle show ?case by (intro settle_frame) (auto dest: run_inv)
next
  case (run_other s ops s' x)
  then have "lease s' k = Some (tok, e)" by simp
  with run_other show ?case by (intro other_frame) (auto dest: run_inv)
qed

text \<open>
  While a lease is live, whatever any other worker tries to settle for that task changes
  nothing: the settlement of a different token is the identity.
\<close>

lemma rival_settlement_void:
  assumes "run s ops s'" and "inv s" and "lease s k = Some (tok, e)"
    and "\<And>c. Claim c \<in> set ops \<Longrightarrow> clock c < e"
    and "\<And>p. Settle p \<in> set ops \<Longrightarrow> claimant p \<noteq> (k, tok)"
    and "claimant q = (k, tok')" and "tok' \<noteq> tok"
  shows "settle q s' = s'"
proof -
  have "lease s' k = Some (tok, e)" by (rule lease_kept [OF assms(1-5)])
  with assms(7) show ?thesis
    by (intro settle_stale [OF run_inv [OF assms(1,2)] assms(6)]) auto
qed

text \<open>The second settlement of one lease by the same token is void as well.\<close>

lemma settle_once:
  assumes "inv s" and "claimant p = claimant q"
  shows "settle q (settle p s) = settle p s"
proof -
  obtain k tok where p: "claimant p = (k, tok)" by (cases "claimant p")
  then show ?thesis
    using assms settle_ends [OF assms(1) p] by (intro settle_stale [OF inv_settle]) auto
qed

end

end
