(* ===== verification/Retention.thy ===== *)
theory Retention
  imports HoldLineage Storage WorkQueue
begin

text \<open>
  The disposal executor of \<open>services/retention.py\<close>: discovery of expired records, fair
  scheduling, leasing, the hold check, the disposal of each resource type and the settlement
  of every outcome.  The state is the ledger together with the file tree, because a file that
  was unlinked stays gone when the transaction rolls back.  Each transaction is one function;
  the interleaving of workers is the order in which these functions are applied.
\<close>

type_synonym world = "db \<times> tree"

subsection \<open>Configuration, claims and outcomes\<close>

record executor =
  ex_worker_id :: string
  ex_max_attempts :: int
  ex_lease_seconds :: int

record retention_run_result =
  rr_discovered :: int
  rr_disposed :: int
  rr_held :: int
  rr_retried :: int
  rr_dead_lettered :: int

record claim =
  cl_id :: string
  cl_resource_type :: resource_type
  cl_resource_id :: string
  cl_policy_version :: string
  cl_claim_token :: string
  cl_attempts :: int

datatype outcome = Disposed | Held | Retry | Dead_Lettered

datatype failure =
    Unsupported_Resource | Storage_Path_Invalid | Storage_Absence_Unconfirmed
  | Dependency_Pending | Moderation_Case_Active | Verification_Missing | Hold_Guard_Missing
  | Storage_Cleanup_Failed | Disposition_Failed

fun failure_code :: "failure \<Rightarrow> string" where
  "failure_code Unsupported_Resource = ''unsupported_resource''"
| "failure_code Storage_Path_Invalid = ''storage_path_invalid''"
| "failure_code Storage_Absence_Unconfirmed = ''storage_absence_unconfirmed''"
| "failure_code Dependency_Pending = ''dependency_pending''"
| "failure_code Moderation_Case_Active = ''moderation_case_active''"
| "failure_code Verification_Missing = ''verification_missing''"
| "failure_code Hold_Guard_Missing = ''hold_guard_missing''"
| "failure_code Storage_Cleanup_Failed = ''storage_cleanup_failed''"
| "failure_code Disposition_Failed = ''disposition_failed''"

text \<open>
  What one disposal meets in its environment: the digest function, the file system's answers,
  the identifiers \<open>new_id()\<close> returns, the wall clock read by \<open>datetime.now(UTC)\<close>, and whether
  the database raises before the resource is touched or when the transaction is committed.
\<close>

datatype db_fault = No_Db_Fault | Fault_Before_Disposal | Fault_At_Commit

record surroundings =
  env_sha :: "pybytes \<Rightarrow> string"
  env_stat_follows :: "string list \<Rightarrow> bool"
  env_escapes :: "string list \<Rightarrow> bool"
  env_grants :: "nat list"
  env_fault :: fault
  env_db_fault :: db_fault
  env_tombstone_id :: string
  env_audit_id :: string
  env_wall_clock :: time

subsection \<open>Discovery\<close>

abbreviation social_retention_policy :: string where
  "social_retention_policy \<equiv> ''social-retention-v1''"

abbreviation contact_retention_policy :: string where
  "contact_retention_policy \<equiv> ''contact-retention-v1''"

abbreviation verification_evidence_retention_policy :: string where
  "verification_evidence_retention_policy \<equiv> ''verification-evidence-retention-v1''"

abbreviation moderation_case_retention_policy :: string where
  "moderation_case_retention_policy \<equiv> ''post-moderation-case-retention-v1''"

type_synonym candidate = "resource_type \<times> string \<times> string"

text \<open>The two correlated subqueries: the resource has neither a task nor a tombstone.\<close>

definition untracked :: "db \<Rightarrow> resource_type \<Rightarrow> string \<Rightarrow> bool" where
  "untracked d rt i \<longleftrightarrow>
     \<not> exists_where (\<lambda>t. task_resource_type t = rt \<and> task_resource_id t = i) (lifecycle_tasks d) \<and>
     \<not> exists_where (\<lambda>t. tomb_resource_type t = rt \<and> tomb_resource_id t = i) (retention_tombstones d)"

definition expired_rows ::
    "db \<Rightarrow> resource_type \<Rightarrow> ('r \<Rightarrow> string) \<Rightarrow> ('r \<Rightarrow> time) \<Rightarrow> time \<Rightarrow> nat \<Rightarrow> 'r list \<Rightarrow> 'r list" where
  "expired_rows d rt key expires now limit t =
     take limit (order_by (\<lambda>r. (expires r, key r))
       (rows_where (\<lambda>r. expires r \<le> now \<and> untracked d rt (key r)) t))"

definition expired_candidates ::
    "db \<Rightarrow> resource_type \<Rightarrow> ('r \<Rightarrow> string) \<Rightarrow> ('r \<Rightarrow> time) \<Rightarrow> ('r \<Rightarrow> string) \<Rightarrow> time \<Rightarrow> nat \<Rightarrow> 'r list
      \<Rightarrow> candidate list" where
  "expired_candidates d rt key expires policy now limit t =
     map (\<lambda>r. (rt, key r, policy r)) (expired_rows d rt key expires now limit t)"

definition latest_event :: "db \<Rightarrow> string \<Rightarrow> verification_event_row option" where
  "latest_event d verification_id =
     (case order_by (\<lambda>e. (vv_occurred_at e, vv_id e))
             (rows_where (\<lambda>e. vv_verification_id e = verification_id) (verification_events d)) of
        [] \<Rightarrow> None
      | es \<Rightarrow> Some (last es))"

definition verification_evidence_disposable :: "db \<Rightarrow> time \<Rightarrow> verification_evidence_row \<Rightarrow> bool" where
  "verification_evidence_disposable d now evidence =
     (case latest_event d (ve_verification_id evidence) of
        None \<Rightarrow> False
      | Some latest \<Rightarrow>
          if vv_to_state latest \<in> {V_Submitted, V_Under_Review, V_Suspended} then False
          else if vv_to_state latest \<in> {V_Rejected, V_Expired, V_Revoked} then True
          else (case vv_expires_at latest of
                  None \<Rightarrow> False
                | Some e \<Rightarrow> vv_to_state latest = V_Active \<and> e \<le> now))"

definition evidence_candidates :: "db \<Rightarrow> time \<Rightarrow> nat \<Rightarrow> candidate list" where
  "evidence_candidates d now limit =
     map (\<lambda>e. (Verification_Evidence_T, ve_id e, verification_evidence_retention_policy))
       (filter (verification_evidence_disposable d now)
         (expired_rows d Verification_Evidence_T ve_id ve_retention_expires_at now limit
            (verification_evidence d)))"

definition closed_statuses :: "case_status list" where
  "closed_statuses =
     [Dismissed, Case_Withheld, Appeal_Upheld, Appeal_Overturned, Legacy_Withheld, Legacy_Withdrawn]"

definition moderation_candidates :: "db \<Rightarrow> time \<Rightarrow> nat \<Rightarrow> candidate list" where
  "moderation_candidates d now limit =
     map (\<lambda>c. (Moderation_Case_T, case_id c, moderation_case_retention_policy))
       (take limit (order_by (\<lambda>c. (the (case_retention_expires_at c), case_id c))
         (rows_where (\<lambda>c. case_status c \<in> set closed_statuses \<and>
             (case case_retention_expires_at c of None \<Rightarrow> False | Some e \<Rightarrow> e \<le> now) \<and>
             case_sensitive_purged_at c = None \<and> untracked d Moderation_Case_T (case_id c))
           (moderation_cases d))))"

definition candidate_groups :: "db \<Rightarrow> time \<Rightarrow> nat \<Rightarrow> candidate list list" where
  "candidate_groups d now limit =
     [expired_candidates d Application_T app_id app_retention_expires_at app_retention_policy_version
        now limit (applications d),
      expired_candidates d Contact_Request_T ctr_id ctr_retention_expires_at
        (\<lambda>_. contact_retention_policy) now limit (contact_requests d),
      expired_candidates d Connection_Request_T cr_id cr_retention_expires_at
        (\<lambda>_. social_retention_policy) now limit (connection_requests d),
      expired_candidates d Connection_T con_id con_retention_expires_at
        (\<lambda>_. social_retention_policy) now limit (connections d),
      expired_candidates d Conversation_T cv_id cv_retention_expires_at
        (\<lambda>_. social_retention_policy) now limit (conversations d),
      expired_candidates d Message_T msg_id msg_retention_expires_at
        (\<lambda>_. social_retention_policy) now limit (messages d),
      expired_candidates d Notification_T ntf_id ntf_retention_expires_at
        (\<lambda>_. social_retention_policy) now limit (notifications d),
      evidence_candidates d now limit,
      moderation_candidates d now limit]"

text \<open>
  \<open>_fair_candidates\<close>: \<open>fair_round\<close> is the \<open>for\<close> loop over the groups with its \<open>break\<close>,
  \<open>fair_loop\<close> the \<open>while\<close> loop around it.
\<close>

fun fair_round :: "nat \<Rightarrow> 'a list list \<Rightarrow> nat list \<Rightarrow> 'a list \<Rightarrow> bool \<Rightarrow> nat list \<times> 'a list \<times> bool" where
  "fair_round limit (g # gs) (p # ps) selected added =
     (if p \<ge> length g then
        (case fair_round limit gs ps selected added of (ps', rest) \<Rightarrow> (p # ps', rest))
      else if length (selected @ [g ! p]) = limit then (Suc p # ps, selected @ [g ! p], True)
      else (case fair_round limit gs ps (selected @ [g ! p]) True of (ps', rest) \<Rightarrow> (Suc p # ps', rest)))"
| "fair_round limit gs ps selected added = (ps, selected, added)"

lemma fair_round_grows:
  "fair_round limit gs ps selected added = (ps', selected', added') \<Longrightarrow>
     length selected \<le> length selected' \<and> (added' \<longrightarrow> added \<or> length selected < length selected')"
  by (induction limit gs ps selected added arbitrary: ps' selected' added' rule: fair_round.induct)
    (fastforce split: if_splits prod.splits)+

function fair_loop :: "nat \<Rightarrow> 'a list list \<Rightarrow> nat list \<Rightarrow> 'a list \<Rightarrow> 'a list" where
  "fair_loop limit groups positions selected =
     (if length selected < limit then
        (case fair_round limit groups positions selected False of
           (positions', selected', added) \<Rightarrow>
             if added then fair_loop limit groups positions' selected' else selected')
      else selected)"
  by pat_completeness auto
termination
proof (relation "measure (\<lambda>(limit, groups, positions, selected). limit - length selected)", goal_cases)
  case 1
  show ?case by simp
next
  case (2 limit groups positions selected ps y sel added)
  then have "fair_round limit groups positions selected False = (ps, sel, added)" by simp
  from fair_round_grows [OF this] 2 show ?case by auto
qed

declare fair_loop.simps [simp del]

definition fair_candidates :: "'a list list \<Rightarrow> nat \<Rightarrow> 'a list" where
  "fair_candidates groups limit = fair_loop limit groups (replicate (length groups) 0) []"

text \<open>\<open>INSERT ... ON CONFLICT (resource_type, resource_id) DO NOTHING\<close>, and its row count.\<close>

definition insert_task :: "string \<Rightarrow> time \<Rightarrow> candidate \<Rightarrow> lifecycle_task_row list \<Rightarrow> int \<times> lifecycle_task_row list" where
  "insert_task i now c tasks =
     (case c of (rt, k, policy) \<Rightarrow>
        if exists_where (\<lambda>t. task_resource_type t = rt \<and> task_resource_id t = k) tasks then (0, tasks)
        else (1, insert_row
          \<lparr>task_id = i, task_resource_type = rt, task_resource_id = k, task_policy_version = policy,
           task_state = Queued, task_attempts = 0, task_available_at = now,
           task_lease_expires_at = None, task_claimed_by = None, task_claim_token = None,
           task_last_error_code = None, task_created_at = now, task_completed_at = None\<rparr> tasks))"

fun insert_tasks :: "(nat \<Rightarrow> string) \<Rightarrow> time \<Rightarrow> candidate list \<Rightarrow> lifecycle_task_row list
    \<Rightarrow> int \<times> lifecycle_task_row list" where
  "insert_tasks new_id now [] tasks = (0, tasks)"
| "insert_tasks new_id now (c # cs) tasks =
     (case insert_task (new_id 0) now c tasks of
        (n, tasks') \<Rightarrow>
          (case insert_tasks (\<lambda>k. new_id (Suc k)) now cs tasks' of
             (m, tasks'') \<Rightarrow> (n + m, tasks'')))"

definition discover :: "(nat \<Rightarrow> string) \<Rightarrow> nat \<Rightarrow> time \<Rightarrow> db \<Rightarrow> int \<times> db" where
  "discover new_id limit now d =
     (let d1 = d\<lparr>direct_peer_buckets :=
            delete_where (\<lambda>b. pb_bucket_date b < utc_date now) (direct_peer_buckets d)\<rparr>
      in case insert_tasks new_id now (fair_candidates (candidate_groups d1 now limit) limit)
                (lifecycle_tasks d1) of
           (n, tasks) \<Rightarrow> (n, d1\<lparr>lifecycle_tasks := tasks\<rparr>))"

subsection \<open>Claiming\<close>

definition eligible :: "time \<Rightarrow> lifecycle_task_row \<Rightarrow> bool" where
  "eligible now t \<longleftrightarrow>
     (task_state t = Queued \<and> task_available_at t \<le> now) \<or>
     (task_state t = Leased \<and> (case task_lease_expires_at t of None \<Rightarrow> False | Some e \<Rightarrow> e \<le> now))"

text \<open>
  The \<open>SELECT\<close> of \<open>_claim_one\<close> reads \<open>seen\<close> and skips the rows other transactions have locked;
  the guarded \<open>UPDATE\<close> runs on the current ledger.  On PostgreSQL the row lock makes the two
  the same; on SQLite another worker may have committed in between, and the repeated
  eligibility test then matches no row.
\<close>

definition claim_select :: "time \<Rightarrow> string list \<Rightarrow> lifecycle_task_row list \<Rightarrow> lifecycle_task_row option" where
  "claim_select now locked seen =
     first_row (order_by (\<lambda>t. (task_available_at t, task_created_at t, task_id t))
       (rows_where (\<lambda>t. eligible now t \<and> task_id t \<notin> set locked) seen))"

definition lease_task :: "executor \<Rightarrow> time \<Rightarrow> string \<Rightarrow> lifecycle_task_row \<Rightarrow> lifecycle_task_row" where
  "lease_task ex now token t =
     t\<lparr>task_state := Leased, task_attempts := task_attempts t + 1,
       task_lease_expires_at := Some (now + seconds (ex_lease_seconds ex)),
       task_claimed_by := Some (ex_worker_id ex), task_claim_token := Some token,
       task_last_error_code := None\<rparr>"

definition claim_one ::
    "executor \<Rightarrow> time \<Rightarrow> string \<Rightarrow> string list \<Rightarrow> lifecycle_task_row list \<Rightarrow> db \<Rightarrow> db \<times> claim option" where
  "claim_one ex now token locked seen d =
     (case claim_select now locked seen of
        None \<Rightarrow> (d, None)
      | Some row \<Rightarrow>
          if length (rows_where (\<lambda>t. task_id t = task_id row \<and> eligible now t) (lifecycle_tasks d)) \<noteq> 1
          then (d, None)
          else
            (d\<lparr>lifecycle_tasks := update_where (\<lambda>t. task_id t = task_id row \<and> eligible now t)
                 (lease_task ex now token) (lifecycle_tasks d)\<rparr>,
             Some \<lparr>cl_id = task_id row, cl_resource_type = task_resource_type row,
               cl_resource_id = task_resource_id row, cl_policy_version = task_policy_version row,
               cl_claim_token = token, cl_attempts = task_attempts row + 1\<rparr>))"

definition leased_task :: "claim \<Rightarrow> db \<Rightarrow> lifecycle_task_row option" where
  "leased_task cl d =
     row_where (\<lambda>t. task_id t = cl_id cl \<and> task_state t = Leased \<and>
        task_claim_token t = Some (cl_claim_token cl)) (lifecycle_tasks d)"

definition save_task :: "lifecycle_task_row \<Rightarrow> db \<Rightarrow> db" where
  "save_task t d = d\<lparr>lifecycle_tasks := save_row task_id t (lifecycle_tasks d)\<rparr>"

definition release_lease :: "lifecycle_task_row \<Rightarrow> lifecycle_task_row" where
  "release_lease t = t\<lparr>task_lease_expires_at := None, task_claimed_by := None, task_claim_token := None\<rparr>"

subsection \<open>Disposal\<close>

definition dispose_moderation_case :: "surroundings \<Rightarrow> string \<Rightarrow> db \<Rightarrow> failure + db" where
  "dispose_moderation_case env i d =
     (case get_row case_id i (moderation_cases d) of
        None \<Rightarrow> Inr d
      | Some c \<Rightarrow>
          if case_status c \<notin> set closed_statuses \<or> case_sensitive_purged_at c \<noteq> None
          then Inl Moderation_Case_Active
          else Inr (d\<lparr>
            post_reports := update_where (\<lambda>r. report_case_id r = case_id c)
              (\<lambda>r. r\<lparr>report_narrative := None\<rparr>) (post_reports d),
            moderation_decisions := update_where (\<lambda>r. dec_case_id r = case_id c)
              (\<lambda>r. r\<lparr>dec_internal_rationale := None, dec_evidence := None\<rparr>) (moderation_decisions d),
            moderation_appeals := update_where (\<lambda>r. apl_case_id r = case_id c)
              (\<lambda>r. r\<lparr>apl_rationale := None, apl_internal_rationale := None\<rparr>) (moderation_appeals d),
            moderation_cases := save_row case_id
              (c\<lparr>case_sensitive_purged_at := Some (env_wall_clock env),
                 case_updated_at := env_wall_clock env\<rparr>) (moderation_cases d),
            moderation_audit_events := insert_row
              \<lparr>aud_id = env_audit_id env, aud_case_id = case_id c, aud_post_id = case_post_id c,
               aud_event_type = ''sensitive_purged'', aud_actor_id = ''system:retention'',
               aud_actor_role = ''system'', aud_safe_metadata = lit ''{}'',
               aud_occurred_at = env_wall_clock env\<rparr> (moderation_audit_events d)\<rparr>))"

definition storage_failure :: "storage_error \<Rightarrow> failure" where
  "storage_failure e =
     (case e of Storage_Integrity_Error \<Rightarrow> Storage_Cleanup_Failed | _ \<Rightarrow> Disposition_Failed)"

definition delete_file :: "surroundings \<Rightarrow> tree \<Rightarrow> string \<Rightarrow> string \<Rightarrow> int \<Rightarrow> int \<Rightarrow> tree \<times> (failure + unit)" where
  "delete_file env t path sha256 sz max_size =
     (case delete_verified_exact (env_sha env) (env_stat_follows env) (env_grants env) (env_fault env)
             t path sha256 sz max_size of
        (t', Inl e) \<Rightarrow> (t', Inl (storage_failure e))
      | (t', Inr _) \<Rightarrow> (t', Inr ()))"

text \<open>\<open>self.store._absolute(path).exists()\<close>: resolving a link out of the store raises.\<close>

definition still_present :: "surroundings \<Rightarrow> tree \<Rightarrow> string \<Rightarrow> failure + bool" where
  "still_present env t path =
     (let parts = posix_parts path;
          linked = (case walk t [] parts of Found Symlink \<Rightarrow> True | Through_Link \<Rightarrow> True | _ \<Rightarrow> False)
      in if linked \<and> env_escapes env parts then Inl Storage_Cleanup_Failed
         else Inr (path_exists (env_stat_follows env) t parts))"

definition dispose_application :: "surroundings \<Rightarrow> string \<Rightarrow> world \<Rightarrow> tree \<times> (failure + db)" where
  "dispose_application env i w =
     (case w of (d, t) \<Rightarrow>
       (case get_row app_id i (applications d) of
          None \<Rightarrow> (t, Inr d)
        | Some a \<Rightarrow>
            (let done = Inr (d\<lparr>applications := delete_row app_id (app_id a) (applications d)\<rparr>) in
             case app_snapshot_storage_path a of
               None \<Rightarrow> (t, done)
             | Some path \<Rightarrow>
                 (case application_snapshot_relative_path (app_id a) of
                    Inl _ \<Rightarrow> (t, Inl Storage_Path_Invalid)
                  | Inr expected \<Rightarrow>
                      (case app_snapshot_size_bytes a of
                         None \<Rightarrow> (t, Inl Storage_Path_Invalid)
                       | Some sz \<Rightarrow>
                           if path \<noteq> expected then (t, Inl Storage_Path_Invalid)
                           else
                             (case delete_file env t expected (app_snapshot_sha256 a) sz 131072 of
                                (t', Inl f) \<Rightarrow> (t', Inl f)
                              | (t', Inr _) \<Rightarrow>
                                  (case still_present env t' expected of
                                     Inl f \<Rightarrow> (t', Inl f)
                                   | Inr present \<Rightarrow>
                                       if present then (t', Inl Storage_Absence_Unconfirmed)
                                       else (t', done))))))))"

definition evidence_path :: "organization_verification_row \<Rightarrow> verification_evidence_row \<Rightarrow> string" where
  "evidence_path v e =
     ''verification-evidence/'' @ ov_organization_id v @ ''/'' @ ov_id v @ ''/''
     @ ve_artifact_sha256 e @ ''.bin''"

definition dispose_evidence :: "surroundings \<Rightarrow> string \<Rightarrow> world \<Rightarrow> tree \<times> (failure + db \<times> string option)" where
  "dispose_evidence env i w =
     (case w of (d, t) \<Rightarrow>
       (case get_row ve_id i (verification_evidence d) of
          None \<Rightarrow> (t, Inr (d, None))
        | Some e \<Rightarrow>
            (case get_row ov_id (ve_verification_id e) (organization_verifications d) of
               None \<Rightarrow> (t, Inl Verification_Missing)
             | Some v \<Rightarrow>
                 if ve_storage_path e \<noteq> evidence_path v e then (t, Inl Storage_Path_Invalid)
                 else
                   (case delete_file env t (evidence_path v e) (ve_artifact_sha256 e)
                           (ve_artifact_size_bytes e) 262144 of
                      (t', Inl f) \<Rightarrow> (t', Inl f)
                    | (t', Inr _) \<Rightarrow>
                        (t', Inr (d\<lparr>verification_evidence :=
                               delete_row ve_id (ve_id e) (verification_evidence d)\<rparr>,
                             Some (ov_id v)))))))"

definition purge_residues :: "resource_type \<Rightarrow> string \<Rightarrow> db \<Rightarrow> db" where
  "purge_residues rt i d = d\<lparr>
     idempotency_records := delete_where
       (\<lambda>r. idem_resource_type r = Some rt \<and> idem_resource_id r = Some i) (idempotency_records d),
     change_events := delete_where
       (\<lambda>r. ce_resource_type r = rt \<and> ce_resource_id r = i) (change_events d)\<rparr>"

definition dispose_residues :: "lifecycle_task_row \<Rightarrow> string option \<Rightarrow> db \<Rightarrow> db" where
  "dispose_residues task evidence_verification_id d =
     (if task_resource_type task = Verification_Evidence_T then
        (let d1 = purge_residues (task_resource_type task) (task_resource_id task) d in
         case evidence_verification_id of
           None \<Rightarrow> d1
         | Some v \<Rightarrow> purge_residues Verification_T v d1)
      else purge_residues (task_resource_type task) (task_resource_id task) d)"

definition dispose_resource :: "surroundings \<Rightarrow> lifecycle_task_row \<Rightarrow> world \<Rightarrow> tree \<times> (failure + db)" where
  "dispose_resource env task w =
     (case w of (d, t) \<Rightarrow>
       (let i = task_resource_id task;
            residues = (\<lambda>r. map_sum (\<lambda>f. f) (dispose_residues task None) r)
        in case task_resource_type task of
             Application_T \<Rightarrow>
               (case dispose_application env i (d, t) of (t', r) \<Rightarrow> (t', residues r))
           | Contact_Request_T \<Rightarrow>
               (t, residues (Inr (d\<lparr>contact_requests := delete_row ctr_id i (contact_requests d)\<rparr>)))
           | Message_T \<Rightarrow>
               (t, residues (Inr (d\<lparr>messages := delete_row msg_id i (messages d)\<rparr>)))
           | Notification_T \<Rightarrow>
               (t, residues (Inr (d\<lparr>notifications := delete_row ntf_id i (notifications d)\<rparr>)))
           | Conversation_T \<Rightarrow>
               if exists_where (\<lambda>m. msg_conversation_id m = i) (messages d)
               then (t, Inl Dependency_Pending)
               else (t, residues (Inr (d\<lparr>conversations := delete_row cv_id i (conversations d)\<rparr>)))
           | Connection_T \<Rightarrow>
               if exists_where (\<lambda>c. cv_connection_id c = i) (conversations d)
               then (t, Inl Dependency_Pending)
               else (t, residues (Inr (d\<lparr>connections := delete_row con_id i (connections d)\<rparr>)))
           | Connection_Request_T \<Rightarrow>
               if exists_where (\<lambda>c. con_request_id c = i) (connections d)
               then (t, Inl Dependency_Pending)
               else (t, residues (Inr
                 (d\<lparr>connection_requests := delete_row cr_id i (connection_requests d)\<rparr>)))
           | Moderation_Case_T \<Rightarrow> (t, residues (dispose_moderation_case env i d))
           | Verification_Evidence_T \<Rightarrow>
               (case dispose_evidence env i (d, t) of
                  (t', Inl f) \<Rightarrow> (t', Inl f)
                | (t', Inr (d', v)) \<Rightarrow> (t', Inr (dispose_residues task v d')))
           | _ \<Rightarrow> (t, Inl Unsupported_Resource)))"

subsection \<open>Processing one claim\<close>

definition protected_resources :: "db \<Rightarrow> resource_type \<Rightarrow> string \<Rightarrow> resource set" where
  "protected_resources d rt i = insert (rt, i) (hold_ancestors d (rt, i))"

definition active_hold :: "db \<Rightarrow> resource set \<Rightarrow> retention_hold_row option" where
  "active_hold d protected =
     first_row (order_by (\<lambda>h. (hold_review_at h, hold_created_at h, hold_id h))
       (rows_where (\<lambda>h. (hold_resource_type h, hold_resource_id h) \<in> protected \<and>
          hold_released_at h = None) (retention_holds d)))"

definition commit :: "surroundings \<Rightarrow> db \<times> outcome \<Rightarrow> failure + db \<times> outcome" where
  "commit env r = (if env_db_fault env = Fault_At_Commit then Inl Disposition_Failed else Inr r)"

definition complete_task :: "time \<Rightarrow> lifecycle_task_row \<Rightarrow> lifecycle_task_row" where
  "complete_task now t =
     (release_lease t)\<lparr>task_state := Completed, task_completed_at := Some now,
       task_last_error_code := None\<rparr>"

definition hold_task :: "executor \<Rightarrow> time \<Rightarrow> retention_hold_row \<Rightarrow> lifecycle_task_row \<Rightarrow> lifecycle_task_row" where
  "hold_task ex now h t =
     (release_lease t)\<lparr>task_state := Queued,
       task_available_at := max (hold_review_at h) (now + seconds (ex_lease_seconds ex)),
       task_last_error_code := None, task_attempts := task_attempts t - 1\<rparr>"

definition add_tombstone :: "surroundings \<Rightarrow> time \<Rightarrow> lifecycle_task_row \<Rightarrow> db \<Rightarrow> db" where
  "add_tombstone env now task d = d\<lparr>retention_tombstones := insert_row
     \<lparr>tomb_id = env_tombstone_id env, tomb_resource_type = task_resource_type task,
      tomb_resource_id = task_resource_id task, tomb_policy_version = task_policy_version task,
      tomb_task_id = task_id task, tomb_disposed_at = now\<rparr> (retention_tombstones d)\<rparr>"

definition has_tombstone :: "db \<Rightarrow> resource_type \<Rightarrow> string \<Rightarrow> bool" where
  "has_tombstone d rt i =
     exists_where (\<lambda>b. tomb_resource_type b = rt \<and> tomb_resource_id b = i) (retention_tombstones d)"

abbreviation account_backup_authority_id :: string where
  "account_backup_authority_id \<equiv> ''account-backup-generation-authority''"

text \<open>The transaction inside the \<open>try\<close> of \<open>_process\<close>.\<close>

definition attempt_disposal ::
    "executor \<Rightarrow> surroundings \<Rightarrow> time \<Rightarrow> claim \<Rightarrow> world \<Rightarrow> tree \<times> (failure + db \<times> outcome)" where
  "attempt_disposal ex env now cl w =
     (case w of (d, t) \<Rightarrow>
       if env_db_fault env = Fault_Before_Disposal then (t, Inl Disposition_Failed)
       else if account_backup_authority_id \<notin> set (backup_authority d) then (t, Inl Hold_Guard_Missing)
       else
         (case leased_task cl d of
            None \<Rightarrow> (t, Inr (d, Retry))
          | Some task \<Rightarrow>
              (case active_hold d (protected_resources d (task_resource_type task) (task_resource_id task)) of
                 Some h \<Rightarrow> (t, commit env (save_task (hold_task ex now h task) d, Held))
               | None \<Rightarrow>
                   if has_tombstone d (task_resource_type task) (task_resource_id task)
                   then (t, commit env (save_task (complete_task now task) d, Disposed))
                   else
                     (case dispose_resource env task (d, t) of
                        (t', Inl f) \<Rightarrow> (t', Inl f)
                      | (t', Inr d') \<Rightarrow>
                          (t', commit env
                            (save_task (complete_task now task) (add_tombstone env now task d'),
                             Disposed))))))"

definition retry_or_dead_letter :: "executor \<Rightarrow> string \<Rightarrow> time \<Rightarrow> claim \<Rightarrow> db \<Rightarrow> db \<times> outcome" where
  "retry_or_dead_letter ex code now cl d =
     (case leased_task cl d of
        None \<Rightarrow> (d, Retry)
      | Some task \<Rightarrow>
          (let t = (release_lease task)\<lparr>task_last_error_code := Some code\<rparr> in
           if task_attempts t \<ge> ex_max_attempts ex
           then (save_task (t\<lparr>task_state := Dead_Letter\<rparr>) d, Dead_Lettered)
           else (save_task (t\<lparr>task_state := Queued,
                   task_available_at := now + seconds (min 60 (2 ^ nat (task_attempts t)))\<rparr>) d,
                 Retry)))"

definition defer_dependency :: "time \<Rightarrow> claim \<Rightarrow> db \<Rightarrow> db \<times> outcome" where
  "defer_dependency now cl d =
     (case leased_task cl d of
        None \<Rightarrow> (d, Retry)
      | Some task \<Rightarrow>
          (save_task ((release_lease task)\<lparr>task_state := Queued, task_available_at := now + seconds 1,
             task_last_error_code := None, task_attempts := task_attempts task - 1\<rparr>) d, Retry))"

definition cancel_stale_task :: "claim \<Rightarrow> db \<Rightarrow> db \<times> outcome" where
  "cancel_stale_task cl d =
     (case leased_task cl d of
        None \<Rightarrow> (d, Retry)
      | Some task \<Rightarrow>
          (d\<lparr>lifecycle_tasks := delete_row task_id (task_id task) (lifecycle_tasks d)\<rparr>, Retry))"

definition settle_failure :: "executor \<Rightarrow> failure \<Rightarrow> time \<Rightarrow> claim \<Rightarrow> db \<Rightarrow> db \<times> outcome" where
  "settle_failure ex f now cl d =
     (if f = Moderation_Case_Active then cancel_stale_task cl d
      else if f = Dependency_Pending then defer_dependency now cl d
      else retry_or_dead_letter ex (failure_code f) now cl d)"

definition process :: "executor \<Rightarrow> surroundings \<Rightarrow> time \<Rightarrow> claim \<Rightarrow> world \<Rightarrow> world \<times> outcome" where
  "process ex env now cl w =
     (case attempt_disposal ex env now cl w of
        (t', Inr (d', res)) \<Rightarrow> ((d', t'), res)
      | (t', Inl f) \<Rightarrow>
          (case settle_failure ex f now cl (fst w) of (d', res) \<Rightarrow> ((d', t'), res)))"

subsection \<open>One run of the worker\<close>

text \<open>
  The loop of \<open>run_once\<close> for a worker that runs alone; the turn with \<open>n\<close> more to
  come uses the \<open>n\<close>-th token and meets the \<open>n\<close>-th surroundings.
\<close>

definition tally :: "outcome \<Rightarrow> retention_run_result \<Rightarrow> retention_run_result" where
  "tally res r =
     (case res of
        Disposed \<Rightarrow> r\<lparr>rr_disposed := rr_disposed r + 1\<rparr>
      | Held \<Rightarrow> r\<lparr>rr_held := rr_held r + 1\<rparr>
      | Retry \<Rightarrow> r\<lparr>rr_retried := rr_retried r + 1\<rparr>
      | Dead_Lettered \<Rightarrow> r\<lparr>rr_dead_lettered := rr_dead_lettered r + 1\<rparr>)"

fun run_claims :: "executor \<Rightarrow> (nat \<Rightarrow> surroundings) \<Rightarrow> (nat \<Rightarrow> string) \<Rightarrow> time \<Rightarrow> nat
    \<Rightarrow> world \<Rightarrow> retention_run_result \<Rightarrow> world \<times> retention_run_result" where
  "run_claims ex envs tokens now 0 w r = (w, r)"
| "run_claims ex envs tokens now (Suc n) w r =
     (case claim_one ex now (tokens n) [] (lifecycle_tasks (fst w)) (fst w) of
        (d, None) \<Rightarrow> ((d, snd w), r)
      | (d, Some cl) \<Rightarrow>
          (case process ex (envs n) now cl (d, snd w) of
             (w', res) \<Rightarrow> run_claims ex envs tokens now n w' (tally res r)))"

datatype run_error = Limit_Out_Of_Range

definition run_once ::
    "executor \<Rightarrow> (nat \<Rightarrow> string) \<Rightarrow> (nat \<Rightarrow> surroundings) \<Rightarrow> (nat \<Rightarrow> string) \<Rightarrow> int \<Rightarrow> time \<Rightarrow> world
      \<Rightarrow> run_error + world \<times> retention_run_result" where
  "run_once ex new_id envs tokens limit now w =
     (if limit < 1 \<or> limit > 1000 then Inl Limit_Out_Of_Range
      else
        (case discover new_id (nat limit) now (fst w) of
           (n, d) \<Rightarrow> Inr (run_claims ex envs tokens now (nat limit) (d, snd w)
             \<lparr>rr_discovered = n, rr_disposed = 0, rr_held = 0, rr_retried = 0, rr_dead_lettered = 0\<rparr>)))"

end
