(* ===== verification/RetentionSafety.thy ===== *)
theory RetentionSafety
  imports Retention
begin

text \<open>
  What the disposal executor guarantees: fair scheduling, leases that cannot be stolen, holds
  that cannot be overrun, disposal that is complete, ordered and recorded once.
\<close>

subsection \<open>Fair scheduling is round robin\<close>

definition column :: "nat \<Rightarrow> 'a list list \<Rightarrow> 'a list" where
  "column k gs = map (\<lambda>g. g ! k) (filter (\<lambda>g. k < length g) gs)"

lemma fair_round_column:
  assumes "length selected < limit"
  shows "\<exists>ps'. fair_round limit gs (map (\<lambda>g. min k (length g)) gs) selected added =
       (ps', selected @ take (limit - length selected) (column k gs), added \<or> column k gs \<noteq> []) \<and>
     (length selected + length (column k gs) < limit \<longrightarrow> ps' = map (\<lambda>g. min (Suc k) (length g)) gs)"
  using assms
proof (induction gs arbitrary: selected added)
  case (Cons g gs)
  show ?case
  proof (cases "k < length g")
    case False
    with Cons.IH [OF Cons.prems, of added] show ?thesis by (auto simp: column_def min_def)
  next
    case True
    then have col: "column k (g # gs) = g ! k # column k gs" by (simp add: column_def)
    show ?thesis
    proof (cases "Suc (length selected) = limit")
      case True
      then have "limit - length selected = Suc 0" using Cons.prems by simp
      with True \<open>k < length g\<close> show ?thesis by (simp add: col)
    next
      case False
      with Cons.prems have less: "length (selected @ [g ! k]) < limit" by simp
      then have "limit - length selected = Suc (limit - length (selected @ [g ! k]))"
        using Cons.prems by simp
      with Cons.IH [OF less, of True] \<open>k < length g\<close> False show ?thesis
        by (auto simp: col min_def)
    qed
  qed
qed (simp add: column_def)

lemma column_transpose:
  "k < length (transpose gs) \<Longrightarrow> column k gs = transpose gs ! k"
  by (simp add: column_def nth_transpose)

lemma column_beyond: "column k gs = [] \<longleftrightarrow> length (transpose gs) \<le> k"
proof -
  have "column k gs = [] \<longleftrightarrow> (\<forall>g \<in> set gs. length g \<le> k)"
    by (auto simp: column_def filter_empty_conv not_less)
  also have "\<dots> \<longleftrightarrow> foldr (\<lambda>xs. max (length xs)) gs 0 \<le> k" by (induction gs) auto
  finally show ?thesis by (simp add: length_transpose)
qed

lemma fair_loop_eq:
  "length selected \<le> limit \<Longrightarrow>
     fair_loop limit gs (map (\<lambda>g. min k (length g)) gs) selected =
     take limit (selected @ concat (drop k (transpose gs)))"
proof (induction "limit - length selected" arbitrary: selected k rule: less_induct)
  case less
  show ?case
  proof (cases "length selected < limit")
    case False
    with less.prems show ?thesis by (simp add: fair_loop.simps)
  next
    case True
    let ?n = "limit - length selected" and ?c = "column k gs"
    obtain ps' where round: "fair_round limit gs (map (\<lambda>g. min k (length g)) gs) selected False =
        (ps', selected @ take ?n ?c, ?c \<noteq> [])"
      and ps': "length selected + length ?c < limit \<Longrightarrow> ps' = map (\<lambda>g. min (Suc k) (length g)) gs"
      using fair_round_column [OF True, of gs k False] by auto
    have step: "fair_loop limit gs (map (\<lambda>g. min k (length g)) gs) selected =
        (if ?c \<noteq> [] then fair_loop limit gs ps' (selected @ take ?n ?c) else selected @ take ?n ?c)"
      using True round by (subst fair_loop.simps) simp
    show ?thesis
    proof (cases "?c = []")
      case c: True
      then have "drop k (transpose gs) = []" by (simp add: column_beyond)
      with step c True show ?thesis by simp
    next
      case c: False
      then have k: "k < length (transpose gs)" by (simp add: column_beyond not_le [symmetric])
      then have dr: "drop k (transpose gs) = ?c # drop (Suc k) (transpose gs)"
        by (simp add: column_transpose Cons_nth_drop_Suc)
      show ?thesis
      proof (cases "length selected + length ?c < limit")
        case l: True
        have "fair_loop limit gs (map (\<lambda>g. min (Suc k) (length g)) gs) (selected @ ?c) =
            take limit ((selected @ ?c) @ concat (drop (Suc k) (transpose gs)))"
          by (rule less.hyps) (use l c in \<open>auto simp: length_greater_0_conv [symmetric]
            simp del: length_greater_0_conv\<close>)
        with step ps' l c dr show ?thesis by simp
      next
        case l: False
        then have "length (selected @ take ?n ?c) = limit" using True by simp
        then have "fair_loop limit gs ps' (selected @ take ?n ?c) = selected @ take ?n ?c"
          by (subst fair_loop.simps) simp
        with step c l dr True show ?thesis by simp
      qed
    qed
  qed
qed

lemma fair_candidates_eq: "fair_candidates gs limit = take limit (concat (transpose gs))"
proof -
  have "replicate (length gs) 0 = map (\<lambda>g. min 0 (length g)) gs"
    by (simp add: map_replicate_const)
  then show ?thesis using fair_loop_eq [of "[]" limit gs 0] by (simp add: fair_candidates_def)
qed

text \<open>
  C8. Discovery is fair and oldest-first: what \<open>_fair_candidates\<close> selects is the round-robin
  reading of the groups, cut at the limit.  As long as the limit is at least the number of
  groups, no resource type starves: the oldest candidate of every group is selected.
\<close>

theorem fair_candidates_round_robin:
  "fair_candidates groups limit = take limit (concat (transpose groups)) \<and>
   (length groups \<le> limit \<longrightarrow>
      (\<forall>g \<in> set groups. g \<noteq> [] \<longrightarrow> hd g \<in> set (fair_candidates groups limit)))"
proof (intro conjI impI ballI)
  show eq: "fair_candidates groups limit = take limit (concat (transpose groups))"
    by (rule fair_candidates_eq)
  fix g assume len: "length groups \<le> limit" and g: "g \<in> set groups" "g \<noteq> []"
  have "hd g \<in> set (column 0 groups)"
    using g by (auto simp: column_def hd_conv_nth)
  moreover from this have ne: "0 < length (transpose groups)"
    using column_beyond [of 0 groups] by (cases "transpose groups") auto
  ultimately have in0: "hd g \<in> set (transpose groups ! 0)" by (simp add: column_transpose)
  have "length (transpose groups ! 0) \<le> limit"
    unfolding column_transpose [OF ne, symmetric] column_def
    by (simp, rule le_trans [OF length_filter_le len])
  with in0 ne show "hd g \<in> set (fair_candidates groups limit)"
    unfolding eq by (cases "transpose groups") auto
qed

theorem fair_candidates_round_robin_witness:
  "fair_candidates [[''a1'', ''a2'', ''a3''], [], [''b1'', ''b2'']] 4 = [''a1'', ''b1'', ''a2'', ''b2''] \<and>
   hd [''b1'', ''b2''] \<in> set (fair_candidates [[''a1'', ''a2'', ''a3''], [], [''b1'', ''b2'']] 4)"
proof -
  have "fair_candidates [[''a1'', ''a2'', ''a3''], [], [''b1'', ''b2'']] 4 = [''a1'', ''b1'', ''a2'', ''b2'']"
    by code_simp
  with fair_candidates_round_robin [of "[[''a1'', ''a2'', ''a3''], [], [''b1'', ''b2'']]" 4]
  show ?thesis by simp
qed

subsection \<open>What disposal leaves alone\<close>

lemma purge_residues_frame [simp]:
  "lifecycle_tasks (purge_residues rt i d) = lifecycle_tasks d"
  "retention_holds (purge_residues rt i d) = retention_holds d"
  "retention_tombstones (purge_residues rt i d) = retention_tombstones d"
  "backup_authority (purge_residues rt i d) = backup_authority d"
  by (simp_all add: purge_residues_def)

lemma purge_residues_parent [simp]: "hold_parent (purge_residues rt i d) r = hold_parent d r"
  by (cases r; cases "fst r") (simp_all add: purge_residues_def hold_parent_def)

lemma dispose_residues_frame [simp]:
  "lifecycle_tasks (dispose_residues task v d) = lifecycle_tasks d"
  "retention_holds (dispose_residues task v d) = retention_holds d"
  "retention_tombstones (dispose_residues task v d) = retention_tombstones d"
  "hold_parent (dispose_residues task v d) r = hold_parent d r"
  "backup_authority (dispose_residues task v d) = backup_authority d"
  by (simp_all add: dispose_residues_def Let_def split: option.splits)

text \<open>
  The tables a disposal of \<open>task\<close> may change, before the residues go: one row of the table of
  its resource, or the texts of a moderation case.
\<close>

inductive removal :: "surroundings \<Rightarrow> resource \<Rightarrow> db \<Rightarrow> db \<Rightarrow> bool" for env where
  "removal env (Application_T, i) d (d\<lparr>applications := delete_row app_id i (applications d)\<rparr>)"
| "get_row app_id i (applications d) = None \<Longrightarrow> removal env (Application_T, i) d d"
| "removal env (Contact_Request_T, i) d (d\<lparr>contact_requests := delete_row ctr_id i (contact_requests d)\<rparr>)"
| "removal env (Message_T, i) d (d\<lparr>messages := delete_row msg_id i (messages d)\<rparr>)"
| "removal env (Notification_T, i) d (d\<lparr>notifications := delete_row ntf_id i (notifications d)\<rparr>)"
| "\<forall>m \<in> set (messages d). msg_conversation_id m \<noteq> i \<Longrightarrow>
     removal env (Conversation_T, i) d (d\<lparr>conversations := delete_row cv_id i (conversations d)\<rparr>)"
| "\<forall>c \<in> set (conversations d). cv_connection_id c \<noteq> i \<Longrightarrow>
     removal env (Connection_T, i) d (d\<lparr>connections := delete_row con_id i (connections d)\<rparr>)"
| "\<forall>c \<in> set (connections d). con_request_id c \<noteq> i \<Longrightarrow>
     removal env (Connection_Request_T, i) d
       (d\<lparr>connection_requests := delete_row cr_id i (connection_requests d)\<rparr>)"
| "dispose_moderation_case env i d = Inr d' \<Longrightarrow> removal env (Moderation_Case_T, i) d d'"
| "removal env (Verification_Evidence_T, i) d
     (d\<lparr>verification_evidence := delete_row ve_id i (verification_evidence d)\<rparr>)"
| "get_row ve_id i (verification_evidence d) = None \<Longrightarrow> removal env (Verification_Evidence_T, i) d d"

inductive_cases removal_Message: "removal env (Message_T, i) d d'"
inductive_cases removal_Conversation: "removal env (Conversation_T, i) d d'"
inductive_cases removal_Connection: "removal env (Connection_T, i) d d'"
inductive_cases removal_Connection_Request: "removal env (Connection_Request_T, i) d d'"

lemma dispose_application_removal:
  assumes "dispose_application env i (d, t) = (t', Inr d')"
  shows "removal env (Application_T, i) d d'"
proof (cases "get_row app_id i (applications d)")
  case None
  with assms show ?thesis by (auto simp: dispose_application_def intro: removal.intros)
next
  case (Some a)
  then have "app_id a = i" by (auto dest: get_row_SomeD)
  with Some assms have "d' = d\<lparr>applications := delete_row app_id i (applications d)\<rparr>"
    by (auto simp: dispose_application_def Let_def
        split: option.splits sum.splits if_splits prod.splits)
  then show ?thesis by (simp add: removal.intros)
qed

lemma dispose_evidence_removal:
  assumes "dispose_evidence env i (d, t) = (t', Inr (d', v))"
  shows "removal env (Verification_Evidence_T, i) d d'"
proof (cases "get_row ve_id i (verification_evidence d)")
  case None
  with assms show ?thesis by (auto simp: dispose_evidence_def intro: removal.intros)
next
  case (Some e)
  then have "ve_id e = i" by (auto dest: get_row_SomeD)
  with Some assms have "d' = d\<lparr>verification_evidence := delete_row ve_id i (verification_evidence d)\<rparr>"
    by (auto simp: dispose_evidence_def split: option.splits sum.splits if_splits prod.splits)
  then show ?thesis by (simp add: removal.intros)
qed

lemma map_sum_id_Inr [simp]: "map_sum (\<lambda>f. f) g r = Inr y \<longleftrightarrow> (\<exists>x. r = Inr x \<and> y = g x)"
  by (cases r) auto

lemma dispose_resource_removal:
  assumes "dispose_resource env task (d, t) = (t', Inr d')"
  obtains d1 v where "removal env (task_resource_type task, task_resource_id task) d d1"
    and "d' = dispose_residues task v d1"
proof (cases "task_resource_type task = Verification_Evidence_T")
  case True
  with assms obtain d1 v where ev: "dispose_evidence env (task_resource_id task) (d, t) = (t', Inr (d1, v))"
    and d': "d' = dispose_residues task v d1"
    by (auto simp: dispose_resource_def Let_def split: prod.splits sum.splits)
  from that [OF _ d'] dispose_evidence_removal [OF ev] True show ?thesis by simp
next
  case False
  with assms obtain d1 where
    "removal env (task_resource_type task, task_resource_id task) d d1 \<and> d' = dispose_residues task None d1"
    by (cases "task_resource_type task")
      (auto simp: dispose_resource_def Let_def intro: removal.intros dispose_application_removal
        split: if_splits prod.splits)
  then show ?thesis using that by blast
qed

lemma removal_frame:
  "removal env r d d' \<Longrightarrow>
     lifecycle_tasks d' = lifecycle_tasks d \<and> retention_holds d' = retention_holds d \<and>
     retention_tombstones d' = retention_tombstones d \<and> backup_authority d' = backup_authority d"
  by (induction rule: removal.induct)
    (auto simp: dispose_moderation_case_def split: option.splits if_splits)

lemma map_get_update_where:
  assumes "\<And>x. key (f x) = key x" and "\<And>x. h (f x) = h x"
  shows "map_option h (get_row key k (update_where p f t)) = map_option h (get_row key k t)"
  using assms by (cases "get_row key k t") (auto simp: get_row_update_where)

lemma removal_parent:
  assumes "removal env r d d'" and "x \<noteq> r" and "hold_parent d x = Some p"
  shows "hold_parent d' x = Some p"
  using assms
proof (induction rule: removal.induct)
  case (9 i d d')
  show ?case
  proof (cases "get_row case_id i (moderation_cases d)")
    case None
    with 9 show ?thesis by (simp add: dispose_moderation_case_def)
  next
    case (Some c)
    have [simp]: "case_id c = i" using Some by (auto dest: get_row_SomeD)
    from Some 9(1) have open_case: "\<not> (case_status c \<notin> set closed_statuses \<or> case_sensitive_purged_at c \<noteq> None)"
      by (auto simp: dispose_moderation_case_def split: if_splits)
    with Some 9(1) [symmetric] 9(2,3) show ?thesis
      by (cases x; cases "fst x")
        (auto simp: dispose_moderation_case_def hold_parent_def map_get_update_where
          get_row_save get_row_insert)
  qed
qed (cases x; cases "fst x"; auto simp: hold_parent_def get_row_delete_row)+

subsection \<open>The shape of one settlement\<close>

lemma process_lost: "leased_task cl d = None \<Longrightarrow> process ex env now cl (d, t) = ((d, t), Retry)"
  by (simp add: process_def attempt_disposal_def settle_failure_def retry_or_dead_letter_def
      defer_dependency_def cancel_stale_task_def)

lemma process_cases:
  assumes call: "process ex env now cl (d, t) = ((d', t'), res)"
    and task: "leased_task cl d = Some task"
  obtains
      (held) h where "active_hold d (protected_resources d (task_resource_type task) (task_resource_id task)) = Some h"
        and "t' = t" and "res = Held" and "d' = save_task (hold_task ex now h task) d"
    | (recorded) "active_hold d (protected_resources d (task_resource_type task) (task_resource_id task)) = None"
        and "has_tombstone d (task_resource_type task) (task_resource_id task)"
        and "t' = t" and "res = Disposed" and "d' = save_task (complete_task now task) d"
    | (disposed) d1 where "active_hold d (protected_resources d (task_resource_type task) (task_resource_id task)) = None"
        and "\<not> has_tombstone d (task_resource_type task) (task_resource_id task)"
        and "dispose_resource env task (d, t) = (t', Inr d1)"
        and "res = Disposed" and "d' = save_task (complete_task now task) (add_tombstone env now task d1)"
    | (failed) f where "settle_failure ex f now cl d = (d', res)"
        and "t' = t \<or> active_hold d (protected_resources d (task_resource_type task) (task_resource_id task)) = None"
proof -
  let ?hold = "active_hold d (protected_resources d (task_resource_type task) (task_resource_id task))"
  consider (early) "env_db_fault env = Fault_Before_Disposal \<or> account_backup_authority_id \<notin> set (backup_authority d)"
    | (ok) "env_db_fault env \<noteq> Fault_Before_Disposal" "account_backup_authority_id \<in> set (backup_authority d)"
    by blast
  then show thesis
  proof cases
    case early
    with call failed show thesis
      by (auto simp: process_def attempt_disposal_def split: if_splits prod.splits)
  next
    case ok
    show thesis
    proof (cases ?hold)
      case (Some h)
      with ok call task held failed show thesis
        by (auto simp: process_def attempt_disposal_def commit_def split: if_splits prod.splits)
    next
      case None
      show thesis
      proof (cases "has_tombstone d (task_resource_type task) (task_resource_id task)")
        case True
        with None ok call task recorded failed show thesis
          by (auto simp: process_def attempt_disposal_def commit_def split: if_splits prod.splits)
      next
        case False
        with None ok call task disposed failed show thesis
          by (auto simp: process_def attempt_disposal_def commit_def
              split: if_splits prod.splits sum.splits)
      qed
    qed
  qed
qed

lemma leased_taskD:
  "leased_task cl d = Some task \<Longrightarrow>
     task \<in> set (lifecycle_tasks d) \<and> task_id task = cl_id cl \<and> task_state task = Leased \<and>
     task_claim_token task = Some (cl_claim_token cl)"
  by (auto simp: leased_task_def dest!: row_where_SomeD)

text \<open>Every way to settle a claim rewrites or deletes its task, and nothing else in the queue.\<close>

definition settled_row :: "lifecycle_task_row \<Rightarrow> lifecycle_task_row \<Rightarrow> bool" where
  "settled_row task task' \<longleftrightarrow>
     task_id task' = task_id task \<and> task_resource_type task' = task_resource_type task \<and>
     task_resource_id task' = task_resource_id task \<and> task_state task' \<noteq> Leased \<and>
     task_lease_expires_at task' = None \<and> task_claimed_by task' = None \<and>
     task_claim_token task' = None \<and> task_attempts task - 1 \<le> task_attempts task' \<and>
     (task_state task' \<noteq> Completed \<longrightarrow> task_completed_at task' = task_completed_at task) \<and>
     (task_state task' = Completed \<longrightarrow> task_completed_at task' \<noteq> None)"

lemma settle_failure_tasks:
  assumes "settle_failure ex f now cl d = (d', res)" and "leased_task cl d = Some task"
  shows "(\<exists>task'. d' = save_task task' d \<and> settled_row task task') \<or>
     d' = d\<lparr>lifecycle_tasks := delete_row task_id (task_id task) (lifecycle_tasks d)\<rparr>"
    and "res \<noteq> Disposed"
  using assms
  by (auto simp: settle_failure_def retry_or_dead_letter_def defer_dependency_def
      cancel_stale_task_def settled_row_def release_lease_def Let_def split: if_splits)

lemma process_tasks:
  assumes call: "process ex env now cl (d, t) = ((d', t'), res)"
    and task: "leased_task cl d = Some task"
  shows "(\<exists>task'. lifecycle_tasks d' = save_row task_id task' (lifecycle_tasks d) \<and> settled_row task task') \<or>
     lifecycle_tasks d' = delete_row task_id (task_id task) (lifecycle_tasks d)"
  using assms
proof (cases rule: process_cases)
  case (disposed d1)
  from disposed(3) have "lifecycle_tasks d1 = lifecycle_tasks d"
    by (rule dispose_resource_removal) (auto dest: removal_frame)
  with disposed show ?thesis
    by (auto simp: save_task_def add_tombstone_def settled_row_def complete_task_def release_lease_def)
next
  case (failed f)
  from settle_failure_tasks [OF failed(1) task] show ?thesis by (auto simp: save_task_def)
qed (auto simp: save_task_def settled_row_def complete_task_def hold_task_def release_lease_def)

subsection \<open>The queue invariant\<close>

text \<open>
  What the executor keeps true of its queue: primary keys and the pair of resource type and id
  are unique among tasks and among tombstones, attempts are never negative (the \<open>CHECK\<close>
  constraint), and the lease columns are filled exactly while a task is leased.
\<close>

definition task_wf :: "lifecycle_task_row \<Rightarrow> bool" where
  "task_wf t \<longleftrightarrow>
     0 \<le> task_attempts t \<and>
     (task_state t = Leased \<longleftrightarrow> task_lease_expires_at t \<noteq> None) \<and>
     (task_state t = Leased \<longleftrightarrow> task_claimed_by t \<noteq> None) \<and>
     (task_state t = Leased \<longleftrightarrow> task_claim_token t \<noteq> None) \<and>
     (task_state t = Leased \<longrightarrow> 1 \<le> task_attempts t) \<and>
     (task_state t = Completed \<longleftrightarrow> task_completed_at t \<noteq> None)"

definition task_resource :: "lifecycle_task_row \<Rightarrow> resource" where
  "task_resource t = (task_resource_type t, task_resource_id t)"

definition tomb_resource :: "retention_tombstone_row \<Rightarrow> resource" where
  "tomb_resource b = (tomb_resource_type b, tomb_resource_id b)"

definition queue_ok :: "db \<Rightarrow> bool" where
  "queue_ok d \<longleftrightarrow>
     unique_by task_id (lifecycle_tasks d) \<and> unique_by task_resource (lifecycle_tasks d) \<and>
     list_all task_wf (lifecycle_tasks d) \<and> unique_by tomb_resource (retention_tombstones d)"

lemma settled_row_wf: "settled_row task task' \<Longrightarrow> task_wf task \<Longrightarrow> task_state task = Leased \<Longrightarrow> task_wf task'"
  by (auto simp: settled_row_def task_wf_def)

lemma process_queue_ok:
  assumes ok: "queue_ok d" and call: "process ex env now cl (d, t) = ((d', t'), res)"
  shows "queue_ok d'"
proof (cases "leased_task cl d")
  case None
  with call process_lost [OF None] ok show ?thesis by simp
next
  case (Some task)
  note task = leased_taskD [OF Some]
  have tasks: "unique_by task_id (lifecycle_tasks d') \<and> unique_by task_resource (lifecycle_tasks d') \<and>
      list_all task_wf (lifecycle_tasks d')"
    using process_tasks [OF call Some]
  proof (elim disjE exE conjE)
    fix task' assume eq: "lifecycle_tasks d' = save_row task_id task' (lifecycle_tasks d)"
      and row: "settled_row task task'"
    have "task_wf task'" using settled_row_wf [OF row] task ok by (auto simp: queue_ok_def list_all_iff)
    moreover have "unique_by task_resource (lifecycle_tasks d') \<longleftrightarrow> unique_by task_resource (lifecycle_tasks d)"
      unfolding eq using task row ok
      by (intro unique_save_row_other [where x = task]) (auto simp: queue_ok_def settled_row_def task_resource_def)
    ultimately show ?thesis using ok by (auto simp: eq queue_ok_def intro: list_all_intros)
  next
    assume "lifecycle_tasks d' = delete_row task_id (task_id task) (lifecycle_tasks d)"
    with ok show ?thesis by (auto simp: queue_ok_def intro: unique_intros list_all_intros)
  qed
  have "unique_by tomb_resource (retention_tombstones d')"
    using call Some
  proof (cases rule: process_cases)
    case (disposed d1)
    from disposed(3) have "retention_tombstones d1 = retention_tombstones d"
      by (rule dispose_resource_removal) (auto dest: removal_frame)
    with disposed ok show ?thesis
      by (auto simp: save_task_def add_tombstone_def queue_ok_def has_tombstone_def tomb_resource_def)
  next
    case (failed f)
    with settle_failure_tasks [OF failed(1) Some] ok show ?thesis
      by (auto simp: save_task_def queue_ok_def)
  qed (use ok in \<open>auto simp: save_task_def queue_ok_def\<close>)
  with tasks show ?thesis by (simp add: queue_ok_def)
qed

lemma claim_one_queue_ok: "queue_ok d \<Longrightarrow> queue_ok (fst (claim_one ex now token locked seen d))"
  by (auto simp: claim_one_def queue_ok_def unique_update_where lease_task_def task_resource_def
      task_wf_def eligible_def intro!: list_all_update_where split: option.splits)

lemma insert_task_ok:
  assumes "insert_task i now c tasks = (n, tasks')"
    and "unique_by task_id tasks" "unique_by task_resource tasks" "list_all task_wf tasks"
    and "i \<notin> task_id ` set tasks"
  shows "unique_by task_id tasks' \<and> unique_by task_resource tasks' \<and> list_all task_wf tasks' \<and>
     task_id ` set tasks' \<subseteq> insert i (task_id ` set tasks) \<and> (\<exists>new. tasks' = tasks @ new)"
  using assms
  by (cases c) (auto simp: insert_task_def task_resource_def task_wf_def insert_row_def unique_by_def
      split: if_splits)

lemma insert_tasks_ok:
  "insert_tasks new_id now cs tasks = (n, tasks') \<Longrightarrow> inj new_id \<Longrightarrow>
     range new_id \<inter> task_id ` set tasks = {} \<Longrightarrow>
     unique_by task_id tasks \<Longrightarrow> unique_by task_resource tasks \<Longrightarrow> list_all task_wf tasks \<Longrightarrow>
     unique_by task_id tasks' \<and> unique_by task_resource tasks' \<and> list_all task_wf tasks' \<and>
     (\<exists>new. tasks' = tasks @ new)"
proof (induction new_id now cs tasks arbitrary: n tasks' rule: insert_tasks.induct)
  case (2 new_id now c cs tasks)
  obtain m ts where one: "insert_task (new_id 0) now c tasks = (m, ts)" by fastforce
  obtain m' where more: "insert_tasks (\<lambda>k. new_id (Suc k)) now cs ts = (m', tasks')"
    using "2.prems"(1) one by (auto split: prod.splits)
  have fresh: "new_id 0 \<notin> task_id ` set tasks" using "2.prems"(3) by auto
  note ok = insert_task_ok [OF one "2.prems"(4-6) fresh]
  have "inj (\<lambda>k. new_id (Suc k))" using "2.prems"(2) by (auto simp: inj_def)
  moreover have "range (\<lambda>k. new_id (Suc k)) \<inter> task_id ` set ts = {}"
  proof -
    have "new_id (Suc k) \<noteq> new_id 0" for k using "2.prems"(2) by (auto simp: inj_def)
    with ok "2.prems"(3) show ?thesis by (auto 0 3)
  qed
  ultimately have "unique_by task_id tasks' \<and> unique_by task_resource tasks' \<and> list_all task_wf tasks' \<and>
      (\<exists>new. tasks' = ts @ new)"
    using "2.IH" [OF one [symmetric] more] ok by blast
  with ok show ?case by (metis append_assoc)
qed simp

lemma discover_queue:
  assumes "queue_ok d" and "inj new_id" and "range new_id \<inter> task_id ` set (lifecycle_tasks d) = {}"
  shows "queue_ok (snd (discover new_id limit now d))"
    and "\<exists>new. lifecycle_tasks (snd (discover new_id limit now d)) = lifecycle_tasks d @ new"
  using assms
  by (auto simp: discover_def queue_ok_def Let_def split: prod.splits dest!: insert_tasks_ok)

subsection \<open>The retention queue is a leased queue\<close>

definition task_lease :: "world \<Rightarrow> string \<Rightarrow> (string \<times> time) option" where
  "task_lease w k =
     (case get_row task_id k (lifecycle_tasks (fst w)) of
        None \<Rightarrow> None
      | Some t \<Rightarrow>
          (case (task_claim_token t, task_lease_expires_at t) of
             (Some tok, Some e) \<Rightarrow> Some (tok, e)
           | _ \<Rightarrow> None))"

record claim_call =
  cc_executor :: executor
  cc_now :: time
  cc_token :: string
  cc_locked :: "string list"
  cc_seen :: "lifecycle_task_row list"

definition do_claim :: "claim_call \<Rightarrow> world \<Rightarrow> world" where
  "do_claim c w =
     (fst (claim_one (cc_executor c) (cc_now c) (cc_token c) (cc_locked c) (cc_seen c) (fst w)), snd w)"

record settle_call =
  sc_executor :: executor
  sc_env :: surroundings
  sc_now :: time
  sc_claim :: claim

definition do_settle :: "settle_call \<Rightarrow> world \<Rightarrow> world" where
  "do_settle p w = fst (process (sc_executor p) (sc_env p) (sc_now p) (sc_claim p) w)"

text \<open>
  The other steps of a run: a discovery whose \<open>new_id\<close> does not repeat identifiers, and any
  transaction of another component, which touches neither tasks nor tombstones.
\<close>

datatype other_step = Discover "nat \<Rightarrow> string" nat time | Elsewhere world

fun do_other :: "other_step \<Rightarrow> world \<Rightarrow> world" where
  "do_other (Discover new_id limit now) w = (snd (discover new_id limit now (fst w)), snd w)"
| "do_other (Elsewhere w') w = w'"

fun other_allowed :: "other_step \<Rightarrow> world \<Rightarrow> bool" where
  "other_allowed (Discover new_id limit now) w \<longleftrightarrow>
     inj new_id \<and> range new_id \<inter> task_id ` set (lifecycle_tasks (fst w)) = {}"
| "other_allowed (Elsewhere w') w \<longleftrightarrow>
     lifecycle_tasks (fst w') = lifecycle_tasks (fst w) \<and>
     retention_tombstones (fst w') = retention_tombstones (fst w)"

lemma task_leaseD:
  assumes "task_lease w k = Some (tok, e)" and "queue_ok (fst w)"
  obtains t where "t \<in> set (lifecycle_tasks (fst w))" "task_id t = k" "task_state t = Leased"
    "task_claim_token t = Some tok" "task_lease_expires_at t = Some e"
    "get_row task_id k (lifecycle_tasks (fst w)) = Some t"
proof -
  from assms(1) obtain t where t: "get_row task_id k (lifecycle_tasks (fst w)) = Some t"
    "task_claim_token t = Some tok" "task_lease_expires_at t = Some e"
    by (auto simp: task_lease_def split: option.splits)
  then have "t \<in> set (lifecycle_tasks (fst w))" "task_id t = k" by (auto dest: get_row_SomeD)
  moreover from this t assms(2) have "task_state t = Leased"
    by (auto simp: queue_ok_def list_all_iff task_wf_def)
  ultimately show thesis using that t by blast
qed

lemma claim_keeps_live_lease:
  assumes "queue_ok (fst w)" "task_lease w k = Some (tok, e)" "cc_now c < e"
  shows "task_lease (do_claim c w) k = Some (tok, e)"
proof -
  from assms(2,1) obtain t where t: "task_id t = k" "task_state t = Leased"
    "task_lease_expires_at t = Some e" "get_row task_id k (lifecycle_tasks (fst w)) = Some t"
    by (rule task_leaseD)
  then have "\<not> eligible (cc_now c) t" using assms(3) by (simp add: eligible_def)
  moreover have "task_id (lease_task ex now token x) = task_id x" for ex now token x
    by (simp add: lease_task_def)
  ultimately show ?thesis using assms(2) t(4)
    by (auto simp: task_lease_def do_claim_def claim_one_def get_row_update_where split: option.splits)
qed

lemma settle_keeps_other_lease:
  assumes ok: "queue_ok (fst w)" and lease: "task_lease w k = Some (tok, e)"
    and other: "(cl_id (sc_claim p), cl_claim_token (sc_claim p)) \<noteq> (k, tok)"
  shows "task_lease (do_settle p w) k = Some (tok, e)"
proof -
  obtain d t where w: "w = (d, t)" by fastforce
  obtain d' t' res where call: "process (sc_executor p) (sc_env p) (sc_now p) (sc_claim p) (d, t) = ((d', t'), res)"
    by (metis prod.collapse)
  show ?thesis
  proof (cases "leased_task (sc_claim p) d")
    case None
    with lease show ?thesis by (simp add: w do_settle_def process_lost)
  next
    case (Some task)
    note task = leased_taskD [OF Some]
    from lease ok obtain x where x: "x \<in> set (lifecycle_tasks d)" "task_id x = k"
      "task_claim_token x = Some tok" by (rule task_leaseD) (auto simp: w)
    have "task_id task \<noteq> k"
    proof
      assume "task_id task = k"
      with x task ok have "task = x" by (auto simp: w queue_ok_def intro: unique_byD)
      with x task other show False by auto
    qed
    then have "get_row task_id k (lifecycle_tasks d') = get_row task_id k (lifecycle_tasks d)"
      using process_tasks [OF call Some] by (auto simp: table_simps settled_row_def)
    with lease show ?thesis by (simp add: w do_settle_def call task_lease_def)
  qed
qed

lemma settle_without_lease:
  assumes ok: "queue_ok (fst w)"
    and none: "\<forall>e. task_lease w (cl_id (sc_claim p)) \<noteq> Some (cl_claim_token (sc_claim p), e)"
  shows "do_settle p w = w"
proof -
  obtain d t where w: "w = (d, t)" by fastforce
  have "leased_task (sc_claim p) d = None"
  proof (rule ccontr)
    assume "leased_task (sc_claim p) d \<noteq> None"
    then obtain task where "leased_task (sc_claim p) d = Some task" by blast
    note task = leased_taskD [OF this]
    then have "get_row task_id (cl_id (sc_claim p)) (lifecycle_tasks d) = Some task"
      using ok by (simp add: w queue_ok_def get_row_iff)
    moreover from task ok obtain e where "task_lease_expires_at task = Some e"
      by (auto simp: w queue_ok_def list_all_iff task_wf_def)
    ultimately show False using task none by (auto simp: w task_lease_def)
  qed
  then show ?thesis by (simp add: w do_settle_def process_lost)
qed

lemma settle_ends_lease:
  assumes ok: "queue_ok (fst w)"
  shows "task_lease (do_settle p w) (cl_id (sc_claim p)) \<noteq> Some (cl_claim_token (sc_claim p), e)"
proof -
  obtain d t where w: "w = (d, t)" by fastforce
  obtain d' t' res where call: "process (sc_executor p) (sc_env p) (sc_now p) (sc_claim p) (d, t) = ((d', t'), res)"
    by (metis prod.collapse)
  show ?thesis
  proof (cases "leased_task (sc_claim p) d")
    case None
    have "task_lease w (cl_id (sc_claim p)) \<noteq> Some (cl_claim_token (sc_claim p), e)"
    proof
      assume "task_lease w (cl_id (sc_claim p)) = Some (cl_claim_token (sc_claim p), e)"
      from this ok show False
        by (rule task_leaseD) (use None in \<open>auto simp: w leased_task_def row_where_None\<close>)
    qed
    with None show ?thesis by (simp add: w do_settle_def process_lost)
  next
    case (Some task)
    with leased_taskD [OF Some] process_tasks [OF call Some] show ?thesis
      by (auto simp: w do_settle_def call task_lease_def table_simps settled_row_def split: option.splits)
  qed
qed

interpretation retention_queue: leased_queue task_lease "\<lambda>w. queue_ok (fst w)" cc_now do_claim
  "\<lambda>p. (cl_id (sc_claim p), cl_claim_token (sc_claim p))" do_settle other_allowed do_other
proof (unfold_locales, goal_cases)
  case (1 s c) then show ?case by (simp add: do_claim_def claim_one_queue_ok)
next
  case (2 s p) then show ?case
    by (metis do_settle_def process_queue_ok prod.collapse)
next
  case (3 s x)
  then show ?case
  proof (cases x)
    case (Elsewhere w')
    with 3 show ?thesis by (simp add: queue_ok_def)
  qed (use 3 in \<open>simp add: discover_queue\<close>)
next
  case (4 s k tok e c) then show ?case by (rule claim_keeps_live_lease)
next
  case (5 s k tok e p) then show ?case by (intro settle_keeps_other_lease) auto
next
  case (6 s p k tok) then show ?case by (intro settle_without_lease) auto
next
  case (7 s p k tok e) then show ?case using settle_ends_lease by (metis prod.inject)
next
  case (8 s x k tok e)
  show ?case
  proof (cases x)
    case (Discover new_id limit now)
    with 8 obtain new where new: "lifecycle_tasks (snd (discover new_id limit now (fst s))) =
        lifecycle_tasks (fst s) @ new" using discover_queue(2) by fastforce
    have "get_row task_id k (ts @ new) = Some t" if "get_row task_id k ts = Some t" for ts t
      using that by (induction ts) (auto simp: get_row_Cons split: if_splits)
    with 8 new Discover show ?thesis by (auto simp: task_lease_def split: option.splits)
  next
    case (Elsewhere w')
    with 8 show ?thesis by (simp add: task_lease_def)
  qed
qed

text \<open>
  C5. A lease belongs to one worker.  Take any interleaving of claims, settlements, discoveries
  and transactions of other components, where no claim is made at or after the lease's expiry
  and the holder itself does not settle: at its end the holder still has the lease, and a
  settlement attempted under any other token for that task changes neither ledger nor files.
\<close>

theorem retention_lease_exclusive:
  assumes "retention_queue.run w ops w'" and "queue_ok (fst w)" and "task_lease w k = Some (tok, e)"
    and "\<forall>c. Claim c \<in> set ops \<longrightarrow> cc_now c < e"
    and "\<forall>p. Settle p \<in> set ops \<longrightarrow> (cl_id (sc_claim p), cl_claim_token (sc_claim p)) \<noteq> (k, tok)"
  shows "queue_ok (fst w') \<and> task_lease w' k = Some (tok, e) \<and>
     (cl_id (sc_claim q) = k \<and> cl_claim_token (sc_claim q) \<noteq> tok \<longrightarrow> do_settle q w' = w')"
proof -
  have "do_settle q w' = w'" if "cl_id (sc_claim q) = k" "cl_claim_token (sc_claim q) \<noteq> tok"
    using retention_queue.rival_settlement_void [OF assms(1-3)] assms(4,5) that by blast
  then show ?thesis
    using retention_queue.lease_kept [OF assms(1-3)] retention_queue.run_inv [OF assms(1,2)] assms(4,5)
    by blast
qed

definition sample_task :: lifecycle_task_row where
  "sample_task = \<lparr>task_id = ''t1'', task_resource_type = Message_T, task_resource_id = ''m1'',
     task_policy_version = ''p'', task_state = Queued, task_attempts = 0, task_available_at = 0,
     task_lease_expires_at = None, task_claimed_by = None, task_claim_token = None,
     task_last_error_code = None, task_created_at = 0, task_completed_at = None\<rparr>"

definition sample_message :: message_row where
  "sample_message = \<lparr>msg_id = ''m1'', msg_conversation_id = ''v1'', msg_sender_owner_id = ''o1'',
     msg_sender_actor_id = ''a1'', msg_sender_actor_method = ''session'', msg_markdown = [104],
     msg_content_sha256 = ''s'', msg_created_at = 0, msg_retention_expires_at = 1\<rparr>"

definition sample_conversation :: conversation_row where
  "sample_conversation = \<lparr>cv_id = ''v1'', cv_connection_id = ''c1'', cv_pair_owner_low = ''o1'',
     cv_pair_owner_high = ''o2'', cv_status = Conv_Closed, cv_created_by_owner_id = ''o1'',
     cv_created_at = 0, cv_closed_at = None, cv_retention_expires_at = 1\<rparr>"

definition sample_hold :: retention_hold_row where
  "sample_hold = \<lparr>hold_id = ''h1'', hold_resource_type = Conversation_T, hold_resource_id = ''v1'',
     hold_purpose = [], hold_authority = ''x'', hold_expires_at = seconds 900, hold_review_at = seconds 800,
     hold_created_at = 0, hold_released_at = None, hold_released_by_authority = None\<rparr>"

definition sample_queue :: db where
  "sample_queue = empty_db\<lparr>conversations := [sample_conversation], messages := [sample_message],
     lifecycle_tasks := [sample_task], backup_authority := [account_backup_authority_id]\<rparr>"

definition sample_executor :: executor where
  "sample_executor = \<lparr>ex_worker_id = ''w1'', ex_max_attempts = 3, ex_lease_seconds = 60\<rparr>"

definition sample_env :: surroundings where
  "sample_env = \<lparr>env_sha = sample_sha, env_stat_follows = (\<lambda>_. False), env_escapes = (\<lambda>_. False),
     env_grants = [], env_fault = No_Fault, env_db_fault = No_Db_Fault, env_tombstone_id = ''b1'',
     env_audit_id = ''e1'', env_wall_clock = 7\<rparr>"

definition sample_claim_call :: "time \<Rightarrow> string \<Rightarrow> claim_call" where
  "sample_claim_call now token = \<lparr>cc_executor = sample_executor, cc_now = now, cc_token = token,
     cc_locked = [], cc_seen = [sample_task]\<rparr>"

definition sample_claim :: "string \<Rightarrow> claim" where
  "sample_claim token = \<lparr>cl_id = ''t1'', cl_resource_type = Message_T, cl_resource_id = ''m1'',
     cl_policy_version = ''p'', cl_claim_token = token, cl_attempts = 1\<rparr>"

definition sample_settle_call :: "string \<Rightarrow> settle_call" where
  "sample_settle_call token = \<lparr>sc_executor = sample_executor, sc_env = sample_env, sc_now = 5,
     sc_claim = sample_claim token\<rparr>"

definition sample_leased :: world where
  "sample_leased = do_claim (sample_claim_call 5 ''k1'') (sample_queue, [])"

theorem retention_lease_exclusive_witness:
  "task_lease (do_claim (sample_claim_call 6 ''k2'') sample_leased) ''t1'' = Some (''k1'', seconds 60 + 5) \<and>
   do_settle (sample_settle_call ''k2'') (do_claim (sample_claim_call 6 ''k2'') sample_leased) =
     do_claim (sample_claim_call 6 ''k2'') sample_leased"
proof -
  have run: "retention_queue.run sample_leased ([] @ [Claim (sample_claim_call 6 ''k2'')])
      (do_claim (sample_claim_call 6 ''k2'') sample_leased)"
    by (intro retention_queue.run_claim retention_queue.run_nil)
  have ok: "queue_ok (fst sample_leased)" by code_simp
  have lease: "task_lease sample_leased ''t1'' = Some (''k1'', seconds 60 + 5)" by code_simp
  from retention_lease_exclusive [OF run ok lease, of "sample_settle_call ''k2''"]
  show ?thesis by (simp add: sample_claim_call_def sample_settle_call_def sample_claim_def seconds_def)
qed

subsection \<open>Holds\<close>

definition hold_resource :: "retention_hold_row \<Rightarrow> resource" where
  "hold_resource h = (hold_resource_type h, hold_resource_id h)"

lemma active_hold_None:
  "active_hold d S = None \<longleftrightarrow> (\<forall>h \<in> set (retention_holds d). hold_released_at h = None \<longrightarrow> hold_resource h \<notin> S)"
  by (auto simp: active_hold_def hold_resource_def rows_where_def filter_empty_conv)

lemma process_under_hold:
  assumes hold: "h \<in> set (retention_holds d)" "hold_released_at h = None"
    and task: "leased_task cl d = Some task"
    and covered: "hold_resource h \<in> protected_resources d (task_resource_type task) (task_resource_id task)"
    and call: "process ex env now cl (d, t) = ((d', t'), res)"
  shows "t' = t \<and> (\<exists>tasks. d' = d\<lparr>lifecycle_tasks := tasks\<rparr>) \<and> res \<noteq> Disposed"
proof -
  have some: "active_hold d (protected_resources d (task_resource_type task) (task_resource_id task)) \<noteq> None"
    using hold covered by (auto simp: active_hold_None)
  show ?thesis using call task
  proof (cases rule: process_cases)
    case held
    then show ?thesis by (auto simp: save_task_def)
  next
    case (failed f)
    with settle_failure_tasks [OF failed(1) task] some show ?thesis by (auto simp: save_task_def)
  qed (use some in auto)
qed

text \<open>
  C2. A preservation hold cannot be overrun.  While a hold is not released, whatever worker
  processes a claim on the held resource or on any of its descendants, and whatever fails on
  the way: no file changes, no table but the task queue changes, and the outcome is not
  \<open>disposed\<close>.  Expiry of the hold does not matter, only its release.
\<close>

theorem held_lineage_never_disposed:
  assumes "lineage_ok d" and "h \<in> set (retention_holds d)" and "hold_released_at h = None"
    and "leased_task cl d = Some task"
    and "task_resource task \<in> hold_descendants d (hold_resource h)"
    and "process ex env now cl (d, t) = ((d', t'), res)"
  shows "t' = t \<and> (\<exists>tasks. d' = d\<lparr>lifecycle_tasks := tasks\<rparr>) \<and> res \<noteq> Disposed"
proof -
  have "hold_resource h \<in> protected_resources d (task_resource_type task) (task_resource_id task)"
    using assms(1,5)
    by (auto simp: protected_resources_def task_resource_def hold_descendants_below
        hold_ancestors_above hold.below_iff_above)
  then show ?thesis using process_under_hold assms by blast
qed

theorem held_lineage_never_disposed_witness:
  "snd (process sample_executor sample_env 5 (sample_claim ''k1'')
     ((fst sample_leased)\<lparr>retention_holds := [sample_hold]\<rparr>, [])) \<noteq> Disposed"
proof -
  let ?d = "(fst sample_leased)\<lparr>retention_holds := [sample_hold]\<rparr>"
  obtain d' t' res where call: "process sample_executor sample_env 5 (sample_claim ''k1'') (?d, []) = ((d', t'), res)"
    by (metis prod.collapse)
  have task: "leased_task (sample_claim ''k1'') ?d = Some (lease_task sample_executor 5 ''k1'' sample_task)"
    by code_simp
  have ok: "lineage_ok ?d" by code_simp
  have "hold_resource sample_hold \<in> hold_ancestors ?d (task_resource (lease_task sample_executor 5 ''k1'' sample_task))"
    by code_simp
  then have desc: "task_resource (lease_task sample_executor 5 ''k1'' sample_task) \<in> hold_descendants ?d (hold_resource sample_hold)"
    using ok by (simp add: hold_descendants_below hold_ancestors_above hold.below_iff_above)
  from held_lineage_never_disposed [OF ok _ _ task desc call] call show ?thesis
    by (simp add: sample_hold_def)
qed

subsection \<open>A disposal touches one resource\<close>

text \<open>What a disposable resource consists of; \<open>kept d d' r\<close> says that none of it differs.\<close>

definition kept :: "db \<Rightarrow> db \<Rightarrow> resource \<Rightarrow> bool" where
  "kept d d' r =
     (case r of (rt, i) \<Rightarrow>
       (case rt of
          Application_T \<Rightarrow> get_row app_id i (applications d') = get_row app_id i (applications d)
        | Contact_Request_T \<Rightarrow> get_row ctr_id i (contact_requests d') = get_row ctr_id i (contact_requests d)
        | Connection_Request_T \<Rightarrow> get_row cr_id i (connection_requests d') = get_row cr_id i (connection_requests d)
        | Connection_T \<Rightarrow> get_row con_id i (connections d') = get_row con_id i (connections d)
        | Conversation_T \<Rightarrow> get_row cv_id i (conversations d') = get_row cv_id i (conversations d)
        | Message_T \<Rightarrow> get_row msg_id i (messages d') = get_row msg_id i (messages d)
        | Notification_T \<Rightarrow> get_row ntf_id i (notifications d') = get_row ntf_id i (notifications d)
        | Verification_Evidence_T \<Rightarrow>
            get_row ve_id i (verification_evidence d') = get_row ve_id i (verification_evidence d)
        | Moderation_Case_T \<Rightarrow>
            get_row case_id i (moderation_cases d') = get_row case_id i (moderation_cases d) \<and>
            rows_where (\<lambda>r. report_case_id r = i) (post_reports d') = rows_where (\<lambda>r. report_case_id r = i) (post_reports d) \<and>
            rows_where (\<lambda>r. dec_case_id r = i) (moderation_decisions d') = rows_where (\<lambda>r. dec_case_id r = i) (moderation_decisions d) \<and>
            rows_where (\<lambda>r. apl_case_id r = i) (moderation_appeals d') = rows_where (\<lambda>r. apl_case_id r = i) (moderation_appeals d)
        | _ \<Rightarrow> True))"

lemma kept_refl [simp]: "kept d d r"
  by (cases r; cases "fst r") (simp_all add: kept_def)

lemma kept_trans: "kept d d1 r \<Longrightarrow> kept d1 d2 r \<Longrightarrow> kept d d2 r"
  by (cases r; cases "fst r") (simp_all add: kept_def)

lemma kept_bookkeeping [simp]:
  "kept d (d'\<lparr>lifecycle_tasks := ts\<rparr>) r = kept d d' r"
  "kept d (d'\<lparr>retention_tombstones := bs\<rparr>) r = kept d d' r"
  "kept d (d'\<lparr>direct_peer_buckets := ps\<rparr>) r = kept d d' r"
  by (cases r; cases "fst r"; simp add: kept_def)+

lemma kept_residues [simp]: "kept d (dispose_residues task v d') r = kept d d' r"
  by (cases r; cases "fst r")
    (simp_all add: kept_def dispose_residues_def purge_residues_def Let_def split: option.splits)

lemma hold_parent_pointwise:
  "hold_parent (d\<lparr>lifecycle_tasks := ts\<rparr>) r = hold_parent d r"
  "hold_parent (d\<lparr>retention_tombstones := bs\<rparr>) r = hold_parent d r"
  "hold_parent (d\<lparr>direct_peer_buckets := ps\<rparr>) r = hold_parent d r"
  by (cases r; cases "fst r"; simp add: hold_parent_def)+

lemma hold_parent_bookkeeping [simp]:
  "hold_parent (d\<lparr>lifecycle_tasks := ts\<rparr>) = hold_parent d"
  "hold_parent (d\<lparr>retention_tombstones := bs\<rparr>) = hold_parent d"
  "hold_parent (d\<lparr>direct_peer_buckets := ps\<rparr>) = hold_parent d"
  by (rule ext, rule hold_parent_pointwise)+

lemma rows_where_update_other:
  "(\<And>x. p (f x) = p x) \<Longrightarrow> (\<And>x. q x \<Longrightarrow> \<not> p x) \<Longrightarrow>
     rows_where p (update_where q f t) = rows_where p t"
  by (induction t) (auto simp: rows_where_def update_where_def)

lemma removal_keeps: "removal env r d d' \<Longrightarrow> x \<noteq> r \<Longrightarrow> kept d d' x"
proof (induction rule: removal.induct)
  case (9 i d d')
  show ?case
  proof (cases "get_row case_id i (moderation_cases d)")
    case None
    with 9 show ?thesis by (simp add: dispose_moderation_case_def)
  next
    case (Some c)
    then have [simp]: "case_id c = i" by (auto dest: get_row_SomeD)
    from Some 9(1) have "\<not> (case_status c \<notin> set closed_statuses \<or> case_sensitive_purged_at c \<noteq> None)"
      by (auto simp: dispose_moderation_case_def split: if_splits)
    with Some 9(1) [symmetric] 9(2) show ?thesis
      by (cases x; cases "fst x")
        (auto simp: dispose_moderation_case_def kept_def rows_where_update_other get_row_save)
  qed
qed (cases x; cases "fst x"; auto simp: kept_def get_row_delete_row)+

lemma process_keeps:
  assumes call: "process ex env now cl (d, t) = ((d', t'), res)"
    and task: "leased_task cl d = Some task" and x: "x \<noteq> task_resource task"
  shows "kept d d' x \<and> (hold_parent d x = Some p \<longrightarrow> hold_parent d' x = Some p) \<and>
     retention_holds d' = retention_holds d \<and>
     (has_tombstone d' (fst x) (snd x) \<longleftrightarrow> has_tombstone d (fst x) (snd x))"
  using call task
proof (cases rule: process_cases)
  case (disposed d1)
  from disposed(3) obtain d2 v where d2: "removal env (task_resource_type task, task_resource_id task) d d2"
    "d1 = dispose_residues task v d2" by (rule dispose_resource_removal)
  with removal_keeps [OF d2(1)] removal_parent [OF d2(1)] removal_frame [OF d2(1)] x disposed
  show ?thesis
    by (auto simp: save_task_def add_tombstone_def task_resource_def has_tombstone_def)
next
  case (failed f)
  with settle_failure_tasks [OF failed(1) task] show ?thesis
    by (auto simp: save_task_def has_tombstone_def)
qed (auto simp: save_task_def has_tombstone_def)

lemma above_preserved:
  assumes step: "\<And>x p. P x = Some p \<Longrightarrow> r \<in> above P x \<Longrightarrow> P' x = Some p"
    and "r \<in> above P c"
  shows "r \<in> above P' c"
proof -
  from assms(2) have "(c, r) \<in> {(x, y). P x = Some y}\<^sup>+" by (simp add: above_def)
  then have "(c, r) \<in> {(x, y). P' x = Some y}\<^sup>+"
  proof (induction rule: converse_trancl_induct)
    case (base y)
    then have "P' y = Some r" by (intro step) (auto simp: above_def)
    then show ?case by auto
  next
    case (step y z)
    then have "P' y = Some z"
      by (intro assms(1)) (auto simp: above_def intro: trancl_into_trancl2)
    with step.IH show ?case by (auto intro: trancl_into_trancl2)
  qed
  then show ?thesis by (simp add: above_def)
qed

subsection \<open>A hold shields its lineage through a whole run\<close>

definition shielded :: "db \<Rightarrow> retention_hold_row \<Rightarrow> resource \<Rightarrow> bool" where
  "shielded d h c \<longleftrightarrow>
     h \<in> set (retention_holds d) \<and> hold_released_at h = None \<and>
     (c = hold_resource h \<or> hold_resource h \<in> hold_ancestors d c)"

lemma shielded_bookkeeping [simp]:
  "shielded (d\<lparr>lifecycle_tasks := ts\<rparr>) h c = shielded d h c"
  "shielded (d\<lparr>direct_peer_buckets := ps\<rparr>) h c = shielded d h c"
  by (simp_all add: shielded_def hold_ancestors_above)

definition spared :: "db \<Rightarrow> db \<Rightarrow> retention_hold_row \<Rightarrow> resource \<Rightarrow> bool" where
  "spared d d' h c \<longleftrightarrow>
     shielded d' h c \<and> kept d d' c \<and>
     (has_tombstone d' (fst c) (snd c) \<longleftrightarrow> has_tombstone d (fst c) (snd c))"

lemma spared_trans: "spared d d1 h c \<Longrightarrow> spared d1 d2 h c \<Longrightarrow> spared d d2 h c"
  by (auto simp: spared_def intro: kept_trans)

lemma process_spares:
  assumes sh: "shielded d h c" and call: "process ex env now cl (d, t) = ((d', t'), res)"
  shows "spared d d' h c"
proof (cases "leased_task cl d")
  case None
  with sh call process_lost [OF None] show ?thesis by (simp add: spared_def)
next
  case (Some task)
  show ?thesis
  proof (cases "shielded d h (task_resource task)")
    case True
    then have "hold_resource h \<in> protected_resources d (task_resource_type task) (task_resource_id task)"
      by (auto simp: shielded_def protected_resources_def task_resource_def)
    moreover have "h \<in> set (retention_holds d)" "hold_released_at h = None"
      using sh by (auto simp: shielded_def)
    ultimately obtain tasks where "d' = d\<lparr>lifecycle_tasks := tasks\<rparr>"
      using process_under_hold [OF _ _ Some _ call] by blast
    with sh show ?thesis by (simp add: spared_def has_tombstone_def)
  next
    case False
    have parents: "hold_parent d' x = Some p"
      if "hold_parent d x = Some p" "hold_resource h \<in> above (hold_parent d) x" for x p
    proof -
      have "x \<noteq> task_resource task" using False that sh by (auto simp: shielded_def hold_ancestors_above)
      with process_keeps [OF call Some] that show ?thesis by blast
    qed
    have "hold_resource h \<in> above (hold_parent d') c" if "hold_resource h \<in> above (hold_parent d) c"
      using parents that by (rule above_preserved)
    moreover have c: "c \<noteq> task_resource task" using False sh by auto
    ultimately show ?thesis using sh process_keeps [OF call Some c, of "hd []"]
      by (auto simp: spared_def shielded_def hold_ancestors_above)
  qed
qed

lemma claim_one_spares: "shielded d h c \<Longrightarrow> spared d (fst (claim_one ex now token locked seen d)) h c"
  by (auto simp: claim_one_def spared_def has_tombstone_def split: option.splits)

lemma discover_spares: "shielded d h c \<Longrightarrow> spared d (snd (discover new_id limit now d)) h c"
  by (auto simp: discover_def spared_def has_tombstone_def Let_def split: prod.splits)

lemma run_claims_spares:
  "shielded (fst w) h c \<Longrightarrow> spared (fst w) (fst (fst (run_claims ex envs tokens now n w r))) h c"
proof (induction ex envs tokens now n w r rule: run_claims.induct)
  case 1
  then show ?case by (simp add: spared_def)
next
  case (2 ex envs tokens now n w r)
  obtain d cl where claim: "claim_one ex now (tokens n) [] (lifecycle_tasks (fst w)) (fst w) = (d, cl)"
    by fastforce
  have one: "spared (fst w) d h c" using claim_one_spares [OF "2.prems"] claim by (metis fst_conv)
  show ?case
  proof (cases cl)
    case None
    with claim one show ?thesis by simp
  next
    case (Some cl')
    obtain w' res where proc: "process ex (envs n) now cl' (d, snd w) = (w', res)" by fastforce
    have "shielded d h c" using one by (simp add: spared_def)
    moreover have "process ex (envs n) now cl' (d, snd w) = ((fst w', snd w'), res)" using proc by simp
    ultimately have two: "spared d (fst w') h c" by (rule process_spares)
    then have "spared (fst w') (fst (fst (run_claims ex envs tokens now n w' (tally res r)))) h c"
      using "2.IH" [OF claim [symmetric] Some proc [symmetric]] by (simp add: spared_def)
    with one two claim Some proc show ?thesis by (auto intro: spared_trans)
  qed
qed


lemma run_once_runs:
  assumes "1 \<le> limit" and "limit \<le> 1000"
  shows "\<exists>d' t' r. run_once ex new_id envs tokens limit now w = Inr ((d', t'), r)"
proof -
  obtain n d where "discover new_id (nat limit) now (fst w) = (n, d)" by fastforce
  with assms show ?thesis by (simp add: run_once_def) (metis prod.collapse)
qed


subsection \<open>Disposal is complete\<close>

definition gone :: "db \<Rightarrow> resource \<Rightarrow> bool" where
  "gone d r =
     (case r of (rt, i) \<Rightarrow>
       (case rt of
          Application_T \<Rightarrow> get_row app_id i (applications d) = None
        | Contact_Request_T \<Rightarrow> get_row ctr_id i (contact_requests d) = None
        | Connection_Request_T \<Rightarrow> get_row cr_id i (connection_requests d) = None
        | Connection_T \<Rightarrow> get_row con_id i (connections d) = None
        | Conversation_T \<Rightarrow> get_row cv_id i (conversations d) = None
        | Message_T \<Rightarrow> get_row msg_id i (messages d) = None
        | Notification_T \<Rightarrow> get_row ntf_id i (notifications d) = None
        | Verification_Evidence_T \<Rightarrow> get_row ve_id i (verification_evidence d) = None
        | Moderation_Case_T \<Rightarrow>
            (case get_row case_id i (moderation_cases d) of
               None \<Rightarrow> True
             | Some c \<Rightarrow>
                 case_sensitive_purged_at c \<noteq> None \<and>
                 list_all (\<lambda>r. report_case_id r = i \<longrightarrow> report_narrative r = None) (post_reports d) \<and>
                 list_all (\<lambda>r. dec_case_id r = i \<longrightarrow>
                   dec_internal_rationale r = None \<and> dec_evidence r = None) (moderation_decisions d) \<and>
                 list_all (\<lambda>r. apl_case_id r = i \<longrightarrow>
                   apl_rationale r = None \<and> apl_internal_rationale r = None) (moderation_appeals d))
        | _ \<Rightarrow> False))"

definition no_residue :: "db \<Rightarrow> resource \<Rightarrow> bool" where
  "no_residue d r \<longleftrightarrow>
     \<not> exists_where (\<lambda>x. idem_resource_type x = Some (fst r) \<and> idem_resource_id x = Some (snd r)) (idempotency_records d) \<and>
     \<not> exists_where (\<lambda>x. ce_resource_type x = fst r \<and> ce_resource_id x = snd r) (change_events d)"

definition resource_file :: "db \<Rightarrow> resource \<Rightarrow> string option" where
  "resource_file d r =
     (case r of
        (Application_T, i) \<Rightarrow> Option.bind (get_row app_id i (applications d)) app_snapshot_storage_path
      | (Verification_Evidence_T, i) \<Rightarrow> map_option ve_storage_path (get_row ve_id i (verification_evidence d))
      | _ \<Rightarrow> None)"

lemma purge_case_gone:
  assumes "dispose_moderation_case env i d = Inr d'"
  shows "gone d' (Moderation_Case_T, i)"
proof (cases "get_row case_id i (moderation_cases d)")
  case None
  with assms show ?thesis by (simp add: dispose_moderation_case_def gone_def)
next
  case (Some c)
  then have "case_id c = i" by (auto dest: get_row_SomeD)
  with Some assms show ?thesis
    by (auto simp: dispose_moderation_case_def gone_def get_row_save list_all_iff set_update_where
        split: if_splits)
qed

lemma removal_gone: "removal env r d d' \<Longrightarrow> gone d' r"
proof (induction rule: removal.induct)
  case (9 i d d')
  then show ?case by (rule purge_case_gone)
qed (simp_all add: gone_def get_row_delete_row)

lemma gone_bookkeeping [simp]:
  "gone (d\<lparr>lifecycle_tasks := ts\<rparr>) r = gone d r"
  "gone (d\<lparr>retention_tombstones := bs\<rparr>) r = gone d r"
  by (simp_all add: gone_def cong del: resource_type.case_cong_weak prod.case_cong_weak option.case_cong_weak)

lemma gone_residues [simp]: "gone (dispose_residues task v d) r = gone d r"
  by (cases r; cases "fst r")
    (simp_all add: gone_def dispose_residues_def purge_residues_def Let_def split: option.splits)

lemma dispose_residues_none: "no_residue (dispose_residues task v d) (task_resource task)"
  by (auto simp: no_residue_def dispose_residues_def purge_residues_def task_resource_def Let_def
      split: option.splits)

lemma delete_file_absent:
  assumes "delete_file env t path sha256 sz max_size = (t', Inr u)" and "posix_parts path \<noteq> []"
  shows "\<not> path_exists (env_stat_follows env) t' (posix_parts path)"
proof -
  from assms(1) have "delete_verified_exact (env_sha env) (env_stat_follows env) (env_grants env)
      (env_fault env) t path sha256 sz max_size = (t', Inr ())"
    by (auto simp: delete_file_def split: prod.splits sum.splits)
  from delete_success_absent [OF this delete_success_target [OF this] assms(2)] show ?thesis .
qed

lemma evidence_path_parts: "posix_parts (evidence_path v e) \<noteq> []"
proof -
  have "\<exists>w ws. split_on CHR ''/'' (''verification-evidence/'' @ s) = ''verification-evidence'' # ws" for s
    by (simp add: split_on.simps)
  then show ?thesis by (fastforce simp: posix_parts_def evidence_path_def)
qed

lemma dispose_evidence_file:
  assumes "dispose_evidence env i (d, t) = (t', Inr (d', v))"
    and "get_row ve_id i (verification_evidence d) = Some e"
  shows "\<not> path_exists (env_stat_follows env) t' (posix_parts (ve_storage_path e))"
  using assms evidence_path_parts
  by (auto simp: dispose_evidence_def dest!: delete_file_absent
      split: option.splits sum.splits if_splits prod.splits)

lemma dispose_application_file:
  assumes "dispose_application env i (d, t) = (t', Inr d')"
    and "get_row app_id i (applications d) = Some a" and "app_snapshot_storage_path a = Some path"
  shows "\<not> path_exists (env_stat_follows env) t' (posix_parts path)"
  using assms
  by (auto simp: dispose_application_def Let_def still_present_def
      split: option.splits sum.splits if_splits prod.splits)

lemma dispose_resource_file:
  assumes "dispose_resource env task (d, t) = (t', Inr d')"
    and "resource_file d (task_resource task) = Some path"
  shows "\<not> path_exists (env_stat_follows env) t' (posix_parts path)"
proof (cases "task_resource_type task = Verification_Evidence_T")
  case True
  with assms obtain d1 v e where "dispose_evidence env (task_resource_id task) (d, t) = (t', Inr (d1, v))"
    and "get_row ve_id (task_resource_id task) (verification_evidence d) = Some e" "path = ve_storage_path e"
    by (auto simp: dispose_resource_def resource_file_def task_resource_def Let_def
        split: prod.splits sum.splits)
  then show ?thesis using dispose_evidence_file by blast
next
  case False
  with assms(2) have "task_resource_type task = Application_T"
    by (auto simp: resource_file_def task_resource_def split: resource_type.splits)
  with assms obtain d1 a where "dispose_application env (task_resource_id task) (d, t) = (t', Inr d1)"
    and "get_row app_id (task_resource_id task) (applications d) = Some a"
    and "app_snapshot_storage_path a = Some path"
    by (auto simp: dispose_resource_def resource_file_def task_resource_def Let_def bind_eq_Some_conv
        split: prod.splits)
  then show ?thesis using dispose_application_file by blast
qed



subsection \<open>Dependencies are disposed of first\<close>

text \<open>The foreign keys of the social graph: \<open>RESTRICT\<close> on every edge.\<close>

definition graph_refs_ok :: "db \<Rightarrow> bool" where
  "graph_refs_ok d \<longleftrightarrow>
     msg_conversation_id ` set (messages d) \<subseteq> cv_id ` set (conversations d) \<and>
     cv_connection_id ` set (conversations d) \<subseteq> con_id ` set (connections d) \<and>
     con_request_id ` set (connections d) \<subseteq> cr_id ` set (connection_requests d)"

lemma image_keeps: "f ` S \<subseteq> g ` T \<Longrightarrow> \<forall>x \<in> S. f x \<noteq> i \<Longrightarrow> f ` S \<subseteq> g ` {y \<in> T. g y \<noteq> i}"
  by (fastforce simp: image_iff subset_iff)

text \<open>
  What a run of the worker keeps: any property of the ledger that survives each kind of
  removal and does not depend on the queue, the tombstones, the peer buckets, the receipts and
  the change events.
\<close>

locale retention_invariant =
  fixes inv :: "db \<Rightarrow> bool"
  assumes inv_removal: "removal env r d d' \<Longrightarrow> inv d \<Longrightarrow> inv d'"
    and inv_tasks: "inv d \<Longrightarrow> inv (d\<lparr>lifecycle_tasks := ts\<rparr>)"
    and inv_tombstones: "inv d \<Longrightarrow> inv (d\<lparr>retention_tombstones := bs\<rparr>)"
    and inv_peers: "inv d \<Longrightarrow> inv (d\<lparr>direct_peer_buckets := ps\<rparr>)"
    and inv_receipts: "inv d \<Longrightarrow> inv (d\<lparr>idempotency_records := rs\<rparr>)"
    and inv_events: "inv d \<Longrightarrow> inv (d\<lparr>change_events := es\<rparr>)"
begin

lemmas inv_bookkeeping = inv_tasks inv_tombstones inv_peers inv_receipts inv_events

lemma inv_purge: "inv d \<Longrightarrow> inv (purge_residues rt i d)"
  by (simp add: purge_residues_def inv_bookkeeping)

lemma inv_residues: "inv d \<Longrightarrow> inv (dispose_residues task v d)"
  by (auto simp: dispose_residues_def Let_def inv_purge split: option.split)

lemma process_keeps_inv:
  assumes ok: "inv d" and call: "process ex env now cl (d, t) = ((d', t'), res)"
  shows "inv d'"
proof (cases "leased_task cl d")
  case None
  with call ok process_lost [OF None] show ?thesis by simp
next
  case (Some task)
  from call Some show ?thesis
  proof (cases rule: process_cases)
    case (disposed d1)
    from disposed(3) show ?thesis
    proof (rule dispose_resource_removal)
      fix d2 v assume "removal env (task_resource_type task, task_resource_id task) d d2"
        and "d1 = dispose_residues task v d2"
      then have "inv d1" using inv_removal [OF _ ok] by (simp add: inv_residues)
      with disposed(5) show ?thesis by (simp add: save_task_def add_tombstone_def inv_bookkeeping)
    qed
  next
    case (failed f)
    with settle_failure_tasks [OF failed(1) Some] ok show ?thesis
      by (auto simp: save_task_def inv_bookkeeping)
  qed (use ok in \<open>auto simp: save_task_def inv_bookkeeping\<close>)
qed

lemma run_claims_keeps_inv:
  "inv (fst w) \<Longrightarrow> inv (fst (fst (run_claims ex envs tokens now n w r)))"
proof (induction ex envs tokens now n w r rule: run_claims.induct)
  case (2 ex envs tokens now n w r)
  obtain d cl where claim: "claim_one ex now (tokens n) [] (lifecycle_tasks (fst w)) (fst w) = (d, cl)"
    by fastforce
  then have d: "inv d"
    using "2.prems" by (auto simp: claim_one_def inv_bookkeeping split: option.splits if_splits)
  show ?case
  proof (cases cl)
    case None
    with claim d show ?thesis by simp
  next
    case (Some cl')
    obtain w' res where proc: "process ex (envs n) now cl' (d, snd w) = (w', res)" by fastforce
    then have "inv (fst w')" using process_keeps_inv [OF d] by (metis prod.collapse)
    with "2.IH" [OF claim [symmetric] Some proc [symmetric]] claim Some proc show ?thesis by simp
  qed
qed simp

lemma run_once_keeps_inv:
  assumes "inv d" and "run_once ex new_id envs tokens limit now (d, t) = Inr ((d', t'), r)"
  shows "inv d'"
proof -
  obtain n d1 where disc: "discover new_id (nat limit) now d = (n, d1)" by fastforce
  then have "inv d1"
    using assms(1) by (auto simp: discover_def Let_def inv_bookkeeping split: prod.splits)
  moreover from assms(2) disc have "run_claims ex envs tokens now (nat limit) (d1, t)
      \<lparr>rr_discovered = n, rr_disposed = 0, rr_held = 0, rr_retried = 0, rr_dead_lettered = 0\<rparr> = ((d', t'), r)"
    by (simp add: run_once_def split: if_splits)
  ultimately show ?thesis
    using run_claims_keeps_inv [of "(d1, t)" ex envs tokens now "nat limit"] by (metis fst_conv)
qed

end

lemma removal_refs: "removal env r d d' \<Longrightarrow> graph_refs_ok d \<Longrightarrow> graph_refs_ok d'"
proof (induction rule: removal.induct)
  case (9 i d d')
  then have "messages d' = messages d" "conversations d' = conversations d"
    "connections d' = connections d" "connection_requests d' = connection_requests d"
    by (auto simp: dispose_moderation_case_def split: option.splits if_splits)
  with 9 show ?case by (simp add: graph_refs_ok_def)
qed (auto simp: graph_refs_ok_def image_keeps)

interpretation refs: retention_invariant graph_refs_ok
  by unfold_locales (auto simp: removal_refs, simp_all add: graph_refs_ok_def)



subsection \<open>Outcomes, back-off and dead letters\<close>

lemma settle_failure_outcome:
  assumes "settle_failure ex f now cl d = (d', res)" and "leased_task cl d = Some task"
    and "get_row task_id (cl_id cl) (lifecycle_tasks d) = Some task"
  shows "case get_row task_id (cl_id cl) (lifecycle_tasks d') of
       None \<Rightarrow> res = Retry
     | Some task' \<Rightarrow>
         (res = Retry \<and> task_state task' = Queued \<and> now + seconds 1 \<le> task_available_at task' \<and>
            task_available_at task' \<le> now + seconds 60 \<and>
            (f \<noteq> Dependency_Pending \<longrightarrow> task_attempts task' < ex_max_attempts ex)) \<or>
         (res = Dead_Lettered \<and> task_state task' = Dead_Letter \<and> ex_max_attempts ex \<le> task_attempts task')"
proof -
  have bounds: "1 \<le> min 60 ((2::int) ^ n)" "min 60 ((2::int) ^ n) \<le> 60" for n
    by (simp_all add: one_le_power)
  have "task_id task = cl_id cl" using leased_taskD [OF assms(2)] by simp
  then show ?thesis
    using assms bounds seconds_mono
    by (auto simp: settle_failure_def retry_or_dead_letter_def defer_dependency_def cancel_stale_task_def
        release_lease_def save_task_def get_row_save get_row_delete_row Let_def split: if_splits)
qed



end
