(* ===== verification/SearchProjection.thy ===== *)
theory SearchProjection
  imports Storage Schema WorkQueue
begin

text \<open>
  The durable search projection: \<open>services/search_projection.py\<close>, the writer half of
  \<open>services/search.py\<close> (\<open>MeiliSearchProjection.index\<close> and \<open>delete_document\<close>) and the health
  verdict of \<open>search_projection_worker.py\<close>.  The search service itself is outside the program:
  it is a parameter, a record of its calls, with what the program relies on in \<open>service_ok\<close>.
  The conversion of canonical Markdown to an index entry is the parameter \<open>entry_of\<close>.
\<close>

subsection \<open>Rows and state\<close>

datatype projection_task_state = P_Pending | P_Leased | P_Dead_Letter

record projection_task =
  pt_document_id :: string
  pt_version :: int
  pt_state :: projection_task_state
  pt_attempts :: int
  pt_available_at :: time
  pt_lease_expires_at :: "time option"
  pt_claimed_by :: "string option"
  pt_claim_token :: "string option"
  pt_last_error_code :: "string option"
  pt_dead_lettered_at :: "time option"
  pt_created_at :: time
  pt_updated_at :: time

definition pt_key :: "projection_task \<Rightarrow> string \<times> int" where
  "pt_key t = (pt_document_id t, pt_version t)"

text \<open>An entry of the index: the document it is for, its version and the projected fields.\<close>

record entry =
  en_id :: string
  en_version :: int
  en_visibility :: string
  en_fs :: "(string \<times> pystr) list"

record 'ix projection_state =
  ps_documents :: "document_row list"
  ps_versions :: "document_version_row list"
  ps_tasks :: "projection_task list"
  ps_index :: 'ix

subsection \<open>The search service\<close>

datatype delete_reply = Delete_Not_Found | Delete_Succeeded | Delete_Failed

datatype get_reply = Get_Not_Found | Get_Found | Get_Failed

text \<open>
  \<open>sv_put\<close> is the \<open>PUT\<close> with the polling of its task, with \<open>True\<close> when the task succeeded;
  \<open>sv_ready\<close> the read-only index gate of \<open>require_index\<close>; \<open>sv_delete\<close> and \<open>sv_get\<close> the deletion
  (with the polling) and the residual lookup; \<open>sv_holds\<close> what a search can return.
\<close>

record 'ix service =
  sv_ready :: "'ix \<Rightarrow> bool"
  sv_put :: "entry \<Rightarrow> 'ix \<Rightarrow> 'ix \<times> bool"
  sv_delete :: "string \<Rightarrow> 'ix \<Rightarrow> 'ix \<times> delete_reply"
  sv_get :: "string \<Rightarrow> 'ix \<Rightarrow> get_reply"
  sv_holds :: "'ix \<Rightarrow> string \<Rightarrow> entry option"

definition service_ok :: "'ix service \<Rightarrow> bool" where
  "service_ok sv \<longleftrightarrow>
     (\<forall>e ix ix'. sv_put sv e ix = (ix', True) \<longrightarrow> sv_holds sv ix' (en_id e) = Some e) \<and>
     (\<forall>e ix ix' b i. sv_put sv e ix = (ix', b) \<longrightarrow> i \<noteq> en_id e \<longrightarrow> sv_holds sv ix' i = sv_holds sv ix i) \<and>
     (\<forall>e ix ix'. sv_put sv e ix = (ix', False) \<longrightarrow>
        sv_holds sv ix' (en_id e) \<in> {sv_holds sv ix (en_id e), Some e}) \<and>
     (\<forall>d ix ix' r i. sv_delete sv d ix = (ix', r) \<longrightarrow> i \<noteq> d \<longrightarrow> sv_holds sv ix' i = sv_holds sv ix i) \<and>
     (\<forall>d ix ix' r. sv_delete sv d ix = (ix', r) \<longrightarrow> sv_holds sv ix' d \<in> {sv_holds sv ix d, None}) \<and>
     (\<forall>d ix ix'. sv_delete sv d ix = (ix', Delete_Not_Found) \<longrightarrow> sv_holds sv ix' d = None) \<and>
     (\<forall>d ix. sv_get sv d ix = Get_Not_Found \<longrightarrow> sv_holds sv ix d = None)"

datatype projection_error =
    Projection_Failure string bool | Search_Unavailable | Storage_Integrity | Os_Or_Value_Error
  | Other_Exception

datatype attestation = Unconfigured | Deleted | Absent

definition delete_document ::
    "'ix service \<Rightarrow> bool \<Rightarrow> string \<Rightarrow> 'ix \<Rightarrow> 'ix \<times> (projection_error + attestation)" where
  "delete_document sv enabled i ix =
     (if \<not> enabled then (ix, Inr Unconfigured)
      else
        (case sv_delete sv i ix of
           (ix', Delete_Not_Found) \<Rightarrow> (ix', Inr Absent)
         | (ix', Delete_Failed) \<Rightarrow> (ix', Inl Search_Unavailable)
         | (ix', Delete_Succeeded) \<Rightarrow>
             (case sv_get sv i ix' of
                Get_Not_Found \<Rightarrow> (ix', Inr Deleted)
              | _ \<Rightarrow> (ix', Inl Search_Unavailable))))"

definition index_document ::
    "'ix service \<Rightarrow> bool \<Rightarrow> (document_row \<Rightarrow> pystr \<Rightarrow> projection_error + (string \<times> pystr) list)
      \<Rightarrow> document_row \<Rightarrow> pystr \<Rightarrow> 'ix \<Rightarrow> 'ix \<times> (projection_error + unit)" where
  "index_document sv enabled entry_of doc markdown ix =
     (if doc_visibility doc \<noteq> ''public'' then
        (case delete_document sv enabled (doc_id doc) ix of
           (ix', Inl e) \<Rightarrow> (ix', Inl e)
         | (ix', Inr _) \<Rightarrow> (ix', Inr ()))
      else if \<not> enabled then (ix, Inl Search_Unavailable)
      else if \<not> sv_ready sv ix then (ix, Inl Search_Unavailable)
      else
        (case entry_of doc markdown of
           Inl e \<Rightarrow> (ix, Inl e)
         | Inr fs \<Rightarrow>
             (case sv_put sv \<lparr>en_id = doc_id doc, en_version = doc_current_version doc,
                     en_visibility = doc_visibility doc, en_fs = fs\<rparr> ix of
                (ix', True) \<Rightarrow> (ix', Inr ())
              | (ix', False) \<Rightarrow> (ix', Inl Search_Unavailable))))"

subsection \<open>Configuration, claims and results\<close>

record projector =
  pj_worker_id :: string
  pj_lease_seconds :: int
  pj_max_attempts :: int
  pj_max_backoff_seconds :: int

record projection_claim =
  pc_document_id :: string
  pc_version :: int
  pc_claim_token :: string
  pc_attempts :: int

datatype projection_action =
    Idle | Lost_Lease | Removed_Missing | Superseded | Indexed | Removed_Private
  | Retry_Scheduled | Dead_Lettered_Task

record projection_result =
  pr_action :: projection_action
  pr_document_id :: "string option"
  pr_version :: "int option"
  pr_attempts :: "int option"
  pr_error_code :: "string option"

definition claim_result :: "projection_action \<Rightarrow> projection_claim \<Rightarrow> projection_result" where
  "claim_result a cl = \<lparr>pr_action = a, pr_document_id = Some (pc_document_id cl),
     pr_version = Some (pc_version cl), pr_attempts = Some (pc_attempts cl), pr_error_code = None\<rparr>"

record 'ix projection_env =
  pe_service :: "'ix service"
  pe_enabled :: bool
  pe_sha :: "pybytes \<Rightarrow> string"
  pe_content :: "string \<Rightarrow> pybytes option"
  pe_entry_of :: "document_row \<Rightarrow> pystr \<Rightarrow> projection_error + (string \<times> pystr) list"
  pe_commit_fails :: bool
  pe_interim :: "document_row list \<Rightarrow> document_row list"
  pe_fail_now :: time

subsection \<open>Claiming\<close>

definition pt_eligible :: "time \<Rightarrow> projection_task \<Rightarrow> bool" where
  "pt_eligible now t \<longleftrightarrow>
     (pt_state t = P_Pending \<and> pt_available_at t \<le> now) \<or>
     (pt_state t = P_Leased \<and> (case pt_lease_expires_at t of None \<Rightarrow> False | Some e \<Rightarrow> e \<le> now))"

definition projection_claim_row :: "projector \<Rightarrow> time \<Rightarrow> string \<Rightarrow> projection_task \<Rightarrow> projection_task" where
  "projection_claim_row pj now token t =
     t\<lparr>pt_state := P_Leased, pt_claimed_by := Some (pj_worker_id pj), pt_claim_token := Some token,
       pt_lease_expires_at := Some (now + seconds (pj_lease_seconds pj)),
       pt_attempts := pt_attempts t + 1, pt_updated_at := now\<rparr>"

definition claim_projection ::
    "projector \<Rightarrow> time \<Rightarrow> string \<Rightarrow> (string \<times> int) list \<Rightarrow> 'ix projection_state
      \<Rightarrow> 'ix projection_state \<times> projection_claim option" where
  "claim_projection pj now token locked s =
     (case first_row (order_by (\<lambda>t. (pt_available_at t, pt_created_at t, pt_document_id t, pt_version t))
             (rows_where (\<lambda>t. pt_eligible now t \<and> pt_key t \<notin> set locked) (ps_tasks s))) of
        None \<Rightarrow> (s, None)
      | Some t \<Rightarrow>
          (let t' = projection_claim_row pj now token t in
           (s\<lparr>ps_tasks := save_row pt_key t' (ps_tasks s)\<rparr>,
            Some \<lparr>pc_document_id = pt_document_id t', pc_version = pt_version t',
              pc_claim_token = token, pc_attempts = pt_attempts t'\<rparr>)))"

definition projection_leased_task ::
    "projector \<Rightarrow> projection_claim \<Rightarrow> 'ix projection_state \<Rightarrow> projection_task option" where
  "projection_leased_task pj cl s =
     row_where (\<lambda>t. pt_document_id t = pc_document_id cl \<and> pt_version t = pc_version cl \<and>
        pt_state t = P_Leased \<and> pt_claimed_by t = Some (pj_worker_id pj) \<and>
        pt_claim_token t = Some (pc_claim_token cl)) (ps_tasks s)"

subsection \<open>Projecting\<close>

definition drop_task :: "projection_task \<Rightarrow> 'ix projection_state \<Rightarrow> 'ix projection_state" where
  "drop_task t s = s\<lparr>ps_tasks := delete_row pt_key (pt_key t) (ps_tasks s)\<rparr>"

text \<open>The commit of \<open>_project\<close>: when it fails, the ledger rolls back and the index does not.\<close>

definition project_commit ::
    "'ix projection_env \<Rightarrow> projection_action \<Rightarrow> projection_claim \<Rightarrow> projection_task \<Rightarrow> 'ix projection_state
      \<Rightarrow> 'ix projection_state \<times> (projection_error + projection_result)" where
  "project_commit env a cl t s =
     (if pe_commit_fails env then (s, Inl Other_Exception)
      else (drop_task t s, Inr (claim_result a cl)))"

definition remove_from_index ::
    "'ix projection_env \<Rightarrow> string \<Rightarrow> 'ix projection_state \<Rightarrow> 'ix projection_state \<times> (projection_error + unit)" where
  "remove_from_index env i s =
     (case delete_document (pe_service env) (pe_enabled env) i (ps_index s) of
        (ix, Inl e) \<Rightarrow> (s\<lparr>ps_index := ix\<rparr>, Inl e)
      | (ix, Inr a) \<Rightarrow>
          (s\<lparr>ps_index := ix\<rparr>,
           if a = Unconfigured then Inl (Projection_Failure ''search_unconfigured'' True) else Inr ()))"

definition index_current ::
    "'ix projection_env \<Rightarrow> document_row \<Rightarrow> 'ix projection_state \<Rightarrow> 'ix projection_state \<times> (projection_error + unit)" where
  "index_current env doc s =
     (case row_where (\<lambda>v. dv_document_id v = doc_id doc \<and> dv_version v = doc_current_version doc) (ps_versions s) of
        None \<Rightarrow> (s, Inl (Projection_Failure ''projection_version_missing'' False))
      | Some v \<Rightarrow>
          (case read_verified (pe_sha env) (pe_content env (dv_storage_path v)) (dv_sha256 v) of
             Inl _ \<Rightarrow> (s, Inl Storage_Integrity)
           | Inr markdown \<Rightarrow>
               (case index_document (pe_service env) (pe_enabled env) (pe_entry_of env) doc markdown (ps_index s) of
                  (ix, r) \<Rightarrow> (s\<lparr>ps_index := ix\<rparr>, r))))"

definition project ::
    "projector \<Rightarrow> 'ix projection_env \<Rightarrow> projection_claim \<Rightarrow> 'ix projection_state
      \<Rightarrow> 'ix projection_state \<times> (projection_error + projection_result)" where
  "project pj env cl s =
     (case projection_leased_task pj cl s of
        None \<Rightarrow> (s, Inr (claim_result Lost_Lease cl))
      | Some t \<Rightarrow>
          (case row_where (\<lambda>x. doc_id x = pc_document_id cl) (ps_documents s) of
             None \<Rightarrow>
               (case remove_from_index env (pc_document_id cl) s of
                  (s', Inl e) \<Rightarrow> (s', Inl e)
                | (s', Inr _) \<Rightarrow> project_commit env Removed_Missing cl t s')
           | Some doc \<Rightarrow>
               if doc_current_version doc \<noteq> pc_version cl then project_commit env Superseded cl t s
               else if \<not> pe_enabled env then (s, Inl (Projection_Failure ''search_unconfigured'' True))
               else if doc_visibility doc = ''public'' then
                 (case index_current env doc s of
                    (s', Inl e) \<Rightarrow> (s', Inl e)
                  | (s', Inr _) \<Rightarrow> project_commit env Indexed cl t s')
               else
                 (case remove_from_index env (doc_id doc) s of
                    (s', Inl e) \<Rightarrow> (s', Inl e)
                  | (s', Inr _) \<Rightarrow> project_commit env Removed_Private cl t s')))"

definition projection_fail ::
    "projector \<Rightarrow> time \<Rightarrow> projection_claim \<Rightarrow> string \<Rightarrow> bool \<Rightarrow> 'ix projection_state
      \<Rightarrow> 'ix projection_state \<times> projection_result" where
  "projection_fail pj now cl error_code retryable s =
     (case projection_leased_task pj cl s of
        None \<Rightarrow> (s, claim_result Lost_Lease cl)
      | Some t \<Rightarrow>
          (let current = map_option doc_current_version
                 (row_where (\<lambda>x. doc_id x = pc_document_id cl) (ps_documents s)) in
           if current \<noteq> None \<and> current \<noteq> Some (pc_version cl)
           then (drop_task t s, claim_result Superseded cl)
           else
             (let dead = (\<not> retryable \<or> pt_attempts t \<ge> pj_max_attempts pj);
                  t' = t\<lparr>pt_state := (if dead then P_Dead_Letter else P_Pending),
                    pt_available_at := (if dead then now
                      else now + seconds (min (2 ^ min (nat (pt_attempts t)) 20) (pj_max_backoff_seconds pj))),
                    pt_lease_expires_at := None, pt_claimed_by := None, pt_claim_token := None,
                    pt_last_error_code := Some error_code,
                    pt_dead_lettered_at := (if dead then Some now else None), pt_updated_at := now\<rparr>
              in (s\<lparr>ps_tasks := save_row pt_key t' (ps_tasks s)\<rparr>,
                  \<lparr>pr_action = (if dead then Dead_Lettered_Task else Retry_Scheduled),
                   pr_document_id = Some (pc_document_id cl), pr_version = Some (pc_version cl),
                   pr_attempts = Some (pt_attempts t'), pr_error_code = Some error_code\<rparr>))))"

text \<open>The \<open>except\<close> clauses of \<open>run_once\<close>.\<close>

fun error_handling :: "projection_error \<Rightarrow> string \<times> bool" where
  "error_handling (Projection_Failure code retryable) = (code, retryable)"
| "error_handling Search_Unavailable = (''search_unavailable'', True)"
| "error_handling Storage_Integrity = (''storage_integrity'', True)"
| "error_handling Os_Or_Value_Error = (''projection_persistence'', True)"
| "error_handling Other_Exception = (''projection_failed'', True)"

text \<open>
  \<open>pe_interim\<close> is what document writers commit between a failed attempt and the transaction
  that records the failure.
\<close>

definition projection_settle ::
    "projector \<Rightarrow> 'ix projection_env \<Rightarrow> projection_claim \<Rightarrow> 'ix projection_state
      \<Rightarrow> 'ix projection_state \<times> projection_result" where
  "projection_settle pj env cl s =
     (case project pj env cl s of
        (s', Inr r) \<Rightarrow> (s', r)
      | (s', Inl e) \<Rightarrow>
          (case error_handling e of
             (code, retryable) \<Rightarrow>
               projection_fail pj (pe_fail_now env) cl code retryable
                 (s'\<lparr>ps_documents := pe_interim env (ps_documents s')\<rparr>)))"

definition projection_run_once ::
    "projector \<Rightarrow> 'ix projection_env \<Rightarrow> time \<Rightarrow> string \<Rightarrow> 'ix projection_state
      \<Rightarrow> 'ix projection_state \<times> projection_result" where
  "projection_run_once pj env now token s =
     (case claim_projection pj now token [] s of
        (s', None) \<Rightarrow> (s', \<lparr>pr_action = Idle, pr_document_id = None, pr_version = None,
           pr_attempts = None, pr_error_code = None\<rparr>)
      | (s', Some cl) \<Rightarrow> projection_settle pj env cl s')"

text \<open>What a document write does to the queue: drop older dead letters, add work for its version.\<close>

definition enqueue_projection :: "string \<Rightarrow> int \<Rightarrow> time \<Rightarrow> 'ix projection_state \<Rightarrow> 'ix projection_state" where
  "enqueue_projection i v now s = s\<lparr>ps_tasks := insert_row
     \<lparr>pt_document_id = i, pt_version = v, pt_state = P_Pending, pt_attempts = 0,
      pt_available_at = now, pt_lease_expires_at = None, pt_claimed_by = None, pt_claim_token = None,
      pt_last_error_code = None, pt_dead_lettered_at = None, pt_created_at = now, pt_updated_at = now\<rparr>
     (delete_where (\<lambda>t. pt_document_id t = i \<and> pt_version t < v \<and> pt_state t = P_Dead_Letter) (ps_tasks s))\<rparr>"

subsection \<open>Operator commands and health\<close>

definition dead_letters :: "'ix projection_state \<Rightarrow> projection_task list" where
  "dead_letters s = rows_where (\<lambda>t. pt_state t = P_Dead_Letter) (ps_tasks s)"

text \<open>Ascending order with \<open>NULL\<close>s first would not matter: a dead letter has its time set.\<close>

definition list_dead_letters :: "nat \<Rightarrow> 'ix projection_state \<Rightarrow> projection_task list" where
  "list_dead_letters limit s =
     take limit (order_by (\<lambda>t. (the (pt_dead_lettered_at t), pt_document_id t, pt_version t)) (dead_letters s))"

definition count_dead_letters :: "'ix projection_state \<Rightarrow> nat" where
  "count_dead_letters s = length (dead_letters s)"

definition retry_dead_letter ::
    "string \<Rightarrow> int \<Rightarrow> time \<Rightarrow> 'ix projection_state \<Rightarrow> 'ix projection_state \<times> bool" where
  "retry_dead_letter i v now s =
     (case row_where (\<lambda>t. pt_document_id t = i \<and> pt_version t = v \<and> pt_state t = P_Dead_Letter) (ps_tasks s) of
        None \<Rightarrow> (s, False)
      | Some t \<Rightarrow>
          (s\<lparr>ps_tasks := save_row pt_key
               (t\<lparr>pt_state := P_Pending, pt_attempts := 0, pt_available_at := now,
                  pt_lease_expires_at := None, pt_claimed_by := None, pt_claim_token := None,
                  pt_last_error_code := None, pt_dead_lettered_at := None, pt_updated_at := now\<rparr>)
               (ps_tasks s)\<rparr>, True))"

record projection_health =
  ph_backlog_count :: nat
  ph_eligible_count :: nat
  ph_dead_letter_count :: nat
  ph_oldest_backlog_age_seconds :: int

definition in_backlog :: "projection_task \<Rightarrow> bool" where
  "in_backlog t \<longleftrightarrow> pt_state t = P_Pending \<or> pt_state t = P_Leased"

text \<open>\<open>int(delta.total_seconds())\<close> truncates towards zero, and the \<open>max\<close> cuts negative ages.\<close>

definition health_snapshot :: "time \<Rightarrow> 'ix projection_state \<Rightarrow> projection_health" where
  "health_snapshot now s =
     \<lparr>ph_backlog_count = length (rows_where in_backlog (ps_tasks s)),
      ph_eligible_count = length (rows_where (pt_eligible now) (ps_tasks s)),
      ph_dead_letter_count = count_dead_letters s,
      ph_oldest_backlog_age_seconds =
        (case first_row (order_by pt_created_at (rows_where in_backlog (ps_tasks s))) of
           None \<Rightarrow> 0
         | Some t \<Rightarrow> max 0 ((now - pt_created_at t) div 1000000))\<rparr>"

record health_settings =
  hs_max_healthy_dead_letters :: int
  hs_max_healthy_backlog_age_seconds :: int

definition health_state :: "health_settings \<Rightarrow> projection_health \<Rightarrow> bool" where
  "health_state hs h \<longleftrightarrow>
     int (ph_dead_letter_count h) \<le> hs_max_healthy_dead_letters hs \<and>
     ph_oldest_backlog_age_seconds h \<le> hs_max_healthy_backlog_age_seconds hs"

subsection \<open>The effect on the index\<close>

lemma service_okD:
  assumes "service_ok sv"
  shows "sv_put sv e ix = (ix', True) \<Longrightarrow> sv_holds sv ix' (en_id e) = Some e"
    and "sv_put sv e ix = (ix', b) \<Longrightarrow> i \<noteq> en_id e \<Longrightarrow> sv_holds sv ix' i = sv_holds sv ix i"
    and "sv_put sv e ix = (ix', False) \<Longrightarrow>
      sv_holds sv ix' (en_id e) = sv_holds sv ix (en_id e) \<or> sv_holds sv ix' (en_id e) = Some e"
    and "sv_delete sv k ix = (ix', r) \<Longrightarrow> i \<noteq> k \<Longrightarrow> sv_holds sv ix' i = sv_holds sv ix i"
    and "sv_delete sv k ix = (ix', r) \<Longrightarrow> sv_holds sv ix' k = sv_holds sv ix k \<or> sv_holds sv ix' k = None"
    and "sv_delete sv k ix = (ix', Delete_Not_Found) \<Longrightarrow> sv_holds sv ix' k = None"
    and "sv_get sv k ix = Get_Not_Found \<Longrightarrow> sv_holds sv ix k = None"
  using assms unfolding service_ok_def
  by (metis, metis, metis insert_iff singletonD, metis, metis insert_iff singletonD, metis, metis)

lemma delete_document_effect:
  assumes "service_ok sv" and "delete_document sv enabled k ix = (ix', r)"
  shows "(i \<noteq> k \<longrightarrow> sv_holds sv ix' i = sv_holds sv ix i) \<and>
     (sv_holds sv ix' k = sv_holds sv ix k \<or> sv_holds sv ix' k = None) \<and>
     (r = Inr Deleted \<or> r = Inr Absent \<longrightarrow> sv_holds sv ix' k = None)"
proof (cases enabled)
  case False
  with assms(2) show ?thesis by (auto simp: delete_document_def)
next
  case True
  obtain ix1 reply where del: "sv_delete sv k ix = (ix1, reply)" by fastforce
  with assms(2) True have [simp]: "ix1 = ix'"
    by (auto simp: delete_document_def split: delete_reply.splits get_reply.splits)
  have "sv_holds sv ix' k = None" if "r = Inr Deleted \<or> r = Inr Absent"
  proof (cases reply)
    case Delete_Not_Found
    with service_okD(6) [OF assms(1)] del show ?thesis by simp
  next
    case Delete_Succeeded
    with assms(2) True del that have "sv_get sv k ix' = Get_Not_Found"
      by (auto simp: delete_document_def split: get_reply.splits)
    then show ?thesis by (rule service_okD(7) [OF assms(1)])
  next
    case Delete_Failed
    with assms(2) True del that show ?thesis by (auto simp: delete_document_def)
  qed
  with service_okD(4,5) [OF assms(1) del] show ?thesis by auto
qed

text \<open>The entry that stands for a document in the index.\<close>

definition entry_for :: "'ix projection_env \<Rightarrow> document_row \<Rightarrow> pystr \<Rightarrow> entry option" where
  "entry_for env doc markdown =
     (case pe_entry_of env doc markdown of
        Inl _ \<Rightarrow> None
      | Inr fs \<Rightarrow> Some \<lparr>en_id = doc_id doc, en_version = doc_current_version doc,
          en_visibility = doc_visibility doc, en_fs = fs\<rparr>)"

lemma index_document_effect:
  assumes ok: "service_ok (pe_service env)" and pub: "doc_visibility doc = ''public''"
    and "index_document (pe_service env) (pe_enabled env) (pe_entry_of env) doc markdown ix = (ix', r)"
  shows "(i \<noteq> doc_id doc \<longrightarrow> sv_holds (pe_service env) ix' i = sv_holds (pe_service env) ix i) \<and>
     (sv_holds (pe_service env) ix' (doc_id doc) = sv_holds (pe_service env) ix (doc_id doc) \<or>
        entry_for env doc markdown \<noteq> None \<and> sv_holds (pe_service env) ix' (doc_id doc) = entry_for env doc markdown) \<and>
     (r = Inr () \<longrightarrow> entry_for env doc markdown \<noteq> None \<and>
        sv_holds (pe_service env) ix' (doc_id doc) = entry_for env doc markdown)"
proof (cases "pe_enabled env \<and> sv_ready (pe_service env) ix \<and> (\<exists>fs. pe_entry_of env doc markdown = Inr fs)")
  case False
  with assms(3) pub show ?thesis
    by (auto simp: index_document_def split: sum.splits if_splits)
next
  case True
  then obtain fs where fs: "pe_entry_of env doc markdown = Inr fs" by blast
  let ?e = "\<lparr>en_id = doc_id doc, en_version = doc_current_version doc,
      en_visibility = doc_visibility doc, en_fs = fs\<rparr>"
  obtain ix1 b where put: "sv_put (pe_service env) ?e ix = (ix1, b)" by fastforce
  with assms(3) True fs pub have eq: "ix1 = ix'" "r = (if b then Inr () else Inl Search_Unavailable)"
    by (auto simp: index_document_def split: bool.splits)
  have entry: "entry_for env doc markdown = Some ?e" by (simp add: entry_for_def fs)
  show ?thesis
    using service_okD(1-3) [OF ok, of ?e ix ix'] put entry eq by (cases b) auto
qed

lemma remove_from_index_effect:
  assumes "service_ok (pe_service env)" and "remove_from_index env k s = (s', r)"
  shows "ps_documents s' = ps_documents s \<and> ps_versions s' = ps_versions s \<and> ps_tasks s' = ps_tasks s \<and>
     (i \<noteq> k \<longrightarrow> sv_holds (pe_service env) (ps_index s') i = sv_holds (pe_service env) (ps_index s) i) \<and>
     (sv_holds (pe_service env) (ps_index s') k = sv_holds (pe_service env) (ps_index s) k \<or>
        sv_holds (pe_service env) (ps_index s') k = None) \<and>
     (r = Inr () \<longrightarrow> sv_holds (pe_service env) (ps_index s') k = None)"
proof -
  obtain ix a where del: "delete_document (pe_service env) (pe_enabled env) k (ps_index s) = (ix, a)"
    by fastforce
  with assms(2) have "s' = s\<lparr>ps_index := ix\<rparr>"
    and "r = Inr () \<Longrightarrow> a = Inr Deleted \<or> a = Inr Absent"
    by (auto simp: remove_from_index_def split: sum.splits if_splits) (metis attestation.exhaust)
  with delete_document_effect [OF assms(1) del] show ?thesis by auto
qed

text \<open>
  \<open>legitimate env s i e\<close>: the entry \<open>e\<close> may stand in the index for document \<open>i\<close>, because the
  ledger has \<open>i\<close> as a public document and \<open>e\<close> is the projection of the verified bytes of its
  current version.
\<close>

definition legitimate :: "'ix projection_env \<Rightarrow> 'ix projection_state \<Rightarrow> string \<Rightarrow> entry \<Rightarrow> bool" where
  "legitimate env s i e \<longleftrightarrow>
     (\<exists>doc \<in> set (ps_documents s). \<exists>v \<in> set (ps_versions s). \<exists>markdown.
        doc_id doc = i \<and> doc_visibility doc = ''public'' \<and>
        dv_document_id v = i \<and> dv_version v = doc_current_version doc \<and>
        read_verified (pe_sha env) (pe_content env (dv_storage_path v)) (dv_sha256 v) = Inr markdown \<and>
        entry_for env doc markdown = Some e)"

lemma index_current_effect:
  assumes ok: "service_ok (pe_service env)" and doc: "doc \<in> set (ps_documents s)" "doc_visibility doc = ''public''"
    and call: "index_current env doc s = (s', r)"
  shows "ps_documents s' = ps_documents s \<and> ps_versions s' = ps_versions s \<and> ps_tasks s' = ps_tasks s \<and>
     (i \<noteq> doc_id doc \<longrightarrow> sv_holds (pe_service env) (ps_index s') i = sv_holds (pe_service env) (ps_index s) i) \<and>
     (sv_holds (pe_service env) (ps_index s') (doc_id doc) = sv_holds (pe_service env) (ps_index s) (doc_id doc) \<or>
        (\<exists>e. sv_holds (pe_service env) (ps_index s') (doc_id doc) = Some e \<and> legitimate env s (doc_id doc) e)) \<and>
     (r = Inr () \<longrightarrow> (\<exists>e. sv_holds (pe_service env) (ps_index s') (doc_id doc) = Some e \<and>
        en_version e = doc_current_version doc \<and> legitimate env s (doc_id doc) e))"
proof (cases "row_where (\<lambda>v. dv_document_id v = doc_id doc \<and> dv_version v = doc_current_version doc) (ps_versions s)")
  case None
  with call show ?thesis by (auto simp: index_current_def)
next
  case (Some v)
  then have v: "v \<in> set (ps_versions s)" "dv_document_id v = doc_id doc" "dv_version v = doc_current_version doc"
    by (auto dest: row_where_SomeD)
  show ?thesis
  proof (cases "read_verified (pe_sha env) (pe_content env (dv_storage_path v)) (dv_sha256 v)")
    case (Inl e)
    with Some call show ?thesis by (auto simp: index_current_def)
  next
    case (Inr markdown)
    obtain ix where idx: "index_document (pe_service env) (pe_enabled env) (pe_entry_of env) doc markdown (ps_index s) = (ix, r)"
      and s': "s' = s\<lparr>ps_index := ix\<rparr>"
      using call Some Inr by (auto simp: index_current_def split: prod.splits)
    have leg: "legitimate env s (doc_id doc) e" if "entry_for env doc markdown = Some e" for e
      unfolding legitimate_def using doc v Inr that by blast
    have ver: "en_version e = doc_current_version doc" if "entry_for env doc markdown = Some e" for e
      using that by (auto simp: entry_for_def split: sum.splits)
    note eff = index_document_effect [OF ok doc(2) idx]
    show ?thesis
    proof (cases "entry_for env doc markdown")
      case None
      with eff show ?thesis by (simp add: s')
    next
      case (Some e)
      with eff leg [OF Some] ver [OF Some] show ?thesis by (auto simp: s')
    qed
  qed
qed

lemma project_cases:
  assumes call: "project pj env cl s = (s', r)" and task: "projection_leased_task pj cl s = Some t"
  obtains
      (missing) s1 r1 where "row_where (\<lambda>x. doc_id x = pc_document_id cl) (ps_documents s) = None"
        and "remove_from_index env (pc_document_id cl) s = (s1, r1)"
        and "case r1 of Inl e \<Rightarrow> s' = s1 \<and> r = Inl e
             | Inr _ \<Rightarrow> (s', r) = project_commit env Removed_Missing cl t s1"
    | (superseded) doc where "row_where (\<lambda>x. doc_id x = pc_document_id cl) (ps_documents s) = Some doc"
        and "doc_current_version doc \<noteq> pc_version cl" and "(s', r) = project_commit env Superseded cl t s"
    | (unconfigured) "s' = s" "\<not> pe_enabled env" "r = Inl (Projection_Failure ''search_unconfigured'' True)"
    | (shown) doc s1 r1 where "row_where (\<lambda>x. doc_id x = pc_document_id cl) (ps_documents s) = Some doc"
        and "doc_current_version doc = pc_version cl" and "doc_visibility doc = ''public''"
        and "index_current env doc s = (s1, r1)"
        and "case r1 of Inl e \<Rightarrow> s' = s1 \<and> r = Inl e
             | Inr _ \<Rightarrow> (s', r) = project_commit env Indexed cl t s1"
    | (hidden) doc s1 r1 where "row_where (\<lambda>x. doc_id x = pc_document_id cl) (ps_documents s) = Some doc"
        and "doc_current_version doc = pc_version cl" and "doc_visibility doc \<noteq> ''public''"
        and "remove_from_index env (doc_id doc) s = (s1, r1)"
        and "case r1 of Inl e \<Rightarrow> s' = s1 \<and> r = Inl e
             | Inr _ \<Rightarrow> (s', r) = project_commit env Removed_Private cl t s1"
proof (cases "row_where (\<lambda>x. doc_id x = pc_document_id cl) (ps_documents s)")
  case None
  obtain s1 r1 where "remove_from_index env (pc_document_id cl) s = (s1, r1)" by fastforce
  with missing [OF None this] None call task show thesis
    by (cases r1) (auto simp: project_def)
next
  case (Some doc)
  consider "doc_current_version doc \<noteq> pc_version cl"
    | "doc_current_version doc = pc_version cl" "\<not> pe_enabled env"
    | "doc_current_version doc = pc_version cl" "pe_enabled env" "doc_visibility doc = ''public''"
    | "doc_current_version doc = pc_version cl" "pe_enabled env" "doc_visibility doc \<noteq> ''public''"
    by blast
  then show thesis
  proof cases
    case 1
    with superseded [OF Some] Some call task show thesis by (simp add: project_def)
  next
    case 2
    with unconfigured Some call task show thesis by (simp add: project_def)
  next
    case 3
    obtain s1 r1 where "index_current env doc s = (s1, r1)" by fastforce
    with shown [OF Some 3(1,3) this] Some call task 3 show thesis
      by (cases r1) (auto simp: project_def)
  next
    case 4
    obtain s1 r1 where "remove_from_index env (doc_id doc) s = (s1, r1)" by fastforce
    with hidden [OF Some 4(1,3) this] Some call task 4 show thesis
      by (cases r1) (auto simp: project_def)
  qed
qed

subsection \<open>The queue of projection tasks\<close>

definition pt_wf :: "projection_task \<Rightarrow> bool" where
  "pt_wf t \<longleftrightarrow>
     0 \<le> pt_attempts t \<and>
     (pt_state t = P_Leased \<longleftrightarrow> pt_lease_expires_at t \<noteq> None) \<and>
     (pt_state t = P_Leased \<longleftrightarrow> pt_claimed_by t \<noteq> None) \<and>
     (pt_state t = P_Leased \<longleftrightarrow> pt_claim_token t \<noteq> None) \<and>
     (pt_state t = P_Dead_Letter \<longleftrightarrow> pt_dead_lettered_at t \<noteq> None)"

definition tasks_ok :: "projection_task list \<Rightarrow> bool" where
  "tasks_ok ts \<longleftrightarrow> unique_by pt_key ts \<and> list_all pt_wf ts"

definition projection_ok :: "'ix projection_state \<Rightarrow> bool" where
  "projection_ok s = tasks_ok (ps_tasks s)"

lemma tasks_ok_save: "tasks_ok ts \<Longrightarrow> pt_wf t \<Longrightarrow> tasks_ok (save_row pt_key t ts)"
  by (auto simp: tasks_ok_def intro: list_all_intros)

lemma tasks_ok_delete: "tasks_ok ts \<Longrightarrow> tasks_ok (delete_row pt_key k ts)"
  by (auto simp: tasks_ok_def intro: list_all_intros unique_intros)

lemma projection_leased_taskD:
  "projection_leased_task pj cl s = Some t \<Longrightarrow>
     t \<in> set (ps_tasks s) \<and> pt_key t = (pc_document_id cl, pc_version cl) \<and> pt_state t = P_Leased \<and>
     pt_claimed_by t = Some (pj_worker_id pj) \<and> pt_claim_token t = Some (pc_claim_token cl)"
  by (auto simp: projection_leased_task_def pt_key_def dest!: row_where_SomeD)

text \<open>Projection itself only drops its own task; a failure rewrites or drops it.\<close>

lemma project_tasks:
  assumes "project pj env cl s = (s', r)" and "projection_leased_task pj cl s = Some t"
  shows "ps_tasks s' = (if \<exists>x. r = Inr x then delete_row pt_key (pt_key t) (ps_tasks s) else ps_tasks s)"
  using assms
proof (cases rule: project_cases)
  case (missing s1 r1)
  then show ?thesis
    by (cases r1) (auto simp: project_commit_def drop_task_def remove_from_index_def
        split: if_splits prod.splits sum.splits)
next
  case (shown doc s1 r1)
  then show ?thesis
    by (cases r1) (auto simp: project_commit_def drop_task_def index_current_def
        split: if_splits prod.splits sum.splits option.splits)
next
  case (hidden doc s1 r1)
  then show ?thesis
    by (cases r1) (auto simp: project_commit_def drop_task_def remove_from_index_def
        split: if_splits prod.splits sum.splits)
qed (auto simp: project_commit_def drop_task_def split: if_splits)

definition unleased_row :: "projection_task \<Rightarrow> projection_task \<Rightarrow> bool" where
  "unleased_row t t' \<longleftrightarrow>
     pt_key t' = pt_key t \<and> pt_state t' \<noteq> P_Leased \<and> pt_lease_expires_at t' = None \<and>
     pt_claimed_by t' = None \<and> pt_claim_token t' = None \<and> pt_attempts t' = pt_attempts t \<and>
     (pt_state t' = P_Dead_Letter \<longleftrightarrow> pt_dead_lettered_at t' \<noteq> None)"

lemma projection_settle_tasks:
  assumes "projection_settle pj env cl s = (s', r)" and task: "projection_leased_task pj cl s = Some t"
  shows "(\<exists>t'. ps_tasks s' = save_row pt_key t' (ps_tasks s) \<and> unleased_row t t') \<or>
     ps_tasks s' = delete_row pt_key (pt_key t) (ps_tasks s)"
proof -
  obtain s1 r1 where proj: "project pj env cl s = (s1, r1)" by fastforce
  note tasks = project_tasks [OF proj task]
  show ?thesis
  proof (cases r1)
    case (Inr x)
    with assms(1) proj tasks show ?thesis by (simp add: projection_settle_def)
  next
    case (Inl e)
    let ?s2 = "s1\<lparr>ps_documents := pe_interim env (ps_documents s1)\<rparr>"
    obtain code retryable where eh: "error_handling e = (code, retryable)" by fastforce
    have same: "ps_tasks s1 = ps_tasks s" using tasks Inl by simp
    then have "projection_leased_task pj cl ?s2 = Some t"
      using task by (simp add: projection_leased_task_def)
    moreover have "projection_fail pj (pe_fail_now env) cl code retryable ?s2 = (s', r)"
      using assms(1) proj Inl eh by (simp add: projection_settle_def)
    ultimately show ?thesis using same
      by (auto simp: projection_fail_def drop_task_def unleased_row_def pt_key_def Let_def split: if_splits)
  qed
qed

lemma projection_settle_lost:
  "projection_leased_task pj cl s = None \<Longrightarrow> projection_settle pj env cl s = (s, claim_result Lost_Lease cl)"
  by (simp add: projection_settle_def project_def)

lemma projection_settle_ok:
  assumes "projection_ok s" and "projection_settle pj env cl s = (s', r)"
  shows "projection_ok s'"
proof (cases "projection_leased_task pj cl s")
  case None
  with assms projection_settle_lost [OF None, of env] show ?thesis by simp
next
  case (Some t)
  have "pt_wf t" using projection_leased_taskD [OF Some] assms(1)
    by (auto simp: projection_ok_def tasks_ok_def list_all_iff)
  then have "pt_wf t'" if "unleased_row t t'" for t'
    using that by (auto simp: unleased_row_def pt_wf_def)
  with projection_settle_tasks [OF assms(2) Some] assms(1) show ?thesis
    by (auto simp: projection_ok_def tasks_ok_save tasks_ok_delete)
qed

lemma claim_projection_cases:
  assumes "claim_projection pj now token locked s = (s', cl)"
  obtains "s' = s" "cl = None"
    | t where "t \<in> set (ps_tasks s)" "pt_eligible now t"
        "s' = s\<lparr>ps_tasks := save_row pt_key (projection_claim_row pj now token t) (ps_tasks s)\<rparr>"
proof (cases "first_row (order_by (\<lambda>t. (pt_available_at t, pt_created_at t, pt_document_id t, pt_version t))
             (rows_where (\<lambda>t. pt_eligible now t \<and> pt_key t \<notin> set locked) (ps_tasks s)))")
  case None
  with assms that(1) show thesis by (simp add: claim_projection_def)
next
  case (Some t)
  from first_row_order_byD(1) [OF Some] have "t \<in> set (ps_tasks s)" "pt_eligible now t" by auto
  with Some assms that(2) show thesis by (simp add: claim_projection_def Let_def)
qed

lemma pt_key_claim_row [simp]: "pt_key (projection_claim_row pj now token t) = pt_key t"
  by (simp add: projection_claim_row_def pt_key_def)

lemma claim_projection_ok:
  assumes "projection_ok s"
  shows "projection_ok (fst (claim_projection pj now token locked s))"
proof -
  obtain s' cl where call: "claim_projection pj now token locked s = (s', cl)" by fastforce
  then show ?thesis
  proof (cases rule: claim_projection_cases)
    case (2 t)
    then have "pt_wf t" using assms by (auto simp: projection_ok_def tasks_ok_def list_all_iff)
    with 2 have "pt_wf (projection_claim_row pj now token t)"
      by (auto simp: pt_wf_def projection_claim_row_def pt_eligible_def)
    with 2 assms call show ?thesis by (auto simp: projection_ok_def intro: tasks_ok_save)
  qed (use assms call in simp)
qed

subsection \<open>The projection queue is a leased queue\<close>

definition pt_lease :: "'ix projection_state \<Rightarrow> string \<times> int \<Rightarrow> ((string \<times> string) \<times> time) option" where
  "pt_lease s k =
     (case get_row pt_key k (ps_tasks s) of
        None \<Rightarrow> None
      | Some t \<Rightarrow>
          (case (pt_claimed_by t, pt_claim_token t, pt_lease_expires_at t) of
             (Some w, Some tok, Some e) \<Rightarrow> Some ((w, tok), e)
           | _ \<Rightarrow> None))"

record projection_claim_call =
  pcc_projector :: projector
  pcc_now :: time
  pcc_token :: string
  pcc_locked :: "(string \<times> int) list"

record 'ix projection_settle_call =
  psc_projector :: projector
  psc_env :: "'ix projection_env"
  psc_claim :: projection_claim

definition do_projection_claim :: "projection_claim_call \<Rightarrow> 'ix projection_state \<Rightarrow> 'ix projection_state" where
  "do_projection_claim c s =
     fst (claim_projection (pcc_projector c) (pcc_now c) (pcc_token c) (pcc_locked c) s)"

definition do_projection_settle :: "'ix projection_settle_call \<Rightarrow> 'ix projection_state \<Rightarrow> 'ix projection_state" where
  "do_projection_settle p s = fst (projection_settle (psc_projector p) (psc_env p) (psc_claim p) s)"

definition projection_claimant :: "'ix projection_settle_call \<Rightarrow> (string \<times> int) \<times> (string \<times> string)" where
  "projection_claimant p =
     ((pc_document_id (psc_claim p), pc_version (psc_claim p)),
      (pj_worker_id (psc_projector p), pc_claim_token (psc_claim p)))"

datatype 'ix projection_other =
    Enqueue string int time
  | Requeue_Dead string int time
  | Rewrite "document_row list" "document_version_row list" 'ix

fun do_projection_other :: "'ix projection_other \<Rightarrow> 'ix projection_state \<Rightarrow> 'ix projection_state" where
  "do_projection_other (Enqueue i v now) s = enqueue_projection i v now s"
| "do_projection_other (Requeue_Dead i v now) s = fst (retry_dead_letter i v now s)"
| "do_projection_other (Rewrite ds vs ix) s = s\<lparr>ps_documents := ds, ps_versions := vs, ps_index := ix\<rparr>"

fun projection_other_allowed :: "'ix projection_other \<Rightarrow> 'ix projection_state \<Rightarrow> bool" where
  "projection_other_allowed (Enqueue i v now) s \<longleftrightarrow> (i, v) \<notin> pt_key ` set (ps_tasks s)"
| "projection_other_allowed _ s \<longleftrightarrow> True"

lemma pt_leaseD:
  assumes "pt_lease s k = Some ((w, tok), e)" and "projection_ok s"
  obtains t where "get_row pt_key k (ps_tasks s) = Some t" "t \<in> set (ps_tasks s)" "pt_key t = k"
    "pt_state t = P_Leased" "pt_claimed_by t = Some w" "pt_claim_token t = Some tok"
    "pt_lease_expires_at t = Some e"
proof -
  from assms(1) obtain t where t: "get_row pt_key k (ps_tasks s) = Some t"
    "pt_claimed_by t = Some w" "pt_claim_token t = Some tok" "pt_lease_expires_at t = Some e"
    by (auto simp: pt_lease_def split: option.splits)
  then have "t \<in> set (ps_tasks s)" "pt_key t = k" by (auto dest: get_row_SomeD)
  moreover from this t assms(2) have "pt_state t = P_Leased"
    by (auto simp: projection_ok_def tasks_ok_def list_all_iff pt_wf_def)
  ultimately show thesis using that t by blast
qed

lemma pt_lease_frame:
  "get_row pt_key k (ps_tasks s') = get_row pt_key k (ps_tasks s) \<Longrightarrow> pt_lease s' k = pt_lease s k"
  by (simp add: pt_lease_def)

lemma projection_claim_live:
  assumes "projection_ok s" "pt_lease s k = Some (h, e)" "pcc_now c < e"
  shows "pt_lease (do_projection_claim c s) k = Some (h, e)"
proof -
  obtain w tok where h: "h = (w, tok)" by (cases h)
  from assms(2,1) obtain t where t: "get_row pt_key k (ps_tasks s) = Some t" "t \<in> set (ps_tasks s)"
    "pt_key t = k" "pt_state t = P_Leased" "pt_lease_expires_at t = Some e"
    unfolding h by (rule pt_leaseD)
  obtain s' cl where call: "claim_projection (pcc_projector c) (pcc_now c) (pcc_token c) (pcc_locked c) s = (s', cl)"
    by fastforce
  then have "pt_lease s' k = pt_lease s k"
  proof (cases rule: claim_projection_cases)
    case (2 x)
    have "pt_key x \<noteq> k"
    proof
      assume "pt_key x = k"
      with 2 t assms(1) have "x = t" by (auto simp: projection_ok_def tasks_ok_def intro: unique_byD)
      with 2 t assms(3) show False by (auto simp: pt_eligible_def)
    qed
    with 2 show ?thesis by (intro pt_lease_frame) (auto simp: get_row_save)
  qed simp
  with assms(2) call show ?thesis by (simp add: do_projection_claim_def)
qed

lemma projection_settle_frame:
  assumes ok: "projection_ok s" and lease: "pt_lease s k = Some (h, e)"
    and other: "projection_claimant p \<noteq> (k, h)"
  shows "pt_lease (do_projection_settle p s) k = Some (h, e)"
proof -
  obtain w tok where h: "h = (w, tok)" by (cases h)
  obtain s' r where call: "projection_settle (psc_projector p) (psc_env p) (psc_claim p) s = (s', r)"
    by fastforce
  show ?thesis
  proof (cases "projection_leased_task (psc_projector p) (psc_claim p) s")
    case None
    with lease show ?thesis by (simp add: do_projection_settle_def projection_settle_lost)
  next
    case (Some t)
    note t = projection_leased_taskD [OF Some]
    from lease ok obtain x where x: "x \<in> set (ps_tasks s)" "pt_key x = k"
      "pt_claimed_by x = Some w" "pt_claim_token x = Some tok" unfolding h by (rule pt_leaseD)
    have "pt_key t \<noteq> k"
    proof
      assume "pt_key t = k"
      with t x ok have "x = t" by (auto simp: projection_ok_def tasks_ok_def intro: unique_byD)
      with t x other show False by (auto simp: projection_claimant_def h)
    qed
    then have "pt_lease s' k = pt_lease s k"
      using projection_settle_tasks [OF call Some]
      by (intro pt_lease_frame) (auto simp: table_simps unleased_row_def)
    with lease call show ?thesis by (simp add: do_projection_settle_def)
  qed
qed

lemma projection_settle_stale:
  assumes ok: "projection_ok s" and none: "\<forall>e. pt_lease s k \<noteq> Some (h, e)"
    and p: "projection_claimant p = (k, h)"
  shows "do_projection_settle p s = s"
proof -
  have "projection_leased_task (psc_projector p) (psc_claim p) s = None"
  proof (rule ccontr)
    assume "\<not> ?thesis"
    then obtain t where "projection_leased_task (psc_projector p) (psc_claim p) s = Some t" by blast
    note t = projection_leased_taskD [OF this]
    with ok obtain e where "pt_lease_expires_at t = Some e"
      by (auto simp: projection_ok_def tasks_ok_def list_all_iff pt_wf_def)
    moreover from t ok p have "get_row pt_key k (ps_tasks s) = Some t"
      by (auto simp: projection_ok_def tasks_ok_def projection_claimant_def get_row_iff)
    ultimately show False using t none p by (auto simp: pt_lease_def projection_claimant_def)
  qed
  then show ?thesis by (simp add: do_projection_settle_def projection_settle_lost)
qed

lemma projection_settle_ends:
  assumes ok: "projection_ok s" and p: "projection_claimant p = (k, h)"
  shows "pt_lease (do_projection_settle p s) k \<noteq> Some (h, e)"
proof (cases "projection_leased_task (psc_projector p) (psc_claim p) s")
  case None
  have "pt_lease s k \<noteq> Some (h, e)"
  proof
    assume lease: "pt_lease s k = Some (h, e)"
    obtain w tok where h: "h = (w, tok)" by (cases h)
    from lease ok show False unfolding h
      by (rule pt_leaseD)
        (use None p in \<open>auto simp: h projection_leased_task_def row_where_None projection_claimant_def pt_key_def\<close>)
  qed
  with None show ?thesis by (simp add: do_projection_settle_def projection_settle_lost)
next
  case (Some t)
  obtain s' r where call: "projection_settle (psc_projector p) (psc_env p) (psc_claim p) s = (s', r)"
    by fastforce
  from projection_leased_taskD [OF Some] p have k: "pt_key t = k" by (auto simp: projection_claimant_def)
  from projection_settle_tasks [OF call Some] show ?thesis
  proof (elim disjE exE conjE)
    fix t' assume "ps_tasks s' = save_row pt_key t' (ps_tasks s)" "unleased_row t t'"
    with call k show ?thesis
      by (cases "get_row pt_key k (ps_tasks s)")
        (auto simp: do_projection_settle_def pt_lease_def get_row_save unleased_row_def)
  next
    assume "ps_tasks s' = delete_row pt_key (pt_key t) (ps_tasks s)"
    with call k show ?thesis by (simp add: do_projection_settle_def pt_lease_def get_row_delete_row)
  qed
qed

lemma retry_dead_letter_row:
  assumes "retry_dead_letter i v now s = (s', True)"
  obtains t t' where "t \<in> set (ps_tasks s)" "pt_key t = (i, v)" "pt_state t = P_Dead_Letter"
    "pt_key t' = pt_key t" "pt_state t' = P_Pending" "pt_available_at t' = now" "pt_attempts t' = 0"
    "pt_lease_expires_at t' = None" "pt_claimed_by t' = None" "pt_claim_token t' = None"
    "pt_dead_lettered_at t' = None" "s' = s\<lparr>ps_tasks := save_row pt_key t' (ps_tasks s)\<rparr>"
proof -
  from assms obtain t where t: "row_where (\<lambda>t. pt_document_id t = i \<and> pt_version t = v \<and> pt_state t = P_Dead_Letter) (ps_tasks s) = Some t"
    by (auto simp: retry_dead_letter_def split: option.splits)
  let ?t' = "t\<lparr>pt_state := P_Pending, pt_attempts := 0, pt_available_at := now,
      pt_lease_expires_at := None, pt_claimed_by := None, pt_claim_token := None,
      pt_last_error_code := None, pt_dead_lettered_at := None, pt_updated_at := now\<rparr>"
  show thesis
    by (rule that [of t ?t']) (use t assms in \<open>auto simp: retry_dead_letter_def pt_key_def dest: row_where_SomeD\<close>)
qed

lemma retry_dead_letter_ok:
  assumes "projection_ok s"
  shows "projection_ok (fst (retry_dead_letter i v now s))"
    and "pt_lease s k = Some (h, e) \<Longrightarrow> pt_lease (fst (retry_dead_letter i v now s)) k = Some (h, e)"
proof -
  obtain s' b where call: "retry_dead_letter i v now s = (s', b)" by fastforce
  show "projection_ok (fst (retry_dead_letter i v now s))"
  proof (cases b)
    case True
    with call obtain t' where "pt_state t' = P_Pending" "pt_attempts t' = 0"
      "pt_lease_expires_at t' = None" "pt_claimed_by t' = None" "pt_claim_token t' = None"
      "pt_dead_lettered_at t' = None" "s' = s\<lparr>ps_tasks := save_row pt_key t' (ps_tasks s)\<rparr>"
      by (metis retry_dead_letter_row)
    with call assms show ?thesis by (simp add: projection_ok_def tasks_ok_save pt_wf_def)
  next
    case False
    with call assms show ?thesis by (auto simp: retry_dead_letter_def split: option.splits)
  qed
  assume lease: "pt_lease s k = Some (h, e)"
  show "pt_lease (fst (retry_dead_letter i v now s)) k = Some (h, e)"
  proof (cases b)
    case True
    with call obtain t t' where t: "t \<in> set (ps_tasks s)" "pt_state t = P_Dead_Letter" "pt_key t' = pt_key t"
      "s' = s\<lparr>ps_tasks := save_row pt_key t' (ps_tasks s)\<rparr>" by (metis retry_dead_letter_row)
    obtain w tok where h: "h = (w, tok)" by (cases h)
    from lease assms obtain x where x: "x \<in> set (ps_tasks s)" "pt_key x = k" "pt_state x = P_Leased"
      unfolding h by (rule pt_leaseD)
    have "pt_key t \<noteq> k"
    proof
      assume "pt_key t = k"
      with t x assms have "x = t" by (auto simp: projection_ok_def tasks_ok_def intro: unique_byD)
      with t x show False by simp
    qed
    with t call lease show ?thesis by (simp add: pt_lease_def get_row_save)
  next
    case False
    with call lease show ?thesis by (auto simp: retry_dead_letter_def split: option.splits)
  qed
qed

lemma get_row_append: "get_row key k (xs @ ys) = (case get_row key k xs of None \<Rightarrow> get_row key k ys | Some x \<Rightarrow> Some x)"
  by (induction xs) (auto simp: get_row_Cons)

lemma get_row_delete_where_keep:
  "get_row key k t = Some x \<Longrightarrow> \<not> p x \<Longrightarrow> unique_by key t \<Longrightarrow> get_row key k (delete_where p t) = Some x"
  by (simp add: get_row_iff unique_delete_where)

lemma enqueue_projection_ok:
  assumes "projection_ok s" and "(i, v) \<notin> pt_key ` set (ps_tasks s)"
  shows "projection_ok (enqueue_projection i v now s)"
    and "pt_lease s k = Some (h, e) \<Longrightarrow> pt_lease (enqueue_projection i v now s) k = Some (h, e)"
proof -
  show "projection_ok (enqueue_projection i v now s)"
    using assms by (auto simp: enqueue_projection_def projection_ok_def tasks_ok_def pt_key_def pt_wf_def
        intro: unique_intros list_all_intros)
  assume lease: "pt_lease s k = Some (h, e)"
  obtain w tok where h: "h = (w, tok)" by (cases h)
  from lease assms(1) obtain x where x: "get_row pt_key k (ps_tasks s) = Some x" "pt_state x = P_Leased"
    unfolding h by (rule pt_leaseD)
  have "get_row pt_key k (delete_where (\<lambda>t. pt_document_id t = i \<and> pt_version t < v \<and> pt_state t = P_Dead_Letter)
      (ps_tasks s)) = Some x"
    by (rule get_row_delete_where_keep) (use x assms(1) in \<open>auto simp: projection_ok_def tasks_ok_def\<close>)
  with x lease show "pt_lease (enqueue_projection i v now s) k = Some (h, e)"
    by (simp add: pt_lease_def enqueue_projection_def get_row_insert)
qed

interpretation projection_queue: leased_queue pt_lease projection_ok pcc_now do_projection_claim
  projection_claimant do_projection_settle projection_other_allowed do_projection_other
proof (unfold_locales, goal_cases)
  case 1 then show ?case by (simp add: do_projection_claim_def claim_projection_ok)
next
  case (2 s p) then show ?case by (metis do_projection_settle_def projection_settle_ok prod.collapse)
next
  case (3 s x) then show ?case
    by (cases x) (simp_all add: enqueue_projection_ok retry_dead_letter_ok, simp add: projection_ok_def)
next
  case 4 then show ?case by (rule projection_claim_live)
next
  case 5 then show ?case by (rule projection_settle_frame)
next
  case 6 then show ?case by (intro projection_settle_stale)
next
  case 7 then show ?case by (rule projection_settle_ends)
next
  case (8 s x k tok e) then show ?case
    by (cases x) (simp_all add: enqueue_projection_ok retry_dead_letter_ok, simp add: pt_lease_def)
qed

subsection \<open>Properties\<close>

lemma project_commit_index:
  "project_commit env a cl t s = (s', r) \<Longrightarrow>
     ps_index s' = ps_index s \<and> ps_documents s' = ps_documents s \<and> ps_versions s' = ps_versions s \<and>
     (\<forall>x. r = Inr x \<longrightarrow> pr_action x = a)"
  by (auto simp: project_commit_def drop_task_def claim_result_def split: if_splits)

lemma projection_fail_index:
  "projection_fail pj now cl code retryable s = (s', r) \<Longrightarrow>
     ps_index s' = ps_index s \<and> pr_action r \<in> {Lost_Lease, Superseded, Retry_Scheduled, Dead_Lettered_Task}"
  by (auto simp: projection_fail_def drop_task_def claim_result_def Let_def split: option.splits if_splits)

definition index_effect :: "'ix projection_env \<Rightarrow> projection_claim \<Rightarrow> 'ix projection_state \<Rightarrow> 'ix
    \<Rightarrow> projection_action \<Rightarrow> bool" where
  "index_effect env cl s ix' a \<longleftrightarrow>
     (let holds = sv_holds (pe_service env); k = pc_document_id cl in
      (\<forall>i. i \<noteq> k \<longrightarrow> holds ix' i = holds (ps_index s) i) \<and>
      (holds ix' k = holds (ps_index s) k \<or> holds ix' k = None \<or>
         (\<exists>e. holds ix' k = Some e \<and> legitimate env s k e)) \<and>
      (a = Indexed \<longrightarrow> (\<exists>e. holds ix' k = Some e \<and> en_version e = pc_version cl \<and> legitimate env s k e)) \<and>
      (a = Removed_Private \<or> a = Removed_Missing \<longrightarrow> holds ix' k = None))"

lemma project_index_effect:
  assumes ok: "service_ok (pe_service env)" and call: "project pj env cl s = (s', r)"
  shows "index_effect env cl s (ps_index s') (case r of Inl _ \<Rightarrow> Lost_Lease | Inr x \<Rightarrow> pr_action x)"
proof (cases "projection_leased_task pj cl s")
  case None
  with call show ?thesis by (auto simp: project_def index_effect_def claim_result_def Let_def)
next
  case (Some t)
  from call Some show ?thesis
  proof (cases rule: project_cases)
    case (missing s1 r1)
    note eff = remove_from_index_effect [OF ok missing(2)]
    show ?thesis
    proof (cases r1)
      case (Inl e)
      with missing eff show ?thesis by (auto simp: index_effect_def Let_def)
    next
      case (Inr u)
      with missing project_commit_index [of env Removed_Missing cl t s1 s' r] eff show ?thesis
        by (auto simp: index_effect_def Let_def split: sum.splits)
    qed
  next
    case (superseded doc)
    with project_commit_index [of env Superseded cl t s s' r] show ?thesis
      by (auto simp: index_effect_def Let_def split: sum.splits)
  next
    case unconfigured
    then show ?thesis by (auto simp: index_effect_def Let_def)
  next
    case (shown doc s1 r1)
    then have doc: "doc \<in> set (ps_documents s)" "doc_id doc = pc_document_id cl" by (auto dest: row_where_SomeD)
    note eff = index_current_effect [OF ok doc(1) shown(3,4), unfolded doc(2) shown(2)]
    show ?thesis
    proof (cases r1)
      case (Inl e)
      with shown eff show ?thesis by (auto simp: index_effect_def Let_def)
    next
      case (Inr u)
      with shown have "project_commit env Indexed cl t s1 = (s', r)" by simp
      from project_commit_index [OF this] eff Inr show ?thesis
        by (auto simp: index_effect_def Let_def split: sum.splits)
    qed
  next
    case (hidden doc s1 r1)
    then have doc: "doc_id doc = pc_document_id cl" by (auto dest: row_where_SomeD)
    note eff = remove_from_index_effect [OF ok hidden(4), unfolded doc]
    show ?thesis
    proof (cases r1)
      case (Inl e)
      with hidden eff show ?thesis by (auto simp: index_effect_def Let_def)
    next
      case (Inr u)
      with hidden have "project_commit env Removed_Private cl t s1 = (s', r)" by simp
      from project_commit_index [OF this] eff Inr show ?thesis
        by (auto simp: index_effect_def Let_def split: sum.splits)
    qed
  qed
qed


definition sample_service :: "(string \<times> entry) list service" where
  "sample_service = \<lparr>sv_ready = (\<lambda>_. True), sv_put = (\<lambda>e ix. ((en_id e, e) # ix, True)),
     sv_delete = (\<lambda>k ix. (filter (\<lambda>x. fst x \<noteq> k) ix, Delete_Succeeded)),
     sv_get = (\<lambda>k ix. if map_of ix k = None then Get_Not_Found else Get_Found),
     sv_holds = map_of\<rparr>"

lemma sample_service_ok: "service_ok sample_service"
proof -
  have "map_of (filter (\<lambda>x. fst x \<noteq> k) ix) i = (if i = k then None else map_of ix i)"
    for k i :: string and ix :: "(string \<times> entry) list"
    by (induction ix) auto
  then show ?thesis by (auto simp: service_ok_def sample_service_def split: if_splits)
qed

definition sample_projector :: projector where
  "sample_projector = \<lparr>pj_worker_id = ''w'', pj_lease_seconds = 60, pj_max_attempts = 8,
     pj_max_backoff_seconds = 300\<rparr>"

definition sample_projection_env :: "(string \<times> entry) list projection_env" where
  "sample_projection_env = \<lparr>pe_service = sample_service, pe_enabled = True,
     pe_sha = (\<lambda>b. ''h''), pe_content = (\<lambda>_. Some [104, 105]), pe_entry_of = (\<lambda>_ md. Inr [(''body'', md)]),
     pe_commit_fails = False, pe_interim = (\<lambda>x. x), pe_fail_now = 9\<rparr>"

definition sample_projection_state :: "(string \<times> entry) list projection_state" where
  "sample_projection_state = \<lparr>ps_documents = [\<lparr>doc_id = ''d1'', doc_kind = ''profile'', doc_owner_id = ''o'',
       doc_public_identifier = ''me'', doc_visibility = ''public'', doc_current_version = 2, doc_updated_at = 0\<rparr>],
     ps_versions = [\<lparr>dv_id = ''v2'', dv_document_id = ''d1'', dv_version = 2, dv_sha256 = ''h'', dv_storage_path = ''p''\<rparr>],
     ps_tasks = [\<lparr>pt_document_id = ''d1'', pt_version = 2, pt_state = P_Leased, pt_attempts = 1,
       pt_available_at = 0, pt_lease_expires_at = Some (seconds 60), pt_claimed_by = Some ''w'',
       pt_claim_token = Some ''k'', pt_last_error_code = None, pt_dead_lettered_at = None,
       pt_created_at = 0, pt_updated_at = 0\<rparr>],
     ps_index = []\<rparr>"

definition sample_projection_claim :: projection_claim where
  "sample_projection_claim = \<lparr>pc_document_id = ''d1'', pc_version = 2, pc_claim_token = ''k'', pc_attempts = 1\<rparr>"




text \<open>
  C22. A projection lease belongs to one worker: in any interleaving of claims, settlements,
  document writes and operator requeues in which nobody claims at or after its expiry and its
  holder does not settle, the holder keeps it, and no other worker and no other token can
  change anything by settling that task.
\<close>

theorem projection_lease_exclusive:
  fixes s :: "'ix projection_state"
  assumes "projection_queue.run s ops s'" and "projection_ok s" and "pt_lease s k = Some (h, e)"
    and "\<forall>c. Claim c \<in> set ops \<longrightarrow> pcc_now c < e"
    and "\<forall>p. Settle p \<in> set ops \<longrightarrow> projection_claimant p \<noteq> (k, h)"
  shows "projection_ok s' \<and> pt_lease s' k = Some (h, e) \<and>
     (fst (projection_claimant q) = k \<and> snd (projection_claimant q) \<noteq> h \<longrightarrow> do_projection_settle q s' = s')"
proof -
  have "do_projection_settle q s' = s'" if "fst (projection_claimant q) = k" "snd (projection_claimant q) \<noteq> h"
    by (rule projection_queue.rival_settlement_void [OF assms(1-3), of q "snd (projection_claimant q)"])
      (use assms(4,5) that in auto)
  then show ?thesis
    using projection_queue.lease_kept [OF assms(1-3)] projection_queue.run_inv [OF assms(1,2)] assms(4,5)
    by blast
qed

theorem projection_lease_exclusive_witness:
  "pt_lease (enqueue_projection ''d2'' 1 5 sample_projection_state) (''d1'', 2) = Some ((''w'', ''k''), seconds 60)"
proof -
  have run: "projection_queue.run sample_projection_state ([] @ [Other (Enqueue ''d2'' 1 5)])
      (do_projection_other (Enqueue ''d2'' 1 5) sample_projection_state)"
    by (intro projection_queue.run_other projection_queue.run_nil)
      (simp add: sample_projection_state_def pt_key_def)
  have ok: "projection_ok sample_projection_state" by code_simp
  have lease: "pt_lease sample_projection_state (''d1'', 2) = Some ((''w'', ''k''), seconds 60)" by code_simp
  from projection_lease_exclusive [OF run ok lease] show ?thesis by simp
qed

text \<open>
  Every attempt is settled, retries are bounded, and only current work is dead-lettered.
  After a claim with a live lease was processed, its task is gone (indexed, removed, or
  superseded), or it is pending again between one second and the configured maximum later with
  attempts left, or it is a dead letter stamped with the time of failure; a failure for a
  version that is no longer current is never recorded.
\<close>

theorem projection_settle_outcome:
  assumes call: "projection_settle pj env cl s = (s', r)"
    and task: "projection_leased_task pj cl s = Some t" and ok: "projection_ok s"
    and "1 \<le> pj_max_backoff_seconds pj"
  shows "case get_row pt_key (pc_document_id cl, pc_version cl) (ps_tasks s') of
       None \<Rightarrow> pr_action r \<in> {Indexed, Removed_Private, Removed_Missing, Superseded}
     | Some t' \<Rightarrow>
         (\<forall>doc. row_where (\<lambda>x. doc_id x = pc_document_id cl) (ps_documents s') = Some doc \<longrightarrow>
            doc_current_version doc = pc_version cl) \<and>
         (pr_action r = Retry_Scheduled \<and> pt_state t' = P_Pending \<and> pt_attempts t' < pj_max_attempts pj \<and>
            pe_fail_now env + seconds 1 \<le> pt_available_at t' \<and>
            pt_available_at t' \<le> pe_fail_now env + seconds (pj_max_backoff_seconds pj) \<or>
          pr_action r = Dead_Lettered_Task \<and> pt_state t' = P_Dead_Letter \<and>
            pt_dead_lettered_at t' = Some (pe_fail_now env))"
proof -
  have key: "pt_key t = (pc_document_id cl, pc_version cl)" using projection_leased_taskD [OF task] by simp
  have row: "get_row pt_key (pt_key t) (ps_tasks s) = Some t"
    using projection_leased_taskD [OF task] ok by (simp add: projection_ok_def tasks_ok_def get_row_iff)
  obtain s1 r1 where proj: "project pj env cl s = (s1, r1)" by fastforce
  note tasks = project_tasks [OF proj task]
  have act: "pr_action x \<in> {Indexed, Removed_Private, Removed_Missing, Superseded}" if "r1 = Inr x" for x
    using proj task
  proof (cases rule: project_cases)
    case (missing s2 r2) with that show ?thesis
      by (cases r2) (auto simp: project_commit_def claim_result_def split: if_splits)
  next
    case (shown doc s2 r2) with that show ?thesis
      by (cases r2) (auto simp: project_commit_def claim_result_def split: if_splits)
  next
    case (hidden doc s2 r2) with that show ?thesis
      by (cases r2) (auto simp: project_commit_def claim_result_def split: if_splits)
  qed (use that in \<open>auto simp: project_commit_def claim_result_def split: if_splits\<close>)
  show ?thesis
  proof (cases r1)
    case (Inr x)
    with call proj have "s' = s1" "r = x" by (simp_all add: projection_settle_def)
    with Inr act tasks key show ?thesis by (simp add: get_row_delete_row)
  next
    case (Inl e)
    let ?s2 = "s1\<lparr>ps_documents := pe_interim env (ps_documents s1)\<rparr>"
    obtain code retryable where eh: "error_handling e = (code, retryable)" by fastforce
    have leased: "projection_leased_task pj cl ?s2 = Some t" and same: "ps_tasks s1 = ps_tasks s"
      using tasks Inl task by (simp_all add: projection_leased_task_def)
    have fail: "projection_fail pj (pe_fail_now env) cl code retryable ?s2 = (s', r)"
      using call proj Inl eh by (simp add: projection_settle_def)
    have bounds: "1 \<le> min ((2::int) ^ n) (pj_max_backoff_seconds pj)" for n
      using assms(4) by simp
    show ?thesis
      using fail leased same row key bounds
      by (auto simp: projection_fail_def drop_task_def get_row_delete_row get_row_save pt_key_def
          claim_result_def Let_def split: if_splits)
  qed
qed

theorem projection_settle_outcome_witness:
  "case get_row pt_key (''d1'', 2) (ps_tasks (fst (projection_settle sample_projector
       (sample_projection_env\<lparr>pe_content := (\<lambda>_. None)\<rparr>) sample_projection_claim sample_projection_state))) of
     None \<Rightarrow> False | Some t' \<Rightarrow> pt_available_at t' \<le> 9 + seconds 300"
proof -
  let ?env = "sample_projection_env\<lparr>pe_content := (\<lambda>_. None)\<rparr>"
  let ?r = "projection_settle sample_projector ?env sample_projection_claim sample_projection_state"
  have call: "?r = (fst ?r, snd ?r)" by simp
  have task: "projection_leased_task sample_projector sample_projection_claim sample_projection_state =
      Some (hd (ps_tasks sample_projection_state))" by code_simp
  have ok: "projection_ok sample_projection_state" by code_simp
  have "1 \<le> pj_max_backoff_seconds sample_projector" by (simp add: sample_projector_def)
  moreover have "pr_action (snd ?r) = Retry_Scheduled" by code_simp
  ultimately show ?thesis
    using projection_settle_outcome [OF call task ok]
    by (auto simp: sample_projection_claim_def sample_projector_def sample_projection_env_def
        split: option.splits)
qed

lemma length_filter_save:
  assumes "unique_by key ts" and "t \<in> set ts" and "key t' = key t" and "p t" and "\<not> p t'"
  shows "Suc (length (filter p (save_row key t' ts))) = length (filter p ts)"
  using assms
proof (induction ts)
  case (Cons x ts)
  show ?case
  proof (cases "x = t")
    case True
    with Cons.prems have "\<forall>y \<in> set ts. key y \<noteq> key t'" by (auto simp: unique_by_def image_iff)
    then have "save_row key t' ts = ts" by (simp add: save_row_def map_idI)
    with True Cons.prems show ?thesis by (simp add: save_row_def)
  next
    case False
    with Cons.prems have "key x \<noteq> key t'" by (auto simp: unique_by_def image_iff)
    with False Cons show ?thesis by (auto simp: save_row_def unique_by_def)
  qed
qed simp

text \<open>
  An operator's requeue revives exactly one dead letter.  It reports success precisely when
  the named version is a dead letter; then there is one dead letter less, the task can be
  claimed at once, and the backlog, the dead letters and the eligible tasks that the health
  check counts still add up: backlog and dead letters partition the queue, and what is eligible
  is part of the backlog.
\<close>

lemma retry_dead_letter_counts:
  assumes ok: "projection_ok s" and call: "retry_dead_letter i v now s = (s', b)"
  shows "(b \<longleftrightarrow> (\<exists>t \<in> set (ps_tasks s). pt_key t = (i, v) \<and> pt_state t = P_Dead_Letter)) \<and>
     (b \<longrightarrow> Suc (count_dead_letters s') = count_dead_letters s \<and>
        (\<exists>t' \<in> set (ps_tasks s'). pt_key t' = (i, v) \<and> pt_eligible now t')) \<and>
     (\<not> b \<longrightarrow> s' = s) \<and>
     ph_backlog_count (health_snapshot at s') + ph_dead_letter_count (health_snapshot at s') = length (ps_tasks s') \<and>
     ph_eligible_count (health_snapshot at s') \<le> ph_backlog_count (health_snapshot at s')"
proof (intro conjI)
  show "b \<longleftrightarrow> (\<exists>t \<in> set (ps_tasks s). pt_key t = (i, v) \<and> pt_state t = P_Dead_Letter)"
  proof (cases "row_where (\<lambda>t. pt_document_id t = i \<and> pt_version t = v \<and> pt_state t = P_Dead_Letter) (ps_tasks s)")
    case None
    with call have "\<not> b" by (simp add: retry_dead_letter_def)
    with None show ?thesis by (auto simp: row_where_None pt_key_def)
  next
    case (Some t)
    with call have b by (simp add: retry_dead_letter_def)
    with row_where_SomeD [OF Some] show ?thesis by (auto simp: pt_key_def)
  qed
  show "b \<longrightarrow> Suc (count_dead_letters s') = count_dead_letters s \<and>
        (\<exists>t' \<in> set (ps_tasks s'). pt_key t' = (i, v) \<and> pt_eligible now t')"
  proof
    assume b
    with call obtain t t' where t: "t \<in> set (ps_tasks s)" "pt_key t = (i, v)" "pt_state t = P_Dead_Letter"
      "pt_key t' = pt_key t" "pt_state t' = P_Pending" "pt_available_at t' = now"
      "s' = s\<lparr>ps_tasks := save_row pt_key t' (ps_tasks s)\<rparr>"
      by (metis retry_dead_letter_row)
    have "Suc (count_dead_letters s') = count_dead_letters s"
      using t ok length_filter_save [of pt_key "ps_tasks s" t t' "\<lambda>t. pt_state t = P_Dead_Letter"]
      by (simp add: count_dead_letters_def dead_letters_def rows_where_def projection_ok_def tasks_ok_def)
    moreover have "t' \<in> set (ps_tasks s')" using t by (auto simp: set_save_row)
    ultimately show "Suc (count_dead_letters s') = count_dead_letters s \<and>
        (\<exists>t' \<in> set (ps_tasks s'). pt_key t' = (i, v) \<and> pt_eligible now t')"
      using t by (auto simp: pt_eligible_def)
  qed
  show "\<not> b \<longrightarrow> s' = s" using call by (auto simp: retry_dead_letter_def split: option.splits)
  have dead: "\<not> in_backlog t \<longleftrightarrow> pt_state t = P_Dead_Letter" for t
    by (cases "pt_state t") (simp_all add: in_backlog_def)
  show "ph_backlog_count (health_snapshot at s') + ph_dead_letter_count (health_snapshot at s') = length (ps_tasks s')"
    using sum_length_filter_compl [of in_backlog "ps_tasks s'"]
    by (simp add: health_snapshot_def count_dead_letters_def dead_letters_def rows_where_def dead)
  have "filter (pt_eligible at) ts = filter (pt_eligible at) (filter in_backlog ts)" for ts
    by (simp, rule filter_cong) (auto simp: pt_eligible_def in_backlog_def)
  then show "ph_eligible_count (health_snapshot at s') \<le> ph_backlog_count (health_snapshot at s')"
    by (metis (no_types, lifting) health_snapshot_def length_filter_le projection_health.select_convs(1,2) rows_where_def)
qed

end
