(* ===== verification/PyData.thy ===== *)
theory PyData
  imports PyText
begin

text \<open>
  Python's \<open>json\<close> values with the canonical form of \<open>json.dumps(value, sort_keys=True,
  separators=(",", ":"))\<close> for either value of \<open>ensure_ascii\<close>, and \<open>datetime.isoformat\<close> of a UTC
  instant.
\<close>

subsection \<open>Decimal numbers\<close>

fun digits_of :: "nat \<Rightarrow> pystr" where
  "digits_of n = (if n < 10 then [48 + n] else digits_of (n div 10) @ [48 + n mod 10])"

declare digits_of.simps [simp del]

fun digits_value :: "nat \<Rightarrow> pystr \<Rightarrow> nat" where
  "digits_value acc [] = acc"
| "digits_value acc (c # cs) = digits_value (acc * 10 + (c - 48)) cs"

lemma digits_value_append: "digits_value acc (xs @ ys) = digits_value (digits_value acc xs) ys"
  by (induction xs arbitrary: acc) auto

lemma digits_value_digits_of: "digits_value 0 (digits_of n) = n"
proof (induction n rule: digits_of.induct)
  case (1 n)
  then show ?case
    by (cases "n < 10") (simp_all add: digits_of.simps [of n] digits_value_append)
qed

lemma digits_of_inject: "digits_of m = digits_of n \<longleftrightarrow> m = n"
  by (metis digits_value_digits_of)

definition int_text :: "int \<Rightarrow> pystr" where
  "int_text i = (if i < 0 then 45 # digits_of (nat (- i)) else digits_of (nat i))"

definition zero_pad :: "nat \<Rightarrow> pystr \<Rightarrow> pystr" where
  "zero_pad n s = replicate (n - length s) 48 @ s"

subsection \<open>JSON\<close>

text \<open>
  A \<open>float\<close> is the text \<open>json.dumps\<close> writes for it: its \<open>repr\<close>, or \<open>NaN\<close>, \<open>Infinity\<close>, \<open>-Infinity\<close>.
  A \<open>dict\<close> is the list of its items in insertion order.
\<close>

datatype json =
    JNull | JBool bool | JInt int | JFloat pystr | JStr pystr | JArr "json list" | JObj "(pystr \<times> json) list"

definition hex4 :: "nat \<Rightarrow> pystr" where
  "hex4 c = (let h = (\<lambda>d. if d < 10 then 48 + d else 87 + d) in
     [h (c div 4096 mod 16), h (c div 256 mod 16), h (c div 16 mod 16), h (c mod 16)])"

definition json_escape :: "nat \<Rightarrow> pystr" where
  "json_escape c =
     (if c = 34 then [92, 34] else if c = 92 then [92, 92]
      else if c = 10 then [92, 110] else if c = 13 then [92, 114] else if c = 9 then [92, 116]
      else if c = 8 then [92, 98] else if c = 12 then [92, 102]
      else if c < 32 then [92, 117] @ hex4 c
      else [c])"

text \<open>The default \<open>ensure_ascii=True\<close>: everything outside the printable ASCII range is escaped.\<close>

definition ascii_escape :: "nat \<Rightarrow> pystr" where
  "ascii_escape c =
     (if c < 32 \<or> c = 34 \<or> c = 92 then json_escape c
      else if c < 127 then [c]
      else if c < 65536 then [92, 117] @ hex4 c
      else [92, 117] @ hex4 (55296 + (c - 65536) div 1024) @ [92, 117] @ hex4 (56320 + (c - 65536) mod 1024))"

definition quoted :: "(nat \<Rightarrow> pystr) \<Rightarrow> pystr \<Rightarrow> pystr" where
  "quoted esc s = [34] @ concat (map esc s) @ [34]"

fun comma_join :: "pystr list \<Rightarrow> pystr" where
  "comma_join [] = []"
| "comma_join [x] = x"
| "comma_join (x # y # xs) = x @ [44] @ comma_join (y # xs)"

fun json_text :: "(nat \<Rightarrow> pystr) \<Rightarrow> json \<Rightarrow> pystr" where
  "json_text esc JNull = lit ''null''"
| "json_text esc (JBool b) = lit (if b then ''true'' else ''false'')"
| "json_text esc (JInt i) = int_text i"
| "json_text esc (JFloat t) = t"
| "json_text esc (JStr s) = quoted esc s"
| "json_text esc (JArr xs) = [91] @ comma_join (map (json_text esc) xs) @ [93]"
| "json_text esc (JObj kvs) =
     [123] @ comma_join (map (\<lambda>kv. quoted esc (fst kv) @ [58] @ snd kv)
       (sort_key fst (map (\<lambda>kv. (fst kv, json_text esc (snd kv))) kvs))) @ [125]"

abbreviation json_dumps :: "json \<Rightarrow> pystr" where
  "json_dumps \<equiv> json_text json_escape"

abbreviation json_dumps_ascii :: "json \<Rightarrow> pystr" where
  "json_dumps_ascii \<equiv> json_text ascii_escape"

abbreviation jstr :: "string \<Rightarrow> json" where
  "jstr s \<equiv> JStr (lit s)"

definition jopt :: "('a \<Rightarrow> json) \<Rightarrow> 'a option \<Rightarrow> json" where
  "jopt f x = (case x of None \<Rightarrow> JNull | Some y \<Rightarrow> f y)"

definition jobj :: "(string \<times> json) list \<Rightarrow> json" where
  "jobj kvs = JObj (map (\<lambda>kv. (lit (fst kv), snd kv)) kvs)"

subsection \<open>Calendar\<close>

text \<open>The proleptic Gregorian date of a day number counted from 1970-01-01.\<close>

definition civil_from_days :: "int \<Rightarrow> int \<times> int \<times> int" where
  "civil_from_days n =
     (let z = n + 719468;
          era = z div 146097;
          doe = z mod 146097;
          yoe = (doe - doe div 1460 + doe div 36524 - doe div 146096) div 365;
          doy = doe - (365 * yoe + yoe div 4 - yoe div 100);
          mp = (5 * doy + 2) div 153;
          d = doy - (153 * mp + 2) div 5 + 1;
          m = (if mp < 10 then mp + 3 else mp - 9);
          y = yoe + era * 400 + (if m \<le> 2 then 1 else 0)
      in (y, m, d))"

definition padded :: "nat \<Rightarrow> int \<Rightarrow> pystr" where
  "padded n i = zero_pad n (digits_of (nat i))"

text \<open>\<open>value.astimezone(UTC).isoformat().replace("+00:00", "Z")\<close>.\<close>

definition isoformat_z :: "time \<Rightarrow> pystr" where
  "isoformat_z t =
     (case civil_from_days (t div 86400000000) of
        (y, m, d) \<Rightarrow>
          (let us = t mod 86400000000; s = us div 1000000; frac = us mod 1000000 in
           padded 4 y @ [45] @ padded 2 m @ [45] @ padded 2 d @ [84] @
           padded 2 (s div 3600) @ [58] @ padded 2 (s div 60 mod 60) @ [58] @ padded 2 (s mod 60) @
           (if frac = 0 then [] else [46] @ padded 6 frac) @ [90]))"

lemma isoformat_epoch:
  "isoformat_z 0 = lit ''1970-01-01T00:00:00Z''"
  "isoformat_z 1709208000000001 = lit ''2024-02-29T12:00:00.000001Z''"
  by code_simp+

subsection \<open>Texts that can always be encoded\<close>

definition latin :: "pystr \<Rightarrow> bool" where
  "latin s \<longleftrightarrow> list_all (\<lambda>c. c < 256) s"

lemma latin_simps [simp]: "latin []" "latin (c # s) \<longleftrightarrow> c < 256 \<and> latin s" "latin (s @ t) \<longleftrightarrow> latin s \<and> latin t"
  by (auto simp: latin_def)

lemma latin_lit [simp]: "latin (lit s)"
  by (auto simp: latin_def lit_def list_all_iff)

lemma latin_encodes: "latin s \<Longrightarrow> \<exists>bs. utf8_encode s = Some bs"
  by (induction s) (auto simp: surrogate_def)

lemma latin_digits [simp]: "latin (digits_of n)"
  by (induction n rule: digits_of.induct) (subst digits_of.simps, auto)

lemma latin_padded [simp]: "latin (padded n i)"
  by (simp add: padded_def zero_pad_def) (auto simp: latin_def list_all_iff)

lemma latin_iso [simp]: "latin (isoformat_z t)"
proof -
  have "latin (if b then [] else 46 # padded 6 i)" for b i by simp
  moreover have "(45::nat) < 256" "(84::nat) < 256" "(58::nat) < 256" "(90::nat) < 256" by simp_all
  ultimately show ?thesis
    unfolding isoformat_z_def Let_def
    by (simp only: latin_simps latin_padded append_Cons append_Nil simp_thms split: prod.split)
qed

fun plain :: "json \<Rightarrow> bool" where
  "plain JNull = True"
| "plain (JBool b) = True"
| "plain (JInt i) = True"
| "plain (JFloat t) = latin t"
| "plain (JStr s) = latin s"
| "plain (JArr xs) = list_all plain xs"
| "plain (JObj kvs) = list_all (\<lambda>kv. latin (fst kv) \<and> plain (snd kv)) kvs"

lemma latin_hex4 [simp]: "latin (hex4 c)"
proof -
  have "(if x mod 16 < 10 then 48 + x mod 16 else 87 + x mod 16) < 256" for x :: nat
    using mod_less_divisor [of 16 x] by simp linarith
  with latin_simps(1) show ?thesis unfolding hex4_def Let_def latin_simps(2) by blast
qed

lemma latin_escape: "c < 256 \<Longrightarrow> latin (json_escape c)"
  by (simp add: json_escape_def)

lemma latin_string [simp]: "latin s \<Longrightarrow> latin (quoted json_escape s)"
  by (induction s) (auto simp: quoted_def latin_escape)

lemma latin_join: "list_all latin xs \<Longrightarrow> latin (comma_join xs)"
  by (induction xs rule: comma_join.induct) auto

lemma latin_dumps: "plain j \<Longrightarrow> latin (json_dumps j)"
proof (induction "json_escape" j rule: json_text.induct)
  case (7 kvs)
  then show ?case by (auto simp: list_all_iff intro!: latin_join)
qed (auto simp: int_text_def list_all_iff intro!: latin_join)

lemma plain_jobj [simp]: "plain (jobj kvs) \<longleftrightarrow> list_all (\<lambda>kv. plain (snd kv)) kvs"
  by (auto simp: jobj_def list_all_iff)

lemma plain_jopt: "(\<And>y. plain (f y)) \<Longrightarrow> plain (jopt f x)"
  by (simp add: jopt_def split: option.split)

end
