(* ===== verification/Requests.thy ===== *)
theory Requests
  imports Schema PyData
begin

text \<open>
  The request layer that the mutating routes of \<open>main.py\<close> share: principals (\<open>auth.py\<close>),
  scopes, required headers, request fingerprints and the idempotency receipts.  A route that
  raises \<open>HTTPException\<close> leaves the ledger as it was.
\<close>

subsection \<open>Principals\<close>

record principal =
  prin_subject :: string
  prin_method :: string
  prin_scopes :: "string list"
  prin_actor_id :: "string option"
  prin_grant_id :: "string option"
  prin_is_impersonated :: bool

definition audit_actor_id :: "principal \<Rightarrow> string" where
  "audit_actor_id p =
     (case prin_actor_id p of None \<Rightarrow> prin_subject p | Some a \<Rightarrow> if a = [] then prin_subject p else a)"

datatype http_error = Http nat

definition assert_scope :: "principal \<Rightarrow> string \<Rightarrow> http_error + unit" where
  "assert_scope p scope =
     require (\<not> (prin_method p \<in> {''agent_api_key'', ''agent_grant''} \<and> scope \<notin> set (prin_scopes p))) (Http 403)"

definition require_social_human :: "principal \<Rightarrow> string \<Rightarrow> http_error + unit" where
  "require_social_human p scope =
     and_then (assert_scope p scope) (\<lambda>_.
     require (\<not> (prin_method p \<noteq> ''clerk_jwt'' \<or> prin_is_impersonated p)) (Http 403))"

lemma require_social_human_Inr [simp]:
  "require_social_human p scope = Inr u \<longleftrightarrow> prin_method p = ''clerk_jwt'' \<and> \<not> prin_is_impersonated p"
  by (auto simp: require_social_human_def assert_scope_def)

subsection \<open>Requests and replies\<close>

record request =
  rq_idempotency_key :: "string option"
  rq_if_match :: "string option"
  rq_body :: pystr

record reply =
  rp_status :: nat
  rp_resource :: resource
  rp_replayed :: bool

text \<open>The pattern \<open>^[\x21-\x7E]{1,128}$\<close> under \<open>fullmatch\<close>.\<close>

definition idempotency_key_ok :: "string \<Rightarrow> bool" where
  "idempotency_key_ok k \<longleftrightarrow>
     1 \<le> length k \<and> length k \<le> 128 \<and> list_all (\<lambda>c. 33 \<le> c \<and> c \<le> 126) (lit k)"

definition idempotency_key :: "request \<Rightarrow> bool \<Rightarrow> http_error + string option" where
  "idempotency_key rq required =
     (case rq_idempotency_key rq of
        None \<Rightarrow> if required then Inl (Http 428) else Inr None
      | Some k \<Rightarrow> if idempotency_key_ok k then Inr (Some k) else Inl (Http 400))"

definition strong_etag :: "string \<Rightarrow> string" where
  "strong_etag digest = [CHR 0x22] @ ''sha256-'' @ digest @ [CHR 0x22]"

definition require_if_match :: "request \<Rightarrow> string \<Rightarrow> http_error + unit" where
  "require_if_match rq current =
     (case rq_if_match rq of
        None \<Rightarrow> Inl (Http 428)
      | Some supplied \<Rightarrow> require (supplied = current) (Http 412))"

text \<open>The text hashed by \<open>_request_fingerprint\<close>; the digest of its UTF-8 bytes is \<open>sha\<close>.\<close>

definition request_fingerprint :: "(pystr \<Rightarrow> string) \<Rightarrow> string \<Rightarrow> pystr \<Rightarrow> string option \<Rightarrow> string" where
  "request_fingerprint sha operation body conditional =
     sha (lit operation @ [10] @ lit (case conditional of None \<Rightarrow> [] | Some c \<Rightarrow> c) @ [10] @ body)"

text \<open>
  What a route takes from outside: SHA-256 of the UTF-8 bytes of a text, how a stored receipt is
  turned back into a response (it depends on the operation), the JSON and the headers of the
  response to a resource, the outcome of the commit (\<open>Some d\<close> when another transaction won and
  left \<open>d\<close>), the clock (the several readings of it within one request are one instant) and
  the identifiers it draws.
\<close>

record route_env =
  re_sha :: "pystr \<Rightarrow> string"
  re_reconstruct :: "idempotency_row \<Rightarrow> db \<Rightarrow> http_error + reply"
  re_render :: "resource \<Rightarrow> db \<Rightarrow> pystr \<times> (string \<times> string) list"
  re_conflict :: "db option"
  re_now :: time
  re_new_id :: "nat \<Rightarrow> string"

subsection \<open>Idempotency receipts\<close>

definition find_receipt :: "db \<Rightarrow> string \<Rightarrow> string \<Rightarrow> idempotency_row option" where
  "find_receipt d owner k =
     row_where (\<lambda>r. idem_owner_id r = owner \<and> idem_key r = k) (idempotency_records d)"

definition idempotency_replay ::
    "(idempotency_row \<Rightarrow> db \<Rightarrow> http_error + reply) \<Rightarrow> db \<Rightarrow> principal \<Rightarrow> string option \<Rightarrow> string \<Rightarrow> string
      \<Rightarrow> http_error + reply option" where
  "idempotency_replay reconstruct d p key operation fingerprint =
     (case key of
        None \<Rightarrow> Inr None
      | Some k \<Rightarrow>
          (case find_receipt d (prin_subject p) k of
             None \<Rightarrow> Inr None
           | Some r \<Rightarrow>
               if idem_operation r \<noteq> operation \<or> idem_request_hash r \<noteq> fingerprint then Inl (Http 409)
               else map_sum (\<lambda>e. e) Some (reconstruct r d)))"

definition add_receipt ::
    "principal \<Rightarrow> string \<Rightarrow> string \<Rightarrow> string \<Rightarrow> nat \<Rightarrow> pystr \<times> (string \<times> string) list \<Rightarrow> resource \<Rightarrow> db \<Rightarrow> db" where
  "add_receipt p k operation fingerprint status content res d =
     d\<lparr>idempotency_records := insert_row
        \<lparr>idem_owner_id = prin_subject p, idem_key = k, idem_operation = operation,
         idem_request_hash = fingerprint, idem_response_status = status, idem_response_body = fst content,
         idem_response_headers = snd content, idem_resource_type = Some (fst res), idem_resource_id = Some (snd res)\<rparr>
        (idempotency_records d)\<rparr>"

text \<open>
  The end of a route: the receipt is added and the transaction commits.  When the commit hits
  an \<open>IntegrityError\<close> because another transaction won (\<open>conflict\<close> is the ledger as it left it),
  everything this request did is rolled back and the winner's receipt is replayed, or 409.
\<close>

definition receipt_content :: "route_env \<Rightarrow> nat \<Rightarrow> resource \<Rightarrow> db \<Rightarrow> pystr \<times> (string \<times> string) list" where
  "receipt_content env status res d = (if status = 204 then ([], []) else re_render env res d)"

definition commit_receipt ::
    "route_env \<Rightarrow> principal \<Rightarrow> string \<Rightarrow> string \<Rightarrow> string \<Rightarrow> nat \<Rightarrow> resource \<Rightarrow> db \<Rightarrow> db \<times> (http_error + reply)" where
  "commit_receipt env p k operation fingerprint status res d =
     (case re_conflict env of
        None \<Rightarrow> (add_receipt p k operation fingerprint status (receipt_content env status res d) res d,
                 Inr \<lparr>rp_status = status, rp_resource = res, rp_replayed = False\<rparr>)
      | Some d' \<Rightarrow>
          (d', (case idempotency_replay (re_reconstruct env) d' p (Some k) operation fingerprint of
                  Inl e \<Rightarrow> Inl e
                | Inr None \<Rightarrow> Inl (Http 409)
                | Inr (Some r) \<Rightarrow> Inr r)))"

text \<open>
  A mutating route: authorization, key, replay, the body of the route, receipt and commit.  The
  body returns the new ledger with the status and the resource of its receipt, or raises.
\<close>

definition mutating_route ::
    "route_env \<Rightarrow> http_error + unit \<Rightarrow> principal \<Rightarrow> request \<Rightarrow> string \<Rightarrow> string option
      \<Rightarrow> (db \<Rightarrow> http_error + db \<times> nat \<times> resource) \<Rightarrow> db \<Rightarrow> db \<times> (http_error + reply)" where
  "mutating_route env auth p rq operation conditional body d =
     (case and_then auth (\<lambda>_. idempotency_key rq True) of
        Inl e \<Rightarrow> (d, Inl e)
      | Inr None \<Rightarrow> (d, Inl (Http 428))
      | Inr (Some k) \<Rightarrow>
          (let fingerprint = request_fingerprint (re_sha env) operation (rq_body rq) conditional in
           case idempotency_replay (re_reconstruct env) d p (Some k) operation fingerprint of
             Inl e \<Rightarrow> (d, Inl e)
           | Inr (Some r) \<Rightarrow> (d, Inr r)
           | Inr None \<Rightarrow>
               (case body d of
                  Inl e \<Rightarrow> (d, Inl e)
                | Inr (d', status, res) \<Rightarrow>
                    commit_receipt env p k operation fingerprint status res d')))"

subsection \<open>Daily quotas\<close>

text \<open>
  \<open>INSERT ... ON CONFLICT (owner_id, bucket_date) DO UPDATE SET count = count + 1 WHERE count <
  limit RETURNING count\<close>: no value means the quota is used up and nothing changed.
\<close>

definition bucket_key :: "rate_bucket_row \<Rightarrow> string \<times> int" where
  "bucket_key b = (rb_owner_id b, rb_bucket_date b)"

definition consume_quota :: "int \<Rightarrow> string \<Rightarrow> time \<Rightarrow> rate_bucket_row list \<Rightarrow> rate_bucket_row list option" where
  "consume_quota limit owner now buckets =
     (case get_row bucket_key (owner, utc_date now) buckets of
        None \<Rightarrow> Some (insert_row \<lparr>rb_owner_id = owner, rb_bucket_date = utc_date now, rb_count = 1,
                  rb_updated_at = now\<rparr> buckets)
      | Some b \<Rightarrow>
          if rb_count b < limit
          then Some (save_row bucket_key (b\<lparr>rb_count := rb_count b + 1, rb_updated_at := now\<rparr>) buckets)
          else None)"

definition quota_ok :: "int \<Rightarrow> rate_bucket_row list \<Rightarrow> bool" where
  "quota_ok limit buckets \<longleftrightarrow> unique_by bucket_key buckets \<and> list_all (\<lambda>b. rb_count b \<le> limit) buckets"

lemma consume_quota_ok:
  assumes "consume_quota limit owner now buckets = Some buckets'" and "quota_ok limit buckets" and "1 \<le> limit"
  shows "quota_ok limit buckets'"
proof (cases "get_row bucket_key (owner, utc_date now) buckets")
  case None
  with assms have "buckets' = insert_row \<lparr>rb_owner_id = owner, rb_bucket_date = utc_date now, rb_count = 1,
      rb_updated_at = now\<rparr> buckets" by (simp add: consume_quota_def)
  with None assms show ?thesis by (auto simp: quota_ok_def bucket_key_def [of "\<lparr>rb_owner_id = _, rb_bucket_date = _, rb_count = _, rb_updated_at = _\<rparr>"] get_row_None)
next
  case (Some b)
  with assms have "rb_count b < limit"
    and "buckets' = save_row bucket_key (b\<lparr>rb_count := rb_count b + 1, rb_updated_at := now\<rparr>) buckets"
    by (auto simp: consume_quota_def split: if_splits)
  with assms show ?thesis by (auto simp: quota_ok_def intro!: list_all_save_row)
qed

subsection \<open>What a mutating route guarantees\<close>

lemma find_receipt_add:
  "find_receipt d (prin_subject p) k = None \<Longrightarrow>
     find_receipt (add_receipt p k operation fingerprint status content res d) (prin_subject p) k =
       Some \<lparr>idem_owner_id = prin_subject p, idem_key = k, idem_operation = operation,
         idem_request_hash = fingerprint, idem_response_status = status, idem_response_body = fst content,
         idem_response_headers = snd content, idem_resource_type = Some (fst res), idem_resource_id = Some (snd res)\<rparr>"
  by (simp add: find_receipt_def add_receipt_def row_where_insert)

text \<open>The ledger changes only through the body, and only when the route reports success.\<close>

lemma mutating_route_error:
  "re_conflict env = None \<Longrightarrow>
     mutating_route env auth p rq operation conditional body d = (d', Inl e) \<Longrightarrow> d' = d"
  by (auto simp: mutating_route_def commit_receipt_def Let_def split: sum.splits option.splits prod.splits)

lemma mutating_route_cases:
  assumes "mutating_route env auth p rq operation conditional body d = (d', r)" and "re_conflict env = None"
  obtains (unchanged) "d' = d"
    | (committed) k d1 status res where "rq_idempotency_key rq = Some k" "auth = Inr ()"
        "find_receipt d (prin_subject p) k = None" "body d = Inr (d1, status, res)"
        "d' = add_receipt p k operation (request_fingerprint (re_sha env) operation (rq_body rq) conditional) status
            (receipt_content env status res d1) res d1"
        "r = Inr \<lparr>rp_status = status, rp_resource = res, rp_replayed = False\<rparr>"
proof (cases "and_then auth (\<lambda>_. idempotency_key rq True)")
  case (Inl e)
  with assms unchanged show thesis by (auto simp: mutating_route_def)
next
  case (Inr ko)
  then have auth: "auth = Inr ()" and ko: "idempotency_key rq True = Inr ko" by auto
  show thesis
  proof (cases ko)
    case None
    with assms Inr unchanged show thesis by (auto simp: mutating_route_def)
  next
    case (Some k)
    let ?f = "request_fingerprint (re_sha env) operation (rq_body rq) conditional"
    from ko Some have key: "rq_idempotency_key rq = Some k"
      by (auto simp: idempotency_key_def split: option.splits if_splits)
    show thesis
    proof (cases "idempotency_replay (re_reconstruct env) d p (Some k) operation ?f")
      case (Inl e)
      with assms Inr Some unchanged auth ko show thesis by (auto simp: mutating_route_def)
    next
      case replay: (Inr ro)
      show thesis
      proof (cases ro)
        case ro: (Some r')
        with assms Some unchanged auth ko replay show thesis by (auto simp: mutating_route_def)
      next
        case None
        with replay have "find_receipt d (prin_subject p) k = None"
          by (cases "find_receipt d (prin_subject p) k")
            (auto simp: idempotency_replay_def map_sum_def split: if_splits sum.splits)
        with assms Some unchanged committed [OF key auth] auth ko replay None show thesis
          by (auto simp: mutating_route_def commit_receipt_def split: sum.splits)
      qed
    qed
  qed
qed

lemma mutating_route_replay:
  assumes "idempotency_key rq True = Inr (Some k)" and "find_receipt d (prin_subject p) k = Some row"
  shows "mutating_route env (Inr ()) p rq operation conditional body d =
     (d, if idem_operation row = operation \<and>
           idem_request_hash row = request_fingerprint (re_sha env) operation (rq_body rq) conditional
         then re_reconstruct env row d else Inl (Http 409))"
  using assms
  by (cases "re_reconstruct env row d") (auto simp: mutating_route_def idempotency_replay_def)


definition sample_principal :: principal where
  "sample_principal = \<lparr>prin_subject = ''o1'', prin_method = ''clerk_jwt'', prin_scopes = [],
     prin_actor_id = None, prin_grant_id = None, prin_is_impersonated = False\<rparr>"

definition sample_request :: "pystr \<Rightarrow> request" where
  "sample_request b = \<lparr>rq_idempotency_key = Some ''k-1'', rq_if_match = None, rq_body = b\<rparr>"

definition sample_fingerprint :: "pystr \<Rightarrow> string" where
  "sample_fingerprint b = map (\<lambda>c. char_of (c mod 256)) b"

definition sample_reconstruct :: "idempotency_row \<Rightarrow> db \<Rightarrow> http_error + reply" where
  "sample_reconstruct row d = Inr \<lparr>rp_status = idem_response_status row,
     rp_resource = (Post_T, ''x''), rp_replayed = True\<rparr>"

definition sample_route :: route_env where
  "sample_route = \<lparr>re_sha = sample_fingerprint, re_reconstruct = sample_reconstruct, re_render = (\<lambda>_ _. ([], [])),
     re_conflict = None, re_now = 6,
     re_new_id = (\<lambda>n. if n = 0 then ''n0'' else if n = 1 then ''n1'' else ''n2'')\<rparr>"


end
