(* ===== verification/PostModeration.thy ===== *)
theory PostModeration
  imports Requests Storage
begin

text \<open>
  Post moderation: \<open>services/post_moderation.py\<close> (authorities, evidence manifests, review
  bundles, decisions and appeal reviews) and the routes of \<open>main.py\<close> that open cases, withdraw
  posts and submit appeals.  What \<open>validate_canonical("post", ...)\<close> and
  \<open>datetime.fromisoformat\<close> make of the stored Markdown is the parameter \<open>me_front\<close>.
\<close>

subsection \<open>Errors, authorities and evidence\<close>

datatype moderation_error =
    M_Configuration | M_Not_Found | M_Conflict | M_Input | M_Storage | M_Precondition
  | M_Unicode_Encode

record moderation_settings =
  ms_post_moderator_id :: "string option"
  ms_post_moderator_role :: "string option"
  ms_appeal_reviewer_id :: "string option"
  ms_appeal_reviewer_role :: "string option"

record authorities =
  au_moderator_id :: string
  au_moderator_role :: string
  au_appeal_reviewer_id :: string
  au_appeal_reviewer_role :: string

definition truthy :: "string option \<Rightarrow> bool" where
  "truthy s = (case s of None \<Rightarrow> False | Some x \<Rightarrow> x \<noteq> [])"

definition configured_moderation_authorities :: "moderation_settings \<Rightarrow> moderation_error + authorities" where
  "configured_moderation_authorities ms =
     (if \<not> truthy (ms_post_moderator_id ms)
         \<or> ms_post_moderator_role ms \<noteq> Some ''content_moderator''
         \<or> \<not> truthy (ms_appeal_reviewer_id ms)
         \<or> ms_appeal_reviewer_role ms \<noteq> Some ''appeal_reviewer''
         \<or> ms_post_moderator_id ms = ms_appeal_reviewer_id ms
      then Inl M_Configuration
      else Inr \<lparr>au_moderator_id = the (ms_post_moderator_id ms),
        au_moderator_role = the (ms_post_moderator_role ms),
        au_appeal_reviewer_id = the (ms_appeal_reviewer_id ms),
        au_appeal_reviewer_role = the (ms_appeal_reviewer_role ms)\<rparr>)"

datatype published = Not_Text | Malformed | Naive | At time

record front_matter =
  fm_id :: string
  fm_author_profile_handle :: string
  fm_version :: int
  fm_published_at :: published

record moderation_env =
  me_sha :: "pybytes \<Rightarrow> string"
  me_content :: "string \<Rightarrow> pybytes option"
  me_front :: "pystr \<Rightarrow> front_matter option"
  me_settings :: moderation_settings
  me_now :: time
  me_decision_id :: string
  me_audit_id :: string

definition reason_codes :: "string list" where
  "reason_codes = [''spam'', ''harassment'', ''misinformation'', ''privacy'', ''illegal_content'', ''other'']"

subsection \<open>Manifests\<close>

fun post_status_name :: "post_status \<Rightarrow> string" where
  "post_status_name Published = ''published''"
| "post_status_name Withdrawn = ''withdrawn''"
| "post_status_name Withheld = ''withheld''"

fun case_status_name :: "case_status \<Rightarrow> string" where
  "case_status_name Open = ''open''"
| "case_status_name Dismissed = ''dismissed''"
| "case_status_name Case_Withheld = ''withheld''"
| "case_status_name Appealed = ''appealed''"
| "case_status_name Appeal_Upheld = ''appeal_upheld''"
| "case_status_name Appeal_Overturned = ''appeal_overturned''"
| "case_status_name Legacy_Withheld = ''legacy_withheld''"
| "case_status_name Legacy_Withdrawn = ''legacy_withdrawn''"

fun appeal_status_name :: "appeal_status \<Rightarrow> string" where
  "appeal_status_name Submitted = ''submitted''"
| "appeal_status_name Upheld = ''upheld''"
| "appeal_status_name Overturned = ''overturned''"

fun decision_action_name :: "decision_action \<Rightarrow> string" where
  "decision_action_name No_Action = ''no_action''"
| "decision_action_name Withhold = ''withhold''"

definition utc_text :: "time option \<Rightarrow> json" where
  "utc_text t = jopt (\<lambda>x. JStr (isoformat_z x)) t"

text \<open>Digests of texts that can be encoded; \<open>encodable\<close> is checked before a manifest is used.\<close>

definition encodable :: "pystr option \<Rightarrow> bool" where
  "encodable s = (case s of None \<Rightarrow> True | Some x \<Rightarrow> utf8_encode x \<noteq> None)"

definition text_digest :: "(pybytes \<Rightarrow> string) \<Rightarrow> pystr option \<Rightarrow> json" where
  "text_digest sha s =
     jopt (\<lambda>x. jstr (sha (case utf8_encode x of None \<Rightarrow> [] | Some bs \<Rightarrow> bs))) s"

definition subject_binding :: "(pybytes \<Rightarrow> string) \<Rightarrow> string list \<Rightarrow> json" where
  "subject_binding sha values = jstr (sha (join_on [0] (map lit values)))"

definition report_manifest :: "(pybytes \<Rightarrow> string) \<Rightarrow> post_report_row \<Rightarrow> json" where
  "report_manifest sha r = jobj
     [(''id'', jstr (report_id r)), (''reason_code'', jstr (report_reason_code r)),
      (''narrative_sha256'', text_digest sha (report_narrative r)),
      (''created_at'', utc_text (Some (report_created_at r)))]"

definition base_evidence_manifest ::
    "(pybytes \<Rightarrow> string) \<Rightarrow> moderation_case_row \<Rightarrow> post_row \<Rightarrow> post_report_row list \<Rightarrow> (string \<times> json) list" where
  "base_evidence_manifest sha c post reports =
     [(''schema'', jstr ''connect.md/post-moderation-evidence''),
      (''schema_version'', JInt 1),
      (''case'', jobj
        [(''id'', jstr (case_id c)), (''post_id'', jstr (case_post_id c)),
         (''status'', jstr (case_status_name (case_status c))),
         (''created_at'', utc_text (Some (case_created_at c))),
         (''updated_at'', utc_text (Some (case_updated_at c))),
         (''closed_at'', utc_text (case_closed_at c)),
         (''retention_expires_at'', utc_text (case_retention_expires_at c)),
         (''sensitive_purged_at'', utc_text (case_sensitive_purged_at c)),
         (''subject_matches_post_owner'', JBool (case_subject_owner_id c = post_owner_id post)),
         (''subject_binding_sha256'', subject_binding sha [case_subject_owner_id c, post_owner_id post])]),
      (''post'', jobj
        [(''id'', jstr (post_id post)), (''status'', jstr (post_status_name (post_status post))),
         (''current_version'', JInt (post_current_version post)), (''sha256'', jstr (post_sha256 post)),
         (''published_at'', utc_text (Some (post_published_at post))),
         (''updated_at'', utc_text (Some (post_updated_at post))),
         (''withdrawn_at'', utc_text (post_withdrawn_at post)),
         (''withheld_at'', utc_text (post_withheld_at post))]),
      (''reports'', JArr (map (report_manifest sha) reports))]"

definition case_evidence_manifest ::
    "(pybytes \<Rightarrow> string) \<Rightarrow> moderation_case_row \<Rightarrow> post_row \<Rightarrow> post_report_row list \<Rightarrow> json" where
  "case_evidence_manifest sha c post reports = jobj (base_evidence_manifest sha c post reports @
     [(''purpose'', jstr ''initial_decision''), (''decision'', JNull), (''appeal'', JNull)])"

definition appeal_evidence_manifest ::
    "(pybytes \<Rightarrow> string) \<Rightarrow> moderation_case_row \<Rightarrow> post_row \<Rightarrow> post_report_row list
      \<Rightarrow> moderation_decision_row \<Rightarrow> moderation_appeal_row \<Rightarrow> json" where
  "appeal_evidence_manifest sha c post reports dec apl = jobj (base_evidence_manifest sha c post reports @
     [(''purpose'', jstr ''appeal_review''),
      (''decision'', jobj
        [(''id'', jstr (dec_id dec)), (''case_matches'', JBool (dec_case_id dec = case_id c)),
         (''post_matches'', JBool (dec_post_id dec = post_id post)),
         (''moderator_role'', jstr (dec_moderator_role dec)),
         (''action'', jstr (decision_action_name (dec_action dec))),
         (''reason_code'', jstr (dec_reason_code dec)),
         (''subject_explanation_sha256'', text_digest sha (Some (dec_subject_explanation dec))),
         (''internal_rationale_sha256'', text_digest sha (dec_internal_rationale dec)),
         (''evidence_sha256'', text_digest sha (dec_evidence dec)),
         (''evidence_snapshot_sha256'', jopt jstr (dec_evidence_snapshot_sha256 dec)),
         (''decided_at'', utc_text (Some (dec_decided_at dec)))]),
      (''appeal'', jobj
        [(''id'', jstr (apl_id apl)), (''case_matches'', JBool (apl_case_id apl = case_id c)),
         (''decision_matches'', JBool (apl_decision_id apl = dec_id dec)),
         (''subject_matches_case'', JBool (apl_subject_owner_id apl = case_subject_owner_id c)),
         (''subject_binding_sha256'', subject_binding sha
            [apl_subject_owner_id apl, case_subject_owner_id c, post_owner_id post]),
         (''rationale_sha256'', text_digest sha (apl_rationale apl)),
         (''status'', jstr (appeal_status_name (apl_status apl))),
         (''submitted_at'', utc_text (Some (apl_submitted_at apl))),
         (''reviewed_at'', utc_text (apl_reviewed_at apl)),
         (''appeal_reviewer_role'', jopt jstr (apl_reviewer_role apl)),
         (''subject_explanation_sha256'', text_digest sha (apl_subject_explanation apl)),
         (''internal_rationale_sha256'', text_digest sha (apl_internal_rationale apl)),
         (''review_snapshot_sha256'', jopt jstr (apl_review_snapshot_sha256 apl))])])"

definition evidence_manifest_sha256 :: "(pybytes \<Rightarrow> string) \<Rightarrow> json \<Rightarrow> moderation_error + string" where
  "evidence_manifest_sha256 sha manifest =
     (case utf8_encode (json_dumps manifest) of None \<Rightarrow> Inl M_Unicode_Encode | Some bs \<Rightarrow> Inr (sha bs))"

subsection \<open>Bundles and snapshots\<close>

record case_bundle =
  cb_post :: post_row
  cb_case :: moderation_case_row
  cb_reports :: "post_report_row list"
  cb_decision :: "moderation_decision_row option"
  cb_appeal :: "moderation_appeal_row option"

record appeal_bundle =
  ab_post :: post_row
  ab_case :: moderation_case_row
  ab_decision :: moderation_decision_row
  ab_appeal :: moderation_appeal_row
  ab_reports :: "post_report_row list"

definition validate_reports ::
    "moderation_case_row \<Rightarrow> post_row \<Rightarrow> post_report_row list \<Rightarrow> moderation_error + unit" where
  "validate_reports c post reports =
     and_then (require (length reports \<le> 1000) M_Storage) (\<lambda>_.
     require (list_all (\<lambda>r. report_case_id r = case_id c \<and> report_post_id r = post_id post \<and>
        report_reason_code r \<in> set reason_codes) reports) M_Storage)"

definition case_reports :: "db \<Rightarrow> string \<Rightarrow> post_report_row list" where
  "case_reports d i = take 1001 (order_by (\<lambda>r. (report_created_at r, report_id r))
     (rows_where (\<lambda>r. report_case_id r = i) (post_reports d)))"

definition lock_case_review_bundle ::
    "db \<Rightarrow> string \<Rightarrow> string option \<Rightarrow> bool \<Rightarrow> moderation_error + case_bundle" where
  "lock_case_review_bundle d i expected_post_id allow_existing_decision =
     (case get_row case_id i (moderation_cases d) of
        None \<Rightarrow> Inl M_Not_Found
      | Some c \<Rightarrow>
          (let pid = (if truthy expected_post_id then the expected_post_id else case_post_id c) in
           case get_row post_id pid (posts d) of
             None \<Rightarrow> Inl M_Storage
           | Some post \<Rightarrow>
               if case_post_id c \<noteq> post_id post \<or> case_subject_owner_id c \<noteq> post_owner_id post
               then Inl M_Storage
               else
                 (let dec = row_where (\<lambda>x. dec_case_id x = case_id c) (moderation_decisions d);
                      apl = (case dec of None \<Rightarrow> None
                        | Some x \<Rightarrow> row_where (\<lambda>a. apl_decision_id a = dec_id x) (moderation_appeals d))
                  in if dec \<noteq> None \<and> \<not> allow_existing_decision then Inl M_Conflict
                     else if (case dec of None \<Rightarrow> False | Some x \<Rightarrow>
                          dec_case_id x \<noteq> case_id c \<or> dec_post_id x \<noteq> post_id post \<or>
                          (case apl of None \<Rightarrow> False | Some a \<Rightarrow>
                             apl_case_id a \<noteq> case_id c \<or> apl_decision_id a \<noteq> dec_id x \<or>
                             apl_subject_owner_id a \<noteq> case_subject_owner_id c))
                     then Inl M_Storage
                     else and_then (validate_reports c post (case_reports d (case_id c))) (\<lambda>_.
                       Inr \<lparr>cb_post = post, cb_case = c, cb_reports = case_reports d (case_id c),
                         cb_decision = dec, cb_appeal = apl\<rparr>))))"

definition lock_appeal_review_bundle :: "db \<Rightarrow> string \<Rightarrow> moderation_error + appeal_bundle" where
  "lock_appeal_review_bundle d i =
     (case get_row apl_id i (moderation_appeals d) of
        None \<Rightarrow> Inl M_Not_Found
      | Some apl \<Rightarrow>
          (case get_row case_id (apl_case_id apl) (moderation_cases d) of
             None \<Rightarrow> Inl M_Storage
           | Some c \<Rightarrow>
               (case (get_row post_id (case_post_id c) (posts d),
                      get_row dec_id (apl_decision_id apl) (moderation_decisions d)) of
                  (Some post, Some dec) \<Rightarrow>
                    if case_post_id c \<noteq> post_id post \<or> case_subject_owner_id c \<noteq> post_owner_id post
                       \<or> dec_case_id dec \<noteq> case_id c \<or> dec_post_id dec \<noteq> post_id post
                       \<or> apl_case_id apl \<noteq> case_id c \<or> apl_decision_id apl \<noteq> dec_id dec
                       \<or> apl_subject_owner_id apl \<noteq> case_subject_owner_id c
                    then Inl M_Storage
                    else and_then (validate_reports c post (case_reports d (case_id c))) (\<lambda>_.
                      Inr \<lparr>ab_post = post, ab_case = c, ab_decision = dec, ab_appeal = apl,
                        ab_reports = case_reports d (case_id c)\<rparr>)
                | _ \<Rightarrow> Inl M_Storage)))"

text \<open>\<open>_verified_snapshot\<close>: the canonical bytes must verify and match the ledger row.\<close>

definition verified_snapshot ::
    "moderation_env \<Rightarrow> post_row \<Rightarrow> pystr option list \<Rightarrow> json \<Rightarrow> moderation_error + string" where
  "verified_snapshot env post texts manifest =
     and_then (require (list_all encodable texts) M_Unicode_Encode) (\<lambda>_.
     (case read_verified (me_sha env) (me_content env (post_storage_path post)) (post_sha256 post) of
        Inl _ \<Rightarrow> Inl M_Storage
      | Inr markdown \<Rightarrow>
          (case me_front env markdown of
             None \<Rightarrow> Inl M_Storage
           | Some fm \<Rightarrow>
               (case fm_published_at fm of
                  At t \<Rightarrow>
                    if post_current_version post \<noteq> 1 \<or> fm_id fm \<noteq> post_id post
                       \<or> fm_author_profile_handle fm \<noteq> post_author_profile_handle post
                       \<or> fm_version fm \<noteq> 1 \<or> t \<noteq> post_published_at post
                    then Inl M_Storage
                    else evidence_manifest_sha256 (me_sha env) manifest
                | _ \<Rightarrow> Inl M_Storage))))"

definition case_evidence_snapshot :: "moderation_env \<Rightarrow> case_bundle \<Rightarrow> moderation_error + string" where
  "case_evidence_snapshot env b =
     verified_snapshot env (cb_post b) (map report_narrative (cb_reports b))
       (case_evidence_manifest (me_sha env) (cb_case b) (cb_post b) (cb_reports b))"

definition appeal_evidence_snapshot :: "moderation_env \<Rightarrow> appeal_bundle \<Rightarrow> moderation_error + string" where
  "appeal_evidence_snapshot env b =
     verified_snapshot env (ab_post b)
       (map report_narrative (ab_reports b) @
        [Some (dec_subject_explanation (ab_decision b)), dec_internal_rationale (ab_decision b),
         dec_evidence (ab_decision b), apl_rationale (ab_appeal b), apl_subject_explanation (ab_appeal b),
         apl_internal_rationale (ab_appeal b)])
       (appeal_evidence_manifest (me_sha env) (ab_case b) (ab_post b) (ab_reports b) (ab_decision b) (ab_appeal b))"

definition require_expected_snapshot :: "string option \<Rightarrow> string \<Rightarrow> moderation_error + unit" where
  "require_expected_snapshot expected actual =
     (case expected of
        None \<Rightarrow> Inr ()
      | Some e \<Rightarrow> require (length e = 64 \<and> list_all lower_hex (lit e) \<and> e = actual) M_Precondition)"

subsection \<open>Decisions\<close>

definition system_change_event :: "post_row \<Rightarrow> string \<Rightarrow> time \<Rightarrow> change_event_row" where
  "system_change_event post event now =
     \<lparr>ce_owner_id = post_owner_id post, ce_event_type = event, ce_resource_type = Post_T,
      ce_resource_id = post_id post, ce_actor_id = ''system:post-moderation'', ce_actor_method = ''system'',
      ce_grant_id = None, ce_payload = lit ''{}'', ce_occurred_at = now\<rparr>"

definition audit_event ::
    "string \<Rightarrow> moderation_case_row \<Rightarrow> post_row \<Rightarrow> string \<Rightarrow> string \<Rightarrow> string \<Rightarrow> pystr \<Rightarrow> time \<Rightarrow> moderation_audit_event_row" where
  "audit_event i c post event actor role metadata now =
     \<lparr>aud_id = i, aud_case_id = case_id c, aud_post_id = post_id post, aud_event_type = event,
      aud_actor_id = actor, aud_actor_role = role, aud_safe_metadata = metadata, aud_occurred_at = now\<rparr>"

definition actor_metadata :: "string \<Rightarrow> pystr" where
  "actor_metadata actor_method = json_dumps (jobj [(''actor_method'', jstr actor_method)])"

definition close_case :: "case_status \<Rightarrow> time \<Rightarrow> moderation_case_row \<Rightarrow> moderation_case_row" where
  "close_case st now c =
     c\<lparr>case_status := st, case_updated_at := now, case_closed_at := Some now,
       case_retention_expires_at := Some (now + days 90)\<rparr>"

definition apply_decision ::
    "moderation_env \<Rightarrow> authorities \<Rightarrow> case_bundle \<Rightarrow> bool \<Rightarrow> string \<Rightarrow> pystr \<Rightarrow> string \<Rightarrow> string \<Rightarrow> db \<Rightarrow> db" where
  "apply_decision env au b withhold reason_code explanation actor_method snapshot d =
     (let post = cb_post b; c = cb_case b; now = me_now env;
          d1 = (if withhold
                then d\<lparr>posts := save_row post_id
                         (post\<lparr>post_status := Withheld, post_withheld_at := Some now, post_updated_at := now\<rparr>) (posts d),
                       change_events := insert_row (system_change_event post ''post.withheld'' now) (change_events d)\<rparr>
                else d)
      in d1\<lparr>moderation_cases := save_row case_id
               (close_case (if withhold then Case_Withheld else Dismissed) now c) (moderation_cases d1),
            moderation_decisions := insert_row
               \<lparr>dec_id = me_decision_id env, dec_case_id = case_id c, dec_post_id = post_id post,
                dec_moderator_id = au_moderator_id au, dec_moderator_role = au_moderator_role au,
                dec_action = (if withhold then Withhold else No_Action), dec_reason_code = reason_code,
                dec_subject_explanation = explanation, dec_internal_rationale = None, dec_evidence = None,
                dec_evidence_snapshot_sha256 = Some snapshot, dec_decided_at = now\<rparr> (moderation_decisions d1),
            moderation_audit_events := insert_row
               (audit_event (me_audit_id env) c post
                 (if withhold then ''decision_withheld'' else ''decision_no_action'')
                 (au_moderator_id au) (au_moderator_role au) (actor_metadata actor_method) now)
               (moderation_audit_events d1)\<rparr>)"

definition decide_case ::
    "moderation_env \<Rightarrow> string \<Rightarrow> string option \<Rightarrow> string \<Rightarrow> string \<Rightarrow> pystr \<Rightarrow> string \<Rightarrow> string option \<Rightarrow> db
      \<Rightarrow> moderation_error + db" where
  "decide_case env i expected_post_id action reason_code explanation actor_method expected_snapshot d =
     and_then (configured_moderation_authorities (me_settings env)) (\<lambda>au.
     and_then (require (action = ''dismiss'' \<or> action = ''withhold'') M_Input) (\<lambda>_.
     and_then (require (reason_code \<in> set reason_codes) M_Input) (\<lambda>_.
     and_then (require (1 \<le> length explanation \<and> length explanation \<le> 500) M_Input) (\<lambda>_.
     and_then (lock_case_review_bundle d i expected_post_id False) (\<lambda>b.
     and_then (require (case_subject_owner_id (cb_case b) \<noteq> au_moderator_id au) M_Conflict) (\<lambda>_.
     and_then (require (case_status (cb_case b) = Open) M_Conflict) (\<lambda>_.
     and_then (require (action = ''withhold'' \<longrightarrow> post_status (cb_post b) = Published) M_Conflict) (\<lambda>_.
     and_then (case_evidence_snapshot env b) (\<lambda>snapshot.
     and_then (require_expected_snapshot expected_snapshot snapshot) (\<lambda>_.
     Inr (apply_decision env au b (action = ''withhold'') reason_code explanation actor_method snapshot d)))))))))))"

definition apply_review ::
    "moderation_env \<Rightarrow> authorities \<Rightarrow> appeal_bundle \<Rightarrow> bool \<Rightarrow> pystr \<Rightarrow> string \<Rightarrow> string \<Rightarrow> db \<Rightarrow> db" where
  "apply_review env au b overturn explanation actor_method snapshot d =
     (let post = ab_post b; c = ab_case b; now = me_now env;
          d1 = (if overturn \<and> post_status post = Withheld
                then d\<lparr>posts := save_row post_id
                         (post\<lparr>post_status := Published, post_withheld_at := None, post_updated_at := now\<rparr>) (posts d),
                       change_events := insert_row (system_change_event post ''post.restored'' now) (change_events d)\<rparr>
                else d)
      in d1\<lparr>moderation_appeals := save_row apl_id
               ((ab_appeal b)\<lparr>apl_status := (if overturn then Overturned else Upheld), apl_reviewed_at := Some now,
                  apl_reviewer_id := Some (au_appeal_reviewer_id au), apl_reviewer_role := Some (au_appeal_reviewer_role au),
                  apl_subject_explanation := Some explanation, apl_internal_rationale := None,
                  apl_review_snapshot_sha256 := Some snapshot\<rparr>) (moderation_appeals d1),
            moderation_cases := save_row case_id
               (close_case (if overturn then Appeal_Overturned else Appeal_Upheld) now c) (moderation_cases d1),
            moderation_audit_events := insert_row
               (audit_event (me_audit_id env) c post (if overturn then ''appeal_overturned'' else ''appeal_upheld'')
                 (au_appeal_reviewer_id au) (au_appeal_reviewer_role au) (actor_metadata actor_method) now)
               (moderation_audit_events d1)\<rparr>)"

definition review_appeal ::
    "moderation_env \<Rightarrow> string \<Rightarrow> string \<Rightarrow> pystr \<Rightarrow> string \<Rightarrow> string option \<Rightarrow> db \<Rightarrow> moderation_error + db" where
  "review_appeal env i action explanation actor_method expected_snapshot d =
     and_then (configured_moderation_authorities (me_settings env)) (\<lambda>au.
     and_then (require (action = ''uphold'' \<or> action = ''overturn'') M_Input) (\<lambda>_.
     and_then (require (1 \<le> length explanation \<and> length explanation \<le> 500) M_Input) (\<lambda>_.
     and_then (lock_appeal_review_bundle d i) (\<lambda>b.
     and_then (require (apl_status (ab_appeal b) = Submitted \<and> case_status (ab_case b) = Appealed \<and>
         dec_action (ab_decision b) = Withhold) M_Conflict) (\<lambda>_.
     and_then (require (au_appeal_reviewer_id au \<noteq> dec_moderator_id (ab_decision b) \<and>
         au_appeal_reviewer_id au \<noteq> case_subject_owner_id (ab_case b)) M_Conflict) (\<lambda>_.
     and_then (require (post_status (ab_post b) = Withheld \<or> post_status (ab_post b) = Withdrawn) M_Conflict) (\<lambda>_.
     and_then (appeal_evidence_snapshot env b) (\<lambda>snapshot.
     and_then (require_expected_snapshot expected_snapshot snapshot) (\<lambda>_.
     Inr (apply_review env au b (action = ''overturn'') explanation actor_method snapshot d))))))))))"

subsection \<open>Routes\<close>

definition content_blocked :: "db \<Rightarrow> string \<Rightarrow> string \<Rightarrow> bool" where
  "content_blocked d a b =
     exists_where (\<lambda>x. pcb_blocker_owner_id x = a \<and> pcb_blocked_owner_id x = b \<or>
        pcb_blocker_owner_id x = b \<and> pcb_blocked_owner_id x = a) (post_content_blocks d)"

definition current_public_post_author :: "db \<Rightarrow> post_row \<Rightarrow> document_row option" where
  "current_public_post_author d post =
     row_where (\<lambda>x. doc_id x = post_author_profile_document_id post \<and> doc_owner_id x = post_owner_id post \<and>
        doc_kind x = ''profile'' \<and> doc_visibility x = ''public'' \<and>
        doc_public_identifier x = post_author_profile_handle post) (documents d)"

definition visible_published_post :: "db \<Rightarrow> string \<Rightarrow> principal option \<Rightarrow> http_error + post_row" where
  "visible_published_post d i p =
     (case row_where (\<lambda>x. post_id x = i \<and> post_status x = Published) (posts d) of
        None \<Rightarrow> Inl (Http 404)
      | Some post \<Rightarrow>
          if current_public_post_author d post = None then Inl (Http 404)
          else if (case p of None \<Rightarrow> False
                   | Some q \<Rightarrow> prin_method q = ''clerk_jwt'' \<and> content_blocked d (prin_subject q) (post_owner_id post))
          then Inl (Http 404) else Inr post)"

text \<open>
  \<open>ensure_post_moderation_case\<close>: the partial unique index on open cases makes the insertion a
  no-op when there is one already, which the preceding lookup excludes.
\<close>

definition open_case :: "db \<Rightarrow> post_row \<Rightarrow> moderation_case_row option" where
  "open_case d post =
     row_where (\<lambda>c. case_post_id c = post_id post \<and> case_status c = Open) (moderation_cases d)"

definition new_case :: "string \<Rightarrow> post_row \<Rightarrow> time \<Rightarrow> moderation_case_row" where
  "new_case i post now =
     \<lparr>case_id = i, case_post_id = post_id post, case_subject_owner_id = post_owner_id post, case_status = Open,
      case_created_at = now, case_updated_at = now, case_closed_at = None,
      case_retention_expires_at = None, case_sensitive_purged_at = None\<rparr>"

definition ensure_post_moderation_case ::
    "string \<Rightarrow> string \<Rightarrow> post_row \<Rightarrow> time \<Rightarrow> db \<Rightarrow> db \<times> moderation_case_row" where
  "ensure_post_moderation_case i audit_id post now d =
     (case open_case d post of
        Some c \<Rightarrow> (d, c)
      | None \<Rightarrow>
          (let c = new_case i post now in
           (d\<lparr>moderation_cases := insert_row c (moderation_cases d),
              moderation_audit_events := insert_row
                (audit_event audit_id c post ''case_opened'' ''system:report-intake'' ''system'' (lit ''{}'') now)
                (moderation_audit_events d)\<rparr>, c)))"

definition report_body ::
    "route_env \<Rightarrow> principal \<Rightarrow> string \<Rightarrow> string \<Rightarrow> pystr option \<Rightarrow> db \<Rightarrow> http_error + db \<times> nat \<times> resource" where
  "report_body env p i reason_code narrative d =
     and_then (visible_published_post d i (Some p)) (\<lambda>seen.
     (case get_row post_id (post_id seen) (posts d) of
        None \<Rightarrow> Inl (Http 404)
      | Some post \<Rightarrow>
          and_then (require (post_status post = Published) (Http 404)) (\<lambda>_.
          and_then (require (current_public_post_author d post \<noteq> None \<and>
              \<not> content_blocked d (prin_subject p) (post_owner_id post)) (Http 404)) (\<lambda>_.
          and_then (require (post_owner_id post \<noteq> prin_subject p) (Http 409)) (\<lambda>_.
          (case row_where (\<lambda>r. report_post_id r = post_id post \<and>
                   report_reporter_owner_id r = prin_subject p) (post_reports d) of
             Some existing \<Rightarrow>
               (case get_row case_id (report_case_id existing) (moderation_cases d) of
                  None \<Rightarrow> Inl (Http 503)
                | Some c \<Rightarrow>
                    and_then (require (report_case_id existing = case_id c \<and> case_post_id c = post_id post \<and>
                        case_subject_owner_id c = post_owner_id post) (Http 503)) (\<lambda>_.
                    Inr (d, 200, (Post_Report_T, report_id existing))))
           | None \<Rightarrow>
               (case ensure_post_moderation_case (re_new_id env 0) (re_new_id env 1) post (re_now env) d of
                  (d1, c) \<Rightarrow>
                    and_then (require (case_status c = Open \<and> case_post_id c = post_id post \<and>
                        case_subject_owner_id c = post_owner_id post) (Http 503)) (\<lambda>_.
                    and_then (require (length (rows_where (\<lambda>r. report_case_id r = case_id c) (post_reports d1)) < 1000)
                        (Http 503)) (\<lambda>_.
                    (case consume_quota 20 (prin_subject p) (re_now env) (post_report_buckets d1) of
                       None \<Rightarrow> Inl (Http 429)
                     | Some buckets \<Rightarrow>
                         Inr (d1\<lparr>
                           post_reports := insert_row
                             \<lparr>report_id = re_new_id env 2, report_post_id = post_id post, report_case_id = case_id c,
                              report_reporter_owner_id = prin_subject p, report_reason_code = reason_code,
                              report_narrative = narrative, report_created_at = re_now env\<rparr> (post_reports d1),
                           moderation_audit_events := insert_row
                             (audit_event (re_new_id env 3) c post ''report_linked'' ''system:report-intake'' ''system''
                               (lit ''{}'') (re_now env)) (moderation_audit_events d1),
                           post_report_buckets := buckets\<rparr>, 201, (Post_Report_T, re_new_id env 2))))))))))))"

definition report_post ::
    "route_env \<Rightarrow> principal \<Rightarrow> request \<Rightarrow> string \<Rightarrow> string \<Rightarrow> pystr option \<Rightarrow> db \<Rightarrow> db \<times> (http_error + reply)" where
  "report_post env p rq i reason_code narrative d =
     mutating_route env (require_social_human p ''documents:read'')
       p rq (''POST:/v1/posts/'' @ i @ ''/report'') None (report_body env p i reason_code narrative) d"

definition appeal_body ::
    "route_env \<Rightarrow> principal \<Rightarrow> string \<Rightarrow> pystr \<Rightarrow> db \<Rightarrow> http_error + db \<times> nat \<times> resource" where
  "appeal_body env p i rationale d =
     (case get_row case_id i (moderation_cases d) of
        None \<Rightarrow> Inl (Http 404)
      | Some c \<Rightarrow>
          and_then (require (case_subject_owner_id c = prin_subject p) (Http 404)) (\<lambda>_.
          (case (get_row post_id (case_post_id c) (posts d),
                 row_where (\<lambda>x. dec_case_id x = i) (moderation_decisions d)) of
             (Some post, Some dec) \<Rightarrow>
               (let existing = row_where (\<lambda>a. apl_case_id a = i) (moderation_appeals d) in
                and_then (require (case_post_id c = post_id post \<and> case_subject_owner_id c = post_owner_id post \<and>
                    dec_case_id dec = case_id c \<and> dec_post_id dec = post_id post \<and>
                    (case existing of None \<Rightarrow> True | Some a \<Rightarrow> apl_decision_id a = dec_id dec)) (Http 409)) (\<lambda>_.
                and_then (require (dec_action dec = Withhold \<and> case_status c = Case_Withheld) (Http 409)) (\<lambda>_.
                and_then (require (re_now env \<le> dec_decided_at dec + days 30) (Http 409)) (\<lambda>_.
                and_then (require (existing = None) (Http 409)) (\<lambda>_.
                Inr (d\<lparr>
                  moderation_appeals := insert_row
                    \<lparr>apl_id = re_new_id env 0, apl_case_id = case_id c, apl_decision_id = dec_id dec,
                     apl_subject_owner_id = prin_subject p, apl_rationale = Some rationale,
                     apl_status = Submitted, apl_submitted_at = re_now env, apl_reviewed_at = None,
                     apl_reviewer_id = None, apl_reviewer_role = None, apl_subject_explanation = None,
                     apl_internal_rationale = None, apl_review_snapshot_sha256 = None\<rparr> (moderation_appeals d),
                  moderation_cases := save_row case_id
                    (c\<lparr>case_status := Appealed, case_closed_at := None, case_updated_at := re_now env,
                       case_retention_expires_at := None\<rparr>) (moderation_cases d),
                  moderation_audit_events := insert_row
                    (audit_event (re_new_id env 1) c post ''appeal_submitted'' (audit_actor_id p) ''subject''
                      (lit ''{}'') (re_now env)) (moderation_audit_events d)\<rparr>,
                  201, (Moderation_Appeal_T, re_new_id env 0)))))))
           | _ \<Rightarrow> Inl (Http 409))))"

definition create_moderation_appeal ::
    "route_env \<Rightarrow> principal \<Rightarrow> request \<Rightarrow> string \<Rightarrow> pystr \<Rightarrow> db \<Rightarrow> db \<times> (http_error + reply)" where
  "create_moderation_appeal env p rq i rationale d =
     mutating_route env (require_social_human p ''documents:read'')
       p rq (''POST:/v1/moderation/cases/'' @ i @ ''/appeals'') None (appeal_body env p i rationale) d"

definition withdraw_body ::
    "route_env \<Rightarrow> principal \<Rightarrow> request \<Rightarrow> string \<Rightarrow> db \<Rightarrow> http_error + db \<times> nat \<times> resource" where
  "withdraw_body env p rq i d =
     (case row_where (\<lambda>x. post_id x = i \<and> post_owner_id x = prin_subject p) (posts d) of
        None \<Rightarrow> Inl (Http 404)
      | Some post \<Rightarrow>
          and_then (require (post_status post = Published \<or> post_status post = Withheld) (Http 404)) (\<lambda>_.
          and_then (require_if_match rq (strong_etag (post_sha256 post))) (\<lambda>_.
          Inr (d\<lparr>
            posts := save_row post_id
              (post\<lparr>post_status := Withdrawn, post_withdrawn_at := Some (re_now env),
                 post_updated_at := re_now env\<rparr>) (posts d),
            change_events := insert_row
              \<lparr>ce_owner_id = post_owner_id post, ce_event_type = ''post.withdrawn'', ce_resource_type = Post_T,
               ce_resource_id = post_id post, ce_actor_id = audit_actor_id p, ce_actor_method = prin_method p,
               ce_grant_id = None, ce_payload = lit ''{}'', ce_occurred_at = re_now env\<rparr> (change_events d)\<rparr>,
            204, (Post_T, post_id post)))))"

definition withdraw_post ::
    "route_env \<Rightarrow> principal \<Rightarrow> request \<Rightarrow> string \<Rightarrow> db \<Rightarrow> db \<times> (http_error + reply)" where
  "withdraw_post env p rq i d =
     mutating_route env (require_social_human p ''documents:write'')
       p rq (''DELETE:/v1/posts/'' @ i) (rq_if_match rq) (withdraw_body env p rq i) d"

end
