(* ===== verification/PostModerationSafety.thy ===== *)
theory PostModerationSafety
  imports PostModeration RetentionSafety
begin

text \<open>
  The moderation state machine: what every case looks like in each status, that every route,
  every decision, every review and the retention purge keep it so, and what that means for
  independence, finality, restoration and the appeal window.
\<close>

subsection \<open>The invariant\<close>

definition decision_of :: "db \<Rightarrow> moderation_case_row \<Rightarrow> moderation_decision_row option" where
  "decision_of d c = row_where (\<lambda>x. dec_case_id x = case_id c) (moderation_decisions d)"

definition appeal_of :: "db \<Rightarrow> moderation_case_row \<Rightarrow> moderation_appeal_row option" where
  "appeal_of d c = row_where (\<lambda>a. apl_case_id a = case_id c) (moderation_appeals d)"

definition closed_from :: "moderation_case_row \<Rightarrow> time \<Rightarrow> bool" where
  "closed_from c t \<longleftrightarrow> case_closed_at c = Some t \<and> case_retention_expires_at c = Some (t + days 90)"

definition in_progress :: "moderation_case_row \<Rightarrow> bool" where
  "in_progress c \<longleftrightarrow> case_closed_at c = None \<and> case_retention_expires_at c = None"

definition independent :: "moderation_case_row \<Rightarrow> moderation_decision_row \<Rightarrow> bool" where
  "independent c dec \<longleftrightarrow> dec_moderator_id dec \<noteq> case_subject_owner_id c"

definition reviewed :: "moderation_case_row \<Rightarrow> moderation_decision_row \<Rightarrow> moderation_appeal_row \<Rightarrow> bool" where
  "reviewed c dec a =
     (case (apl_reviewer_id a, apl_reviewed_at a) of
        (Some r, Some t) \<Rightarrow> r \<noteq> dec_moderator_id dec \<and> r \<noteq> case_subject_owner_id c \<and> closed_from c t
      | _ \<Rightarrow> False)"

definition decided :: "db \<Rightarrow> moderation_case_row \<Rightarrow> decision_action \<Rightarrow> (moderation_decision_row \<Rightarrow> bool) \<Rightarrow> bool" where
  "decided d c action extra =
     (case decision_of d c of
        None \<Rightarrow> False
      | Some dec \<Rightarrow> dec_action dec = action \<and> independent c dec \<and> extra dec)"

definition appealed :: "db \<Rightarrow> moderation_case_row \<Rightarrow> appeal_status \<Rightarrow>
    (moderation_decision_row \<Rightarrow> moderation_appeal_row \<Rightarrow> bool) \<Rightarrow> bool" where
  "appealed d c st extra =
     decided d c Withhold (\<lambda>dec.
       case appeal_of d c of
         None \<Rightarrow> False
       | Some a \<Rightarrow> apl_status a = st \<and> apl_decision_id a = dec_id dec \<and> extra dec a)"

definition case_ok :: "db \<Rightarrow> moderation_case_row \<Rightarrow> bool" where
  "case_ok d c =
     (case case_status c of
        Open \<Rightarrow> decision_of d c = None \<and> appeal_of d c = None \<and> in_progress c
      | Dismissed \<Rightarrow> appeal_of d c = None \<and> decided d c No_Action (\<lambda>dec. closed_from c (dec_decided_at dec))
      | Case_Withheld \<Rightarrow> appeal_of d c = None \<and> decided d c Withhold (\<lambda>dec. closed_from c (dec_decided_at dec))
      | Appealed \<Rightarrow> in_progress c \<and> appealed d c Submitted (\<lambda>dec a. True)
      | Appeal_Upheld \<Rightarrow> appealed d c Upheld (reviewed c)
      | Appeal_Overturned \<Rightarrow> appealed d c Overturned (reviewed c)
      | _ \<Rightarrow> True)"

definition moderation_ok :: "db \<Rightarrow> bool" where
  "moderation_ok d \<longleftrightarrow>
     unique_by case_id (moderation_cases d) \<and> unique_by post_id (posts d) \<and>
     unique_by dec_id (moderation_decisions d) \<and> unique_by dec_case_id (moderation_decisions d) \<and>
     unique_by apl_id (moderation_appeals d) \<and> unique_by apl_case_id (moderation_appeals d) \<and>
     unique_by case_post_id (filter (\<lambda>c. case_status c = Open) (moderation_cases d)) \<and>
     list_all (case_ok d) (moderation_cases d)"

subsection \<open>Frames\<close>

text \<open>A case keeps its standing when its decision and appeal rows do.\<close>

lemma case_ok_frame:
  "decision_of d' c = decision_of d c \<Longrightarrow> appeal_of d' c = appeal_of d c \<Longrightarrow> case_ok d' c = case_ok d c"
  by (cases "case_status c") (simp_all add: case_ok_def decided_def appealed_def)

lemma case_okD:
  "moderation_ok d \<Longrightarrow> get_row case_id i (moderation_cases d) = Some c \<Longrightarrow> case_ok d c"
  by (auto simp: moderation_ok_def list_all_iff dest!: get_row_SomeD)

lemma open_unique_save:
  assumes "unique_by case_post_id (filter (\<lambda>c. case_status c = Open) cs)" and "case_status c' \<noteq> Open"
    and "unique_by case_id cs" and "get_row case_id (case_id c') cs = Some c" and "case_post_id c' = case_post_id c"
  shows "unique_by case_post_id (filter (\<lambda>c. case_status c = Open) (save_row case_id c' cs))"
  using assms(1)
proof (rule unique_filter_save)
  fix x assume "x \<in> set cs" "case_id x = case_id c'"
  with assms get_row_unique [of case_id cs x] show "case_post_id x = case_post_id c' \<and> (case_status c' = Open \<longrightarrow> case_status x = Open)"
    by simp
qed

text \<open>Changing one case: the others keep their rows, the changed one is checked on its own.\<close>

lemma moderation_ok_change:
  assumes ok: "moderation_ok d" and c: "get_row case_id (case_id c') (moderation_cases d) = Some c"
    and same: "case_post_id c' = case_post_id c"
    and cases: "moderation_cases d' = save_row case_id c' (moderation_cases d)"
    and posts: "unique_by post_id (posts d')"
    and decs: "unique_by dec_id (moderation_decisions d')" "unique_by dec_case_id (moderation_decisions d')"
    and apls: "unique_by apl_id (moderation_appeals d')" "unique_by apl_case_id (moderation_appeals d')"
    and shut: "case_status c' \<noteq> Open" and good: "case_ok d' c'"
    and others: "\<And>x. case_id x \<noteq> case_id c' \<Longrightarrow> decision_of d' x = decision_of d x \<and> appeal_of d' x = appeal_of d x"
  shows "moderation_ok d'"
proof -
  have "case_ok d' x" if "x \<in> set (moderation_cases d')" for x
  proof (cases "case_id x = case_id c'")
    case True
    with that good show ?thesis by (auto simp: cases set_save_row)
  next
    case False
    with that ok have "case_ok d x" by (auto simp: cases set_save_row moderation_ok_def list_all_iff)
    with others [OF False] case_ok_frame [of d' x d] show ?thesis by simp
  qed
  moreover have "unique_by case_post_id (filter (\<lambda>c. case_status c = Open) (moderation_cases d'))"
    unfolding cases using ok c shut same by (intro open_unique_save) (auto simp: moderation_ok_def)
  ultimately show ?thesis using ok posts decs apls by (simp add: moderation_ok_def cases list_all_iff)
qed

lemma close_case_simps [simp]:
  "case_id (close_case st now c) = case_id c"
  "case_post_id (close_case st now c) = case_post_id c"
  "case_subject_owner_id (close_case st now c) = case_subject_owner_id c"
  "case_status (close_case st now c) = st"
  "case_closed_at (close_case st now c) = Some now"
  "case_retention_expires_at (close_case st now c) = Some (now + days 90)"
  by (simp_all add: close_case_def)

subsection \<open>Decisions\<close>

lemma lock_case_review_bundleD:
  assumes "lock_case_review_bundle d i expected False = Inr b"
  shows "get_row case_id i (moderation_cases d) = Some (cb_case b) \<and> case_id (cb_case b) = i \<and>
     get_row post_id (case_post_id (cb_case b)) (posts d) = Some (cb_post b) \<and>
     case_subject_owner_id (cb_case b) = post_owner_id (cb_post b) \<and>
     decision_of d (cb_case b) = None \<and> cb_reports b = case_reports d i"
proof -
  from assms obtain c where c: "get_row case_id i (moderation_cases d) = Some c"
    by (auto simp: lock_case_review_bundle_def split: option.splits)
  define pid where "pid = (if truthy expected then the expected else case_post_id c)"
  with assms c obtain post where post: "get_row post_id pid (posts d) = Some post"
    and m: "case_post_id c = post_id post" "case_subject_owner_id c = post_owner_id post"
    and dec: "row_where (\<lambda>x. dec_case_id x = case_id c) (moderation_decisions d) = None"
    and b: "cb_post b = post" "cb_case b = c" "cb_reports b = case_reports d (case_id c)"
    by (auto simp: lock_case_review_bundle_def Let_def split: option.splits if_splits)
  have "pid = case_post_id c" using post m by (auto dest: get_row_SomeD)
  with c post m dec b show ?thesis by (auto simp: decision_of_def dest: get_row_SomeD)
qed

lemma decide_caseD:
  assumes "decide_case env i expected action reason explanation via snapshot d = Inr d'"
  obtains au b sha where "configured_moderation_authorities (me_settings env) = Inr au"
    and "lock_case_review_bundle d i expected False = Inr b"
    and "action = ''dismiss'' \<or> action = ''withhold''"
    and "case_subject_owner_id (cb_case b) \<noteq> au_moderator_id au"
    and "case_status (cb_case b) = Open"
    and "action = ''withhold'' \<Longrightarrow> post_status (cb_post b) = Published"
    and "case_evidence_snapshot env b = Inr sha"
    and "require_expected_snapshot snapshot sha = Inr ()"
    and "d' = apply_decision env au b (action = ''withhold'') reason explanation via sha d"
  using assms by (auto simp: decide_case_def)

lemma decide_case_keeps:
  assumes ok: "moderation_ok d" and fresh: "me_decision_id env \<notin> dec_id ` set (moderation_decisions d)"
    and call: "decide_case env i expected action reason explanation via snapshot d = Inr d'"
  shows "moderation_ok d'"
proof -
  from call obtain au b sha where b: "lock_case_review_bundle d i expected False = Inr b"
    and indep: "case_subject_owner_id (cb_case b) \<noteq> au_moderator_id au"
    and st: "case_status (cb_case b) = Open"
    and d': "d' = apply_decision env au b (action = ''withhold'') reason explanation via sha d"
    by (rule decide_caseD)
  note bD = lock_case_review_bundleD [OF b]
  let ?c = "cb_case b" and ?w = "action = ''withhold''"
  let ?c' = "close_case (if ?w then Case_Withheld else Dismissed) (me_now env) ?c"
  have none: "\<forall>x \<in> set (moderation_decisions d). dec_case_id x \<noteq> case_id ?c"
    using bD by (auto simp: decision_of_def row_where_None)
  have okc: "case_ok d ?c" using ok bD by (auto intro: case_okD)
  then have noapl: "appeal_of d ?c = None" using st by (simp add: case_ok_def)
  have cid: "case_id ?c' = case_id ?c" by simp
  have sameapl: "moderation_appeals d' = moderation_appeals d" by (simp add: d' apply_decision_def Let_def)
  show ?thesis
  proof (rule moderation_ok_change [OF ok, where c' = ?c' and c = ?c])
    show "get_row case_id (case_id ?c') (moderation_cases d) = Some ?c" using bD by (simp add: cid)
    show "case_post_id ?c' = case_post_id ?c" by (simp)
    show "moderation_cases d' = save_row case_id ?c' (moderation_cases d)"
      by (simp add: d' apply_decision_def Let_def)
    show "unique_by post_id (posts d')" using ok by (simp add: d' apply_decision_def Let_def moderation_ok_def)
    show "unique_by dec_id (moderation_decisions d')" "unique_by dec_case_id (moderation_decisions d')"
      using ok fresh none by (auto simp: d' apply_decision_def Let_def moderation_ok_def)
    show "unique_by apl_id (moderation_appeals d')" "unique_by apl_case_id (moderation_appeals d')"
      using ok by (simp_all add: sameapl moderation_ok_def)
    show "case_status ?c' \<noteq> Open" by simp
    have dn: "row_where (\<lambda>x. dec_case_id x = case_id ?c) (moderation_decisions d) = None"
      using bD unfolding decision_of_def by blast
    have "decision_of d' ?c' = Some \<lparr>dec_id = me_decision_id env, dec_case_id = case_id ?c,
        dec_post_id = post_id (cb_post b), dec_moderator_id = au_moderator_id au,
        dec_moderator_role = au_moderator_role au, dec_action = (if ?w then Withhold else No_Action),
        dec_reason_code = reason, dec_subject_explanation = explanation, dec_internal_rationale = None,
        dec_evidence = None, dec_evidence_snapshot_sha256 = Some sha, dec_decided_at = me_now env\<rparr>"
      unfolding decision_of_def cid by (simp add: d' apply_decision_def Let_def row_where_insert dn)
    moreover have "appeal_of d' ?c' = None" using noapl cid by (simp add: appeal_of_def sameapl)
    ultimately show "case_ok d' ?c'"
      using indep by (cases ?w) (simp_all add: case_ok_def decided_def independent_def closed_from_def)
    fix x :: moderation_case_row assume "case_id x \<noteq> case_id ?c'"
    then show "decision_of d' x = decision_of d x \<and> appeal_of d' x = appeal_of d x"
      by (auto simp: decision_of_def appeal_of_def sameapl cid d' apply_decision_def Let_def row_where_insert
          split: option.splits)
  qed
qed

subsection \<open>Appeals\<close>

lemma lock_appeal_review_bundleD:
  assumes "lock_appeal_review_bundle d i = Inr b"
  shows "get_row apl_id i (moderation_appeals d) = Some (ab_appeal b) \<and>
     get_row case_id (case_id (ab_case b)) (moderation_cases d) = Some (ab_case b) \<and>
     get_row post_id (case_post_id (ab_case b)) (posts d) = Some (ab_post b) \<and>
     get_row dec_id (dec_id (ab_decision b)) (moderation_decisions d) = Some (ab_decision b) \<and>
     apl_case_id (ab_appeal b) = case_id (ab_case b) \<and> dec_case_id (ab_decision b) = case_id (ab_case b) \<and>
     apl_decision_id (ab_appeal b) = dec_id (ab_decision b) \<and>
     case_subject_owner_id (ab_case b) = post_owner_id (ab_post b) \<and>
     ab_reports b = case_reports d (case_id (ab_case b))"
  using assms
  by (auto simp: lock_appeal_review_bundle_def split: option.splits if_splits)

lemma review_appealD:
  assumes "review_appeal env i action explanation via snapshot d = Inr d'"
  obtains au b sha where "configured_moderation_authorities (me_settings env) = Inr au"
    and "lock_appeal_review_bundle d i = Inr b"
    and "apl_status (ab_appeal b) = Submitted" "case_status (ab_case b) = Appealed"
    and "dec_action (ab_decision b) = Withhold"
    and "au_appeal_reviewer_id au \<noteq> dec_moderator_id (ab_decision b)"
    and "au_appeal_reviewer_id au \<noteq> case_subject_owner_id (ab_case b)"
    and "post_status (ab_post b) = Withheld \<or> post_status (ab_post b) = Withdrawn"
    and "appeal_evidence_snapshot env b = Inr sha"
    and "require_expected_snapshot snapshot sha = Inr ()"
    and "d' = apply_review env au b (action = ''overturn'') explanation via sha d"
  using assms by (auto simp: review_appeal_def)

lemma row_of_unique:
  "unique_by key t \<Longrightarrow> r \<in> set t \<Longrightarrow> row_where (\<lambda>x. key x = key r) t = Some r"
  by (rule row_where_unique [where key = key]) auto

text \<open>Saving one row of a table with two keys changes no lookup by the second key but its own.\<close>

lemma row_where_save_second:
  assumes "unique_by key t" "unique_by key' t" "r \<in> set t" "key r' = key r" "key' r' = key' r"
  shows "row_where (\<lambda>y. key' y = k) (save_row key r' t) = (if k = key' r then Some r' else row_where (\<lambda>y. key' y = k) t)"
proof -
  have same: "y = r" if "y \<in> set t" "key y = key r'" for y
    using unique_byD [OF assms(1) that(1) assms(3)] that(2) assms(4) by simp
  have saved: "row_where (\<lambda>y. key' y = k) (save_row key r' t) =
      map_option (\<lambda>y. if key y = key r' then r' else y) (row_where (\<lambda>y. key' y = k) t)"
    by (rule row_where_save) (use same assms(5) in auto)
  have found: "row_where (\<lambda>y. key' y = key' r) t = Some r" by (rule row_of_unique [OF assms(2,3)])
  show ?thesis
  proof (cases "k = key' r")
    case True
    then show ?thesis using saved found assms(4) by simp
  next
    case False
    then have "key y \<noteq> key r'" if "row_where (\<lambda>y. key' y = k) t = Some y" for y
      using row_where_SomeD [OF that] same by blast
    then show ?thesis using saved False by (cases "row_where (\<lambda>y. key' y = k) t") auto
  qed
qed

lemma review_appeal_keeps:
  assumes ok: "moderation_ok d"
    and call: "review_appeal env i action explanation via snapshot d = Inr d'"
  shows "moderation_ok d'"
proof -
  from call obtain au b sha where b: "lock_appeal_review_bundle d i = Inr b"
    and st: "case_status (ab_case b) = Appealed"
    and wh: "dec_action (ab_decision b) = Withhold"
    and ind: "au_appeal_reviewer_id au \<noteq> dec_moderator_id (ab_decision b)"
      "au_appeal_reviewer_id au \<noteq> case_subject_owner_id (ab_case b)"
    and d': "d' = apply_review env au b (action = ''overturn'') explanation via sha d"
    by (rule review_appealD)
  note bD = lock_appeal_review_bundleD [OF b]
  let ?c = "ab_case b" and ?o = "action = ''overturn''" and ?a = "ab_appeal b" and ?dec = "ab_decision b"
  let ?c' = "close_case (if ?o then Appeal_Overturned else Appeal_Upheld) (me_now env) ?c"
  define a' where "a' = ?a\<lparr>apl_status := (if ?o then Overturned else Upheld), apl_reviewed_at := Some (me_now env),
      apl_reviewer_id := Some (au_appeal_reviewer_id au), apl_reviewer_role := Some (au_appeal_reviewer_role au),
      apl_subject_explanation := Some explanation, apl_internal_rationale := None,
      apl_review_snapshot_sha256 := Some sha\<rparr>"
  have apls: "moderation_appeals d' = save_row apl_id a' (moderation_appeals d)"
    and decs: "moderation_decisions d' = moderation_decisions d"
    and cases: "moderation_cases d' = save_row case_id ?c' (moderation_cases d)"
    by (simp_all add: d' apply_review_def Let_def a'_def)
  have a: "?a \<in> set (moderation_appeals d)" "apl_id a' = apl_id ?a" "apl_case_id a' = case_id ?c"
    "apl_case_id ?a = case_id ?c"
    using bD by (auto simp: a'_def dest: get_row_SomeD)
  have au: "unique_by apl_id (moderation_appeals d)" "unique_by apl_case_id (moderation_appeals d)"
    using ok by (simp_all add: moderation_ok_def)
  have lookup: "row_where (\<lambda>y. apl_case_id y = k) (moderation_appeals d') =
      (if k = case_id ?c then Some a' else row_where (\<lambda>y. apl_case_id y = k) (moderation_appeals d))" for k
    unfolding apls using row_where_save_second [OF au a(1), of a' k] a by simp
  have dec: "decision_of d ?c = Some ?dec"
    using bD ok row_of_unique [of dec_case_id "moderation_decisions d" ?dec]
    by (auto simp: decision_of_def moderation_ok_def dest: get_row_SomeD)
  have indep: "independent ?c ?dec"
    using case_okD [OF ok, of "case_id ?c" ?c] bD st dec by (auto simp: case_ok_def appealed_def decided_def)
  have apl: "appeal_of d' ?c' = Some a'" by (simp add: appeal_of_def lookup)
  show ?thesis
  proof (rule moderation_ok_change [OF ok, where c' = ?c' and c = ?c])
    show "get_row case_id (case_id ?c') (moderation_cases d) = Some ?c" using bD by simp
    show "case_post_id ?c' = case_post_id ?c" by (simp)
    show "moderation_cases d' = save_row case_id ?c' (moderation_cases d)" by (rule cases)
    show "unique_by post_id (posts d')" using ok by (simp add: d' apply_review_def Let_def moderation_ok_def)
    show "unique_by dec_id (moderation_decisions d')" "unique_by dec_case_id (moderation_decisions d')"
      using ok by (simp_all add: decs moderation_ok_def)
    show "unique_by apl_id (moderation_appeals d')" using au by (simp add: apls)
    show "unique_by apl_case_id (moderation_appeals d')"
      unfolding apls using au a by (subst unique_save_row_other [where x = ?a]) auto
    show "case_status ?c' \<noteq> Open" by simp
    have "decision_of d' ?c' = Some ?dec" using dec by (simp add: decision_of_def decs)
    with apl wh ind indep bD show "case_ok d' ?c'"
      by (cases ?o) (simp_all add: case_ok_def appealed_def decided_def independent_def reviewed_def
          closed_from_def a'_def)
    fix x :: moderation_case_row assume x: "case_id x \<noteq> case_id ?c'"
    then show "decision_of d' x = decision_of d x \<and> appeal_of d' x = appeal_of d x"
      by (simp add: decision_of_def appeal_of_def decs lookup)
  qed
qed

lemma appeal_bodyD:
  assumes "appeal_body env p i rationale d = Inr (d', status, res)"
  obtains c post dec a where "get_row case_id i (moderation_cases d) = Some c"
    and "case_subject_owner_id c = prin_subject p"
    and "get_row post_id (case_post_id c) (posts d) = Some post"
    and "row_where (\<lambda>x. dec_case_id x = i) (moderation_decisions d) = Some dec"
    and "row_where (\<lambda>a. apl_case_id a = i) (moderation_appeals d) = None"
    and "dec_action dec = Withhold" and "case_status c = Case_Withheld"
    and "re_now env \<le> dec_decided_at dec + days 30"
    and "apl_id a = re_new_id env 0" "apl_case_id a = i" "apl_status a = Submitted" "apl_decision_id a = dec_id dec"
    and "moderation_appeals d' = insert_row a (moderation_appeals d)"
    and "moderation_cases d' = save_row case_id
      (c\<lparr>case_status := Appealed, case_closed_at := None, case_updated_at := re_now env,
         case_retention_expires_at := None\<rparr>) (moderation_cases d)"
    and "posts d' = posts d" "moderation_decisions d' = moderation_decisions d"
proof -
  from assms obtain c where c: "get_row case_id i (moderation_cases d) = Some c"
    by (auto simp: appeal_body_def split: option.splits)
  then have id: "case_id c = i" by (auto dest: get_row_SomeD)
  from assms c obtain post dec where post: "get_row post_id (case_post_id c) (posts d) = Some post"
    and dec: "row_where (\<lambda>x. dec_case_id x = i) (moderation_decisions d) = Some dec"
    by (auto simp: appeal_body_def split: option.splits)
  show thesis
    by (rule that [OF c _ post dec, of "\<lparr>apl_id = re_new_id env 0, apl_case_id = case_id c, apl_decision_id = dec_id dec,
                     apl_subject_owner_id = prin_subject p, apl_rationale = Some rationale,
                     apl_status = Submitted, apl_submitted_at = re_now env, apl_reviewed_at = None,
                     apl_reviewer_id = None, apl_reviewer_role = None, apl_subject_explanation = None,
                     apl_internal_rationale = None, apl_review_snapshot_sha256 = None\<rparr>"])
      (use assms c post dec id in \<open>auto simp: appeal_body_def Let_def\<close>)
qed

lemma appeal_body_keeps:
  assumes ok: "moderation_ok d" and fresh: "re_new_id env 0 \<notin> apl_id ` set (moderation_appeals d)"
    and call: "appeal_body env p i rationale d = Inr (d', status, res)"
  shows "moderation_ok d'"
  using call
proof (rule appeal_bodyD)
  fix c post dec a
  assume c: "get_row case_id i (moderation_cases d) = Some c"
    and dec: "row_where (\<lambda>x. dec_case_id x = i) (moderation_decisions d) = Some dec"
    and none: "row_where (\<lambda>a. apl_case_id a = i) (moderation_appeals d) = None"
    and wh: "dec_action dec = Withhold" and st: "case_status c = Case_Withheld"
    and a: "apl_id a = re_new_id env 0" "apl_case_id a = i" "apl_status a = Submitted" "apl_decision_id a = dec_id dec"
    and apls: "moderation_appeals d' = insert_row a (moderation_appeals d)"
    and cases: "moderation_cases d' = save_row case_id
      (c\<lparr>case_status := Appealed, case_closed_at := None, case_updated_at := re_now env,
         case_retention_expires_at := None\<rparr>) (moderation_cases d)"
    and posts: "posts d' = posts d" and decs: "moderation_decisions d' = moderation_decisions d"
  let ?c' = "c\<lparr>case_status := Appealed, case_closed_at := None, case_updated_at := re_now env,
         case_retention_expires_at := None\<rparr>"
  have id: "case_id c = i" using c by (auto dest: get_row_SomeD)
  have indep: "independent c dec"
    using case_okD [OF ok c] st dec id by (auto simp: case_ok_def decided_def decision_of_def)
  show ?thesis
  proof (rule moderation_ok_change [OF ok, where c' = ?c' and c = c])
    show "get_row case_id (case_id ?c') (moderation_cases d) = Some c" using c id by simp
    show "case_post_id ?c' = case_post_id c" by (simp)
    show "moderation_cases d' = save_row case_id ?c' (moderation_cases d)" by (rule cases)
    show "unique_by post_id (posts d')" "unique_by dec_id (moderation_decisions d')"
      "unique_by dec_case_id (moderation_decisions d')"
      using ok by (simp_all add: posts decs moderation_ok_def)
    show "unique_by apl_id (moderation_appeals d')" "unique_by apl_case_id (moderation_appeals d')"
      using ok fresh none a by (auto simp: apls moderation_ok_def row_where_None)
    show "case_status ?c' \<noteq> Open" by simp
    have "appeal_of d' ?c' = Some a" using none a id by (simp add: appeal_of_def apls row_where_insert)
    moreover have "decision_of d' ?c' = Some dec" using dec id by (simp add: decision_of_def decs)
    ultimately show "case_ok d' ?c'"
      using wh a indep by (simp add: case_ok_def appealed_def decided_def in_progress_def independent_def)
    fix x :: moderation_case_row assume "case_id x \<noteq> case_id ?c'"
    then show "decision_of d' x = decision_of d x \<and> appeal_of d' x = appeal_of d x"
      using a id by (auto simp: decision_of_def appeal_of_def decs apls row_where_insert split: option.splits)
  qed
qed

subsection \<open>Reports, withdrawals and the purge\<close>

text \<open>Nothing but these four tables matters to the invariant.\<close>

lemma moderation_ok_same:
  assumes "moderation_ok d" and "moderation_cases d' = moderation_cases d"
    and "moderation_decisions d' = moderation_decisions d" and "moderation_appeals d' = moderation_appeals d"
    and "unique_by post_id (posts d')"
  shows "moderation_ok d'"
proof -
  have "case_ok d' = case_ok d"
    using assms by (intro ext case_ok_frame) (simp_all add: decision_of_def appeal_of_def)
  with assms show ?thesis by (simp add: moderation_ok_def)
qed

text \<open>Every decision and appeal belongs to a case: the foreign keys, \<open>RESTRICT\<close> on both.\<close>

definition moderation_refs_ok :: "db \<Rightarrow> bool" where
  "moderation_refs_ok d \<longleftrightarrow>
     dec_case_id ` set (moderation_decisions d) \<subseteq> case_id ` set (moderation_cases d) \<and>
     apl_case_id ` set (moderation_appeals d) \<subseteq> case_id ` set (moderation_cases d)"

lemma ensure_case_keeps:
  assumes ok: "moderation_ok d" and refs: "moderation_refs_ok d"
    and fresh: "i \<notin> case_id ` set (moderation_cases d)"
    and call: "ensure_post_moderation_case i j post now d = (d', c)"
  shows "moderation_ok d' \<and> moderation_refs_ok d'"
proof (cases "open_case d post")
  case (Some c0)
  with ok refs call show ?thesis by (simp add: ensure_post_moderation_case_def)
next
  case None
  with call have cases: "moderation_cases d' = insert_row (new_case i post now) (moderation_cases d)"
    and same: "moderation_decisions d' = moderation_decisions d" "moderation_appeals d' = moderation_appeals d"
      "posts d' = posts d"
    by (auto simp: ensure_post_moderation_case_def Let_def)
  have frame: "case_ok d' = case_ok d"
    using same by (intro ext case_ok_frame) (simp_all add: decision_of_def appeal_of_def)
  have "decision_of d (new_case i post now) = None" "appeal_of d (new_case i post now) = None"
    using refs fresh by (auto simp: moderation_refs_ok_def decision_of_def appeal_of_def row_where_None new_case_def)
  then have new: "case_ok d (new_case i post now)"
    by (simp add: case_ok_def in_progress_def new_case_def)
  have "case_post_id (new_case i post now) \<notin> case_post_id ` set (filter (\<lambda>c. case_status c = Open) (moderation_cases d))"
    using None by (auto simp: open_case_def row_where_None new_case_def)
  then have "unique_by case_post_id (filter (\<lambda>c. case_status c = Open) (moderation_cases d'))"
    using ok by (auto simp: cases insert_row_def unique_by_def moderation_ok_def)
  then have "moderation_ok d'"
    using ok fresh new same by (simp add: moderation_ok_def cases frame) (simp add: new_case_def)
  moreover have "moderation_refs_ok d'" using refs by (auto simp: moderation_refs_ok_def same cases)
  ultimately show ?thesis ..
qed

lemma report_body_keeps:
  assumes ok: "moderation_ok d" and refs: "moderation_refs_ok d"
    and fresh: "re_new_id env 0 \<notin> case_id ` set (moderation_cases d)"
    and call: "report_body env p i reason narrative d = Inr (d', status, res)"
  shows "moderation_ok d' \<and> moderation_refs_ok d'"
proof -
  from call obtain seen where "visible_published_post d i (Some p) = Inr seen"
    by (auto simp: report_body_def)
  with call obtain post where post: "get_row post_id (post_id seen) (posts d) = Some post"
    by (cases "get_row post_id (post_id seen) (posts d)") (auto simp: report_body_def)
  let ?mine = "row_where (\<lambda>r. report_post_id r = post_id post \<and>
      report_reporter_owner_id r = prin_subject p) (post_reports d)"
  show ?thesis
  proof (cases ?mine)
    case (Some existing)
    with call post \<open>visible_published_post d i (Some p) = Inr seen\<close> have "d' = d"
      by (cases "get_row case_id (report_case_id existing) (moderation_cases d)") (auto simp: report_body_def)
    with ok refs show ?thesis by simp
  next
    case None
    obtain d1 c where ens: "ensure_post_moderation_case (re_new_id env 0) (re_new_id env 1) post (re_now env) d = (d1, c)"
      by fastforce
    with None call post \<open>visible_published_post d i (Some p) = Inr seen\<close> obtain reps evs bs where
      "d' = d1\<lparr>post_reports := reps, moderation_audit_events := evs, post_report_buckets := bs\<rparr>"
      by (cases "consume_quota 20 (prin_subject p) (re_now env) (post_report_buckets d1)")
        (auto simp: report_body_def)
    moreover note kept = ensure_case_keeps [OF ok refs fresh ens]
    ultimately have "moderation_ok d'"
      by (intro moderation_ok_same [of d1 d']) (auto simp: moderation_ok_def)
    with kept \<open>d' = _\<close> show ?thesis by (simp add: moderation_refs_ok_def)
  qed
qed

lemma withdraw_bodyD:
  assumes "withdraw_body env p rq i d = Inr (d', status, res)"
  obtains post where "post \<in> set (posts d)" and "post_id post = i" and "post_owner_id post = prin_subject p"
    and "posts d' = save_row post_id (post\<lparr>post_status := Withdrawn, post_withdrawn_at := Some (re_now env),
       post_updated_at := re_now env\<rparr>) (posts d)"
    and "moderation_cases d' = moderation_cases d" "moderation_decisions d' = moderation_decisions d"
      "moderation_appeals d' = moderation_appeals d"
  using assms
  by (cases "row_where (\<lambda>x. post_id x = i \<and> post_owner_id x = prin_subject p) (posts d)")
    (auto simp: withdraw_body_def dest!: row_where_SomeD)

lemma withdraw_body_keeps:
  assumes "moderation_ok d" and "moderation_refs_ok d" and "withdraw_body env p rq i d = Inr (d', status, res)"
  shows "moderation_ok d' \<and> moderation_refs_ok d'"
  using assms(3)
proof (rule withdraw_bodyD)
  fix post
  assume "posts d' = save_row post_id (post\<lparr>post_status := Withdrawn, post_withdrawn_at := Some (re_now env),
       post_updated_at := re_now env\<rparr>) (posts d)"
    and same: "moderation_cases d' = moderation_cases d" "moderation_decisions d' = moderation_decisions d"
      "moderation_appeals d' = moderation_appeals d"
  with assms have "unique_by post_id (posts d')" by (simp add: moderation_ok_def)
  with assms same show ?thesis by (auto simp: moderation_refs_ok_def intro: moderation_ok_same)
qed

lemma purge_keeps:
  assumes ok: "moderation_ok d" and call: "dispose_moderation_case env i d = Inr d'"
  shows "moderation_ok d'"
proof (cases "get_row case_id i (moderation_cases d)")
  case None
  with call ok show ?thesis by (simp add: dispose_moderation_case_def)
next
  case (Some c)
  define c' where "c' = c\<lparr>case_sensitive_purged_at := Some (env_wall_clock env), case_updated_at := env_wall_clock env\<rparr>"
  define f where "f = (\<lambda>r :: moderation_decision_row. r\<lparr>dec_internal_rationale := None, dec_evidence := None\<rparr>)"
  define g where "g = (\<lambda>r :: moderation_appeal_row. r\<lparr>apl_rationale := None, apl_internal_rationale := None\<rparr>)"
  from Some call have st: "case_status c \<in> set closed_statuses"
    and cases: "moderation_cases d' = save_row case_id c' (moderation_cases d)"
    and decs: "moderation_decisions d' = update_where (\<lambda>r. dec_case_id r = case_id c) f (moderation_decisions d)"
    and apls: "moderation_appeals d' = update_where (\<lambda>r. apl_case_id r = case_id c) g (moderation_appeals d)"
    and posts: "posts d' = posts d"
    by (auto simp: dispose_moderation_case_def c'_def f_def g_def split: if_splits)
  have id: "case_id c = i" "case_id c' = i" using Some by (auto simp: c'_def dest: get_row_SomeD)
  have dec: "decision_of d' x = map_option (\<lambda>y. if dec_case_id y = case_id c then f y else y) (decision_of d x)"
    and apl: "appeal_of d' x = map_option (\<lambda>y. if apl_case_id y = case_id c then g y else y) (appeal_of d x)" for x
    unfolding decision_of_def appeal_of_def decs apls
    by (rule row_where_update; simp add: f_def g_def)+
  have okc: "case_ok d c" using ok Some by (rule case_okD)
  show ?thesis
  proof (rule moderation_ok_change [OF ok, where c' = c' and c = c])
    show "get_row case_id (case_id c') (moderation_cases d) = Some c" using Some id by simp
    show "case_post_id c' = case_post_id c" by (simp add: c'_def)
    show "moderation_cases d' = save_row case_id c' (moderation_cases d)" by (rule cases)
    show "unique_by post_id (posts d')" using ok by (simp add: posts moderation_ok_def)
    show "unique_by dec_id (moderation_decisions d')" "unique_by dec_case_id (moderation_decisions d')"
      "unique_by apl_id (moderation_appeals d')" "unique_by apl_case_id (moderation_appeals d')"
      using ok by (simp_all add: decs apls moderation_ok_def unique_update_where f_def g_def)
    show "case_status c' \<noteq> Open" using st by (auto simp: c'_def closed_statuses_def)
    have same: "decision_of d' c' = map_option f (decision_of d c)" "appeal_of d' c' = map_option g (appeal_of d c)"
      using id unfolding dec apl
      by (cases "decision_of d c"; cases "appeal_of d c"; auto simp: decision_of_def appeal_of_def dest!: row_where_SomeD)+
    with okc show "case_ok d' c'"
      by (cases "case_status c"; cases "decision_of d c"; cases "appeal_of d c")
        (auto simp: case_ok_def decided_def appealed_def reviewed_def closed_from_def independent_def
          in_progress_def c'_def f_def g_def split: option.splits)
    fix x :: moderation_case_row assume "case_id x \<noteq> case_id c'"
    then show "decision_of d' x = decision_of d x \<and> appeal_of d' x = appeal_of d x"
      unfolding dec apl using id
      by (cases "decision_of d x"; cases "appeal_of d x")
        (auto simp: decision_of_def appeal_of_def dest!: row_where_SomeD)
  qed
qed

subsection \<open>References\<close>

lemma decide_case_refs:
  assumes "moderation_refs_ok d"
    and call: "decide_case env i expected action reason explanation via snapshot d = Inr d'"
  shows "moderation_refs_ok d'"
  using call
proof (rule decide_caseD)
  fix au b sha
  assume b: "lock_case_review_bundle d i expected False = Inr b"
    and d': "d' = apply_decision env au b (action = ''withhold'') reason explanation via sha d"
  from lock_case_review_bundleD [OF b] have "cb_case b \<in> set (moderation_cases d)" by (auto dest: get_row_SomeD)
  then have "case_id (cb_case b) \<in> case_id ` set (moderation_cases d)" by (rule imageI)
  with assms(1) show ?thesis
    by (simp add: d' moderation_refs_ok_def apply_decision_def Let_def)
qed

lemma review_appeal_refs:
  assumes "moderation_refs_ok d"
    and call: "review_appeal env i action explanation via snapshot d = Inr d'"
  shows "moderation_refs_ok d'"
  using call
proof (rule review_appealD)
  fix au b sha
  assume b: "lock_appeal_review_bundle d i = Inr b"
    and d': "d' = apply_review env au b (action = ''overturn'') explanation via sha d"
  from lock_appeal_review_bundleD [OF b] have "ab_case b \<in> set (moderation_cases d)"
    "apl_case_id (ab_appeal b) = case_id (ab_case b)" by (auto dest: get_row_SomeD)
  then have "case_id (ab_case b) \<in> case_id ` set (moderation_cases d)" "apl_case_id (ab_appeal b) = case_id (ab_case b)"
    by (auto intro: imageI)
  with assms(1) show ?thesis
    by (auto simp: d' moderation_refs_ok_def apply_review_def Let_def dest!: subsetD [OF image_save_row])
qed

lemma appeal_body_refs:
  assumes "moderation_refs_ok d" and call: "appeal_body env p i rationale d = Inr (d', status, res)"
  shows "moderation_refs_ok d'"
  using call
proof (rule appeal_bodyD)
  fix c a
  assume "get_row case_id i (moderation_cases d) = Some c" "apl_case_id a = i"
    and "moderation_appeals d' = insert_row a (moderation_appeals d)"
      "moderation_cases d' = save_row case_id (c\<lparr>case_status := Appealed, case_closed_at := None,
         case_updated_at := re_now env, case_retention_expires_at := None\<rparr>) (moderation_cases d)"
      "moderation_decisions d' = moderation_decisions d"
  moreover from this(1) have "i \<in> case_id ` set (moderation_cases d)" by (auto dest: get_row_SomeD)
  ultimately show ?thesis using assms(1) by (simp add: moderation_refs_ok_def)
qed

lemma purge_refs:
  assumes "moderation_refs_ok d" and "dispose_moderation_case env i d = Inr d'"
  shows "moderation_refs_ok d'"
proof (cases "get_row case_id i (moderation_cases d)")
  case None
  with assms show ?thesis by (simp add: dispose_moderation_case_def)
next
  case (Some c)
  with assms show ?thesis
    by (auto simp: dispose_moderation_case_def moderation_refs_ok_def split: if_splits del: subsetI)
qed

definition moderation_inv :: "db \<Rightarrow> bool" where
  "moderation_inv d \<longleftrightarrow> moderation_ok d \<and> moderation_refs_ok d"

lemma moderation_inv_same:
  assumes "moderation_inv d" and "moderation_cases d' = moderation_cases d"
    and "moderation_decisions d' = moderation_decisions d" and "moderation_appeals d' = moderation_appeals d"
    and "posts d' = posts d"
  shows "moderation_inv d'"
  using assms moderation_ok_same [of d d'] by (auto simp: moderation_inv_def moderation_refs_ok_def moderation_ok_def)

lemma removal_moderation: "removal env r d d' \<Longrightarrow> moderation_inv d \<Longrightarrow> moderation_inv d'"
proof (induction rule: removal.induct)
  case (9 i d d')
  then show ?case using purge_keeps purge_refs by (auto simp: moderation_inv_def)
qed (rule moderation_inv_same; simp)+

interpretation moderation: retention_invariant moderation_inv
  by unfold_locales (erule (1) removal_moderation, (rule moderation_inv_same; simp)+)

subsection \<open>Steps\<close>

text \<open>
  Everything that touches a moderated post: the three routes, the two operator commands and the
  retention worker, in any order.  Identifiers are fresh (\<open>uuid4\<close>); a request that loses a
  race at commit has no effect of its own and is no step.
\<close>

inductive moderation_step :: "db \<Rightarrow> db \<Rightarrow> bool" where
  report: "report_post env p rq i reason narrative d = (d', r) \<Longrightarrow> re_conflict env = None \<Longrightarrow>
     re_new_id env 0 \<notin> case_id ` set (moderation_cases d) \<Longrightarrow> moderation_step d d'"
| appeal: "create_moderation_appeal env p rq i rationale d = (d', r) \<Longrightarrow> re_conflict env = None \<Longrightarrow>
     re_new_id env 0 \<notin> apl_id ` set (moderation_appeals d) \<Longrightarrow> moderation_step d d'"
| withdraw: "withdraw_post env p rq i d = (d', r) \<Longrightarrow> re_conflict env = None \<Longrightarrow> moderation_step d d'"
| decide: "decide_case menv i expected action reason explanation via snapshot d = Inr d' \<Longrightarrow>
     me_decision_id menv \<notin> dec_id ` set (moderation_decisions d) \<Longrightarrow> moderation_step d d'"
| review: "review_appeal menv i action explanation via snapshot d = Inr d' \<Longrightarrow> moderation_step d d'"
| retain: "run_once ex new_id envs tokens limit now (d, t) = Inr ((d', t'), res) \<Longrightarrow> moderation_step d d'"

lemma moderation_inv_receipt [simp]:
  "moderation_inv (add_receipt p k operation fingerprint status content res d) = moderation_inv d"
  by (rule iffI; rule moderation_inv_same; assumption?) (simp_all add: add_receipt_def)

lemma route_keeps_inv:
  assumes "mutating_route env auth p rq operation conditional body d = (d', r)" and "re_conflict env = None"
    and "moderation_inv d" and "\<And>d1 status res. body d = Inr (d1, status, res) \<Longrightarrow> moderation_inv d1"
  shows "moderation_inv d'"
  using assms(1,2) by (cases rule: mutating_route_cases) (use assms(3,4) in auto)

lemma moderation_step_keeps: "moderation_step d d' \<Longrightarrow> moderation_inv d \<Longrightarrow> moderation_inv d'"
proof (induction rule: moderation_step.induct)
  case (report env p rq i reason narrative d d' r)
  then show ?case
    using route_keeps_inv [of env] report_body_keeps [of d env]
    by (auto simp: report_post_def moderation_inv_def)
next
  case (appeal env p rq i rationale d d' r)
  then show ?case
    using route_keeps_inv [of env] appeal_body_keeps [of d env] appeal_body_refs [of d env]
    by (auto simp: create_moderation_appeal_def moderation_inv_def)
next
  case (withdraw env p rq i d d' r)
  then show ?case
    using route_keeps_inv [of env] withdraw_body_keeps [of d env]
    by (auto simp: withdraw_post_def moderation_inv_def)
next
  case (decide menv i expected action reason explanation via snapshot d d')
  then show ?case using decide_case_keeps decide_case_refs by (auto simp: moderation_inv_def)
next
  case (review menv i action explanation via snapshot d d')
  then show ?case using review_appeal_keeps review_appeal_refs by (auto simp: moderation_inv_def)
next
  case (retain ex new_id envs tokens limit now d t d' t' res)
  then show ?case by (auto intro: moderation.run_once_keeps_inv)
qed

text \<open>
  C10. The moderation state machine is sound.  Start from a ledger whose cases are in order and
  take any number of reports, appeals, withdrawals, decisions, reviews and retention runs, in
  any order: an open case has no decision and no deadline, a post has at most one open case, a
  closed case has exactly one decision by someone other than the author and expires 90 days
  after it, an appealed case has one open appeal against its withholding decision, and a
  reviewed appeal was settled by someone who is neither the author nor the first moderator.
\<close>

theorem moderation_invariant:
  assumes "moderation_step\<^sup>*\<^sup>* d d'" and "moderation_inv d"
  shows "moderation_inv d'"
  using assms by (induction rule: rtranclp_induct) (auto intro: moderation_step_keeps)

subsection \<open>Withdrawal is final\<close>

definition post_withdrawn :: "string \<Rightarrow> db \<Rightarrow> bool" where
  "post_withdrawn i d = (case get_row post_id i (posts d) of None \<Rightarrow> False | Some post \<Rightarrow> post_status post = Withdrawn)"

lemma post_withdrawn_same: "posts d' = posts d \<Longrightarrow> post_withdrawn i d' = post_withdrawn i d"
  by (simp add: post_withdrawn_def)

lemma post_withdrawn_save:
  "post_withdrawn i d \<Longrightarrow> get_row post_id (post_id p) (posts d) = Some p' \<Longrightarrow>
     post_status p' = Withdrawn \<longrightarrow> post_status p = Withdrawn \<Longrightarrow>
     posts d' = save_row post_id p (posts d) \<Longrightarrow> post_withdrawn i d'"
  by (auto simp: post_withdrawn_def get_row_save split: option.splits)

lemma removal_posts: "removal env r d d' \<Longrightarrow> posts d' = posts d"
  by (induction rule: removal.induct) (auto simp: dispose_moderation_case_def split: option.splits if_splits)

interpretation withdrawn: retention_invariant "post_withdrawn i" for i
  by unfold_locales (simp_all add: post_withdrawn_def removal_posts)

lemma route_keeps_withdrawn:
  assumes "mutating_route env auth p rq operation conditional body d = (d', r)" and "re_conflict env = None"
    and "post_withdrawn i d" and "\<And>d1 status res. body d = Inr (d1, status, res) \<Longrightarrow> post_withdrawn i d1"
  shows "post_withdrawn i d'"
  using assms(1,2)
  by (cases rule: mutating_route_cases) (use assms(3,4) in \<open>auto simp: add_receipt_def post_withdrawn_def\<close>)

lemma report_body_posts:
  assumes "report_body env p i reason narrative d = Inr (d', status, res)"
  shows "posts d' = posts d"
proof -
  from assms obtain seen where seen: "visible_published_post d i (Some p) = Inr seen"
    by (auto simp: report_body_def)
  with assms obtain post where post: "get_row post_id (post_id seen) (posts d) = Some post"
    by (cases "get_row post_id (post_id seen) (posts d)") (auto simp: report_body_def)
  obtain d1 c where ens: "ensure_post_moderation_case (re_new_id env 0) (re_new_id env 1) post (re_now env) d = (d1, c)"
    by fastforce
  then have "posts d1 = posts d" by (auto simp: ensure_post_moderation_case_def Let_def split: option.splits)
  with assms seen post ens show ?thesis
    by (auto simp: report_body_def split: option.splits)
qed

lemma withdraw_body_withdrawn:
  assumes "withdraw_body env p rq i d = Inr (d1, s, q)" and "post_withdrawn j d"
  shows "post_withdrawn j d1"
  using assms(1)
proof (rule withdraw_bodyD)
  fix post :: post_row
  let ?p = "post\<lparr>post_status := Withdrawn, post_withdrawn_at := Some (re_now env), post_updated_at := re_now env\<rparr>"
  assume "post \<in> set (posts d)" and saved: "posts d1 = save_row post_id ?p (posts d)"
  then obtain p' where "get_row post_id (post_id ?p) (posts d) = Some p'"
    by (cases "get_row post_id (post_id ?p) (posts d)") (auto simp: get_row_None)
  then show ?thesis by (rule post_withdrawn_save [OF assms(2) _ _ saved]) simp
qed

lemma decide_case_withdrawn:
  assumes "decide_case menv i expected action reason explanation via snapshot d = Inr d'" and "post_withdrawn j d"
  shows "post_withdrawn j d'"
  using assms(1)
proof (rule decide_caseD)
  fix au b sha
  assume b: "lock_case_review_bundle d i expected False = Inr b"
    and pub: "action = ''withhold'' \<Longrightarrow> post_status (cb_post b) = Published"
    and d': "d' = apply_decision menv au b (action = ''withhold'') reason explanation via sha d"
  show ?thesis
  proof (cases "action = ''withhold''")
    case True
    have "posts d' = save_row post_id ((cb_post b)\<lparr>post_status := Withheld, post_withheld_at := Some (me_now menv),
        post_updated_at := me_now menv\<rparr>) (posts d)"
      using True by (simp add: d' apply_decision_def Let_def)
    then show ?thesis
      by (rule post_withdrawn_save [OF assms(2), rotated 2, where p' = "cb_post b"])
        (use lock_case_review_bundleD [OF b] pub [OF True] in \<open>auto intro: get_row_self\<close>)
  next
    case False
    then show ?thesis using assms(2) by (simp add: d' apply_decision_def Let_def post_withdrawn_def)
  qed
qed

lemma review_appeal_withdrawn:
  assumes "review_appeal menv i action explanation via snapshot d = Inr d'" and "post_withdrawn j d"
  shows "post_withdrawn j d'"
  using assms(1)
proof (rule review_appealD)
  fix au b sha
  assume b: "lock_appeal_review_bundle d i = Inr b"
    and d': "d' = apply_review menv au b (action = ''overturn'') explanation via sha d"
  show ?thesis
  proof (cases "action = ''overturn'' \<and> post_status (ab_post b) = Withheld")
    case True
    have "posts d' = save_row post_id ((ab_post b)\<lparr>post_status := Published, post_withheld_at := None,
        post_updated_at := me_now menv\<rparr>) (posts d)"
      using True by (simp add: d' apply_review_def Let_def)
    then show ?thesis
      by (rule post_withdrawn_save [OF assms(2), rotated 2, where p' = "ab_post b"])
        (use lock_appeal_review_bundleD [OF b] True in \<open>auto intro: get_row_self\<close>)
  next
    case False
    then show ?thesis using assms(2) by (auto simp: d' apply_review_def Let_def post_withdrawn_def)
  qed
qed

lemma moderation_step_withdrawn:
  "moderation_step d d' \<Longrightarrow> post_withdrawn j d \<Longrightarrow> post_withdrawn j d'"
proof (induction rule: moderation_step.induct)
  case (report env p rq i reason narrative d d' r)
  then show ?case
    by (auto simp: report_post_def post_withdrawn_same [OF report_body_posts] elim!: route_keeps_withdrawn)
next
  case (appeal env p rq i rationale d d' r)
  have same: "posts d1 = posts d" if "appeal_body env p i rationale d = Inr (d1, s, q)" for d1 s q
    using that by (rule appeal_bodyD)
  from appeal show ?case
    by (auto simp: create_moderation_appeal_def post_withdrawn_same [OF same] elim!: route_keeps_withdrawn)
next
  case (withdraw env p rq i d d' r)
  then show ?case by (auto simp: withdraw_post_def elim!: route_keeps_withdrawn intro: withdraw_body_withdrawn)
next
  case (retain ex new_id envs tokens limit now d t d' t' res)
  then show ?case by (auto intro: withdrawn.run_once_keeps_inv)
qed (blast intro: decide_case_withdrawn review_appeal_withdrawn)+

text \<open>
  C13. What its author withdraws stays withdrawn.  No sequence of reports, decisions, appeals,
  reviews and retention runs brings a withdrawn post back: in particular an overturned
  withholding restores only a post that is still withheld.
\<close>

theorem withdrawn_is_final:
  assumes "moderation_step\<^sup>*\<^sup>* d d'" and "post_withdrawn i d"
  shows "post_withdrawn i d'"
  using assms by (induction rule: rtranclp_induct) (auto intro: moderation_step_withdrawn)

subsection \<open>What a decision and a review do\<close>

lemma verified_snapshotD:
  "verified_snapshot env post texts manifest = Inr sha \<Longrightarrow> evidence_manifest_sha256 (me_sha env) manifest = Inr sha"
  by (auto simp: verified_snapshot_def split: sum.splits option.splits published.splits if_splits)

lemma require_expected_snapshotD: "require_expected_snapshot (Some e) sha = Inr () \<Longrightarrow> sha = e"
  by (simp add: require_expected_snapshot_def)

lemma decided_case_refused:
  assumes "get_row case_id i (moderation_cases d) = Some c" "decision_of d c \<noteq> None"
  shows "\<exists>err. decide_case env i expected action reason explanation via snapshot d = Inl err"
proof (cases "decide_case env i expected action reason explanation via snapshot d")
  case (Inr d')
  then show ?thesis
  proof (rule decide_caseD)
    fix b assume "lock_case_review_bundle d i expected False = Inr b"
    then show ?thesis using assms lock_case_review_bundleD by (metis option.inject)
  qed
qed simp

lemma settled_appeal_refused:
  assumes "map_option apl_status (get_row apl_id i (moderation_appeals d)) \<noteq> Some Submitted"
  shows "\<exists>err. review_appeal env i action explanation via snapshot d = Inl err"
proof (cases "review_appeal env i action explanation via snapshot d")
  case (Inr d')
  then show ?thesis
  proof (rule review_appealD)
    fix b assume b: "lock_appeal_review_bundle d i = Inr b" and "apl_status (ab_appeal b) = Submitted"
    then show ?thesis using assms lock_appeal_review_bundleD [OF b] by simp
  qed
qed simp

text \<open>
  C11. A decision is made on the evidence that was reviewed, by someone other than the author,
  once.  If \<open>decide_case\<close> accepts with an expected snapshot, the case was open, the snapshot is
  the digest of the manifest of the case, its post and all its reports as they are now, the
  configured moderator is not the author; the case is then closed for 90 days with exactly that
  decision, the post is withheld or left alone, every other post is untouched, and every later
  decision on the case is refused.
\<close>

theorem decide_case_effect:
  assumes call: "decide_case env i expected action reason explanation via (Some e) d = Inr d'"
  shows "\<exists>c post au dec.
     get_row case_id i (moderation_cases d) = Some c \<and> case_status c = Open \<and>
     get_row post_id (case_post_id c) (posts d) = Some post \<and>
     configured_moderation_authorities (me_settings env) = Inr au \<and> au_moderator_id au \<noteq> post_owner_id post \<and>
     evidence_manifest_sha256 (me_sha env) (case_evidence_manifest (me_sha env) c post (case_reports d i)) = Inr e \<and>
     get_row case_id i (moderation_cases d') =
       Some (close_case (if action = ''withhold'' then Case_Withheld else Dismissed) (me_now env) c) \<and>
     decision_of d' c = Some dec \<and> dec_action dec = (if action = ''withhold'' then Withhold else No_Action) \<and>
     dec_moderator_id dec = au_moderator_id au \<and> dec_evidence_snapshot_sha256 dec = Some e \<and>
     map_option post_status (get_row post_id (post_id post) (posts d')) =
       Some (if action = ''withhold'' then Withheld else post_status post) \<and>
     (\<forall>j. j \<noteq> post_id post \<longrightarrow> get_row post_id j (posts d') = get_row post_id j (posts d)) \<and>
     (\<forall>env2 ex2 ac2 re2 xp2 me2 sn2. \<exists>err. decide_case env2 i ex2 ac2 re2 xp2 me2 sn2 d' = Inl err)"
  using call
proof (rule decide_caseD)
  fix au b sha
  assume au: "configured_moderation_authorities (me_settings env) = Inr au"
    and b: "lock_case_review_bundle d i expected False = Inr b"
    and ind: "case_subject_owner_id (cb_case b) \<noteq> au_moderator_id au"
    and st: "case_status (cb_case b) = Open"
    and ev: "case_evidence_snapshot env b = Inr sha" and exp: "require_expected_snapshot (Some e) sha = Inr ()"
    and d': "d' = apply_decision env au b (action = ''withhold'') reason explanation via sha d"
  note bD = lock_case_review_bundleD [OF b]
  let ?c = "cb_case b" and ?post = "cb_post b"
  have sha: "sha = e" using exp by (rule require_expected_snapshotD)
  have manifest: "evidence_manifest_sha256 (me_sha env)
      (case_evidence_manifest (me_sha env) ?c ?post (case_reports d i)) = Inr e"
    using verified_snapshotD [OF ev [unfolded case_evidence_snapshot_def]] bD sha by simp
  have dn: "row_where (\<lambda>x. dec_case_id x = case_id ?c) (moderation_decisions d) = None"
    using bD unfolding decision_of_def by blast
  have post: "get_row post_id (post_id ?post) (posts d) = Some ?post" using bD by (auto intro: get_row_self)
  have "\<exists>dec. decision_of d' ?c = Some dec \<and> dec_action dec = (if action = ''withhold'' then Withhold else No_Action) \<and>
      dec_moderator_id dec = au_moderator_id au \<and> dec_evidence_snapshot_sha256 dec = Some e"
    by (simp add: d' apply_decision_def Let_def decision_of_def row_where_insert dn sha)
  then obtain dec where dec: "decision_of d' ?c = Some dec"
      "dec_action dec = (if action = ''withhold'' then Withhold else No_Action)"
      "dec_moderator_id dec = au_moderator_id au" "dec_evidence_snapshot_sha256 dec = Some e"
    by blast
  have saved: "get_row case_id i (moderation_cases d') =
      Some (close_case (if action = ''withhold'' then Case_Withheld else Dismissed) (me_now env) ?c)"
    using bD by (simp add: d' apply_decision_def Let_def get_row_save)
  have again: "\<exists>err. decide_case env2 i ex2 ac2 re2 xp2 me2 sn2 d' = Inl err" for env2 ex2 ac2 re2 xp2 me2 sn2
    by (rule decided_case_refused [OF saved]) (use dec(1) in \<open>simp add: decision_of_def\<close>)
  have posts: "get_row post_id j (posts d') = (if action = ''withhold'' \<and> j = post_id ?post
      then Some (?post\<lparr>post_status := Withheld, post_withheld_at := Some (me_now env), post_updated_at := me_now env\<rparr>)
      else get_row post_id j (posts d))" for j
    using post by (auto simp: d' apply_decision_def Let_def get_row_save)
  show ?thesis
    by (rule exI [of _ ?c], rule exI [of _ ?post], rule exI [of _ au], rule exI [of _ dec])
      (use bD st au ind manifest saved dec again posts post in auto)
qed

text \<open>
  C12. An appeal is settled independently, on the evidence that was reviewed, once.  If
  \<open>review_appeal\<close> accepts with an expected snapshot, the appeal was open, the reviewer is
  neither the author nor the moderator who withheld the post, the snapshot is the digest of the
  appeal manifest as it is now; the post is published again exactly when the withholding is
  overturned and the post is still withheld, no other post changes, the case is closed for 90
  days, and every later review of the appeal is refused.
\<close>

theorem review_appeal_effect:
  assumes call: "review_appeal env i action explanation via (Some e) d = Inr d'"
  shows "\<exists>a c post dec au.
     get_row apl_id i (moderation_appeals d) = Some a \<and> apl_status a = Submitted \<and>
     get_row case_id (apl_case_id a) (moderation_cases d) = Some c \<and>
     get_row post_id (case_post_id c) (posts d) = Some post \<and>
     get_row dec_id (apl_decision_id a) (moderation_decisions d) = Some dec \<and> dec_action dec = Withhold \<and>
     configured_moderation_authorities (me_settings env) = Inr au \<and>
     au_appeal_reviewer_id au \<noteq> dec_moderator_id dec \<and> au_appeal_reviewer_id au \<noteq> post_owner_id post \<and>
     evidence_manifest_sha256 (me_sha env)
       (appeal_evidence_manifest (me_sha env) c post (case_reports d (case_id c)) dec a) = Inr e \<and>
     map_option (\<lambda>x. (apl_status x, apl_reviewer_id x, apl_review_snapshot_sha256 x)) (get_row apl_id i (moderation_appeals d')) =
       Some (if action = ''overturn'' then Overturned else Upheld, Some (au_appeal_reviewer_id au), Some e) \<and>
     get_row case_id (apl_case_id a) (moderation_cases d') =
       Some (close_case (if action = ''overturn'' then Appeal_Overturned else Appeal_Upheld) (me_now env) c) \<and>
     map_option post_status (get_row post_id (post_id post) (posts d')) =
       Some (if action = ''overturn'' \<and> post_status post = Withheld then Published else post_status post) \<and>
     (\<forall>j. j \<noteq> post_id post \<longrightarrow> get_row post_id j (posts d') = get_row post_id j (posts d)) \<and>
     (\<forall>env2 ac2 xp2 me2 sn2. \<exists>err. review_appeal env2 i ac2 xp2 me2 sn2 d' = Inl err)"
  using call
proof (rule review_appealD)
  fix au b sha
  assume au: "configured_moderation_authorities (me_settings env) = Inr au"
    and b: "lock_appeal_review_bundle d i = Inr b"
    and st: "apl_status (ab_appeal b) = Submitted" and wh: "dec_action (ab_decision b) = Withhold"
    and ind: "au_appeal_reviewer_id au \<noteq> dec_moderator_id (ab_decision b)"
      "au_appeal_reviewer_id au \<noteq> case_subject_owner_id (ab_case b)"
    and ev: "appeal_evidence_snapshot env b = Inr sha" and exp: "require_expected_snapshot (Some e) sha = Inr ()"
    and d': "d' = apply_review env au b (action = ''overturn'') explanation via sha d"
  note bD = lock_appeal_review_bundleD [OF b]
  let ?c = "ab_case b" and ?post = "ab_post b" and ?a = "ab_appeal b"
  have sha: "sha = e" using exp by (rule require_expected_snapshotD)
  have id: "apl_id ?a = i" using bD by (auto dest: get_row_SomeD)
  have manifest: "evidence_manifest_sha256 (me_sha env) (appeal_evidence_manifest (me_sha env) ?c ?post
      (case_reports d (case_id ?c)) (ab_decision b) ?a) = Inr e"
    using verified_snapshotD [OF ev [unfolded appeal_evidence_snapshot_def]] bD sha by simp
  have apl: "map_option (\<lambda>x. (apl_status x, apl_reviewer_id x, apl_review_snapshot_sha256 x))
      (get_row apl_id i (moderation_appeals d')) =
      Some (if action = ''overturn'' then Overturned else Upheld, Some (au_appeal_reviewer_id au), Some e)"
    using bD id by (simp add: d' apply_review_def Let_def get_row_save sha)
  have saved: "get_row case_id (case_id ?c) (moderation_cases d') =
      Some (close_case (if action = ''overturn'' then Appeal_Overturned else Appeal_Upheld) (me_now env) ?c)"
    using bD by (simp add: d' apply_review_def Let_def get_row_save)
  have post: "get_row post_id (post_id ?post) (posts d) = Some ?post" using bD by (auto intro: get_row_self)
  have posts: "get_row post_id j (posts d') = (if action = ''overturn'' \<and> post_status ?post = Withheld \<and> j = post_id ?post
      then Some (?post\<lparr>post_status := Published, post_withheld_at := None, post_updated_at := me_now env\<rparr>)
      else get_row post_id j (posts d))" for j
    using post by (auto simp: d' apply_review_def Let_def get_row_save)
  have again: "\<exists>err. review_appeal env2 i ac2 xp2 me2 sn2 d' = Inl err" for env2 ac2 xp2 me2 sn2
    by (rule settled_appeal_refused) (use apl in \<open>auto split: if_splits\<close>)
  show ?thesis
    by (rule exI [of _ ?a], rule exI [of _ ?c], rule exI [of _ ?post], rule exI [of _ "ab_decision b"], rule exI [of _ au])
      (intro conjI allI impI, (use bD in simp)+, (use st wh au ind manifest apl saved again posts post bD in simp)+)
qed

subsection \<open>The appeal window and the purge\<close>

text \<open>
  C14. Evidence outlives the appeal window.  A withholding that can still be appealed at some
  time is not due for disposal within the 60 days after it, and once the appeal is in, the case
  is never due, and a disposal that was already queued refuses to touch it.
\<close>

theorem appeal_excludes_purge:
  assumes ok: "moderation_inv d" and call: "appeal_body env p i rationale d = Inr (d', status, res)"
  shows "(\<forall>now limit. now < re_now env + days 60 \<longrightarrow>
       (Moderation_Case_T, i, moderation_case_retention_policy) \<notin> set (moderation_candidates d now limit)) \<and>
     (\<forall>now limit. (Moderation_Case_T, i, moderation_case_retention_policy) \<notin> set (moderation_candidates d' now limit)) \<and>
     (\<forall>surroundings. dispose_moderation_case surroundings i d' = Inl Moderation_Case_Active)"
  using call
proof (rule appeal_bodyD)
  fix c dec
  assume c: "get_row case_id i (moderation_cases d) = Some c"
    and dec: "row_where (\<lambda>x. dec_case_id x = i) (moderation_decisions d) = Some dec"
    and st: "case_status c = Case_Withheld" and window: "re_now env \<le> dec_decided_at dec + days 30"
    and cases: "moderation_cases d' = save_row case_id
      (c\<lparr>case_status := Appealed, case_closed_at := None, case_updated_at := re_now env,
         case_retention_expires_at := None\<rparr>) (moderation_cases d)"
  let ?c' = "c\<lparr>case_status := Appealed, case_closed_at := None, case_updated_at := re_now env,
         case_retention_expires_at := None\<rparr>"
  have id: "case_id c = i" using c by (auto dest: get_row_SomeD)
  have uniq: "unique_by case_id (moderation_cases d)" using ok by (simp add: moderation_inv_def moderation_ok_def)
  have "case_ok d c" using ok c by (auto simp: moderation_inv_def intro: case_okD)
  with st dec id have exp: "case_retention_expires_at c = Some (dec_decided_at dec + days 90)"
    by (simp add: case_ok_def decided_def decision_of_def closed_from_def)
  have only: "x = c" if "x \<in> set (moderation_cases d)" "case_id x = i" for x
    using c unfolding that(2) [symmetric] get_row_unique [OF uniq that(1)] by simp
  have "(Moderation_Case_T, i, moderation_case_retention_policy) \<notin> set (moderation_candidates d now limit)"
    if now: "now < re_now env + days 60" for now limit
  proof
    assume "(Moderation_Case_T, i, moderation_case_retention_policy) \<in> set (moderation_candidates d now limit)"
    then obtain x where "x \<in> set (moderation_cases d)" "case_id x = i"
      "case case_retention_expires_at x of None \<Rightarrow> False | Some e \<Rightarrow> e \<le> now"
      by (auto simp: moderation_candidates_def dest!: in_set_takeD)
    with only exp have "dec_decided_at dec + days 90 \<le> now" by auto
    with now window show False by (simp add: days_def seconds_def)
  qed
  moreover have "(Moderation_Case_T, i, moderation_case_retention_policy) \<notin> set (moderation_candidates d' now limit)"
    for now limit
    using id only by (auto simp: moderation_candidates_def cases set_save_row closed_statuses_def dest!: in_set_takeD)
  moreover have "dispose_moderation_case surroundings i d' = Inl Moderation_Case_Active" for surroundings
    using c id by (simp add: dispose_moderation_case_def cases get_row_save closed_statuses_def)
  ultimately show ?thesis by blast
qed

subsection \<open>Report intake\<close>

definition reports_ok :: "db \<Rightarrow> bool" where
  "reports_ok d \<longleftrightarrow>
     unique_by case_id (moderation_cases d) \<and>
     unique_by (\<lambda>r. (report_post_id r, report_reporter_owner_id r)) (post_reports d) \<and>
     list_all (\<lambda>c. length (rows_where (\<lambda>r. report_case_id r = case_id c) (post_reports d)) \<le> 1000) (moderation_cases d) \<and>
     list_all (\<lambda>r. report_reason_code r \<in> set reason_codes \<and>
        list_ex (\<lambda>c. case_id c = report_case_id r \<and> case_post_id c = report_post_id r) (moderation_cases d)) (post_reports d)"

lemma reports_ok_reviewable:
  assumes ok: "reports_ok d" and c: "c \<in> set (moderation_cases d)" and post: "post_id post = case_post_id c"
  shows "validate_reports c post (case_reports d (case_id c)) = Inr ()"
proof -
  have "length (case_reports d (case_id c)) \<le> 1000"
    using ok c by (auto simp: reports_ok_def case_reports_def list_all_iff order_by_def)
  moreover have "report_case_id r = case_id c \<and> report_post_id r = post_id post \<and> report_reason_code r \<in> set reason_codes"
    if "r \<in> set (case_reports d (case_id c))" for r
  proof -
    from that have r: "r \<in> set (post_reports d)" "report_case_id r = case_id c"
      by (auto simp: case_reports_def dest!: in_set_takeD)
    with ok obtain x where x: "x \<in> set (moderation_cases d)" "case_id x = report_case_id r" "case_post_id x = report_post_id r"
      by (auto simp: reports_ok_def list_all_iff list_ex_iff)
    have "x = c" using ok x r c unique_byD [of case_id "moderation_cases d" x c] by (simp add: reports_ok_def)
    with ok r x post show ?thesis by (auto simp: reports_ok_def list_all_iff)
  qed
  ultimately show ?thesis by (auto simp: validate_reports_def list_all_iff require_def)
qed

lemma ensure_case_reports:
  assumes ok: "reports_ok d" and fresh: "i \<notin> case_id ` set (moderation_cases d)"
    and call: "ensure_post_moderation_case i j post now d = (d', c)"
  shows "reports_ok d' \<and> c \<in> set (moderation_cases d') \<and> post_reports d' = post_reports d"
proof (cases "open_case d post")
  case (Some c0)
  with ok call show ?thesis
    by (auto simp: ensure_post_moderation_case_def open_case_def dest!: row_where_SomeD)
next
  case None
  with call have d': "moderation_cases d' = insert_row c (moderation_cases d)" "post_reports d' = post_reports d"
    "case_id c = i" by (auto simp: ensure_post_moderation_case_def Let_def new_case_def)
  have "report_case_id r \<noteq> i" if "r \<in> set (post_reports d)" for r
    using ok that fresh unfolding reports_ok_def list_all_iff list_ex_iff by (metis image_eqI)
  then have "rows_where (\<lambda>r. report_case_id r = i) (post_reports d) = []"
    by (simp add: rows_where_def filter_empty_conv)
  with ok fresh d' show ?thesis
    by (auto simp: reports_ok_def list_all_iff list_ex_iff)
qed

lemma reports_ok_insert:
  assumes ok: "reports_ok d" and c: "c \<in> set (moderation_cases d)"
    and r: "report_case_id r = case_id c" "report_post_id r = case_post_id c" "report_reason_code r \<in> set reason_codes"
    and new: "(report_post_id r, report_reporter_owner_id r) \<notin> (\<lambda>x. (report_post_id x, report_reporter_owner_id x)) ` set (post_reports d)"
    and room: "length (rows_where (\<lambda>x. report_case_id x = case_id c) (post_reports d)) < 1000"
    and d': "post_reports d' = insert_row r (post_reports d)" "moderation_cases d' = moderation_cases d"
  shows "reports_ok d'"
proof -
  have same: "x = c" if "x \<in> set (moderation_cases d)" "case_id x = case_id c" for x
    using ok c that unique_byD [of case_id "moderation_cases d" x c] by (simp add: reports_ok_def)
  have "length (rows_where (\<lambda>q. report_case_id q = case_id x) (insert_row r (post_reports d))) \<le> 1000"
    if "x \<in> set (moderation_cases d)" for x
    using ok that room same [OF that] r
    by (cases "case_id x = case_id c") (auto simp: rows_where_def insert_row_def reports_ok_def list_all_iff)
  moreover have "list_ex (\<lambda>x. case_id x = report_case_id r \<and> case_post_id x = report_post_id r) (moderation_cases d)"
    using c r by (auto simp: list_ex_iff)
  ultimately show ?thesis using ok new r unfolding reports_ok_def d' by (auto simp: list_all_iff)
qed

text \<open>
  C15. Reporting never makes a case unreviewable.  A report is accepted only for a published
  post of someone else, at most once per reporter and post, within the reporter's daily quota;
  and after it every case still passes the checks on its reports that a decision or a review
  starts with: no more than 1000 of them, each linked to the case and its post.
\<close>

theorem report_intake_reviewable:
  assumes call: "report_body env p i reason narrative d = Inr (d', status, res)"
    and ok: "reports_ok d" and quota: "quota_ok 20 (post_report_buckets d)"
    and fresh: "re_new_id env 0 \<notin> case_id ` set (moderation_cases d)" and reason: "reason \<in> set reason_codes"
  shows "reports_ok d' \<and> quota_ok 20 (post_report_buckets d') \<and>
     (\<forall>c \<in> set (moderation_cases d'). \<forall>post. post_id post = case_post_id c \<longrightarrow>
        validate_reports c post (case_reports d' (case_id c)) = Inr ()) \<and>
     (\<exists>post \<in> set (posts d). post_status post = Published \<and> post_owner_id post \<noteq> prin_subject p \<and>
        (\<exists>r \<in> set (post_reports d'). report_post_id r = post_id post \<and> report_reporter_owner_id r = prin_subject p))"
proof -
  from call obtain seen where seen: "visible_published_post d i (Some p) = Inr seen"
    by (auto simp: report_body_def)
  with call obtain post where post: "get_row post_id (post_id seen) (posts d) = Some post"
    by (cases "get_row post_id (post_id seen) (posts d)") (auto simp: report_body_def)
  have mem: "post \<in> set (posts d)" using post by (auto dest: get_row_SomeD)
  have pub: "post_status post = Published" "post_owner_id post \<noteq> prin_subject p"
    using call seen post by (auto simp: report_body_def)
  let ?mine = "row_where (\<lambda>r. report_post_id r = post_id post \<and>
      report_reporter_owner_id r = prin_subject p) (post_reports d)"
  have "reports_ok d' \<and> quota_ok 20 (post_report_buckets d') \<and>
      (\<exists>r \<in> set (post_reports d'). report_post_id r = post_id post \<and> report_reporter_owner_id r = prin_subject p)"
  proof (cases ?mine)
    case (Some existing)
    with call post seen have "d' = d"
      by (cases "get_row case_id (report_case_id existing) (moderation_cases d)") (auto simp: report_body_def)
    with ok quota Some show ?thesis by (auto dest!: row_where_SomeD)
  next
    case None
    obtain d1 c where ens: "ensure_post_moderation_case (re_new_id env 0) (re_new_id env 1) post (re_now env) d = (d1, c)"
      by fastforce
    note d1 = ensure_case_reports [OF ok fresh ens]
    have bs1: "post_report_buckets d1 = post_report_buckets d"
      using ens by (auto simp: ensure_post_moderation_case_def Let_def split: option.splits)
    define r where "r = \<lparr>report_id = re_new_id env 2, report_post_id = post_id post, report_case_id = case_id c,
        report_reporter_owner_id = prin_subject p, report_reason_code = reason,
        report_narrative = narrative, report_created_at = re_now env\<rparr>"
    from None call post seen ens obtain bs where bs: "consume_quota 20 (prin_subject p) (re_now env) (post_report_buckets d1) = Some bs"
      by (cases "consume_quota 20 (prin_subject p) (re_now env) (post_report_buckets d1)") (auto simp: report_body_def)
    with None call post seen ens have d': "post_reports d' = insert_row r (post_reports d1)"
        "moderation_cases d' = moderation_cases d1" "post_report_buckets d' = bs"
      and room: "length (rows_where (\<lambda>r. report_case_id r = case_id c) (post_reports d1)) < 1000"
      and cp: "case_post_id c = post_id post"
      by (auto simp: report_body_def r_def)
    have "reports_ok d'"
      by (rule reports_ok_insert [where d = d1 and c = c and r = r]) (use d1 None d' room cp reason in \<open>auto simp: r_def row_where_None\<close>)
    moreover have "quota_ok 20 (post_report_buckets d')"
      using consume_quota_ok [OF bs] quota bs1 d' by simp
    moreover have "\<exists>x \<in> set (post_reports d'). report_post_id x = post_id post \<and> report_reporter_owner_id x = prin_subject p"
      using d' by (auto simp: r_def)
    ultimately show ?thesis by blast
  qed
  with mem pub reports_ok_reviewable [of d'] show ?thesis by blast
qed

subsection \<open>Manifests can be digested\<close>

lemma plain_utc [simp]: "plain (utc_text t)"
  by (simp add: utc_text_def plain_jopt)

lemma plain_digest [simp]: "plain (text_digest sha s)" "plain (subject_binding sha vs)"
  by (simp_all add: text_digest_def subject_binding_def plain_jopt)

lemma plain_manifests [simp]:
  "plain (case_evidence_manifest sha c post reports)"
  "plain (appeal_evidence_manifest sha c post reports dec a)"
  by (simp_all add: case_evidence_manifest_def appeal_evidence_manifest_def base_evidence_manifest_def
      report_manifest_def list.pred_map comp_def plain_jopt list.pred_True)

text \<open>Identifiers are ASCII and texts enter a manifest as digests: it can always be encoded.\<close>

lemma manifest_digest: "plain m \<Longrightarrow> \<exists>bs. evidence_manifest_sha256 sha m = Inr (sha bs)"
  using latin_encodes [OF latin_dumps] by (fastforce simp: evidence_manifest_sha256_def)

lemma manifest_digest_const [simp]: "plain m \<Longrightarrow> evidence_manifest_sha256 (\<lambda>_. h) m = Inr h"
  using manifest_digest [of m "\<lambda>_. h"] by simp
subsection \<open>A concrete case\<close>

definition mod_digest :: string where
  "mod_digest = replicate 64 (CHR ''a'')"

definition mod_post :: "post_status \<Rightarrow> post_row" where
  "mod_post st = \<lparr>post_id = ''p1'', post_owner_id = ''o1'', post_author_profile_document_id = ''doc1'',
     post_author_profile_handle = ''h'', post_status = st, post_current_version = 1, post_sha256 = mod_digest,
     post_storage_path = ''x'', post_published_at = 0, post_updated_at = 0, post_withdrawn_at = None,
     post_withheld_at = None\<rparr>"

definition mod_db :: "post_status \<Rightarrow> db" where
  "mod_db st = empty_db\<lparr>posts := [mod_post st], moderation_cases := [new_case ''c1'' (mod_post st) 0],
     documents := [\<lparr>doc_id = ''doc1'', doc_kind = ''profile'', doc_owner_id = ''o1'', doc_public_identifier = ''h'',
       doc_visibility = ''public'', doc_current_version = 1, doc_updated_at = 0\<rparr>]\<rparr>"

definition mod_env :: moderation_env where
  "mod_env = \<lparr>me_sha = (\<lambda>_. mod_digest), me_content = (\<lambda>_. Some [35]),
     me_front = (\<lambda>_. Some \<lparr>fm_id = ''p1'', fm_author_profile_handle = ''h'', fm_version = 1, fm_published_at = At 0\<rparr>),
     me_settings = \<lparr>ms_post_moderator_id = Some ''m1'', ms_post_moderator_role = Some ''content_moderator'',
       ms_appeal_reviewer_id = Some ''r1'', ms_appeal_reviewer_role = Some ''appeal_reviewer''\<rparr>,
     me_now = 5, me_decision_id = ''d1'', me_audit_id = ''a1''\<rparr>"

definition mod_decided :: "string \<Rightarrow> post_status \<Rightarrow> moderation_error + db" where
  "mod_decided action st =
     decide_case mod_env ''c1'' None action ''spam'' (lit ''text'') ''cli'' (Some mod_digest) (mod_db st)"

definition mod_bundle :: "post_status \<Rightarrow> case_bundle" where
  "mod_bundle st = \<lparr>cb_post = mod_post st, cb_case = new_case ''c1'' (mod_post st) 0, cb_reports = [],
     cb_decision = None, cb_appeal = None\<rparr>"

definition mod_authorities :: authorities where
  "mod_authorities = \<lparr>au_moderator_id = ''m1'', au_moderator_role = ''content_moderator'',
     au_appeal_reviewer_id = ''r1'', au_appeal_reviewer_role = ''appeal_reviewer''\<rparr>"

lemma mod_env_facts:
  "configured_moderation_authorities (me_settings mod_env) = Inr mod_authorities"
  "me_sha mod_env = (\<lambda>_. mod_digest)"
  "read_verified (\<lambda>_. mod_digest) (me_content mod_env x) mod_digest = Inr (lit ''#'')"
  "require_expected_snapshot (Some mod_digest) mod_digest = Inr ()"
  by (simp_all add: mod_env_def) code_simp+

lemma mod_snapshot: "plain m \<Longrightarrow> list_all encodable ts \<Longrightarrow> verified_snapshot mod_env
    (mod_post s\<lparr>post_status := st, post_withheld_at := w, post_updated_at := u\<rparr>) ts m = Inr mod_digest"
  using mod_env_facts(3) by (simp add: verified_snapshot_def mod_env_facts mod_post_def) (simp add: mod_env_def)

lemma mod_bundle_locks:
  "lock_case_review_bundle (mod_db Published) ''c1'' None False = Inr (mod_bundle Published)"
  "lock_case_review_bundle (mod_db Withdrawn) ''c1'' None False = Inr (mod_bundle Withdrawn)"
  by code_simp+

lemma mod_bundle_facts:
  "case_evidence_snapshot mod_env (mod_bundle st) = Inr mod_digest"
  "case_subject_owner_id (cb_case (mod_bundle st)) = ''o1''"
  "case_status (cb_case (mod_bundle st)) = Open" "post_status (cb_post (mod_bundle st)) = st"
  using mod_snapshot [where s = st and st = st and w = None and u = 0 and ts = "[]" and
      m = "case_evidence_manifest (\<lambda>_. mod_digest) (new_case ''c1'' (mod_post st) 0) (mod_post st) []"]
  by (simp_all add: case_evidence_snapshot_def mod_bundle_def mod_env_facts new_case_def mod_post_def)

lemma mod_decided_eq:
  "mod_decided ''withhold'' Published = Inr (apply_decision mod_env mod_authorities (mod_bundle Published) True
     ''spam'' (lit ''text'') ''cli'' mod_digest (mod_db Published))"
  "mod_decided ''dismiss'' Withdrawn = Inr (apply_decision mod_env mod_authorities (mod_bundle Withdrawn) False
     ''spam'' (lit ''text'') ''cli'' mod_digest (mod_db Withdrawn))"
  by (simp_all add: mod_decided_def decide_case_def mod_env_facts mod_bundle_locks mod_bundle_facts
      mod_authorities_def reason_codes_def)

theorem moderation_invariant_witness:
  "case mod_decided ''withhold'' Published of Inl _ \<Rightarrow> False | Inr d \<Rightarrow> moderation_inv d"
proof -
  obtain d where d: "mod_decided ''withhold'' Published = Inr d" using mod_decided_eq(1) by blast
  have "me_decision_id mod_env \<notin> dec_id ` set (moderation_decisions (mod_db Published))" by code_simp
  with d have "moderation_step (mod_db Published) d" unfolding mod_decided_def by (rule moderation_step.decide)
  then have "moderation_step\<^sup>*\<^sup>* (mod_db Published) d" by (rule r_into_rtranclp)
  moreover have "moderation_inv (mod_db Published)" by code_simp
  ultimately have "moderation_inv d" by (rule moderation_invariant)
  with d show ?thesis by simp
qed

theorem withdrawn_is_final_witness:
  "case mod_decided ''dismiss'' Withdrawn of Inl _ \<Rightarrow> False | Inr d \<Rightarrow> post_withdrawn ''p1'' d"
proof -
  obtain d where d: "mod_decided ''dismiss'' Withdrawn = Inr d" using mod_decided_eq(2) by blast
  have "me_decision_id mod_env \<notin> dec_id ` set (moderation_decisions (mod_db Withdrawn))" by code_simp
  with d have "moderation_step (mod_db Withdrawn) d" unfolding mod_decided_def by (rule moderation_step.decide)
  then have "moderation_step\<^sup>*\<^sup>* (mod_db Withdrawn) d" by (rule r_into_rtranclp)
  moreover have "post_withdrawn ''p1'' (mod_db Withdrawn)" by code_simp
  ultimately have "post_withdrawn ''p1'' d" by (rule withdrawn_is_final)
  with d show ?thesis by simp
qed

theorem decide_case_effect_witness:
  "case mod_decided ''withhold'' Published of Inl _ \<Rightarrow> False
   | Inr d \<Rightarrow> map_option post_status (get_row post_id ''p1'' (posts d)) = Some Withheld"
proof -
  obtain d where d: "mod_decided ''withhold'' Published = Inr d" using mod_decided_eq(1) by blast
  from decide_case_effect [OF d [unfolded mod_decided_def]] obtain c post where
    "get_row case_id ''c1'' (moderation_cases (mod_db Published)) = Some c"
    "get_row post_id (case_post_id c) (posts (mod_db Published)) = Some post"
    "map_option post_status (get_row post_id (post_id post) (posts d)) = Some Withheld" by auto
  moreover have "get_row case_id ''c1'' (moderation_cases (mod_db Published)) = Some (new_case ''c1'' (mod_post Published) 0)"
    and "get_row post_id (case_post_id (new_case ''c1'' (mod_post Published) 0)) (posts (mod_db Published)) = Some (mod_post Published)"
    and "post_id (mod_post Published) = ''p1''" by code_simp+
  ultimately show ?thesis using d by auto
qed

definition mod_withheld :: db where
  "mod_withheld = apply_decision mod_env mod_authorities (mod_bundle Published) True
     ''spam'' (lit ''text'') ''cli'' mod_digest (mod_db Published)"

lemma mod_withheld_inv: "moderation_inv mod_withheld"
  by code_simp

theorem appeal_excludes_purge_witness:
  "case appeal_body sample_route sample_principal ''c1'' (lit ''why'') mod_withheld of Inl _ \<Rightarrow> False
   | Inr (d, _) \<Rightarrow> \<forall>surroundings. dispose_moderation_case surroundings ''c1'' d = Inl Moderation_Case_Active"
proof -
  have "\<not> (case appeal_body sample_route sample_principal ''c1'' (lit ''why'') mod_withheld of Inl _ \<Rightarrow> True | Inr _ \<Rightarrow> False)"
    by code_simp
  then obtain d status res where call: "appeal_body sample_route sample_principal ''c1'' (lit ''why'') mod_withheld = Inr (d, status, res)"
    by (cases "appeal_body sample_route sample_principal ''c1'' (lit ''why'') mod_withheld") auto
  from appeal_excludes_purge [OF mod_withheld_inv call] call show ?thesis by simp
qed

definition mod_under_appeal :: db where
  "mod_under_appeal = (case appeal_body sample_route sample_principal ''c1'' (lit ''why'') mod_withheld of
     Inl _ \<Rightarrow> mod_withheld | Inr (d, _) \<Rightarrow> d)"

definition mod_review :: "moderation_error + db" where
  "mod_review = review_appeal mod_env ''n0'' ''overturn'' (lit ''restored'') ''cli'' (Some mod_digest) mod_under_appeal"

definition mod_appeal_bundle :: appeal_bundle where
  "mod_appeal_bundle = (case lock_appeal_review_bundle mod_under_appeal ''n0'' of
     Inr b \<Rightarrow> b
   | Inl _ \<Rightarrow> \<lparr>ab_post = mod_post Published, ab_case = new_case ''c1'' (mod_post Published) 0,
       ab_decision = hd (moderation_decisions mod_under_appeal), ab_appeal = hd (moderation_appeals mod_under_appeal),
       ab_reports = []\<rparr>)"

lemma mod_appeal_facts:
  "lock_appeal_review_bundle mod_under_appeal ''n0'' = Inr mod_appeal_bundle"
  "apl_status (ab_appeal mod_appeal_bundle) = Submitted" "case_status (ab_case mod_appeal_bundle) = Appealed"
  "dec_action (ab_decision mod_appeal_bundle) = Withhold" "dec_moderator_id (ab_decision mod_appeal_bundle) = ''m1''"
  "case_subject_owner_id (ab_case mod_appeal_bundle) = ''o1''"
  "ab_post mod_appeal_bundle = mod_post Published\<lparr>post_status := Withheld, post_withheld_at := Some 5, post_updated_at := 5\<rparr>"
  "map report_narrative (ab_reports mod_appeal_bundle) = []"
  "dec_subject_explanation (ab_decision mod_appeal_bundle) = lit ''text''"
  "dec_internal_rationale (ab_decision mod_appeal_bundle) = None"
  "dec_evidence (ab_decision mod_appeal_bundle) = None" "apl_rationale (ab_appeal mod_appeal_bundle) = Some (lit ''why'')"
  "apl_subject_explanation (ab_appeal mod_appeal_bundle) = None"
  "apl_internal_rationale (ab_appeal mod_appeal_bundle) = None"
  by code_simp+

lemma encodable_latin [simp]: "encodable None" "latin t \<Longrightarrow> encodable (Some t)"
  using latin_encodes [of t] by (auto simp: encodable_def)

lemma mod_review_eq: "\<exists>d. mod_review = Inr d"
proof -
  have "appeal_evidence_snapshot mod_env mod_appeal_bundle = Inr mod_digest"
    unfolding appeal_evidence_snapshot_def mod_appeal_facts(7)
    by (rule mod_snapshot) (simp_all add: mod_appeal_facts mod_env_facts)
  moreover have "post_status (ab_post mod_appeal_bundle) = Withheld" by (simp add: mod_appeal_facts)
  ultimately show ?thesis
    by (simp add: mod_review_def review_appeal_def mod_env_facts mod_appeal_facts(1-6) mod_authorities_def)
qed

theorem review_appeal_effect_witness:
  "case mod_review of Inl _ \<Rightarrow> False | Inr d \<Rightarrow> map_option post_status (get_row post_id ''p1'' (posts d)) = Some Published"
proof -
  obtain d where d: "mod_review = Inr d" using mod_review_eq by blast
  from review_appeal_effect [OF d [unfolded mod_review_def]] obtain a c post where
    f: "get_row apl_id ''n0'' (moderation_appeals mod_under_appeal) = Some a"
    "get_row case_id (apl_case_id a) (moderation_cases mod_under_appeal) = Some c"
    "get_row post_id (case_post_id c) (posts mod_under_appeal) = Some post"
    "map_option post_status (get_row post_id (post_id post) (posts d)) =
       Some (if post_status post = Withheld then Published else post_status post)" by auto
  moreover have "map_option (\<lambda>a. apl_case_id a) (get_row apl_id ''n0'' (moderation_appeals mod_under_appeal)) = Some ''c1''"
    and "map_option (\<lambda>c. case_post_id c) (get_row case_id ''c1'' (moderation_cases mod_under_appeal)) = Some ''p1''"
    and "map_option (\<lambda>p. (post_id p, post_status p)) (get_row post_id ''p1'' (posts mod_under_appeal)) = Some (''p1'', Withheld)"
    by code_simp+
  ultimately show ?thesis unfolding d by auto
qed

definition mod_reporter :: principal where
  "mod_reporter = sample_principal\<lparr>prin_subject := ''o2''\<rparr>"

theorem report_intake_reviewable_witness:
  "case report_body sample_route mod_reporter ''p1'' ''spam'' None (mod_db Published) of Inl _ \<Rightarrow> False
   | Inr (d, _) \<Rightarrow> reports_ok d"
proof -
  have "\<not> (case report_body sample_route mod_reporter ''p1'' ''spam'' None (mod_db Published) of Inl _ \<Rightarrow> True | Inr _ \<Rightarrow> False)"
    by code_simp
  then obtain d status res where call:
    "report_body sample_route mod_reporter ''p1'' ''spam'' None (mod_db Published) = Inr (d, status, res)"
    by (cases "report_body sample_route mod_reporter ''p1'' ''spam'' None (mod_db Published)") auto
  have "reports_ok d"
    using report_intake_reviewable [OF call]
    by (simp add: reports_ok_def quota_ok_def mod_db_def empty_db_def sample_route_def reason_codes_def new_case_def
        unique_by_def rows_where_def)
  with call show ?thesis by simp
qed

end
