(* ===== verification/SocialGraph.thy ===== *)
theory SocialGraph
  imports Requests
begin

text \<open>
  The private social graph of \<open>main.py\<close>: connection requests, connections, blocks,
  conversations, messages and notifications.
\<close>

subsection \<open>Helpers\<close>

definition retention_expired :: "time \<Rightarrow> time \<Rightarrow> bool" where
  "retention_expired t now \<longleftrightarrow> t \<le> now"

definition social_retention_expires_at :: "time \<Rightarrow> time" where
  "social_retention_expires_at now = now + days 365"

definition owner_pair :: "string \<Rightarrow> string \<Rightarrow> http_error + string \<times> string" where
  "owner_pair a b = (if a = b then Inl (Http 409) else Inr (min a b, max a b))"

definition connection_blocked :: "db \<Rightarrow> string \<Rightarrow> string \<Rightarrow> bool" where
  "connection_blocked d a b =
     exists_where (\<lambda>x. blk_blocker_owner_id x = a \<and> blk_blocked_owner_id x = b \<or>
        blk_blocker_owner_id x = b \<and> blk_blocked_owner_id x = a) (connection_blocks d)"

definition connection_counterparty :: "connection_row \<Rightarrow> principal \<Rightarrow> http_error + string" where
  "connection_counterparty c p =
     (if prin_subject p = con_pair_owner_low c then Inr (con_pair_owner_high c)
      else if prin_subject p = con_pair_owner_high c then Inr (con_pair_owner_low c)
      else Inl (Http 404))"

definition conversation_counterparty :: "conversation_row \<Rightarrow> principal \<Rightarrow> http_error + string" where
  "conversation_counterparty v p =
     (if prin_subject p = cv_pair_owner_low v then Inr (cv_pair_owner_high v)
      else if prin_subject p = cv_pair_owner_high v then Inr (cv_pair_owner_low v)
      else Inl (Http 404))"

definition active_connection_for_participant ::
    "db \<Rightarrow> string \<Rightarrow> principal \<Rightarrow> time \<Rightarrow> http_error + connection_row" where
  "active_connection_for_participant d i p now =
     (case get_row con_id i (connections d) of
        None \<Rightarrow> Inl (Http 404)
      | Some c \<Rightarrow>
          and_then (require (con_status c = Active \<and> \<not> retention_expired (con_retention_expires_at c) now) (Http 404)) (\<lambda>_.
          and_then (connection_counterparty c p) (\<lambda>counterpart.
          and_then (require (\<not> connection_blocked d (prin_subject p) counterpart) (Http 404)) (\<lambda>_.
          Inr c))))"

definition active_conversation_for_participant ::
    "db \<Rightarrow> string \<Rightarrow> principal \<Rightarrow> time \<Rightarrow> http_error + conversation_row \<times> connection_row" where
  "active_conversation_for_participant d i p now =
     (case get_row cv_id i (conversations d) of
        None \<Rightarrow> Inl (Http 404)
      | Some v \<Rightarrow>
          and_then (require (cv_status v = Conv_Active \<and> \<not> retention_expired (cv_retention_expires_at v) now) (Http 404)) (\<lambda>_.
          and_then (active_connection_for_participant d (cv_connection_id v) p now) (\<lambda>c.
          and_then (require (con_messaging_enabled c) (Http 404)) (\<lambda>_.
          and_then (conversation_counterparty v p) (\<lambda>_.
          Inr (v, c))))))"

text \<open>The conditional updates of \<open>lock_social_admission\<close> write back what is there; only their row count matters.\<close>

definition lock_social_admission ::
    "db \<Rightarrow> connection_row \<Rightarrow> conversation_row option \<Rightarrow> time \<Rightarrow> http_error + unit" where
  "lock_social_admission d c conversation now =
     and_then (require (length (rows_where (\<lambda>x. con_id x = con_id c \<and> con_status x = Active \<and>
         con_messaging_enabled x \<and> con_retention_expires_at x > now) (connections d)) = 1) (Http 404)) (\<lambda>_.
     (case conversation of
        None \<Rightarrow> Inr ()
      | Some v \<Rightarrow>
          require (length (rows_where (\<lambda>x. cv_id x = cv_id v \<and> cv_connection_id x = con_id c \<and>
            cv_status x = Conv_Active \<and> cv_retention_expires_at x > now) (conversations d)) = 1) (Http 404)))"

definition add_notification ::
    "string \<Rightarrow> string \<Rightarrow> string \<Rightarrow> string option \<Rightarrow> resource_type \<Rightarrow> string \<Rightarrow> time \<Rightarrow> db \<Rightarrow> db" where
  "add_notification i recipient ty actor rt rid now d =
     d\<lparr>notifications := insert_row
        \<lparr>ntf_id = i, ntf_recipient_owner_id = recipient, ntf_type = ty, ntf_actor_owner_id = actor,
         ntf_resource_type = rt, ntf_resource_id = rid, ntf_created_at = now, ntf_read_at = None,
         ntf_retention_expires_at = social_retention_expires_at now\<rparr> (notifications d)\<rparr>"

text \<open>\<open>json.dumps(payload, sort_keys=True)\<close> of a flat payload whose keys are given in order.\<close>

fun payload_items :: "(string \<times> string) list \<Rightarrow> string" where
  "payload_items [] = []"
| "payload_items [(k, v)] = [CHR 0x22] @ k @ [CHR 0x22] @ '': '' @ v"
| "payload_items ((k, v) # kv # kvs) = [CHR 0x22] @ k @ [CHR 0x22] @ '': '' @ v @ '', '' @ payload_items (kv # kvs)"

definition payload_text :: "(string \<times> string) list \<Rightarrow> pystr" where
  "payload_text kvs = lit (''{'' @ payload_items kvs @ ''}'')"

definition json_bool :: "bool \<Rightarrow> string" where
  "json_bool b = (if b then ''true'' else ''false'')"

definition json_quoted :: "string \<Rightarrow> string" where
  "json_quoted s = [CHR 0x22] @ s @ [CHR 0x22]"

definition add_social_change_event ::
    "string \<Rightarrow> string \<Rightarrow> resource_type \<Rightarrow> string \<Rightarrow> principal \<Rightarrow> (string \<times> string) list \<Rightarrow> time \<Rightarrow> db \<Rightarrow> db" where
  "add_social_change_event owner event rt rid p payload now d =
     d\<lparr>change_events := insert_row
        \<lparr>ce_owner_id = owner, ce_event_type = event, ce_resource_type = rt, ce_resource_id = rid,
         ce_actor_id = audit_actor_id p, ce_actor_method = prin_method p, ce_grant_id = prin_grant_id p,
         ce_payload = payload_text payload, ce_occurred_at = now\<rparr> (change_events d)\<rparr>"

subsection \<open>Connection requests\<close>

definition requester_profile :: "db \<Rightarrow> string \<Rightarrow> document_row option" where
  "requester_profile d owner =
     (case order_by (\<lambda>x. (doc_updated_at x, doc_id x)) (rows_where (\<lambda>x. doc_kind x = ''profile'' \<and>
         doc_owner_id x = owner \<and> doc_visibility x = ''public'') (documents d)) of
        [] \<Rightarrow> None
      | xs \<Rightarrow> Some (last xs))"

definition live_request :: "string \<times> string \<Rightarrow> connection_request_row \<Rightarrow> bool" where
  "live_request pair r \<longleftrightarrow>
     cr_pair_owner_low r = fst pair \<and> cr_pair_owner_high r = snd pair \<and> cr_status r \<in> {Pending, Accepted}"

definition release_expired_request :: "string \<times> string \<Rightarrow> time \<Rightarrow> db \<Rightarrow> db" where
  "release_expired_request pair now d =
     (case row_where (\<lambda>r. live_request pair r \<and> cr_retention_expires_at r \<le> now) (connection_requests d) of
        None \<Rightarrow> d
      | Some r \<Rightarrow> d\<lparr>connection_requests := save_row cr_id
          (r\<lparr>cr_status := Rejected, cr_decision_actor_id := Some ''system:retention'', cr_decided_at := Some now,
             cr_updated_at := now\<rparr>) (connection_requests d)\<rparr>)"

definition new_connection_request ::
    "route_env \<Rightarrow> principal \<Rightarrow> document_row \<Rightarrow> document_row \<Rightarrow> string \<times> string \<Rightarrow> bool \<Rightarrow> connection_request_row" where
  "new_connection_request env p mine target pair messaging =
     \<lparr>cr_id = re_new_id env 0, cr_pair_owner_low = fst pair, cr_pair_owner_high = snd pair,
      cr_requester_owner_id = prin_subject p, cr_recipient_owner_id = doc_owner_id target,
      cr_requester_profile_handle = doc_public_identifier mine,
      cr_recipient_profile_handle = doc_public_identifier target, cr_requested_messaging = messaging,
      cr_recipient_messaging_consent = None, cr_status = Pending, cr_requester_actor_id = audit_actor_id p,
      cr_requester_actor_method = prin_method p, cr_decision_actor_id = None, cr_created_at = re_now env,
      cr_updated_at = re_now env, cr_decided_at = None,
      cr_retention_expires_at = social_retention_expires_at (re_now env)\<rparr>"

definition create_request_body ::
    "route_env \<Rightarrow> principal \<Rightarrow> string \<Rightarrow> bool \<Rightarrow> db \<Rightarrow> http_error + db \<times> nat \<times> resource" where
  "create_request_body env p handle messaging d =
     (let now = re_now env in
      case row_where (\<lambda>x. doc_kind x = ''profile'' \<and> doc_public_identifier x = handle \<and>
              doc_visibility x = ''public'') (documents d) of
        None \<Rightarrow> Inl (Http 404)
      | Some target \<Rightarrow>
          (case requester_profile d (prin_subject p) of
             None \<Rightarrow> Inl (Http 409)
           | Some mine \<Rightarrow>
               and_then (owner_pair (prin_subject p) (doc_owner_id target)) (\<lambda>pair.
               and_then (require (\<not> connection_blocked d (prin_subject p) (doc_owner_id target)) (Http 404)) (\<lambda>_.
               and_then (require (\<not> exists_where (\<lambda>r. live_request pair r \<and> cr_retention_expires_at r > now)
                   (connection_requests d)) (Http 409)) (\<lambda>_.
               and_then (require (\<not> exists_where (\<lambda>c. con_pair_owner_low c = fst pair \<and>
                   con_pair_owner_high c = snd pair \<and> con_status c = Active \<and> con_retention_expires_at c > now)
                   (connections d)) (Http 409)) (\<lambda>_.
               (let d1 = release_expired_request pair now d in
                case consume_quota 20 (prin_subject p) now (connection_request_buckets d1) of
                  None \<Rightarrow> Inl (Http 429)
                | Some buckets \<Rightarrow>
                    (let row = new_connection_request env p mine target pair messaging;
                         payload = [(''messaging_requested'', json_bool messaging), (''status'', json_quoted ''pending'')];
                         d2 = d1\<lparr>connection_request_buckets := buckets,
                                 connection_requests := insert_row row (connection_requests d1)\<rparr>;
                         d3 = add_notification (re_new_id env 1) (doc_owner_id target) ''connection_request.received''
                                (Some (prin_subject p)) Connection_Request_T (cr_id row) now d2;
                         d4 = add_social_change_event (prin_subject p) ''connection_request.created''
                                Connection_Request_T (cr_id row) p payload now d3;
                         d5 = add_social_change_event (doc_owner_id target) ''connection_request.received''
                                Connection_Request_T (cr_id row) p payload now d4
                     in Inr (d5, 201, (Connection_Request_T, cr_id row))))))))))"

definition create_connection_request ::
    "route_env \<Rightarrow> principal \<Rightarrow> request \<Rightarrow> string \<Rightarrow> bool \<Rightarrow> db \<Rightarrow> db \<times> (http_error + reply)" where
  "create_connection_request env p rq handle messaging d =
     mutating_route env (require_social_human p ''connections:write'')
       p rq ''POST:/v1/connection-requests'' None (create_request_body env p handle messaging) d"

text \<open>Accepting: a lapsed connection of the pair is ended first, then the new one is made.\<close>

definition end_expired_connection :: "connection_request_row \<Rightarrow> time \<Rightarrow> db \<Rightarrow> http_error + db" where
  "end_expired_connection r now d =
     (case row_where (\<lambda>c. con_pair_owner_low c = cr_pair_owner_low r \<and>
             con_pair_owner_high c = cr_pair_owner_high r \<and> con_status c = Active) (connections d) of
        None \<Rightarrow> Inr d
      | Some c \<Rightarrow>
          and_then (require (retention_expired (con_retention_expires_at c) now) (Http 409)) (\<lambda>_.
          (let d1 = d\<lparr>connections := save_row con_id
                 (c\<lparr>con_status := Removed, con_ended_at := Some now, con_ended_by_owner_id := Some ''system:retention'',
                    con_updated_at := now\<rparr>) (connections d)\<rparr>
           in case row_where (\<lambda>v. cv_connection_id v = con_id c \<and> cv_status v = Conv_Active) (conversations d1) of
                None \<Rightarrow> Inr d1
              | Some v \<Rightarrow> Inr (d1\<lparr>conversations := save_row cv_id
                  (v\<lparr>cv_status := Conv_Closed, cv_closed_at := Some now\<rparr>) (conversations d1)\<rparr>))))"

definition new_connection :: "route_env \<Rightarrow> connection_request_row \<Rightarrow> bool \<Rightarrow> connection_row" where
  "new_connection env r consent =
     \<lparr>con_id = re_new_id env 0, con_request_id = cr_id r, con_pair_owner_low = cr_pair_owner_low r,
      con_pair_owner_high = cr_pair_owner_high r, con_requester_owner_id = cr_requester_owner_id r,
      con_recipient_owner_id = cr_recipient_owner_id r, con_requester_profile_handle = cr_requester_profile_handle r,
      con_recipient_profile_handle = cr_recipient_profile_handle r,
      con_requested_messaging = cr_requested_messaging r, con_recipient_messaging_consent = consent,
      con_messaging_enabled = (cr_requested_messaging r \<and> consent), con_status = Active,
      con_created_at = re_now env, con_updated_at = re_now env, con_ended_at = None, con_ended_by_owner_id = None,
      con_retention_expires_at = social_retention_expires_at (re_now env)\<rparr>"

definition ensure_block :: "string \<Rightarrow> string \<Rightarrow> string \<Rightarrow> time \<Rightarrow> db \<Rightarrow> db" where
  "ensure_block i blocker blocked now d =
     (if exists_where (\<lambda>x. blk_blocker_owner_id x = blocker \<and> blk_blocked_owner_id x = blocked) (connection_blocks d)
      then d
      else d\<lparr>connection_blocks := insert_row \<lparr>blk_id = i, blk_blocker_owner_id = blocker,
             blk_blocked_owner_id = blocked, blk_created_at = now\<rparr> (connection_blocks d)\<rparr>)"

datatype decision = Accept | Reject | Block

fun decision_name :: "decision \<Rightarrow> string" where
  "decision_name Accept = ''accept''"
| "decision_name Reject = ''reject''"
| "decision_name Block = ''block''"

definition parse_decision :: "string \<Rightarrow> decision option" where
  "parse_decision s = find (\<lambda>a. decision_name a = s) [Accept, Reject, Block]"

fun decided_status :: "decision \<Rightarrow> request_status" where
  "decided_status Accept = Accepted"
| "decided_status Reject = Rejected"
| "decided_status Block = Request_Blocked"

fun request_status_name :: "request_status \<Rightarrow> string" where
  "request_status_name Pending = ''pending''"
| "request_status_name Accepted = ''accepted''"
| "request_status_name Rejected = ''rejected''"
| "request_status_name Request_Blocked = ''blocked''"

text \<open>The row the recipient decides on; the lookup comes before the idempotency key is read.\<close>

definition decidable_request :: "db \<Rightarrow> string \<Rightarrow> principal \<Rightarrow> time \<Rightarrow> http_error + connection_request_row" where
  "decidable_request d i p now =
     (case row_where (\<lambda>r. cr_id r = i \<and> cr_recipient_owner_id r = prin_subject p) (connection_requests d) of
        None \<Rightarrow> Inl (Http 404)
      | Some r \<Rightarrow> if retention_expired (cr_retention_expires_at r) now then Inl (Http 404) else Inr r)"

definition apply_request_decision ::
    "route_env \<Rightarrow> principal \<Rightarrow> decision \<Rightarrow> bool \<Rightarrow> connection_request_row \<Rightarrow> db \<Rightarrow> http_error + db" where
  "apply_request_decision env p action consent r d =
     (let now = re_now env in
      case action of
        Accept \<Rightarrow>
          and_then (end_expired_connection r now d) (\<lambda>d1.
          (let c = new_connection env r consent;
               d2 = d1\<lparr>connections := insert_row c (connections d1)\<rparr>
           in Inr (add_notification (re_new_id env 1) (cr_requester_owner_id r) ''connection_request.accepted''
                (Some (prin_subject p)) Connection_T (con_id c) now d2)))
      | Reject \<Rightarrow>
          Inr (add_notification (re_new_id env 1) (cr_requester_owner_id r) ''connection_request.rejected''
            (Some (prin_subject p)) Connection_Request_T (cr_id r) now d)
      | Block \<Rightarrow> Inr (ensure_block (re_new_id env 0) (prin_subject p) (cr_requester_owner_id r) now d))"

definition decide_request_body ::
    "route_env \<Rightarrow> principal \<Rightarrow> string \<Rightarrow> decision \<Rightarrow> bool option \<Rightarrow> db \<Rightarrow> http_error + db \<times> nat \<times> resource" where
  "decide_request_body env p i action consent d =
     (let now = re_now env in
      and_then (decidable_request d i p now) (\<lambda>r.
      and_then (require (\<not> connection_blocked d (cr_requester_owner_id r) (cr_recipient_owner_id r)) (Http 404)) (\<lambda>_.
      and_then (require (cr_status r = Pending) (Http 409)) (\<lambda>_.
      and_then (require (action = Accept \<longrightarrow> consent \<noteq> None) (Http 422)) (\<lambda>_.
      and_then (require (action \<noteq> Accept \<longrightarrow> consent = None) (Http 422)) (\<lambda>_.
      (let r' = r\<lparr>cr_status := decided_status action, cr_decision_actor_id := Some (audit_actor_id p),
                  cr_decided_at := Some now, cr_updated_at := now,
                  cr_recipient_messaging_consent :=
                    (if action = Accept then consent else cr_recipient_messaging_consent r)\<rparr>;
           d1 = d\<lparr>connection_requests := save_row cr_id r' (connection_requests d)\<rparr>
       in and_then (apply_request_decision env p action (consent = Some True) r' d1) (\<lambda>d2.
          (let event = ''connection_request.'' @ request_status_name (cr_status r');
               payload = [(''messaging_enabled'',
                 json_bool (cr_requested_messaging r' \<and> cr_recipient_messaging_consent r' = Some True))];
               d3 = add_social_change_event (prin_subject p) event Connection_Request_T (cr_id r) p payload now d2;
               d4 = (if action = Block then d3
                     else add_social_change_event (cr_requester_owner_id r) event Connection_Request_T (cr_id r) p payload now d3)
           in Inr (d4, 200, (Connection_Request_T, cr_id r)))))))))))"

definition decide_connection_request ::
    "route_env \<Rightarrow> principal \<Rightarrow> request \<Rightarrow> string \<Rightarrow> string \<Rightarrow> bool option \<Rightarrow> db \<Rightarrow> db \<times> (http_error + reply)" where
  "decide_connection_request env p rq i action_text consent d =
     (case parse_decision action_text of
        None \<Rightarrow> (d, Inl (Http 404))
      | Some action \<Rightarrow>
          mutating_route env
            (and_then (require_social_human p ''connections:write'') (\<lambda>_.
             and_then (decidable_request d i p (re_now env)) (\<lambda>_. Inr ())))
            p rq (''POST:/v1/connection-requests/'' @ i @ ''/'' @ action_text) None
            (decide_request_body env p i action consent) d)"

subsection \<open>Ending a connection\<close>

definition end_conversation :: "string \<Rightarrow> conversation_status \<Rightarrow> time \<Rightarrow> db \<Rightarrow> db" where
  "end_conversation i st now d =
     (case row_where (\<lambda>v. cv_connection_id v = i) (conversations d) of
        None \<Rightarrow> d
      | Some v \<Rightarrow> if cv_status v \<noteq> Conv_Active then d
                  else d\<lparr>conversations := save_row cv_id (v\<lparr>cv_status := st, cv_closed_at := Some now\<rparr>) (conversations d)\<rparr>)"

definition end_connection :: "connection_status \<Rightarrow> string \<Rightarrow> time \<Rightarrow> connection_row \<Rightarrow> db \<Rightarrow> db" where
  "end_connection st owner now c d = d\<lparr>connections := save_row con_id
     (c\<lparr>con_status := st, con_ended_at := Some now, con_ended_by_owner_id := Some owner, con_updated_at := now\<rparr>)
     (connections d)\<rparr>"

definition remove_body :: "route_env \<Rightarrow> principal \<Rightarrow> string \<Rightarrow> db \<Rightarrow> http_error + db \<times> nat \<times> resource" where
  "remove_body env p i d =
     (let now = re_now env in
      and_then (active_connection_for_participant d i p now) (\<lambda>c.
      (let d1 = end_connection Removed (prin_subject p) now c d;
           d2 = (case get_row cr_id (con_request_id c) (connection_requests d1) of
                   None \<Rightarrow> d1
                 | Some r \<Rightarrow> if cr_status r \<noteq> Accepted then d1
                             else d1\<lparr>connection_requests := save_row cr_id
                               (r\<lparr>cr_status := Rejected, cr_updated_at := now\<rparr>) (connection_requests d1)\<rparr>);
           d3 = end_conversation (con_id c) Conv_Closed now d2
       in Inr (add_social_change_event (prin_subject p) ''connection.removed'' Connection_T (con_id c) p
                 [(''status'', json_quoted ''removed'')] now d3, 204, (Connection_T, con_id c)))))"

definition remove_connection ::
    "route_env \<Rightarrow> principal \<Rightarrow> request \<Rightarrow> string \<Rightarrow> db \<Rightarrow> db \<times> (http_error + reply)" where
  "remove_connection env p rq i d =
     mutating_route env (require_social_human p ''connections:write'')
       p rq (''DELETE:/v1/connections/'' @ i) None (remove_body env p i) d"

definition block_body :: "route_env \<Rightarrow> principal \<Rightarrow> string \<Rightarrow> db \<Rightarrow> http_error + db \<times> nat \<times> resource" where
  "block_body env p i d =
     (let now = re_now env in
      and_then (active_connection_for_participant d i p now) (\<lambda>c.
      and_then (connection_counterparty c p) (\<lambda>counterpart.
      (let d1 = ensure_block (re_new_id env 0) (prin_subject p) counterpart now d;
           d2 = end_connection Blocked (prin_subject p) now c d1;
           d3 = (case get_row cr_id (con_request_id c) (connection_requests d2) of
                   None \<Rightarrow> d2
                 | Some r \<Rightarrow> d2\<lparr>connection_requests := save_row cr_id
                     (r\<lparr>cr_status := Request_Blocked, cr_updated_at := now, cr_decided_at := Some now\<rparr>)
                     (connection_requests d2)\<rparr>);
           d4 = end_conversation (con_id c) Conv_Blocked now d3
       in Inr (add_social_change_event (prin_subject p) ''connection.blocked'' Connection_T (con_id c) p
                 [(''status'', json_quoted ''blocked'')] now d4, 204, (Connection_T, con_id c))))))"

definition block_connection ::
    "route_env \<Rightarrow> principal \<Rightarrow> request \<Rightarrow> string \<Rightarrow> db \<Rightarrow> db \<times> (http_error + reply)" where
  "block_connection env p rq i d =
     mutating_route env (require_social_human p ''connections:write'')
       p rq (''POST:/v1/connections/'' @ i @ ''/block'') None (block_body env p i) d"

subsection \<open>Conversations and messages\<close>

definition create_conversation_body ::
    "route_env \<Rightarrow> principal \<Rightarrow> string \<Rightarrow> db \<Rightarrow> http_error + db \<times> nat \<times> resource" where
  "create_conversation_body env p i d =
     (let now = re_now env in
      and_then (active_connection_for_participant d i p now) (\<lambda>c.
      and_then (require (con_messaging_enabled c) (Http 409)) (\<lambda>_.
      and_then (lock_social_admission d c None now) (\<lambda>_.
      and_then (require (\<not> exists_where (\<lambda>v. cv_connection_id v = con_id c) (conversations d)) (Http 409)) (\<lambda>_.
      and_then (connection_counterparty c p) (\<lambda>counterpart.
      (let row = \<lparr>cv_id = re_new_id env 0, cv_connection_id = con_id c, cv_pair_owner_low = con_pair_owner_low c,
                  cv_pair_owner_high = con_pair_owner_high c, cv_status = Conv_Active,
                  cv_created_by_owner_id = prin_subject p, cv_created_at = now, cv_closed_at = None,
                  cv_retention_expires_at = social_retention_expires_at now\<rparr>;
           payload = [(''connection_id'', json_quoted (con_id c))];
           d1 = d\<lparr>conversations := insert_row row (conversations d)\<rparr>;
           d2 = add_notification (re_new_id env 1) counterpart ''conversation.created'' (Some (prin_subject p))
                  Conversation_T (cv_id row) now d1;
           d3 = add_social_change_event (prin_subject p) ''conversation.created'' Conversation_T (cv_id row) p payload now d2;
           d4 = add_social_change_event counterpart ''conversation.created'' Conversation_T (cv_id row) p payload now d3
       in Inr (d4, 201, (Conversation_T, cv_id row)))))))))"

definition create_conversation ::
    "route_env \<Rightarrow> principal \<Rightarrow> request \<Rightarrow> string \<Rightarrow> db \<Rightarrow> db \<times> (http_error + reply)" where
  "create_conversation env p rq i d =
     mutating_route env (require_social_human p ''conversations:write'')
       p rq (''POST:/v1/conversations/'' @ i) None (create_conversation_body env p i) d"

definition send_body ::
    "route_env \<Rightarrow> principal \<Rightarrow> string \<Rightarrow> pystr \<Rightarrow> db \<Rightarrow> http_error + db \<times> nat \<times> resource" where
  "send_body env p i markdown d =
     (let now = re_now env in
      and_then (active_conversation_for_participant d i p now) (\<lambda>(v, c).
      and_then (lock_social_admission d c (Some v) now) (\<lambda>_.
      (case consume_quota 100 (prin_subject p) now (message_buckets d) of
         None \<Rightarrow> Inl (Http 429)
       | Some buckets \<Rightarrow>
           and_then (require (utf8_encode markdown \<noteq> None) (Http 500)) (\<lambda>_.
           and_then (connection_counterparty c p) (\<lambda>counterpart.
           (let row = \<lparr>msg_id = re_new_id env 0, msg_conversation_id = cv_id v, msg_sender_owner_id = prin_subject p,
                       msg_sender_actor_id = audit_actor_id p, msg_sender_actor_method = prin_method p,
                       msg_markdown = markdown, msg_content_sha256 = re_sha env markdown, msg_created_at = now,
                       msg_retention_expires_at = social_retention_expires_at now\<rparr>;
                d1 = d\<lparr>message_buckets := buckets, messages := insert_row row (messages d)\<rparr>;
                d2 = add_notification (re_new_id env 1) counterpart ''message.received'' (Some (prin_subject p))
                       Conversation_T (cv_id v) now d1;
                d3 = add_social_change_event (prin_subject p) ''message.sent'' Message_T (msg_id row) p
                       [(''conversation_id'', json_quoted (cv_id v))] now d2
            in Inr (d3, 201, (Message_T, msg_id row)))))))))"

text \<open>The conversation is looked up after the key is read and before the receipt is replayed.\<close>

definition send_message ::
    "route_env \<Rightarrow> principal \<Rightarrow> request \<Rightarrow> string \<Rightarrow> pystr \<Rightarrow> db \<Rightarrow> db \<times> (http_error + reply)" where
  "send_message env p rq i markdown d =
     mutating_route env
       (and_then (require_social_human p ''conversations:write'') (\<lambda>_.
        and_then (idempotency_key rq True) (\<lambda>_.
        and_then (active_conversation_for_participant d i p (re_now env)) (\<lambda>_. Inr ()))))
       p rq (''POST:/v1/conversations/'' @ i @ ''/messages'') None (send_body env p i markdown) d"

subsection \<open>Notifications\<close>

definition readable_notification :: "db \<Rightarrow> string \<Rightarrow> principal \<Rightarrow> time \<Rightarrow> http_error + notification_row" where
  "readable_notification d i p now =
     (case row_where (\<lambda>n. ntf_id n = i \<and> ntf_recipient_owner_id n = prin_subject p) (notifications d) of
        None \<Rightarrow> Inl (Http 404)
      | Some n \<Rightarrow> if retention_expired (ntf_retention_expires_at n) now then Inl (Http 404) else Inr n)"

definition read_body :: "route_env \<Rightarrow> principal \<Rightarrow> string \<Rightarrow> db \<Rightarrow> http_error + db \<times> nat \<times> resource" where
  "read_body env p i d =
     (let now = re_now env in
      and_then (readable_notification d i p now) (\<lambda>n.
      (let n' = (if ntf_read_at n = None then n\<lparr>ntf_read_at := Some now\<rparr> else n);
           d1 = d\<lparr>notifications := save_row ntf_id n' (notifications d)\<rparr>
       in Inr (add_social_change_event (prin_subject p) ''notification.read'' Notification_T (ntf_id n) p
                 [(''type'', json_quoted (ntf_type n))] now d1, 200, (Notification_T, ntf_id n)))))"

definition mark_notification_read ::
    "route_env \<Rightarrow> principal \<Rightarrow> request \<Rightarrow> string \<Rightarrow> db \<Rightarrow> db \<times> (http_error + reply)" where
  "mark_notification_read env p rq i d =
     mutating_route env
       (and_then (require_social_human p ''notifications:write'') (\<lambda>_.
        and_then (readable_notification d i p (re_now env)) (\<lambda>_. Inr ())))
       p rq (''POST:/v1/notifications/'' @ i @ ''/read'') None (read_body env p i) d"

end
