(* ===== verification/SocialSafety.thy ===== *)
theory SocialSafety
  imports SocialGraph RetentionSafety
begin

text \<open>
  The invariant of the social graph and what it means: a message passes only between the two
  consenting ends of a live, unblocked connection, and a block is a barrier nothing crosses.
\<close>

subsection \<open>The tables\<close>

definition live :: "connection_request_row \<Rightarrow> bool" where
  "live r \<longleftrightarrow> cr_status r \<in> {Pending, Accepted}"

definition request_pair :: "connection_request_row \<Rightarrow> string \<times> string" where
  "request_pair r = (cr_pair_owner_low r, cr_pair_owner_high r)"

definition connection_pair :: "connection_row \<Rightarrow> string \<times> string" where
  "connection_pair c = (con_pair_owner_low c, con_pair_owner_high c)"

definition conversation_pair :: "conversation_row \<Rightarrow> string \<times> string" where
  "conversation_pair v = (cv_pair_owner_low v, cv_pair_owner_high v)"

definition ends_are :: "string \<times> string \<Rightarrow> string \<Rightarrow> string \<Rightarrow> bool" where
  "ends_are pair a b \<longleftrightarrow> fst pair < snd pair \<and> (pair = (a, b) \<or> pair = (b, a))"

definition request_ok :: "connection_request_row \<Rightarrow> bool" where
  "request_ok r \<longleftrightarrow> ends_are (request_pair r) (cr_requester_owner_id r) (cr_recipient_owner_id r)"

definition connection_ok :: "connection_row \<Rightarrow> bool" where
  "connection_ok c \<longleftrightarrow> ends_are (connection_pair c) (con_requester_owner_id c) (con_recipient_owner_id c) \<and>
     con_messaging_enabled c = (con_requested_messaging c \<and> con_recipient_messaging_consent c)"

definition conversation_ok :: "connection_row list \<Rightarrow> conversation_row \<Rightarrow> bool" where
  "conversation_ok cs v =
     (case get_row con_id (cv_connection_id v) cs of
        None \<Rightarrow> False
      | Some c \<Rightarrow> connection_pair c = conversation_pair v \<and> con_messaging_enabled c \<and>
          (cv_status v = Conv_Active \<longrightarrow> con_status c = Active))"

definition message_ok :: "conversation_row list \<Rightarrow> message_row \<Rightarrow> bool" where
  "message_ok vs m =
     (case get_row cv_id (msg_conversation_id m) vs of
        None \<Rightarrow> False
      | Some v \<Rightarrow> msg_sender_owner_id m \<in> {cv_pair_owner_low v, cv_pair_owner_high v})"

definition requests_ok :: "connection_request_row list \<Rightarrow> bool" where
  "requests_ok rs \<longleftrightarrow> unique_by cr_id rs \<and> unique_by request_pair (filter live rs) \<and> list_all request_ok rs"

definition connections_ok :: "connection_row list \<Rightarrow> bool" where
  "connections_ok cs \<longleftrightarrow>
     unique_by con_id cs \<and> unique_by connection_pair (filter (\<lambda>c. con_status c = Active) cs) \<and> list_all connection_ok cs"

definition conversations_ok :: "connection_row list \<Rightarrow> conversation_row list \<Rightarrow> bool" where
  "conversations_ok cs vs \<longleftrightarrow>
     unique_by cv_id vs \<and> unique_by cv_connection_id vs \<and> list_all (conversation_ok cs) vs"

definition social_ok :: "db \<Rightarrow> bool" where
  "social_ok d \<longleftrightarrow>
     requests_ok (connection_requests d) \<and> connections_ok (connections d) \<and>
     conversations_ok (connections d) (conversations d) \<and>
     list_all (message_ok (conversations d)) (messages d) \<and>
     quota_ok 20 (connection_request_buckets d) \<and> quota_ok 100 (message_buckets d)"

lemma requests_ok_save:
  assumes "requests_ok rs" and "get_row cr_id (cr_id r') rs = Some r" and "request_pair r' = request_pair r"
    and "live r' \<longrightarrow> live r" and "request_ok r'"
  shows "requests_ok (save_row cr_id r' rs)"
proof -
  have "x = r" if "x \<in> set rs" "cr_id x = cr_id r'" for x
    using that assms(1,2) get_row_unique [of cr_id rs x] by (simp add: requests_ok_def)
  then have "unique_by request_pair (filter live (save_row cr_id r' rs))"
    using assms by (intro unique_filter_save) (auto simp: requests_ok_def)
  with assms show ?thesis by (simp add: requests_ok_def list_all_save_row)
qed

lemma requests_ok_insert:
  "requests_ok rs \<Longrightarrow> cr_id r \<notin> cr_id ` set rs \<Longrightarrow> \<forall>x \<in> set rs. live x \<longrightarrow> request_pair x \<noteq> request_pair r \<Longrightarrow>
     request_ok r \<Longrightarrow> requests_ok (insert_row r rs)"
  by (simp add: requests_ok_def unique_filter_insert)

lemma connections_ok_save:
  assumes "connections_ok cs" and "get_row con_id (con_id c') cs = Some c" and "connection_pair c' = connection_pair c"
    and "con_status c' \<noteq> Active" and "connection_ok c'"
  shows "connections_ok (save_row con_id c' cs)"
proof -
  have "x = c" if "x \<in> set cs" "con_id x = con_id c'" for x
    using that assms(1,2) get_row_unique [of con_id cs x] by (simp add: connections_ok_def)
  then have "unique_by connection_pair (filter (\<lambda>c. con_status c = Active) (save_row con_id c' cs))"
    using assms by (intro unique_filter_save) (auto simp: connections_ok_def)
  with assms show ?thesis by (simp add: connections_ok_def list_all_save_row)
qed

lemma connections_ok_insert:
  "connections_ok cs \<Longrightarrow> con_id c \<notin> con_id ` set cs \<Longrightarrow>
     \<forall>x \<in> set cs. con_status x = Active \<longrightarrow> connection_pair x \<noteq> connection_pair c \<Longrightarrow>
     connection_ok c \<Longrightarrow> connections_ok (insert_row c cs)"
  by (simp add: connections_ok_def unique_filter_insert)

lemma conversations_ok_insert_connection:
  "conversations_ok cs vs \<Longrightarrow> conversations_ok (insert_row c cs) vs"
  by (auto simp: conversations_ok_def list_all_iff conversation_ok_def get_row_insert split: option.splits)

text \<open>Ending a connection and the conversation on it.\<close>

lemma conversations_ok_end:
  assumes ok: "conversations_ok cs vs" and c: "get_row con_id (con_id c') cs = Some c"
    and same: "connection_pair c' = connection_pair c" "con_messaging_enabled c' = con_messaging_enabled c"
    and vs': "unique_by cv_id vs'" "unique_by cv_connection_id vs'"
    and rows: "\<And>x. x \<in> set vs' \<Longrightarrow> \<exists>y \<in> set vs. cv_connection_id x = cv_connection_id y \<and>
        conversation_pair x = conversation_pair y \<and> (cv_status x = Conv_Active \<longrightarrow> cv_status y = Conv_Active)"
    and shut: "\<And>x. x \<in> set vs' \<Longrightarrow> cv_connection_id x = con_id c' \<Longrightarrow> cv_status x \<noteq> Conv_Active"
  shows "conversations_ok (save_row con_id c' cs) vs'"
proof -
  have "conversation_ok (save_row con_id c' cs) x" if x: "x \<in> set vs'" for x
  proof -
    obtain y where y: "y \<in> set vs" "cv_connection_id x = cv_connection_id y" "conversation_pair x = conversation_pair y"
      "cv_status x = Conv_Active \<longrightarrow> cv_status y = Conv_Active" using rows [OF x] by blast
    have "conversation_ok cs y" using ok y by (simp add: conversations_ok_def list_all_iff)
    with y c same shut [OF x] show ?thesis
      by (auto simp: conversation_ok_def get_row_save split: option.splits)
  qed
  with vs' show ?thesis by (simp add: conversations_ok_def list_all_iff)
qed

lemma messages_ok_insert_conversation:
  "list_all (message_ok vs) ms \<Longrightarrow> list_all (message_ok (insert_row v vs)) ms"
  by (auto simp: list_all_iff message_ok_def get_row_insert split: option.splits)

lemma messages_ok_save:
  assumes "list_all (message_ok vs) ms" and "get_row cv_id (cv_id v') vs = Some v"
    and "conversation_pair v' = conversation_pair v"
  shows "list_all (message_ok (save_row cv_id v' vs)) ms"
  using assms by (auto simp: list_all_iff message_ok_def get_row_save conversation_pair_def split: option.splits)

subsection \<open>Frames\<close>

lemma social_frames [simp]:
  "connection_requests (add_notification i r ty a rt ri now d) = connection_requests d"
  "connections (add_notification i r ty a rt ri now d) = connections d"
  "conversations (add_notification i r ty a rt ri now d) = conversations d"
  "messages (add_notification i r ty a rt ri now d) = messages d"
  "connection_blocks (add_notification i r ty a rt ri now d) = connection_blocks d"
  "connection_request_buckets (add_notification i r ty a rt ri now d) = connection_request_buckets d"
  "message_buckets (add_notification i r ty a rt ri now d) = message_buckets d"
  "connection_requests (add_social_change_event o' ev rt ri p pl now d) = connection_requests d"
  "connections (add_social_change_event o' ev rt ri p pl now d) = connections d"
  "conversations (add_social_change_event o' ev rt ri p pl now d) = conversations d"
  "messages (add_social_change_event o' ev rt ri p pl now d) = messages d"
  "connection_blocks (add_social_change_event o' ev rt ri p pl now d) = connection_blocks d"
  "connection_request_buckets (add_social_change_event o' ev rt ri p pl now d) = connection_request_buckets d"
  "message_buckets (add_social_change_event o' ev rt ri p pl now d) = message_buckets d"
  by (simp_all add: add_notification_def add_social_change_event_def)

lemma ensure_block_frames [simp]:
  "connection_requests (ensure_block i a b now d) = connection_requests d"
  "connections (ensure_block i a b now d) = connections d"
  "conversations (ensure_block i a b now d) = conversations d"
  "messages (ensure_block i a b now d) = messages d"
  "connection_request_buckets (ensure_block i a b now d) = connection_request_buckets d"
  "message_buckets (ensure_block i a b now d) = message_buckets d"
  by (simp_all add: ensure_block_def)

lemma end_conversation_frames [simp]:
  "connection_requests (end_conversation i st now d) = connection_requests d"
  "connections (end_conversation i st now d) = connections d"
  "messages (end_conversation i st now d) = messages d"
  "connection_blocks (end_conversation i st now d) = connection_blocks d"
  "connection_request_buckets (end_conversation i st now d) = connection_request_buckets d"
  "message_buckets (end_conversation i st now d) = message_buckets d"
  by (simp_all add: end_conversation_def split: option.split)

lemma end_connection_frames [simp]:
  "connection_requests (end_connection st o' now c d) = connection_requests d"
  "conversations (end_connection st o' now c d) = conversations d"
  "messages (end_connection st o' now c d) = messages d"
  "connection_blocks (end_connection st o' now c d) = connection_blocks d"
  "connection_request_buckets (end_connection st o' now c d) = connection_request_buckets d"
  "message_buckets (end_connection st o' now c d) = message_buckets d"
  by (simp_all add: end_connection_def)

lemma social_ok_same:
  "social_ok d \<Longrightarrow> connection_requests d' = connection_requests d \<Longrightarrow> connections d' = connections d \<Longrightarrow>
     conversations d' = conversations d \<Longrightarrow> messages d' = messages d \<Longrightarrow>
     connection_request_buckets d' = connection_request_buckets d \<Longrightarrow> message_buckets d' = message_buckets d \<Longrightarrow>
     social_ok d'"
  by (simp add: social_ok_def)

subsection \<open>Ending a conversation\<close>

lemma end_conversation_row:
  assumes "unique_by cv_id (conversations d)" and "unique_by cv_connection_id (conversations d)"
    and "x \<in> set (conversations (end_conversation i st now d))"
  shows "\<exists>y \<in> set (conversations d). cv_id x = cv_id y \<and> cv_connection_id x = cv_connection_id y \<and>
     conversation_pair x = conversation_pair y \<and>
     cv_status x = (if cv_connection_id y = i \<and> cv_status y = Conv_Active then st else cv_status y)"
proof (cases "row_where (\<lambda>v. cv_connection_id v = i) (conversations d)")
  case None
  with assms(3) show ?thesis by (auto simp: end_conversation_def row_where_None)
next
  case (Some v)
  then have v: "v \<in> set (conversations d)" "cv_connection_id v = i" by (auto dest: row_where_SomeD)
  have only: "y = v" if "y \<in> set (conversations d)" "cv_connection_id y = i" for y
    using unique_byD [OF assms(2) that(1) v(1)] that v by simp
  show ?thesis
  proof (cases "cv_status v = Conv_Active")
    case True
    with assms(3) Some have "x = v\<lparr>cv_status := st, cv_closed_at := Some now\<rparr> \<or>
        x \<in> set (conversations d) \<and> cv_id x \<noteq> cv_id v"
      by (auto simp: end_conversation_def set_save_row)
    then show ?thesis
    proof
      assume "x = v\<lparr>cv_status := st, cv_closed_at := Some now\<rparr>"
      with v True show ?thesis by (intro bexI [of _ v]) (auto simp: conversation_pair_def)
    next
      assume "x \<in> set (conversations d) \<and> cv_id x \<noteq> cv_id v"
      with only show ?thesis by (intro bexI [of _ x]) auto
    qed
  next
    case False
    with assms(3) Some have "x \<in> set (conversations d)" by (simp add: end_conversation_def)
    with only False show ?thesis by (intro bexI [of _ x]) auto
  qed
qed

lemma end_conversation_unique:
  assumes "unique_by cv_id (conversations d)" and "unique_by cv_connection_id (conversations d)"
  shows "unique_by cv_id (conversations (end_conversation i st now d)) \<and>
     unique_by cv_connection_id (conversations (end_conversation i st now d))"
proof (cases "row_where (\<lambda>v. cv_connection_id v = i) (conversations d)")
  case None
  with assms show ?thesis by (simp add: end_conversation_def)
next
  case (Some v)
  then have "v \<in> set (conversations d)" by (auto dest: row_where_SomeD)
  then have "unique_by cv_connection_id (save_row cv_id (v\<lparr>cv_status := st, cv_closed_at := Some now\<rparr>) (conversations d))"
    using assms by (subst unique_save_row_other [where x = v]) simp_all
  with Some assms show ?thesis by (simp add: end_conversation_def)
qed

lemma end_conversation_messages:
  assumes "unique_by cv_id (conversations d)" and "list_all (message_ok (conversations d)) ms"
  shows "list_all (message_ok (conversations (end_conversation i st now d))) ms"
proof (cases "row_where (\<lambda>v. cv_connection_id v = i) (conversations d)")
  case None
  with assms show ?thesis by (simp add: end_conversation_def)
next
  case (Some v)
  then have "get_row cv_id (cv_id v) (conversations d) = Some v"
    using assms(1) by (auto dest: row_where_SomeD intro: get_row_unique)
  with Some assms show ?thesis by (auto simp: end_conversation_def conversation_pair_def intro!: messages_ok_save)
qed

text \<open>Ending a connection together with its conversation keeps the tables in order.\<close>

lemma end_connection_keeps:
  assumes ok: "social_ok d" and c: "get_row con_id i (connections d) = Some c"
    and st: "st \<noteq> Active" "vst \<noteq> Conv_Active"
    and cs: "connections d' = connections (end_connection st owner now c d)"
    and vs: "conversations d' = conversations (end_conversation (con_id c) vst now d)"
    and rs: "requests_ok (connection_requests d')"
    and rest: "messages d' = messages d" "quota_ok 20 (connection_request_buckets d')"
      "quota_ok 100 (message_buckets d')"
  shows "social_ok d'"
proof -
  let ?c = "c\<lparr>con_status := st, con_ended_at := Some now, con_ended_by_owner_id := Some owner, con_updated_at := now\<rparr>"
  have id: "get_row con_id (con_id ?c) (connections d) = Some c" using c by (auto dest: get_row_SomeD)
  have cok: "connection_ok c" using ok c by (auto simp: social_ok_def connections_ok_def list_all_iff dest: get_row_SomeD)
  have u: "unique_by cv_id (conversations d)" "unique_by cv_connection_id (conversations d)"
    using ok by (simp_all add: social_ok_def conversations_ok_def)
  have "connections_ok (connections d')"
    unfolding cs end_connection_def using ok id st(1) cok
    by (simp add: social_ok_def connections_ok_save connection_pair_def connection_ok_def)
  moreover have "conversations_ok (connections d') (conversations d')"
  proof -
    have "conversations_ok (save_row con_id ?c (connections d)) (conversations d')"
    proof (rule conversations_ok_end [OF _ id])
      show "conversations_ok (connections d) (conversations d)" using ok by (simp add: social_ok_def)
      show "unique_by cv_id (conversations d')" "unique_by cv_connection_id (conversations d')"
        using end_conversation_unique [OF u] by (simp_all add: vs)
      fix x assume "x \<in> set (conversations d')"
      note y = end_conversation_row [OF u this [unfolded vs]]
      with st(2) show "\<exists>y \<in> set (conversations d). cv_connection_id x = cv_connection_id y \<and>
          conversation_pair x = conversation_pair y \<and> (cv_status x = Conv_Active \<longrightarrow> cv_status y = Conv_Active)"
        by (metis (full_types))
      assume "cv_connection_id x = con_id ?c"
      with y st(2) show "cv_status x \<noteq> Conv_Active" by (auto split: if_splits)
    qed (simp_all add: connection_pair_def)
    then show ?thesis by (simp add: cs end_connection_def)
  qed
  moreover have "list_all (message_ok (conversations d')) (messages d')"
    using ok u(1) by (simp add: vs rest(1) social_ok_def end_conversation_messages)
  ultimately show ?thesis using rs rest by (simp add: social_ok_def)
qed

subsection \<open>What each route does\<close>

lemma active_connectionD:
  assumes "active_connection_for_participant d i p now = Inr c"
  shows "get_row con_id i (connections d) = Some c" and "con_id c = i" and "con_status c = Active"
    and "now < con_retention_expires_at c"
    and "\<exists>other. connection_counterparty c p = Inr other \<and> \<not> connection_blocked d (prin_subject p) other"
  using assms
  by (auto simp: active_connection_for_participant_def retention_expired_def dest: get_row_SomeD split: option.splits)

lemma active_conversationD:
  assumes "active_conversation_for_participant d i p now = Inr (v, c)"
  shows "get_row cv_id i (conversations d) = Some v" and "cv_id v = i" and "cv_status v = Conv_Active"
    and "now < cv_retention_expires_at v"
    and "active_connection_for_participant d (cv_connection_id v) p now = Inr c"
    and "con_messaging_enabled c" and "prin_subject p \<in> {cv_pair_owner_low v, cv_pair_owner_high v}"
  using assms
  by (auto simp: active_conversation_for_participant_def conversation_counterparty_def retention_expired_def
      dest: get_row_SomeD split: option.splits if_splits)

lemma owner_pair_Inr:
  "owner_pair a b = Inr pair \<longleftrightarrow> a \<noteq> b \<and> pair = (min a b, max a b)"
  by (auto simp: owner_pair_def)

lemma owner_pair_ends: "owner_pair a b = Inr pair \<Longrightarrow> ends_are pair a b"
  by (auto simp: owner_pair_Inr ends_are_def min_def max_def)

lemma live_request_iff: "live_request pair r \<longleftrightarrow> live r \<and> request_pair r = pair"
  by (auto simp: live_request_def live_def request_pair_def)

lemma release_expired_request_keeps:
  assumes "requests_ok (connection_requests d)"
  shows "requests_ok (connection_requests (release_expired_request pair now d))"
    and "\<not> exists_where (\<lambda>r. live_request pair r \<and> cr_retention_expires_at r > now) (connection_requests d) \<Longrightarrow>
      \<forall>x \<in> set (connection_requests (release_expired_request pair now d)). live x \<longrightarrow> request_pair x \<noteq> pair"
proof -
  let ?late = "row_where (\<lambda>r. live_request pair r \<and> cr_retention_expires_at r \<le> now) (connection_requests d)"
  have "requests_ok (connection_requests (release_expired_request pair now d)) \<and>
    (\<not> exists_where (\<lambda>r. live_request pair r \<and> cr_retention_expires_at r > now) (connection_requests d) \<longrightarrow>
      (\<forall>x \<in> set (connection_requests (release_expired_request pair now d)). live x \<longrightarrow> request_pair x \<noteq> pair))"
  proof (cases ?late)
    case None
    then have d: "release_expired_request pair now d = d" by (simp add: release_expired_request_def)
    from None have "\<not> live_request pair x" if "x \<in> set (connection_requests d)"
      "\<not> exists_where (\<lambda>r. live_request pair r \<and> cr_retention_expires_at r > now) (connection_requests d)" for x
      using that by (force simp: row_where_None not_le)
    with assms show ?thesis unfolding d live_request_iff by blast
  next
    case (Some r)
    then have r: "r \<in> set (connection_requests d)" "live_request pair r" by (auto dest: row_where_SomeD)
    let ?r' = "r\<lparr>cr_status := Rejected, cr_decision_actor_id := Some ''system:retention'', cr_decided_at := Some now,
       cr_updated_at := now\<rparr>"
    have d: "connection_requests (release_expired_request pair now d) = save_row cr_id ?r' (connection_requests d)"
      using Some by (simp add: release_expired_request_def)
    have u: "unique_by request_pair (filter live (connection_requests d))" "request_ok r"
      "get_row cr_id (cr_id r) (connection_requests d) = Some r"
      using assms r by (auto simp: requests_ok_def list_all_iff intro: get_row_unique)
    have "requests_ok (save_row cr_id ?r' (connection_requests d))"
      using assms u(2,3) by (intro requests_ok_save) (simp_all add: request_pair_def live_def request_ok_def)
    moreover have "request_pair x \<noteq> pair" if "x \<in> set (save_row cr_id ?r' (connection_requests d))" "live x" for x
    proof
      assume p: "request_pair x = pair"
      from that have x: "x \<in> set (connection_requests d)" "cr_id x \<noteq> cr_id r" by (auto simp: set_save_row live_def)
      have "x = r"
        by (rule unique_byD [OF u(1)]) (use x that(2) r p in \<open>simp_all add: live_request_iff\<close>)
      with x show False by simp
    qed
    ultimately show ?thesis by (simp add: d)
  qed
  then show "requests_ok (connection_requests (release_expired_request pair now d))"
    and "\<not> exists_where (\<lambda>r. live_request pair r \<and> cr_retention_expires_at r > now) (connection_requests d) \<Longrightarrow>
      \<forall>x \<in> set (connection_requests (release_expired_request pair now d)). live x \<longrightarrow> request_pair x \<noteq> pair"
    by blast+
qed

lemma release_expired_request_frames [simp]:
  "connections (release_expired_request pair now d) = connections d"
  "conversations (release_expired_request pair now d) = conversations d"
  "messages (release_expired_request pair now d) = messages d"
  "connection_blocks (release_expired_request pair now d) = connection_blocks d"
  "connection_request_buckets (release_expired_request pair now d) = connection_request_buckets d"
  "message_buckets (release_expired_request pair now d) = message_buckets d"
  by (simp_all add: release_expired_request_def split: option.split)

lemma create_request_bodyD:
  assumes "create_request_body env p handle messaging d = Inr (d', status, res)"
  obtains target mine pair buckets where "owner_pair (prin_subject p) (doc_owner_id target) = Inr pair"
    and "\<not> connection_blocked d (prin_subject p) (doc_owner_id target)"
    and "\<not> exists_where (\<lambda>r. live_request pair r \<and> cr_retention_expires_at r > re_now env) (connection_requests d)"
    and "consume_quota 20 (prin_subject p) (re_now env) (connection_request_buckets d) = Some buckets"
    and "connection_request_buckets d' = buckets"
    and "connection_requests d' = insert_row (new_connection_request env p mine target pair messaging)
      (connection_requests (release_expired_request pair (re_now env) d))"
    and "connections d' = connections d" "conversations d' = conversations d" "messages d' = messages d"
      "message_buckets d' = message_buckets d" "connection_blocks d' = connection_blocks d"
proof -
  from assms obtain target where t: "row_where (\<lambda>x. doc_kind x = ''profile'' \<and> doc_public_identifier x = handle \<and>
      doc_visibility x = ''public'') (documents d) = Some target"
    by (auto simp: create_request_body_def Let_def split: option.splits)
  with assms obtain mine where mine: "requester_profile d (prin_subject p) = Some mine"
    by (auto simp: create_request_body_def Let_def split: option.splits)
  with t assms obtain pair where pair: "owner_pair (prin_subject p) (doc_owner_id target) = Inr pair"
    by (auto simp: create_request_body_def Let_def)
  with t mine assms obtain buckets where
    b: "consume_quota 20 (prin_subject p) (re_now env) (connection_request_buckets d) = Some buckets"
    by (cases "consume_quota 20 (prin_subject p) (re_now env) (connection_request_buckets d)")
      (auto simp: create_request_body_def Let_def)
  show thesis
    by (rule that [OF pair _ _ b]) (use assms t mine pair b in \<open>auto simp: create_request_body_def Let_def\<close>)
qed

lemma create_request_keeps:
  assumes ok: "social_ok d" and fresh: "re_new_id env 0 \<notin> cr_id ` set (connection_requests d)"
    and call: "create_request_body env p handle messaging d = Inr (d', status, res)"
  shows "social_ok d'"
  using call
proof (rule create_request_bodyD)
  fix target mine :: document_row and pair buckets
  assume pair: "owner_pair (prin_subject p) (doc_owner_id target) = Inr pair"
    and none: "\<not> exists_where (\<lambda>r. live_request pair r \<and> cr_retention_expires_at r > re_now env) (connection_requests d)"
    and b: "consume_quota 20 (prin_subject p) (re_now env) (connection_request_buckets d) = Some buckets"
      "connection_request_buckets d' = buckets"
    and rs: "connection_requests d' = insert_row (new_connection_request env p mine target pair messaging)
      (connection_requests (release_expired_request pair (re_now env) d))"
    and rest: "connections d' = connections d" "conversations d' = conversations d" "messages d' = messages d"
      "message_buckets d' = message_buckets d"
  let ?r = "new_connection_request env p mine target pair messaging"
  have "request_ok ?r" "request_pair ?r = pair" "cr_id ?r = re_new_id env 0"
    using owner_pair_ends [OF pair] by (simp_all add: new_connection_request_def request_ok_def request_pair_def)
  moreover have "requests_ok (connection_requests d)" using ok by (simp add: social_ok_def)
  moreover have "cr_id ` set (connection_requests (release_expired_request pair (re_now env) d)) = cr_id ` set (connection_requests d)"
    by (auto simp: release_expired_request_def split: option.split dest!: row_where_SomeD intro: rev_image_eqI)
  ultimately have "requests_ok (connection_requests d')"
    unfolding rs using release_expired_request_keeps [of d pair "re_now env"] none fresh
    by (intro requests_ok_insert) auto
  moreover have "quota_ok 20 (connection_request_buckets d')"
    using consume_quota_ok [OF b(1)] ok b(2) by (simp add: social_ok_def)
  ultimately show ?thesis using ok rest by (simp add: social_ok_def)
qed

text \<open>Closing the one active conversation of a connection is the general way of ending it.\<close>

lemma close_active_conversation:
  assumes u: "unique_by cv_connection_id (conversations d)"
  shows "(case row_where (\<lambda>v. cv_connection_id v = i \<and> cv_status v = Conv_Active) (conversations d) of
       None \<Rightarrow> d
     | Some v \<Rightarrow> d\<lparr>conversations := save_row cv_id (v\<lparr>cv_status := Conv_Closed, cv_closed_at := Some now\<rparr>) (conversations d)\<rparr>)
     = end_conversation i Conv_Closed now d"
proof (cases "row_where (\<lambda>v. cv_connection_id v = i) (conversations d)")
  case None
  then have "row_where (\<lambda>v. cv_connection_id v = i \<and> cv_status v = Conv_Active) (conversations d) = None"
    by (simp add: row_where_None)
  with None show ?thesis by (simp add: end_conversation_def)
next
  case (Some v)
  then have v: "v \<in> set (conversations d)" "cv_connection_id v = i" by (auto dest: row_where_SomeD)
  have "row_where (\<lambda>v. cv_connection_id v = i \<and> cv_status v = Conv_Active) (conversations d) =
      (if cv_status v = Conv_Active then Some v else None)"
  proof (cases "cv_status v = Conv_Active")
    case True
    then show ?thesis by simp (rule row_where_unique [OF u v(1)]; simp add: v)
  next
    case False
    have "y = v" if "y \<in> set (conversations d)" "cv_connection_id y = i" for y
      using that v by (intro unique_byD [OF u]) simp_all
    with False show ?thesis by (auto simp: row_where_None)
  qed
  with Some show ?thesis by (simp add: end_conversation_def)
qed

lemma end_expired_connection_eq:
  assumes "unique_by cv_connection_id (conversations d)"
  shows "end_expired_connection r now d =
     (case row_where (\<lambda>c. con_pair_owner_low c = cr_pair_owner_low r \<and>
             con_pair_owner_high c = cr_pair_owner_high r \<and> con_status c = Active) (connections d) of
        None \<Rightarrow> Inr d
      | Some c \<Rightarrow>
          if retention_expired (con_retention_expires_at c) now
          then Inr (end_conversation (con_id c) Conv_Closed now (end_connection Removed ''system:retention'' now c d))
          else Inl (Http 409))"
proof -
  let ?row = "row_where (\<lambda>c. con_pair_owner_low c = cr_pair_owner_low r \<and>
      con_pair_owner_high c = cr_pair_owner_high r \<and> con_status c = Active) (connections d)"
  show ?thesis
  proof (cases ?row)
    case None
    then show ?thesis by (simp add: end_expired_connection_def)
  next
    case (Some c)
    have u: "unique_by cv_connection_id (conversations (end_connection Removed ''system:retention'' now c d))"
      using assms by simp
    show ?thesis
      by (cases "row_where (\<lambda>v. cv_connection_id v = con_id c \<and> cv_status v = Conv_Active) (conversations d)")
        (use Some close_active_conversation [OF u, where i = "con_id c"] in
          \<open>simp_all add: end_expired_connection_def Let_def end_connection_def require_def\<close>)
  qed
qed

lemma decide_request_bodyD:
  assumes "decide_request_body env p i action consent d = Inr (d', status, res)"
  obtains r r' d2 where "r \<in> set (connection_requests d)" and "cr_id r = i" and "cr_recipient_owner_id r = prin_subject p"
    and "re_now env < cr_retention_expires_at r"
    and "\<not> connection_blocked d (cr_requester_owner_id r) (cr_recipient_owner_id r)" and "cr_status r = Pending"
    and "action = Accept \<longleftrightarrow> consent \<noteq> None"
    and "r' = r\<lparr>cr_status := decided_status action, cr_decision_actor_id := Some (audit_actor_id p),
       cr_decided_at := Some (re_now env), cr_updated_at := re_now env,
       cr_recipient_messaging_consent := (if action = Accept then consent else cr_recipient_messaging_consent r)\<rparr>"
    and "apply_request_decision env p action (consent = Some True) r'
       (d\<lparr>connection_requests := save_row cr_id r' (connection_requests d)\<rparr>) = Inr d2"
    and "connection_requests d' = connection_requests d2" "connections d' = connections d2"
      "conversations d' = conversations d2" "messages d' = messages d2" "connection_blocks d' = connection_blocks d2"
      "connection_request_buckets d' = connection_request_buckets d2" "message_buckets d' = message_buckets d2"
proof -
  from assms obtain r where r: "decidable_request d i p (re_now env) = Inr r"
    by (auto simp: decide_request_body_def Let_def)
  then have rD: "r \<in> set (connection_requests d)" "cr_id r = i" "cr_recipient_owner_id r = prin_subject p"
    "re_now env < cr_retention_expires_at r"
    by (auto simp: decidable_request_def retention_expired_def split: option.splits if_splits dest!: row_where_SomeD)
  let ?r' = "r\<lparr>cr_status := decided_status action, cr_decision_actor_id := Some (audit_actor_id p),
       cr_decided_at := Some (re_now env), cr_updated_at := re_now env,
       cr_recipient_messaging_consent := (if action = Accept then consent else cr_recipient_messaging_consent r)\<rparr>"
  from assms r obtain d2 where d2: "apply_request_decision env p action (consent = Some True) ?r'
       (d\<lparr>connection_requests := save_row cr_id ?r' (connection_requests d)\<rparr>) = Inr d2"
    by (auto simp: decide_request_body_def Let_def)
  show thesis
    by (rule that [OF rD _ _ _ refl d2]) (use assms r d2 in \<open>auto simp: decide_request_body_def Let_def\<close>)
qed

lemma decided_request_save:
  assumes ok: "requests_ok rs" and r: "r \<in> set rs" and "cr_status r = Pending"
    and r': "r' = r\<lparr>cr_status := decided_status action, cr_decision_actor_id := a, cr_decided_at := b, cr_updated_at := c,
       cr_recipient_messaging_consent := e\<rparr>"
  shows "requests_ok (save_row cr_id r' rs)"
  using ok
proof (rule requests_ok_save)
  show "get_row cr_id (cr_id r') rs = Some r" using ok r by (simp add: r' requests_ok_def get_row_unique)
  show "request_ok r'" using ok r by (auto simp: r' requests_ok_def list_all_iff request_ok_def request_pair_def)
qed (simp_all add: r' request_pair_def live_def assms(3))

lemma apply_acceptD:
  assumes u: "unique_by cv_connection_id (conversations d)"
    and call: "apply_request_decision env p Accept consent r d = Inr d'"
  obtains d1 where "end_expired_connection r (re_now env) d = Inr d1"
    and "connections d' = insert_row (new_connection env r consent) (connections d1)"
    and "connection_requests d' = connection_requests d1" "conversations d' = conversations d1"
      "messages d' = messages d1" "connection_blocks d' = connection_blocks d1"
      "connection_request_buckets d' = connection_request_buckets d1" "message_buckets d' = message_buckets d1"
  using call by (auto simp: apply_request_decision_def Let_def)

lemma end_expired_connection_keeps:
  assumes ok: "social_ok d" and call: "end_expired_connection r now d = Inr d1"
  shows "social_ok d1 \<and> con_id ` set (connections d1) = con_id ` set (connections d) \<and>
     (\<forall>x \<in> set (connections d1). con_status x = Active \<longrightarrow> connection_pair x \<noteq> request_pair r) \<and>
     connection_requests d1 = connection_requests d \<and> connection_blocks d1 = connection_blocks d \<and>
     messages d1 = messages d"
proof -
  let ?row = "row_where (\<lambda>c. con_pair_owner_low c = cr_pair_owner_low r \<and>
      con_pair_owner_high c = cr_pair_owner_high r \<and> con_status c = Active) (connections d)"
  have u: "unique_by cv_connection_id (conversations d)" "unique_by con_id (connections d)"
    "unique_by connection_pair (filter (\<lambda>c. con_status c = Active) (connections d))"
    using ok by (simp_all add: social_ok_def conversations_ok_def connections_ok_def)
  show ?thesis
  proof (cases ?row)
    case None
    with call have "d1 = d" by (simp add: end_expired_connection_def)
    with ok None show ?thesis by (auto simp: row_where_None connection_pair_def request_pair_def)
  next
    case (Some c)
    then have c: "c \<in> set (connections d)" "connection_pair c = request_pair r" "con_status c = Active"
      by (auto simp: connection_pair_def request_pair_def dest!: row_where_SomeD)
    have d1: "d1 = end_conversation (con_id c) Conv_Closed now (end_connection Removed ''system:retention'' now c d)"
      using call Some by (auto simp: end_expired_connection_eq [OF u(1)] split: if_splits)
    have vs: "conversations d1 = conversations (end_conversation (con_id c) Conv_Closed now d)"
      by (simp add: d1 end_conversation_def end_connection_def split: option.split)
    have "social_ok d1"
      by (rule end_connection_keeps [OF ok get_row_unique [OF u(2) c(1)] _ _ _ vs])
        (use ok in \<open>simp_all add: d1 social_ok_def\<close>)
    moreover have "connection_pair x \<noteq> request_pair r" if "x \<in> set (connections d1)" "con_status x = Active" for x
    proof
      assume p: "connection_pair x = request_pair r"
      from that have x: "x \<in> set (connections d)" "con_id x \<noteq> con_id c"
        by (auto simp: d1 end_connection_def set_save_row)
      have "x = c" by (rule unique_byD [OF u(3)]) (use x c p that(2) in simp_all)
      with x show False by simp
    qed
    moreover have "con_id ` set (connections d1) = con_id ` set (connections d)"
      using keys_save_row [of con_id "c\<lparr>con_status := Removed, con_ended_at := Some now,
        con_ended_by_owner_id := Some ''system:retention'', con_updated_at := now\<rparr>" "connections d"]
      by (simp add: d1 end_connection_def)
    ultimately show ?thesis by (simp add: d1)
  qed
qed

lemma decide_request_keeps:
  assumes ok: "social_ok d" and fresh: "re_new_id env 0 \<notin> con_id ` set (connections d)"
    and call: "decide_request_body env p i action consent d = Inr (d', status, res)"
  shows "social_ok d'"
  using call
proof (rule decide_request_bodyD)
  fix r r' d2
  assume r: "r \<in> set (connection_requests d)" "cr_status r = Pending"
    and r': "r' = r\<lparr>cr_status := decided_status action, cr_decision_actor_id := Some (audit_actor_id p),
       cr_decided_at := Some (re_now env), cr_updated_at := re_now env,
       cr_recipient_messaging_consent := (if action = Accept then consent else cr_recipient_messaging_consent r)\<rparr>"
    and d2: "apply_request_decision env p action (consent = Some True) r'
       (d\<lparr>connection_requests := save_row cr_id r' (connection_requests d)\<rparr>) = Inr d2"
    and d': "connection_requests d' = connection_requests d2" "connections d' = connections d2"
      "conversations d' = conversations d2" "messages d' = messages d2"
      "connection_request_buckets d' = connection_request_buckets d2" "message_buckets d' = message_buckets d2"
  let ?d1 = "d\<lparr>connection_requests := save_row cr_id r' (connection_requests d)\<rparr>"
  have ok1: "social_ok ?d1"
    using ok decided_request_save [OF _ r r'] by (simp add: social_ok_def)
  have "social_ok d2"
  proof (cases action)
    case Accept
    have "unique_by cv_connection_id (conversations ?d1)" using ok1 by (simp add: social_ok_def conversations_ok_def)
    then show ?thesis
    proof (rule apply_acceptD [OF _ d2 [unfolded Accept]])
      fix d3
      let ?c = "new_connection env r' (consent = Some True)"
      assume d3: "end_expired_connection r' (re_now env) ?d1 = Inr d3"
        and cs: "connections d2 = insert_row ?c (connections d3)"
        and same: "connection_requests d2 = connection_requests d3" "conversations d2 = conversations d3"
          "messages d2 = messages d3" "connection_request_buckets d2 = connection_request_buckets d3"
          "message_buckets d2 = message_buckets d3"
      note d3D = end_expired_connection_keeps [OF ok1 d3]
      have "request_ok r" using ok r by (auto simp: social_ok_def requests_ok_def list_all_iff)
      then have "connection_ok ?c" "connection_pair ?c = request_pair r'" "con_id ?c = re_new_id env 0"
        by (simp_all add: connection_ok_def request_ok_def connection_pair_def request_pair_def new_connection_def r')
      then have "connections_ok (connections d2)"
        unfolding cs using d3D fresh by (intro connections_ok_insert) (auto simp: social_ok_def)
      with d3D show ?thesis by (auto simp: social_ok_def same cs intro: conversations_ok_insert_connection)
    qed
  qed (use d2 ok1 in \<open>auto simp: apply_request_decision_def intro: social_ok_same\<close>)
  with d' show ?thesis by (auto intro: social_ok_same)
qed

text \<open>The request behind a connection that ends is no longer live.\<close>

lemma request_status_save:
  assumes r: "get_row cr_id i rs = Some r" and ok: "requests_ok rs" and "\<not> live r'"
    and f: "cr_id r' = cr_id r" "request_pair r' = request_pair r"
      "cr_requester_owner_id r' = cr_requester_owner_id r" "cr_recipient_owner_id r' = cr_recipient_owner_id r"
  shows "requests_ok (save_row cr_id r' rs)"
  using ok
proof (rule requests_ok_save)
  show "get_row cr_id (cr_id r') rs = Some r" using r f(1) by (auto dest: get_row_SomeD)
  show "request_ok r'" using ok r f by (auto simp: requests_ok_def list_all_iff request_ok_def dest: get_row_SomeD)
qed (use assms in simp_all)

lemma end_conversation_other_tables:
  "conversations d1 = conversations d \<Longrightarrow>
     conversations (end_conversation i st now d1) = conversations (end_conversation i st now d)"
  by (simp add: end_conversation_def split: option.split)

lemma remove_bodyD:
  assumes "remove_body env p i d = Inr (d', status, res)"
  obtains c where "active_connection_for_participant d i p (re_now env) = Inr c"
    and "connections d' = connections (end_connection Removed (prin_subject p) (re_now env) c d)"
    and "conversations d' = conversations (end_conversation (con_id c) Conv_Closed (re_now env) d)"
    and "connection_requests d' = (case get_row cr_id (con_request_id c) (connection_requests d) of
        None \<Rightarrow> connection_requests d
      | Some r \<Rightarrow> if cr_status r \<noteq> Accepted then connection_requests d
                  else save_row cr_id (r\<lparr>cr_status := Rejected, cr_updated_at := re_now env\<rparr>) (connection_requests d))"
    and "messages d' = messages d" "connection_request_buckets d' = connection_request_buckets d"
      "message_buckets d' = message_buckets d" "connection_blocks d' = connection_blocks d"
proof -
  from assms obtain c where c: "active_connection_for_participant d i p (re_now env) = Inr c"
    by (auto simp: remove_body_def Let_def)
  let ?r = "get_row cr_id (con_request_id c) (connection_requests d)"
  let ?d2 = "case ?r of None \<Rightarrow> end_connection Removed (prin_subject p) (re_now env) c d
     | Some r \<Rightarrow> if cr_status r \<noteq> Accepted then end_connection Removed (prin_subject p) (re_now env) c d
       else (end_connection Removed (prin_subject p) (re_now env) c d)\<lparr>connection_requests :=
         save_row cr_id (r\<lparr>cr_status := Rejected, cr_updated_at := re_now env\<rparr>)
           (connection_requests (end_connection Removed (prin_subject p) (re_now env) c d))\<rparr>"
  have "conversations ?d2 = conversations d" by (simp split: option.split)
  note vs = end_conversation_other_tables [OF this]
  from assms c have d': "d' = add_social_change_event (prin_subject p) ''connection.removed'' Connection_T (con_id c) p
      [(''status'', json_quoted ''removed'')] (re_now env) (end_conversation (con_id c) Conv_Closed (re_now env) ?d2)"
    by (auto simp: remove_body_def Let_def)
  show thesis
    by (rule that [OF c]) (simp_all add: d' vs split: option.split)
qed

lemma remove_keeps:
  assumes ok: "social_ok d" and call: "remove_body env p i d = Inr (d', status, res)"
  shows "social_ok d'"
  using call
proof (rule remove_bodyD)
  fix c
  assume c: "active_connection_for_participant d i p (re_now env) = Inr c"
    and cs: "connections d' = connections (end_connection Removed (prin_subject p) (re_now env) c d)"
    and vs: "conversations d' = conversations (end_conversation (con_id c) Conv_Closed (re_now env) d)"
    and rs: "connection_requests d' = (case get_row cr_id (con_request_id c) (connection_requests d) of
        None \<Rightarrow> connection_requests d
      | Some r \<Rightarrow> if cr_status r \<noteq> Accepted then connection_requests d
                  else save_row cr_id (r\<lparr>cr_status := Rejected, cr_updated_at := re_now env\<rparr>) (connection_requests d))"
    and rest: "messages d' = messages d" "connection_request_buckets d' = connection_request_buckets d"
      "message_buckets d' = message_buckets d"
  have rok: "requests_ok (connection_requests d)" using ok by (simp add: social_ok_def)
  have "requests_ok (connection_requests d')"
    unfolding rs using rok
    by (auto split: option.split elim!: request_status_save simp: live_def request_pair_def)
  then show ?thesis
    by (intro end_connection_keeps [OF ok active_connectionD(1) [OF c] _ _ cs vs])
      (use ok rest in \<open>simp_all add: social_ok_def\<close>)
qed

lemma block_bodyD:
  assumes "block_body env p i d = Inr (d', status, res)"
  obtains c other where "active_connection_for_participant d i p (re_now env) = Inr c"
    and "connection_counterparty c p = Inr other"
    and "connections d' = connections (end_connection Blocked (prin_subject p) (re_now env) c d)"
    and "conversations d' = conversations (end_conversation (con_id c) Conv_Blocked (re_now env) d)"
    and "connection_requests d' = (case get_row cr_id (con_request_id c) (connection_requests d) of
        None \<Rightarrow> connection_requests d
      | Some r \<Rightarrow> save_row cr_id (r\<lparr>cr_status := Request_Blocked, cr_updated_at := re_now env,
          cr_decided_at := Some (re_now env)\<rparr>) (connection_requests d))"
    and "messages d' = messages d" "connection_request_buckets d' = connection_request_buckets d"
      "message_buckets d' = message_buckets d"
      "connection_blocks d' = connection_blocks (ensure_block (re_new_id env 0) (prin_subject p) other (re_now env) d)"
proof -
  from assms obtain c other where c: "active_connection_for_participant d i p (re_now env) = Inr c"
    and other: "connection_counterparty c p = Inr other"
    by (auto simp: block_body_def Let_def)
  let ?d1 = "ensure_block (re_new_id env 0) (prin_subject p) other (re_now env) d"
  let ?e = "end_connection Blocked (prin_subject p) (re_now env) c ?d1"
  let ?d3 = "case get_row cr_id (con_request_id c) (connection_requests d) of None \<Rightarrow> ?e
     | Some r \<Rightarrow> ?e\<lparr>connection_requests := save_row cr_id (r\<lparr>cr_status := Request_Blocked, cr_updated_at := re_now env,
          cr_decided_at := Some (re_now env)\<rparr>) (connection_requests ?e)\<rparr>"
  have "conversations ?d3 = conversations d" by (simp split: option.split)
  note vs = end_conversation_other_tables [OF this]
  have cs: "connections ?e = connections (end_connection Blocked (prin_subject p) (re_now env) c d)"
    by (simp add: end_connection_def)
  from assms c other have d': "d' = add_social_change_event (prin_subject p) ''connection.blocked'' Connection_T (con_id c) p
      [(''status'', json_quoted ''blocked'')] (re_now env) (end_conversation (con_id c) Conv_Blocked (re_now env) ?d3)"
    by (auto simp: block_body_def Let_def)
  show thesis
    by (rule that [OF c other]) (simp_all add: d' vs cs split: option.split)
qed

lemma block_keeps:
  assumes ok: "social_ok d" and call: "block_body env p i d = Inr (d', status, res)"
  shows "social_ok d'"
  using call
proof (rule block_bodyD)
  fix c
  assume c: "active_connection_for_participant d i p (re_now env) = Inr c"
    and cs: "connections d' = connections (end_connection Blocked (prin_subject p) (re_now env) c d)"
    and vs: "conversations d' = conversations (end_conversation (con_id c) Conv_Blocked (re_now env) d)"
    and rs: "connection_requests d' = (case get_row cr_id (con_request_id c) (connection_requests d) of
        None \<Rightarrow> connection_requests d
      | Some r \<Rightarrow> save_row cr_id (r\<lparr>cr_status := Request_Blocked, cr_updated_at := re_now env,
          cr_decided_at := Some (re_now env)\<rparr>) (connection_requests d))"
    and rest: "messages d' = messages d" "connection_request_buckets d' = connection_request_buckets d"
      "message_buckets d' = message_buckets d"
  have rok: "requests_ok (connection_requests d)" using ok by (simp add: social_ok_def)
  have "requests_ok (connection_requests d')"
    unfolding rs using rok
    by (auto split: option.split elim!: request_status_save simp: live_def request_pair_def)
  then show ?thesis
    by (intro end_connection_keeps [OF ok active_connectionD(1) [OF c] _ _ cs vs])
      (use ok rest in \<open>simp_all add: social_ok_def\<close>)
qed

lemma create_conversation_bodyD:
  assumes "create_conversation_body env p i d = Inr (d', status, res)"
  obtains c v where "active_connection_for_participant d i p (re_now env) = Inr c" and "con_messaging_enabled c"
    and "\<forall>x \<in> set (conversations d). cv_connection_id x \<noteq> con_id c"
    and "cv_id v = re_new_id env 0" "cv_connection_id v = con_id c" "conversation_pair v = connection_pair c"
      "cv_status v = Conv_Active"
    and "conversations d' = insert_row v (conversations d)"
    and "connection_requests d' = connection_requests d" "connections d' = connections d" "messages d' = messages d"
      "connection_request_buckets d' = connection_request_buckets d" "message_buckets d' = message_buckets d"
      "connection_blocks d' = connection_blocks d"
proof -
  from assms obtain c where c: "active_connection_for_participant d i p (re_now env) = Inr c" "con_messaging_enabled c"
    "\<forall>x \<in> set (conversations d). cv_connection_id x \<noteq> con_id c"
    by (auto simp: create_conversation_body_def Let_def)
  let ?v = "\<lparr>cv_id = re_new_id env 0, cv_connection_id = con_id c, cv_pair_owner_low = con_pair_owner_low c,
      cv_pair_owner_high = con_pair_owner_high c, cv_status = Conv_Active, cv_created_by_owner_id = prin_subject p,
      cv_created_at = re_now env, cv_closed_at = None,
      cv_retention_expires_at = social_retention_expires_at (re_now env)\<rparr>"
  show thesis
    by (rule that [OF c, of ?v])
      (use assms c in \<open>auto simp: create_conversation_body_def Let_def conversation_pair_def connection_pair_def\<close>)
qed

lemma create_conversation_keeps:
  assumes ok: "social_ok d" and fresh: "re_new_id env 0 \<notin> cv_id ` set (conversations d)"
    and call: "create_conversation_body env p i d = Inr (d', status, res)"
  shows "social_ok d'"
  using call
proof (rule create_conversation_bodyD)
  fix c v
  assume c: "active_connection_for_participant d i p (re_now env) = Inr c" and en: "con_messaging_enabled c"
    and none: "\<forall>x \<in> set (conversations d). cv_connection_id x \<noteq> con_id c"
    and v: "cv_id v = re_new_id env 0" "cv_connection_id v = con_id c" "conversation_pair v = connection_pair c"
      "cv_status v = Conv_Active"
    and vs: "conversations d' = insert_row v (conversations d)"
    and rest: "connection_requests d' = connection_requests d" "connections d' = connections d" "messages d' = messages d"
      "connection_request_buckets d' = connection_request_buckets d" "message_buckets d' = message_buckets d"
  have "conversation_ok (connections d) v"
    using active_connectionD [OF c] v en by (simp add: conversation_ok_def)
  then have "conversations_ok (connections d) (insert_row v (conversations d))"
    using ok fresh none v by (auto simp: social_ok_def conversations_ok_def)
  then show ?thesis using ok by (simp add: social_ok_def vs rest messages_ok_insert_conversation)
qed

lemma send_bodyD:
  assumes "send_body env p i markdown d = Inr (d', status, res)"
  obtains v c other m buckets where "active_conversation_for_participant d i p (re_now env) = Inr (v, c)"
    and "lock_social_admission d c (Some v) (re_now env) = Inr ()"
    and "connection_counterparty c p = Inr other"
    and "consume_quota 100 (prin_subject p) (re_now env) (message_buckets d) = Some buckets"
    and "message_buckets d' = buckets"
    and "msg_conversation_id m = cv_id v" "msg_sender_owner_id m = prin_subject p" "msg_markdown m = markdown"
      "msg_id m = re_new_id env 0" "res = (Message_T, msg_id m)"
    and "messages d' = insert_row m (messages d)"
    and "notifications d' = notifications (add_notification (re_new_id env 1) other ''message.received''
       (Some (prin_subject p)) Conversation_T (cv_id v) (re_now env) d)"
    and "connection_requests d' = connection_requests d" "connections d' = connections d"
      "conversations d' = conversations d" "connection_request_buckets d' = connection_request_buckets d"
      "connection_blocks d' = connection_blocks d"
proof -
  from assms obtain v c where vc: "active_conversation_for_participant d i p (re_now env) = Inr (v, c)"
    and lock: "lock_social_admission d c (Some v) (re_now env) = Inr ()"
    by (auto simp: send_body_def Let_def)
  with assms obtain buckets where b: "consume_quota 100 (prin_subject p) (re_now env) (message_buckets d) = Some buckets"
    by (cases "consume_quota 100 (prin_subject p) (re_now env) (message_buckets d)") (auto simp: send_body_def Let_def)
  with assms vc lock obtain other where other: "connection_counterparty c p = Inr other"
    by (auto simp: send_body_def Let_def)
  let ?m = "\<lparr>msg_id = re_new_id env 0, msg_conversation_id = cv_id v, msg_sender_owner_id = prin_subject p,
     msg_sender_actor_id = audit_actor_id p, msg_sender_actor_method = prin_method p, msg_markdown = markdown,
     msg_content_sha256 = re_sha env markdown, msg_created_at = re_now env,
     msg_retention_expires_at = social_retention_expires_at (re_now env)\<rparr>"
  show thesis
    by (rule that [OF vc lock other b, of ?m])
      (use assms vc lock b other in \<open>auto simp: send_body_def Let_def add_notification_def add_social_change_event_def\<close>)
qed

lemma send_keeps:
  assumes ok: "social_ok d" and call: "send_body env p i markdown d = Inr (d', status, res)"
  shows "social_ok d'"
  using call
proof (rule send_bodyD)
  fix v c m buckets
  assume vc: "active_conversation_for_participant d i p (re_now env) = Inr (v, c)"
    and b: "consume_quota 100 (prin_subject p) (re_now env) (message_buckets d) = Some buckets" "message_buckets d' = buckets"
    and m: "msg_conversation_id m = cv_id v" "msg_sender_owner_id m = prin_subject p"
    and ms: "messages d' = insert_row m (messages d)"
    and rest: "connection_requests d' = connection_requests d" "connections d' = connections d"
      "conversations d' = conversations d" "connection_request_buckets d' = connection_request_buckets d"
  have "message_ok (conversations d) m"
    using active_conversationD [OF vc] m by (simp add: message_ok_def)
  moreover have "quota_ok 100 (message_buckets d')" using consume_quota_ok [OF b(1)] ok b(2) by (simp add: social_ok_def)
  ultimately show ?thesis using ok by (simp add: social_ok_def ms rest)
qed

lemma read_body_same:
  assumes "read_body env p i d = Inr (d', status, res)"
  shows "connection_requests d' = connection_requests d \<and> connections d' = connections d \<and>
     conversations d' = conversations d \<and> messages d' = messages d \<and> connection_blocks d' = connection_blocks d \<and>
     connection_request_buckets d' = connection_request_buckets d \<and> message_buckets d' = message_buckets d"
  using assms by (auto simp: read_body_def Let_def)

subsection \<open>Steps\<close>

inductive social_step :: "db \<Rightarrow> db \<Rightarrow> bool" where
  request: "create_connection_request env p rq handle messaging d = (d', out) \<Longrightarrow> re_conflict env = None \<Longrightarrow>
     re_new_id env 0 \<notin> cr_id ` set (connection_requests d) \<Longrightarrow> social_step d d'"
| decide: "decide_connection_request env p rq i action consent d = (d', out) \<Longrightarrow> re_conflict env = None \<Longrightarrow>
     re_new_id env 0 \<notin> con_id ` set (connections d) \<Longrightarrow> social_step d d'"
| remove: "remove_connection env p rq i d = (d', out) \<Longrightarrow> re_conflict env = None \<Longrightarrow> social_step d d'"
| block: "block_connection env p rq i d = (d', out) \<Longrightarrow> re_conflict env = None \<Longrightarrow> social_step d d'"
| converse: "create_conversation env p rq i d = (d', out) \<Longrightarrow> re_conflict env = None \<Longrightarrow>
     re_new_id env 0 \<notin> cv_id ` set (conversations d) \<Longrightarrow> social_step d d'"
| send: "send_message env p rq i markdown d = (d', out) \<Longrightarrow> re_conflict env = None \<Longrightarrow> social_step d d'"
| read: "mark_notification_read env p rq i d = (d', out) \<Longrightarrow> re_conflict env = None \<Longrightarrow> social_step d d'"
| retain: "run_once ex new_id envs tokens limit now (d, t) = Inr ((d', t'), res) \<Longrightarrow> social_step d d'"

text \<open>A step is the body of one of the routes, a run of the worker, or a refused or replayed request.\<close>

definition same_tables :: "db \<Rightarrow> db \<Rightarrow> bool" where
  "same_tables d d' \<longleftrightarrow>
     connection_requests d' = connection_requests d \<and> connections d' = connections d \<and>
     conversations d' = conversations d \<and> messages d' = messages d \<and> connection_blocks d' = connection_blocks d \<and>
     connection_request_buckets d' = connection_request_buckets d \<and> message_buckets d' = message_buckets d"

lemma route_body:
  assumes "mutating_route env auth p rq operation conditional body d = (d', r)" and "re_conflict env = None"
  obtains "same_tables d d'"
    | d1 status res where "body d = Inr (d1, status, res)" and "same_tables d1 d'"
  using assms by (cases rule: mutating_route_cases) (auto simp: same_tables_def add_receipt_def)

lemma same_tables_ok: "social_ok d \<Longrightarrow> same_tables d d' \<Longrightarrow> social_ok d'"
  unfolding same_tables_def by (elim conjE) (rule social_ok_same)

lemma route_keeps_social:
  assumes "mutating_route env auth p rq operation conditional body d = (d', r)" and "re_conflict env = None"
    and "social_ok d" and "\<And>d1 status res. body d = Inr (d1, status, res) \<Longrightarrow> social_ok d1"
  shows "social_ok d'"
  using assms(1,2) by (rule route_body) (use assms(3,4) same_tables_ok in blast)+

lemma removal_social: "removal env r d d' \<Longrightarrow> social_ok d \<Longrightarrow> social_ok d'"
proof (induction rule: removal.induct)
  case (9 i d d')
  then have "same_tables d d'"
    by (auto simp: dispose_moderation_case_def same_tables_def split: option.splits if_splits)
  with 9 show ?case by (auto intro: same_tables_ok)
qed (auto simp: social_ok_def requests_ok_def connections_ok_def conversations_ok_def message_ok_def conversation_ok_def
    get_row_delete_row list_all_iff intro: unique_delete_row unique_filter_delete split: option.splits)

interpretation social: retention_invariant social_ok
  by unfold_locales (erule (1) removal_social, (erule same_tables_ok; simp add: same_tables_def)+)

lemma social_step_keeps: "social_step d d' \<Longrightarrow> social_ok d \<Longrightarrow> social_ok d'"
proof (induction rule: social_step.induct)
  case (request env p rq handle messaging d d' out)
  then show ?case
    unfolding create_connection_request_def by (auto elim!: route_keeps_social intro: create_request_keeps)
next
  case (decide env p rq i action consent d d' out)
  then show ?case
    unfolding decide_connection_request_def
    by (auto elim!: route_keeps_social intro: decide_request_keeps split: option.splits)
next
  case (remove env p rq i d d' out)
  then show ?case unfolding remove_connection_def by (auto elim!: route_keeps_social intro: remove_keeps)
next
  case (block env p rq i d d' out)
  then show ?case unfolding block_connection_def by (auto elim!: route_keeps_social intro: block_keeps)
next
  case (converse env p rq i d d' out)
  then show ?case unfolding create_conversation_def by (auto elim!: route_keeps_social intro: create_conversation_keeps)
next
  case (send env p rq i markdown d d' out)
  then show ?case unfolding send_message_def by (auto elim!: route_keeps_social intro: send_keeps)
next
  case (read env p rq i d d' out)
  then show ?case
    unfolding mark_notification_read_def
    by (auto elim!: route_keeps_social dest!: read_body_same intro: social_ok_same)
next
  case (retain ex new_id envs tokens limit now d t d' t' res)
  then show ?case by (auto intro: social.run_once_keeps_inv)
qed

text \<open>
  C16. The social graph stays in order.  Whatever sequence of requests, decisions, removals,
  blocks, conversations, messages, reads and retention runs: there is at most one live request
  and one active connection between two people, messaging is enabled exactly when the requester
  asked for it and the recipient consented, a conversation hangs on a connection with messaging
  enabled between the same two people and is active only while the connection is, every message
  was sent by one of the two, and nobody exceeds 20 requests or 100 messages a day.
\<close>

theorem social_invariant:
  assumes "social_step\<^sup>*\<^sup>* d d'" and "social_ok d"
  shows "social_ok d'"
  using assms by (induction rule: rtranclp_induct) (auto intro: social_step_keeps)

subsection \<open>Who may send\<close>

text \<open>
  C18. A message is admitted only between consenting ends of a live connection.  When
  \<open>send_body\<close> accepts a message, the sender is one end of the conversation, conversation and
  connection are active and unexpired, the requester had asked for messaging and the recipient
  had consented, neither has blocked the other, the sender was below 100 messages for the day;
  and the only changes are that one message, one notification to the other end, the count and
  the sender's change event.
\<close>

theorem message_admission:
  assumes ok: "social_ok d" and call: "send_body env p i markdown d = Inr (d', status, res)"
  shows "\<exists>v c other m.
     get_row cv_id i (conversations d) = Some v \<and> cv_status v = Conv_Active \<and> re_now env < cv_retention_expires_at v \<and>
     get_row con_id (cv_connection_id v) (connections d) = Some c \<and> con_status c = Active \<and>
     re_now env < con_retention_expires_at c \<and> con_requested_messaging c \<and> con_recipient_messaging_consent c \<and>
     ends_are (conversation_pair v) (prin_subject p) other \<and> \<not> connection_blocked d (prin_subject p) other \<and>
     (\<forall>b. get_row bucket_key (prin_subject p, utc_date (re_now env)) (message_buckets d) = Some b \<longrightarrow> rb_count b < 100) \<and>
     messages d' = insert_row m (messages d) \<and> msg_conversation_id m = i \<and> msg_sender_owner_id m = prin_subject p \<and>
     msg_markdown m = markdown \<and>
     map ntf_recipient_owner_id (notifications d') = map ntf_recipient_owner_id (notifications d) @ [other] \<and>
     connections d' = connections d \<and> conversations d' = conversations d \<and> connection_requests d' = connection_requests d"
  using call
proof (rule send_bodyD)
  fix v c other m buckets
  assume vc: "active_conversation_for_participant d i p (re_now env) = Inr (v, c)"
    and other: "connection_counterparty c p = Inr other"
    and b: "consume_quota 100 (prin_subject p) (re_now env) (message_buckets d) = Some buckets"
    and m: "msg_conversation_id m = cv_id v" "msg_sender_owner_id m = prin_subject p" "msg_markdown m = markdown"
      "messages d' = insert_row m (messages d)"
    and n: "notifications d' = notifications (add_notification (re_new_id env 1) other ''message.received''
       (Some (prin_subject p)) Conversation_T (cv_id v) (re_now env) d)"
    and rest: "connection_requests d' = connection_requests d" "connections d' = connections d"
      "conversations d' = conversations d"
  note V = active_conversationD [OF vc]
  note C = active_connectionD [OF V(5)]
  have cok: "connection_ok c" "conversation_ok (connections d) v"
    using ok V(1) C(1)
    by (auto simp: social_ok_def connections_ok_def conversations_ok_def list_all_iff dest!: get_row_SomeD)
  then have pair: "connection_pair c = conversation_pair v" using C(1) by (simp add: conversation_ok_def)
  have "ends_are (connection_pair c) (prin_subject p) other"
    using other cok(1)
    by (auto simp: connection_counterparty_def connection_ok_def ends_are_def connection_pair_def split: if_splits)
  moreover have "\<not> connection_blocked d (prin_subject p) other" using C(5) other by auto
  moreover have "rb_count x < 100"
    if "get_row bucket_key (prin_subject p, utc_date (re_now env)) (message_buckets d) = Some x" for x
    using b that by (simp add: consume_quota_def split: if_splits)
  moreover have "map ntf_recipient_owner_id (notifications d') = map ntf_recipient_owner_id (notifications d) @ [other]"
    by (simp add: n add_notification_def insert_row_def)
  moreover have "con_requested_messaging c" "con_recipient_messaging_consent c"
    using cok(1) V(6) by (simp_all add: connection_ok_def)
  ultimately show ?thesis
    by (intro exI [of _ v] exI [of _ c] exI [of _ other] exI [of _ m]) (use V C m rest pair in simp)
qed

subsection \<open>A block is a barrier\<close>

definition request_view :: "db \<Rightarrow> (string \<times> string \<times> string) set" where
  "request_view d = (\<lambda>r. (cr_id r, request_pair r)) ` set (connection_requests d)"

definition connection_view :: "db \<Rightarrow> (string \<times> string \<times> string) set" where
  "connection_view d = (\<lambda>c. (con_id c, connection_pair c)) ` set (connections d)"

definition conversation_view :: "db \<Rightarrow> (string \<times> string \<times> string) set" where
  "conversation_view d = (\<lambda>v. (cv_id v, conversation_pair v)) ` set (conversations d)"

definition message_pair :: "db \<Rightarrow> message_row \<Rightarrow> (string \<times> string) option" where
  "message_pair d m = map_option conversation_pair (get_row cv_id (msg_conversation_id m) (conversations d))"

definition message_view :: "db \<Rightarrow> (message_row \<times> (string \<times> string) option) set" where
  "message_view d = (\<lambda>m. (m, message_pair d m)) ` set (messages d)"

text \<open>Everything the graph holds between two people.\<close>

definition traffic :: "string \<Rightarrow> string \<Rightarrow> db \<Rightarrow> resource set" where
  "traffic a b d =
     (\<lambda>x. (Connection_Request_T, fst x)) ` {x \<in> request_view d. ends_are (snd x) a b} \<union>
     (\<lambda>x. (Connection_T, fst x)) ` {x \<in> connection_view d. ends_are (snd x) a b} \<union>
     (\<lambda>x. (Conversation_T, fst x)) ` {x \<in> conversation_view d. ends_are (snd x) a b} \<union>
     (\<lambda>x. (Message_T, msg_id (fst x))) `
       {x \<in> message_view d. case snd x of None \<Rightarrow> False | Some pair \<Rightarrow> ends_are pair a b}"

definition quiet :: "string \<Rightarrow> string \<Rightarrow> db \<Rightarrow> db \<Rightarrow> bool" where
  "quiet a b d d' \<longleftrightarrow>
     (\<forall>x \<in> request_view d'. ends_are (snd x) a b \<longrightarrow> x \<in> request_view d) \<and>
     (\<forall>x \<in> connection_view d'. ends_are (snd x) a b \<longrightarrow> x \<in> connection_view d) \<and>
     (\<forall>x \<in> conversation_view d'. ends_are (snd x) a b \<longrightarrow> x \<in> conversation_view d) \<and>
     (\<forall>x \<in> message_view d'. (case snd x of None \<Rightarrow> False | Some pair \<Rightarrow> ends_are pair a b) \<longrightarrow> x \<in> message_view d)"

lemma quiet_traffic: "quiet a b d d' \<Longrightarrow> traffic a b d' \<subseteq> traffic a b d"
  unfolding quiet_def traffic_def by fast

lemma quiet_refl: "quiet a b d d"
  by (simp add: quiet_def)

lemma quiet_trans: "quiet a b d d' \<Longrightarrow> quiet a b d' d'' \<Longrightarrow> quiet a b d d''"
  unfolding quiet_def by blast

lemma quiet_same: "same_tables d d' \<Longrightarrow> quiet a b d d'"
  by (simp add: quiet_def same_tables_def request_view_def connection_view_def conversation_view_def message_view_def
      message_pair_def)

lemma ends_are_sym: "ends_are pair a b \<longleftrightarrow> ends_are pair b a"
  by (auto simp: ends_are_def)

lemma ends_are_unique: "ends_are pair a b \<Longrightarrow> ends_are pair x y \<Longrightarrow> x = a \<and> y = b \<or> x = b \<and> y = a"
  by (auto simp: ends_are_def)

lemma blocked_sym: "connection_blocked d a b \<longleftrightarrow> connection_blocked d b a"
  by (auto simp: connection_blocked_def)

lemma not_blocked_ends:
  "connection_blocked d a b \<Longrightarrow> \<not> connection_blocked d x y \<Longrightarrow> ends_are pair x y \<Longrightarrow> \<not> ends_are pair a b"
  using ends_are_unique blocked_sym by blast

lemma quietI:
  assumes "\<And>x. x \<in> set (connection_requests d') \<Longrightarrow> ends_are (request_pair x) a b \<Longrightarrow> (cr_id x, request_pair x) \<in> request_view d"
    and "\<And>x. x \<in> set (connections d') \<Longrightarrow> ends_are (connection_pair x) a b \<Longrightarrow> (con_id x, connection_pair x) \<in> connection_view d"
    and "\<And>x. x \<in> set (conversations d') \<Longrightarrow> ends_are (conversation_pair x) a b \<Longrightarrow>
        (cv_id x, conversation_pair x) \<in> conversation_view d"
    and "\<And>m pair. m \<in> set (messages d') \<Longrightarrow> message_pair d' m = Some pair \<Longrightarrow> ends_are pair a b \<Longrightarrow>
        m \<in> set (messages d) \<and> message_pair d m = Some pair"
  shows "quiet a b d d'"
  unfolding quiet_def request_view_def [of d'] connection_view_def [of d'] conversation_view_def [of d'] message_view_def
  using assms by (auto split: option.splits)

lemma view_intros [intro]:
  "r \<in> set (connection_requests d) \<Longrightarrow> (cr_id r, request_pair r) \<in> request_view d"
  "c \<in> set (connections d) \<Longrightarrow> (con_id c, connection_pair c) \<in> connection_view d"
  "v \<in> set (conversations d) \<Longrightarrow> (cv_id v, conversation_pair v) \<in> conversation_view d"
  by (auto simp: request_view_def connection_view_def conversation_view_def)

lemma request_save_view:
  "x \<in> set (save_row cr_id r' (connection_requests d)) \<Longrightarrow> r \<in> set (connection_requests d) \<Longrightarrow>
     cr_id r' = cr_id r \<Longrightarrow> cr_pair_owner_low r' = cr_pair_owner_low r \<Longrightarrow>
     cr_pair_owner_high r' = cr_pair_owner_high r \<Longrightarrow> (cr_id x, request_pair x) \<in> request_view d"
  by (auto simp: set_save_row request_view_def request_pair_def image_iff)

lemma end_connection_view:
  "x \<in> set (connections (end_connection st owner now c d)) \<Longrightarrow> c \<in> set (connections d) \<Longrightarrow>
     (con_id x, connection_pair x) \<in> connection_view d"
  by (auto simp: end_connection_def set_save_row connection_view_def connection_pair_def image_iff)

lemma end_conversation_view:
  assumes "social_ok d" and "x \<in> set (conversations (end_conversation i st now d))"
  shows "(cv_id x, conversation_pair x) \<in> conversation_view d"
proof -
  have "unique_by cv_id (conversations d)" "unique_by cv_connection_id (conversations d)"
    using assms(1) by (simp_all add: social_ok_def conversations_ok_def)
  from end_conversation_row [OF this assms(2)] show ?thesis by (auto simp: conversation_view_def image_iff)
qed

lemma end_conversation_pairs:
  assumes "social_ok d" and "conversations d' = conversations (end_conversation i st now d)"
  shows "message_pair d' m = message_pair d m"
proof (cases "row_where (\<lambda>v. cv_connection_id v = i) (conversations d)")
  case None
  with assms(2) show ?thesis by (simp add: end_conversation_def message_pair_def)
next
  case (Some v)
  then have "get_row cv_id (cv_id v) (conversations d) = Some v"
    using assms(1) by (auto simp: social_ok_def conversations_ok_def dest: row_where_SomeD intro: get_row_unique)
  with Some assms(2) show ?thesis
    by (auto simp: end_conversation_def message_pair_def get_row_save conversation_pair_def split: option.splits)
qed

text \<open>Ending a connection adds nothing between anybody.\<close>

lemma end_connection_quiet:
  assumes ok: "social_ok d" and c: "c \<in> set (connections d)"
    and cs: "connections d' = connections (end_connection st owner now c d)"
    and vs: "conversations d' = conversations (end_conversation (con_id c) vst now d)"
    and rs: "\<And>x. x \<in> set (connection_requests d') \<Longrightarrow> (cr_id x, request_pair x) \<in> request_view d"
    and ms: "messages d' = messages d"
  shows "quiet a b d d'"
  by (rule quietI)
    (use rs cs vs ms end_connection_view [OF _ c] end_conversation_view [OF ok] end_conversation_pairs [OF ok vs] in auto)

lemma remove_quiet:
  assumes ok: "social_ok d" and call: "remove_body env p i d = Inr (d', status, res)"
  shows "quiet a b d d' \<and> connection_blocks d' = connection_blocks d"
  using call
proof (rule remove_bodyD)
  fix c
  assume c: "active_connection_for_participant d i p (re_now env) = Inr c"
    and cs: "connections d' = connections (end_connection Removed (prin_subject p) (re_now env) c d)"
    and vs: "conversations d' = conversations (end_conversation (con_id c) Conv_Closed (re_now env) d)"
    and rs: "connection_requests d' = (case get_row cr_id (con_request_id c) (connection_requests d) of
        None \<Rightarrow> connection_requests d
      | Some r \<Rightarrow> if cr_status r \<noteq> Accepted then connection_requests d
                  else save_row cr_id (r\<lparr>cr_status := Rejected, cr_updated_at := re_now env\<rparr>) (connection_requests d))"
    and rest: "messages d' = messages d" "connection_blocks d' = connection_blocks d"
  have "c \<in> set (connections d)" using active_connectionD(1) [OF c] by (auto dest: get_row_SomeD)
  moreover have "(cr_id x, request_pair x) \<in> request_view d" if "x \<in> set (connection_requests d')" for x
  proof (cases "get_row cr_id (con_request_id c) (connection_requests d)")
    case None
    with that rs show ?thesis by auto
  next
    case (Some r)
    then have "r \<in> set (connection_requests d)" by (auto dest: get_row_SomeD)
    from that rs Some show ?thesis
      by (auto split: if_splits intro: request_save_view [OF _ \<open>r \<in> _\<close>])
  qed
  ultimately have "quiet a b d d'" by (intro end_connection_quiet [OF ok _ cs vs _ rest(1)])
  with rest show ?thesis by simp
qed

lemma ensure_block_blocks:
  "connection_blocked (ensure_block i x y now d) x y"
  "connection_blocked d a b \<Longrightarrow> connection_blocks d' = connection_blocks (ensure_block i x y now d) \<Longrightarrow> connection_blocked d' a b"
  by (auto simp: ensure_block_def connection_blocked_def)

lemma block_quiet:
  assumes ok: "social_ok d" and call: "block_body env p i d = Inr (d', status, res)" and "connection_blocked d a b"
  shows "quiet a b d d' \<and> connection_blocked d' a b"
  using call
proof (rule block_bodyD)
  fix c other
  assume c: "active_connection_for_participant d i p (re_now env) = Inr c"
    and cs: "connections d' = connections (end_connection Blocked (prin_subject p) (re_now env) c d)"
    and vs: "conversations d' = conversations (end_conversation (con_id c) Conv_Blocked (re_now env) d)"
    and rs: "connection_requests d' = (case get_row cr_id (con_request_id c) (connection_requests d) of
        None \<Rightarrow> connection_requests d
      | Some r \<Rightarrow> save_row cr_id (r\<lparr>cr_status := Request_Blocked, cr_updated_at := re_now env,
          cr_decided_at := Some (re_now env)\<rparr>) (connection_requests d))"
    and ms: "messages d' = messages d"
    and bs: "connection_blocks d' = connection_blocks (ensure_block (re_new_id env 0) (prin_subject p) other (re_now env) d)"
  have "c \<in> set (connections d)" using active_connectionD(1) [OF c] by (auto dest: get_row_SomeD)
  moreover have "(cr_id x, request_pair x) \<in> request_view d" if "x \<in> set (connection_requests d')" for x
  proof (cases "get_row cr_id (con_request_id c) (connection_requests d)")
    case None
    with that rs show ?thesis by auto
  next
    case (Some r)
    then have "r \<in> set (connection_requests d)" by (auto dest: get_row_SomeD)
    from that rs Some show ?thesis
      by (auto intro!: request_save_view [OF _ \<open>r \<in> _\<close>])
  qed
  ultimately have "quiet a b d d'" by (intro end_connection_quiet [OF ok _ cs vs _ ms])
  with ensure_block_blocks(2) [OF assms(3) bs] show ?thesis by simp
qed

lemma release_view:
  "x \<in> set (connection_requests (release_expired_request pair now d)) \<Longrightarrow> (cr_id x, request_pair x) \<in> request_view d"
  by (cases "row_where (\<lambda>r. live_request pair r \<and> cr_retention_expires_at r \<le> now) (connection_requests d)")
    (auto simp: release_expired_request_def dest!: row_where_SomeD intro: request_save_view)

lemma create_request_quiet:
  assumes call: "create_request_body env p handle messaging d = Inr (d', status, res)" and "connection_blocked d a b"
  shows "quiet a b d d' \<and> connection_blocks d' = connection_blocks d"
  using call
proof (rule create_request_bodyD)
  fix target mine :: document_row and pair buckets
  assume pair: "owner_pair (prin_subject p) (doc_owner_id target) = Inr pair"
    and nb: "\<not> connection_blocked d (prin_subject p) (doc_owner_id target)"
    and rs: "connection_requests d' = insert_row (new_connection_request env p mine target pair messaging)
      (connection_requests (release_expired_request pair (re_now env) d))"
    and rest: "connections d' = connections d" "conversations d' = conversations d" "messages d' = messages d"
      "connection_blocks d' = connection_blocks d"
  have "\<not> ends_are (request_pair (new_connection_request env p mine target pair messaging)) a b"
    using not_blocked_ends [OF assms(2) nb owner_pair_ends [OF pair]]
    by (simp add: new_connection_request_def request_pair_def)
  then have "quiet a b d d'"
    by (intro quietI) (use rs rest in \<open>auto simp: message_pair_def intro: release_view\<close>)
  with rest show ?thesis by simp
qed

lemma create_conversation_quiet:
  assumes ok: "social_ok d" and call: "create_conversation_body env p i d = Inr (d', status, res)"
    and "connection_blocked d a b"
  shows "quiet a b d d' \<and> connection_blocks d' = connection_blocks d"
  using call
proof (rule create_conversation_bodyD)
  fix c v
  assume c: "active_connection_for_participant d i p (re_now env) = Inr c"
    and v: "conversation_pair v = connection_pair c"
    and vs: "conversations d' = insert_row v (conversations d)"
    and rest: "connection_requests d' = connection_requests d" "connections d' = connections d" "messages d' = messages d"
      "connection_blocks d' = connection_blocks d"
  note C = active_connectionD [OF c]
  from C(5) obtain other where o: "connection_counterparty c p = Inr other" "\<not> connection_blocked d (prin_subject p) other"
    by blast
  have "connection_ok c" using ok C(1) by (auto simp: social_ok_def connections_ok_def list_all_iff dest!: get_row_SomeD)
  then have "ends_are (connection_pair c) (prin_subject p) other"
    using o(1) by (auto simp: connection_counterparty_def connection_ok_def ends_are_def connection_pair_def split: if_splits)
  then have nv: "\<not> ends_are (conversation_pair v) a b" using not_blocked_ends [OF assms(3) o(2)] v by simp
  have "message_ok (conversations d) m" if "m \<in> set (messages d)" for m
    using ok that by (simp add: social_ok_def list_all_iff)
  then have pairs: "message_pair d' m = message_pair d m" if "m \<in> set (messages d)" for m
    using that by (fastforce simp: message_pair_def vs get_row_insert message_ok_def split: option.splits)
  have "quiet a b d d'" by (intro quietI) (use vs rest nv pairs in auto)
  with rest show ?thesis by simp
qed

lemma send_quiet:
  assumes ok: "social_ok d" and call: "send_body env p i markdown d = Inr (d', status, res)" and "connection_blocked d a b"
  shows "quiet a b d d' \<and> connection_blocks d' = connection_blocks d"
  using call
proof (rule send_bodyD)
  fix v c other m buckets
  assume vc: "active_conversation_for_participant d i p (re_now env) = Inr (v, c)"
    and other: "connection_counterparty c p = Inr other"
    and m: "msg_conversation_id m = cv_id v" "messages d' = insert_row m (messages d)"
    and rest: "connection_requests d' = connection_requests d" "connections d' = connections d"
      "conversations d' = conversations d" "connection_blocks d' = connection_blocks d"
  note V = active_conversationD [OF vc]
  note C = active_connectionD [OF V(5)]
  have cok: "connection_ok c" "conversation_ok (connections d) v"
    using ok V(1) C(1)
    by (auto simp: social_ok_def connections_ok_def conversations_ok_def list_all_iff dest!: get_row_SomeD)
  then have pair: "connection_pair c = conversation_pair v" using C(1) by (simp add: conversation_ok_def)
  have "ends_are (connection_pair c) (prin_subject p) other"
    using other cok(1)
    by (auto simp: connection_counterparty_def connection_ok_def ends_are_def connection_pair_def split: if_splits)
  then have nv: "\<not> ends_are (conversation_pair v) a b"
    using not_blocked_ends [OF assms(3), of "prin_subject p" other] C(5) other pair by auto
  have pairs: "message_pair d' x = message_pair d x" for x by (simp add: message_pair_def rest)
  moreover have "message_pair d m = Some (conversation_pair v)" using V(1,2) m(1) by (simp add: message_pair_def)
  ultimately have "quiet a b d d'" by (intro quietI) (use m rest nv in auto)
  with rest show ?thesis by simp
qed

lemma end_expired_connection_quiet:
  assumes ok: "social_ok d" and call: "end_expired_connection r now d = Inr d1"
  shows "quiet a b d d1"
proof -
  have u: "unique_by cv_connection_id (conversations d)" using ok by (simp add: social_ok_def conversations_ok_def)
  let ?row = "row_where (\<lambda>c. con_pair_owner_low c = cr_pair_owner_low r \<and>
      con_pair_owner_high c = cr_pair_owner_high r \<and> con_status c = Active) (connections d)"
  show ?thesis
  proof (cases ?row)
    case None
    with call show ?thesis by (simp add: end_expired_connection_def quiet_refl)
  next
    case (Some c)
    then have c: "c \<in> set (connections d)" by (auto dest!: row_where_SomeD)
    have d1: "d1 = end_conversation (con_id c) Conv_Closed now (end_connection Removed ''system:retention'' now c d)"
      using call Some by (auto simp: end_expired_connection_eq [OF u] split: if_splits)
    have vs: "conversations d1 = conversations (end_conversation (con_id c) Conv_Closed now d)"
      unfolding d1 by (rule end_conversation_other_tables) simp
    show ?thesis
      by (rule end_connection_quiet [OF ok c _ vs, where st = Removed and owner = "''system:retention''"])
        (auto simp: d1)
  qed
qed

lemma insert_connection_quiet:
  assumes "connections d' = insert_row c (connections d)" and "\<not> ends_are (connection_pair c) a b"
    and "connection_requests d' = connection_requests d" "conversations d' = conversations d" "messages d' = messages d"
  shows "quiet a b d d'"
  by (rule quietI) (use assms in \<open>auto simp: message_pair_def\<close>)

lemma accept_quiet:
  assumes ok: "social_ok d" and d': "apply_request_decision env p Accept consent r d = Inr d'"
    and ends: "\<not> ends_are (connection_pair (new_connection env r consent)) a b"
  shows "quiet a b d d' \<and> connection_blocks d' = connection_blocks d"
proof -
  have "unique_by cv_connection_id (conversations d)" using ok by (simp add: social_ok_def conversations_ok_def)
  then show ?thesis
  proof (rule apply_acceptD [OF _ d'])
    fix d3
    assume d3: "end_expired_connection r (re_now env) d = Inr d3"
      and cs: "connections d' = insert_row (new_connection env r consent) (connections d3)"
      and same: "connection_requests d' = connection_requests d3" "conversations d' = conversations d3"
        "messages d' = messages d3" "connection_blocks d' = connection_blocks d3"
    from insert_connection_quiet [OF cs ends same(1,2,3)] end_expired_connection_quiet [OF ok d3]
    have "quiet a b d d'" by (rule quiet_trans [rotated])
    then show ?thesis using end_expired_connection_keeps [OF ok d3] same(4) by simp
  qed
qed

lemma decide_request_quiet:
  assumes ok: "social_ok d" and call: "decide_request_body env p i action consent d = Inr (d', status, res)"
    and blocked: "connection_blocked d a b"
  shows "quiet a b d d' \<and> connection_blocked d' a b"
  using call
proof (rule decide_request_bodyD)
  fix r r' d2
  assume r: "r \<in> set (connection_requests d)" "cr_status r = Pending"
    and nb: "\<not> connection_blocked d (cr_requester_owner_id r) (cr_recipient_owner_id r)"
    and r': "r' = r\<lparr>cr_status := decided_status action, cr_decision_actor_id := Some (audit_actor_id p),
       cr_decided_at := Some (re_now env), cr_updated_at := re_now env,
       cr_recipient_messaging_consent := (if action = Accept then consent else cr_recipient_messaging_consent r)\<rparr>"
    and d2: "apply_request_decision env p action (consent = Some True) r'
       (d\<lparr>connection_requests := save_row cr_id r' (connection_requests d)\<rparr>) = Inr d2"
    and d': "connection_requests d' = connection_requests d2" "connections d' = connections d2"
      "conversations d' = conversations d2" "messages d' = messages d2" "connection_blocks d' = connection_blocks d2"
      "connection_request_buckets d' = connection_request_buckets d2" "message_buckets d' = message_buckets d2"
  let ?d1 = "d\<lparr>connection_requests := save_row cr_id r' (connection_requests d)\<rparr>"
  have ok1: "social_ok ?d1" using ok decided_request_save [OF _ r r'] by (simp add: social_ok_def)
  have q1: "quiet a b d ?d1"
    by (rule quietI) (use request_save_view [OF _ r(1), of _ r'] in \<open>auto simp: r' message_pair_def\<close>)
  have "quiet a b ?d1 d2 \<and> connection_blocked d2 a b"
  proof (cases action)
    case Accept
    have "request_ok r" using ok r by (auto simp: social_ok_def requests_ok_def list_all_iff)
    then have "\<not> ends_are (connection_pair (new_connection env r' (consent = Some True))) a b"
      using not_blocked_ends [OF blocked nb, of "request_pair r"]
      by (simp add: request_ok_def connection_pair_def request_pair_def new_connection_def r')
    from accept_quiet [OF ok1 d2 [unfolded Accept] this] show ?thesis using blocked by (simp add: connection_blocked_def)
  next
    case Reject
    with d2 have "same_tables ?d1 d2" by (auto simp: apply_request_decision_def same_tables_def)
    then show ?thesis using blocked by (simp add: quiet_same) (simp add: same_tables_def connection_blocked_def)
  next
    case Block
    with d2 have e: "d2 = ensure_block (re_new_id env 0) (prin_subject p) (cr_requester_owner_id r') (re_now env) ?d1"
      by (simp add: apply_request_decision_def)
    have "quiet a b ?d1 d2" by (rule quietI) (auto simp: e message_pair_def)
    moreover have "connection_blocked ?d1 a b" using blocked by (simp add: connection_blocked_def)
    ultimately show ?thesis using ensure_block_blocks(2) e by blast
  qed
  moreover have "same_tables d2 d'" using d' by (simp add: same_tables_def)
  ultimately show ?thesis
    using q1 quiet_same [of d2 d' a b] by (auto simp: same_tables_def connection_blocked_def intro: quiet_trans)
qed

lemma removal_quiet: "removal env r d d' \<Longrightarrow> quiet a b d d' \<and> connection_blocks d' = connection_blocks d"
proof (induction rule: removal.induct)
  case (9 i d d')
  then have "same_tables d d'"
    by (auto simp: dispose_moderation_case_def same_tables_def split: option.splits if_splits)
  then show ?case by (simp add: quiet_same) (simp add: same_tables_def)
qed (simp_all, (rule quietI; auto simp: message_pair_def get_row_delete_row split: if_splits)+)

lemma quiet_same_tables:
  "quiet a b d0 d \<and> connection_blocked d a b \<Longrightarrow> same_tables d d' \<Longrightarrow> quiet a b d0 d' \<and> connection_blocked d' a b"
  using quiet_trans [OF _ quiet_same] by (auto simp: connection_blocked_def same_tables_def)

interpretation barrier: retention_invariant "\<lambda>d. quiet a b d0 d \<and> connection_blocked d a b" for a b d0
proof (unfold_locales, goal_cases)
  case (1 env r d d')
  then have "quiet a b d d' \<and> connection_blocks d' = connection_blocks d" using removal_quiet by blast
  with 1 show ?case using quiet_trans [of a b d0 d d'] by (simp add: connection_blocked_def)
qed (erule quiet_same_tables, simp add: same_tables_def)+

lemma route_quiet:
  assumes "mutating_route env auth p rq operation conditional body d = (d', r)" and "re_conflict env = None"
    and "connection_blocked d a b"
    and "\<And>d1 status res. body d = Inr (d1, status, res) \<Longrightarrow> quiet a b d d1 \<and> connection_blocked d1 a b"
  shows "quiet a b d d' \<and> connection_blocked d' a b"
  using assms(1,2)
proof (rule route_body)
  assume "same_tables d d'"
  with assms(3) show ?thesis using quiet_refl quiet_same_tables by blast
next
  fix d1 status res assume "body d = Inr (d1, status, res)" "same_tables d1 d'"
  with assms(4) show ?thesis using quiet_same_tables by blast
qed

lemma blocks_kept: "quiet a b d d' \<and> connection_blocks d' = connection_blocks d \<Longrightarrow> connection_blocked d a b \<Longrightarrow>
    quiet a b d d' \<and> connection_blocked d' a b"
  by (simp add: connection_blocked_def)

lemma social_step_quiet:
  "social_step d d' \<Longrightarrow> social_ok d \<Longrightarrow> connection_blocked d a b \<Longrightarrow> quiet a b d d' \<and> connection_blocked d' a b"
proof (induction rule: social_step.induct)
  case (request env p rq handle messaging d d' out)
  show ?case
    by (rule route_quiet [OF request(1) [unfolded create_connection_request_def] request(2) request.prems(2)])
      (use request create_request_quiet blocks_kept in blast)
next
  case (decide env p rq i action consent d d' out)
  show ?case
  proof (cases "parse_decision action")
    case None
    with decide show ?thesis by (simp add: decide_connection_request_def quiet_refl)
  next
    case (Some act)
    show ?thesis
      by (rule route_quiet [OF decide(1) [unfolded decide_connection_request_def Some option.case] decide(2) decide.prems(2)])
        (use decide decide_request_quiet in blast)
  qed
next
  case (remove env p rq i d d' out)
  show ?case
    by (rule route_quiet [OF remove(1) [unfolded remove_connection_def] remove(2) remove.prems(2)])
      (use remove remove_quiet blocks_kept in blast)
next
  case (block env p rq i d d' out)
  show ?case
    by (rule route_quiet [OF block(1) [unfolded block_connection_def] block(2) block.prems(2)])
      (use block block_quiet in blast)
next
  case (converse env p rq i d d' out)
  show ?case
    by (rule route_quiet [OF converse(1) [unfolded create_conversation_def] converse(2) converse.prems(2)])
      (use converse create_conversation_quiet blocks_kept in blast)
next
  case (send env p rq i markdown d d' out)
  show ?case
    by (rule route_quiet [OF send(1) [unfolded send_message_def] send(2) send.prems(2)])
      (use send send_quiet blocks_kept in blast)
next
  case (read env p rq i d d' out)
  show ?case
  proof (rule route_quiet [OF read(1) [unfolded mark_notification_read_def] read(2) read.prems(2)])
    fix d1 status res assume "read_body env p i d = Inr (d1, status, res)"
    then have "same_tables d d1" unfolding same_tables_def by (rule read_body_same)
    with read.prems(2) show "quiet a b d d1 \<and> connection_blocked d1 a b"
      using quiet_refl quiet_same_tables by blast
  qed
next
  case (retain ex new_id envs tokens limit now d t d' t' res)
  then show ?case using barrier.run_once_keeps_inv [of a b d d] quiet_refl by blast
qed

text \<open>
  C17. A block is a barrier in both directions.  Once one of two people has blocked the other, no
  sequence of requests, decisions, conversations, messages and retention runs creates a request,
  a connection, a conversation or a message between them, and the block itself stays.
\<close>

theorem block_is_a_barrier:
  assumes "social_step\<^sup>*\<^sup>* d d'" and "social_ok d" and "connection_blocked d a b"
  shows "traffic a b d' \<subseteq> traffic a b d \<and> connection_blocked d' a b"
proof -
  from assms have "quiet a b d d' \<and> connection_blocked d' a b \<and> social_ok d'"
  proof (induction rule: rtranclp_induct)
    case base
    then show ?case by (simp add: quiet_refl)
  next
    case (step y z)
    then show ?case using social_step_quiet social_step_keeps quiet_trans by blast
  qed
  then show ?thesis using quiet_traffic by blast
qed

text \<open>
  A connection carries exactly the consent that was given.  When the recipient accepts a
  pending request, the new connection joins the two ends of the request, lasts 365 days, and
  messaging is enabled on it exactly when the requester asked for it and the recipient's answer
  says so; the request is accepted with that answer; and accepting is possible only for the
  recipient, before the request lapses, while neither blocks the other.
\<close>

theorem accept_carries_consent:
  assumes ok: "social_ok d" and call: "decide_request_body env p i Accept consent d = Inr (d', status, res)"
    and fresh: "re_new_id env 0 \<notin> con_id ` set (connections d)"
  shows "\<exists>r c r'. get_row cr_id i (connection_requests d) = Some r \<and> cr_status r = Pending \<and>
     cr_recipient_owner_id r = prin_subject p \<and> re_now env < cr_retention_expires_at r \<and>
     \<not> connection_blocked d (cr_requester_owner_id r) (cr_recipient_owner_id r) \<and> consent \<noteq> None \<and>
     get_row con_id (re_new_id env 0) (connections d') = Some c \<and> con_status c = Active \<and>
     con_messaging_enabled c = (cr_requested_messaging r \<and> consent = Some True) \<and>
     con_retention_expires_at c = re_now env + days 365 \<and> con_request_id c = i \<and>
     ends_are (connection_pair c) (cr_requester_owner_id r) (prin_subject p) \<and>
     get_row cr_id i (connection_requests d') = Some r' \<and> cr_status r' = Accepted \<and>
     cr_recipient_messaging_consent r' = consent"
  using call
proof (rule decide_request_bodyD)
  fix r r' d2
  assume r: "r \<in> set (connection_requests d)" "cr_id r = i" "cr_status r = Pending" "cr_recipient_owner_id r = prin_subject p"
      "re_now env < cr_retention_expires_at r" "\<not> connection_blocked d (cr_requester_owner_id r) (cr_recipient_owner_id r)"
    and consent: "Accept = Accept \<longleftrightarrow> consent \<noteq> None"
    and r': "r' = r\<lparr>cr_status := decided_status Accept, cr_decision_actor_id := Some (audit_actor_id p),
       cr_decided_at := Some (re_now env), cr_updated_at := re_now env,
       cr_recipient_messaging_consent := (if Accept = Accept then consent else cr_recipient_messaging_consent r)\<rparr>"
    and d2: "apply_request_decision env p Accept (consent = Some True) r'
       (d\<lparr>connection_requests := save_row cr_id r' (connection_requests d)\<rparr>) = Inr d2"
    and d': "connection_requests d' = connection_requests d2" "connections d' = connections d2"
  let ?d1 = "d\<lparr>connection_requests := save_row cr_id r' (connection_requests d)\<rparr>"
  have u: "unique_by cr_id (connection_requests d)" "request_ok r"
    using ok r(1) by (auto simp: social_ok_def requests_ok_def list_all_iff)
  have ok1: "social_ok ?d1" using ok decided_request_save [OF _ r(1,3) r'] by (simp add: social_ok_def)
  then have "unique_by cv_connection_id (conversations ?d1)" by (simp add: social_ok_def conversations_ok_def)
  then show ?thesis
  proof (rule apply_acceptD [OF _ d2])
    fix d3
    let ?c = "new_connection env r' (consent = Some True)"
    assume d3: "end_expired_connection r' (re_now env) ?d1 = Inr d3"
      and cs: "connections d2 = insert_row ?c (connections d3)" and rs: "connection_requests d2 = connection_requests d3"
    note d3D = end_expired_connection_keeps [OF ok1 d3]
    have "re_new_id env 0 \<notin> con_id ` set (connections d3)" using d3D fresh by simp
    then have "get_row con_id (re_new_id env 0) (connections d3) = None"
      unfolding get_row_None image_iff by (intro ballI notI) (erule notE, rule bexI, erule sym)
    then have c: "get_row con_id (re_new_id env 0) (connections d') = Some ?c"
      by (simp add: d' cs get_row_insert new_connection_def)
    have "get_row cr_id i (connection_requests d) = Some r" using get_row_unique [OF u(1) r(1)] r(2) by simp
    moreover from this have "get_row cr_id i (connection_requests d') = Some r'"
      using d3D r(2) by (simp add: d' rs get_row_save r')
    ultimately show ?thesis
      using r consent c u(2)
      by (intro exI [of _ r] exI [of _ ?c] exI [of _ r'])
        (simp add: new_connection_def r' social_retention_expires_at_def request_ok_def connection_pair_def request_pair_def)
  qed
qed

subsection \<open>A concrete graph\<close>

definition soc_profile :: "string \<Rightarrow> string \<Rightarrow> document_row" where
  "soc_profile owner handle = \<lparr>doc_id = handle, doc_kind = ''profile'', doc_owner_id = owner,
     doc_public_identifier = handle, doc_visibility = ''public'', doc_current_version = 1, doc_updated_at = 0\<rparr>"

definition soc_start :: db where
  "soc_start = empty_db\<lparr>documents := [soc_profile ''o1'' ''ann'', soc_profile ''o2'' ''bob'']\<rparr>"

definition soc_bob :: principal where
  "soc_bob = sample_principal\<lparr>prin_subject := ''o2''\<rparr>"

definition the_db :: "http_error + db \<times> nat \<times> resource \<Rightarrow> db" where
  "the_db r = (case r of Inl _ \<Rightarrow> empty_db | Inr (d, _) \<Rightarrow> d)"

definition soc_requested :: db where
  "soc_requested = the_db (create_request_body sample_route sample_principal ''bob'' True soc_start)"

definition soc_connected :: db where
  "soc_connected = the_db (decide_request_body sample_route soc_bob ''n0'' Accept (Some True) soc_requested)"

definition soc_talking :: db where
  "soc_talking = the_db (create_conversation_body sample_route sample_principal ''n0'' soc_connected)"

definition soc_blocked :: db where
  "soc_blocked = the_db (block_body sample_route soc_bob ''n0'' soc_talking)"

definition ok_result :: "http_error + db \<times> nat \<times> resource \<Rightarrow> bool" where
  "ok_result r = (case r of Inl _ \<Rightarrow> False | Inr _ \<Rightarrow> True)"

lemma ok_resultE: "ok_result r \<Longrightarrow> \<exists>status res. r = Inr (the_db r, status, res)"
  by (cases r) (auto simp: ok_result_def the_db_def)

lemma soc_states_ok: "social_ok soc_start" "social_ok soc_requested" "social_ok soc_talking" "social_ok soc_blocked"
  by code_simp+

theorem accept_carries_consent_witness:
  "\<exists>c. get_row con_id ''n0'' (connections soc_connected) = Some c \<and> con_messaging_enabled c"
proof -
  have "ok_result (decide_request_body sample_route soc_bob ''n0'' Accept (Some True) soc_requested)" by code_simp
  then obtain status res where call: "decide_request_body sample_route soc_bob ''n0'' Accept (Some True) soc_requested =
      Inr (soc_connected, status, res)" unfolding soc_connected_def using ok_resultE by blast
  have fresh: "re_new_id sample_route 0 \<notin> con_id ` set (connections soc_requested)" by code_simp
  have n0: "re_new_id sample_route 0 = ''n0''"
    and rq: "map_option (\<lambda>r. cr_requested_messaging r) (get_row cr_id ''n0'' (connection_requests soc_requested)) = Some True"
    by code_simp+
  from accept_carries_consent [OF soc_states_ok(2) call fresh] rq show ?thesis unfolding n0 by auto
qed

theorem message_admission_witness:
  "let d' = the_db (send_body sample_route soc_bob ''n0'' (lit ''hi'') soc_talking)
   in map ntf_recipient_owner_id (notifications d') = map ntf_recipient_owner_id (notifications soc_talking) @ [''o1'']"
proof -
  let ?r = "send_body sample_route soc_bob ''n0'' (lit ''hi'') soc_talking"
  have "ok_result ?r" by code_simp
  then obtain status res where call: "?r = Inr (the_db ?r, status, res)" using ok_resultE by blast
  have "map_option conversation_pair (get_row cv_id ''n0'' (conversations soc_talking)) = Some (''o1'', ''o2'')"
    and "prin_subject soc_bob = ''o2''" by code_simp+
  with message_admission [OF soc_states_ok(3) call] show ?thesis by (auto simp: ends_are_def Let_def)
qed

theorem social_invariant_witness:
  "social_ok (fst (create_connection_request sample_route sample_principal (sample_request []) ''bob'' True soc_start))"
proof -
  let ?r = "create_connection_request sample_route sample_principal (sample_request []) ''bob'' True soc_start"
  have fresh: "re_new_id sample_route 0 \<notin> cr_id ` set (connection_requests soc_start)" by code_simp
  have "re_conflict sample_route = None" by (simp add: sample_route_def)
  from social_step.request [OF prod.collapse [symmetric] this fresh]
  have "social_step soc_start (fst ?r)" .
  then have "social_step\<^sup>*\<^sup>* soc_start (fst ?r)" by (rule r_into_rtranclp)
  then show ?thesis using soc_states_ok(1) by (rule social_invariant)
qed

theorem block_is_a_barrier_witness:
  "traffic ''o1'' ''o2'' (fst (create_connection_request (sample_route\<lparr>re_new_id := (\<lambda>_. ''n9'')\<rparr>) sample_principal
       (sample_request []) ''bob'' True soc_blocked)) \<subseteq> traffic ''o1'' ''o2'' soc_blocked \<and>
   (Connection_Request_T, ''n0'') \<in> traffic ''o1'' ''o2'' soc_blocked"
proof -
  let ?env = "sample_route\<lparr>re_new_id := (\<lambda>_. ''n9'')\<rparr>"
  let ?r = "create_connection_request ?env sample_principal (sample_request []) ''bob'' True soc_blocked"
  have fresh: "re_new_id ?env 0 \<notin> cr_id ` set (connection_requests soc_blocked)" by code_simp
  have "re_conflict ?env = None" by (simp add: sample_route_def)
  from social_step.request [OF prod.collapse [symmetric] this fresh]
  have "social_step soc_blocked (fst ?r)" .
  then have "social_step\<^sup>*\<^sup>* soc_blocked (fst ?r)" by (rule r_into_rtranclp)
  moreover have "connection_blocked soc_blocked ''o1'' ''o2''" by code_simp
  ultimately have "traffic ''o1'' ''o2'' (fst ?r) \<subseteq> traffic ''o1'' ''o2'' soc_blocked"
    using block_is_a_barrier soc_states_ok(4) by blast
  moreover have "(Connection_Request_T, ''n0'') \<in> traffic ''o1'' ''o2'' soc_blocked" by code_simp
  ultimately show ?thesis by blast
qed

end
