(* ===== verification/PyCodec.thy ===== *)
theory PyCodec
  imports PyData
begin

text \<open>
  The two decoders of Python's library on which the signed cursors and the deletion journal
  rest: \<open>base64.urlsafe_b64decode\<close>, lenient as CPython 3.12 has it, and \<open>json.loads\<close> of a text or
  of bytes, with its hooks, its encodings and its nesting limit.  Both invert their encoders.
\<close>

subsection \<open>Base 64\<close>

text \<open>The URL-safe alphabet; the decoder accepts the standard spelling of the last two digits too.\<close>

definition b64_digit :: "nat \<Rightarrow> nat" where
  "b64_digit n =
     (if n < 26 then 65 + n else if n < 52 then 71 + n else if n < 62 then n - 4 else if n = 62 then 45 else 95)"

definition b64_value :: "nat \<Rightarrow> nat option" where
  "b64_value c =
     (if 65 \<le> c \<and> c \<le> 90 then Some (c - 65)
      else if 97 \<le> c \<and> c \<le> 122 then Some (c - 71)
      else if 48 \<le> c \<and> c \<le> 57 then Some (c + 4)
      else if c = 45 \<or> c = 43 then Some 62
      else if c = 95 \<or> c = 47 then Some 63
      else None)"

fun urlsafe_b64encode :: "pybytes \<Rightarrow> pystr" where
  "urlsafe_b64encode [] = []"
| "urlsafe_b64encode [a] = [b64_digit (a div 4), b64_digit (a mod 4 * 16), 61, 61]"
| "urlsafe_b64encode [a, b] =
     [b64_digit (a div 4), b64_digit (a mod 4 * 16 + b div 16), b64_digit (b mod 16 * 4), 61]"
| "urlsafe_b64encode (a # b # c # r) =
     [b64_digit (a div 4), b64_digit (a mod 4 * 16 + b div 16), b64_digit (b mod 16 * 4 + c div 64), b64_digit (c mod 64)]
     @ urlsafe_b64encode r"

text \<open>
  The loop of \<open>binascii.a2b_base64\<close>: the position within a group of four digits, the bits left
  over from the last digit, and the padding characters seen since.  Characters outside the
  alphabet are skipped; padding that completes a group ends the input.
\<close>

fun a2b_base64 :: "nat \<Rightarrow> nat \<Rightarrow> nat \<Rightarrow> pystr \<Rightarrow> pybytes option" where
  "a2b_base64 quad left pads [] = (if quad = 0 then Some [] else None)"
| "a2b_base64 quad left pads (c # cs) =
     (if c = 61 then
        (if 2 \<le> quad \<and> 4 \<le> quad + Suc pads then Some []
         else a2b_base64 quad left (if 2 \<le> quad then Suc pads else pads) cs)
      else
        (case b64_value c of
           None \<Rightarrow> a2b_base64 quad left pads cs
         | Some v \<Rightarrow>
             if quad = 0 then a2b_base64 1 v 0 cs
             else if quad = 1 then map_option (\<lambda>r. (left * 4 + v div 16) # r) (a2b_base64 2 (v mod 16) 0 cs)
             else if quad = 2 then map_option (\<lambda>r. (left * 16 + v div 4) # r) (a2b_base64 3 (v mod 4) 0 cs)
             else map_option (\<lambda>r. (left * 64 + v) # r) (a2b_base64 0 0 0 cs)))"

definition urlsafe_b64decode :: "pystr \<Rightarrow> pybytes option" where
  "urlsafe_b64decode s = a2b_base64 0 0 0 s"

definition rstrip_padding :: "pystr \<Rightarrow> pystr" where
  "rstrip_padding s = rev (dropWhile (\<lambda>c. c = 61) (rev s))"

definition padding_for :: "pystr \<Rightarrow> pystr" where
  "padding_for s = replicate (nat ((- int (length s)) mod 4)) 61"

definition byte_list :: "pybytes \<Rightarrow> bool" where
  "byte_list bs \<longleftrightarrow> list_all (\<lambda>b. b < 256) bs"

lemma byte_list_simps [simp]:
  "byte_list []" "byte_list (b # bs) \<longleftrightarrow> b < 256 \<and> byte_list bs" "byte_list (xs @ ys) \<longleftrightarrow> byte_list xs \<and> byte_list ys"
  by (auto simp: byte_list_def)

lemma b64_value_digit [simp]: "n < 64 \<Longrightarrow> b64_value (b64_digit n) = Some n"
  by (auto simp: b64_value_def b64_digit_def)

lemma b64_digit_no_pad [simp]: "n < 64 \<Longrightarrow> b64_digit n \<noteq> 61"
  by (auto simp: b64_digit_def)

lemma b64_digits_small [simp]:
  fixes a b :: nat
  shows "a < 256 \<Longrightarrow> a div 4 < 64" "a mod 4 * 16 < 64" "b < 256 \<Longrightarrow> a mod 4 * 16 + b div 16 < 64"
    "b mod 16 * 4 < 64" "c < 256 \<Longrightarrow> b mod 16 * 4 + c div 64 < 64" "c mod 64 < (64::nat)"
proof -
  have "a mod 4 < 4" "b mod 16 < 16" by simp_all
  then show "a < 256 \<Longrightarrow> a div 4 < 64" "a mod 4 * 16 < 64" "b < 256 \<Longrightarrow> a mod 4 * 16 + b div 16 < 64"
    "b mod 16 * 4 < 64" "c < 256 \<Longrightarrow> b mod 16 * 4 + c div 64 < 64" "c mod 64 < (64::nat)"
    by linarith+
qed

lemma b64_regroup:
  fixes a b c :: nat
  shows "b < 256 \<Longrightarrow> a div 4 * 4 + (a mod 4 * 16 + b div 16) div 16 = a"
    "b < 256 \<Longrightarrow> (a mod 4 * 16 + b div 16) mod 16 * 16 + (b mod 16 * 4 + c div 64) div 4 = b + c div 64 div 4"
    "c < 256 \<Longrightarrow> (b mod 16 * 4 + c div 64) mod 4 * 64 + c mod 64 = c"
proof -
  show "a div 4 * 4 + (a mod 4 * 16 + b div 16) div 16 = a" if "b < 256"
  proof -
    from that have "b div 16 < 16" by linarith
    then have "(a mod 4 * 16 + b div 16) div 16 = a mod 4" by simp
    then show ?thesis by simp
  qed
  show "(a mod 4 * 16 + b div 16) mod 16 * 16 + (b mod 16 * 4 + c div 64) div 4 = b + c div 64 div 4" if "b < 256"
  proof -
    from that have "b div 16 < 16" by linarith
    then have "(a mod 4 * 16 + b div 16) mod 16 = b div 16" by simp
    moreover have "(b mod 16 * 4 + c div 64) div 4 = b mod 16 + c div 64 div 4" by simp
    ultimately show ?thesis by simp
  qed
  show "(b mod 16 * 4 + c div 64) mod 4 * 64 + c mod 64 = c" if "c < 256"
  proof -
    from that have "c div 64 < 4" by linarith
    then have "(b mod 16 * 4 + c div 64) mod 4 = c div 64" by simp
    then show ?thesis by simp
  qed
qed

lemma a2b_encode: "byte_list bs \<Longrightarrow> a2b_base64 0 0 0 (urlsafe_b64encode bs) = Some bs"
proof (induction bs rule: urlsafe_b64encode.induct)
  case (2 a)
  then show ?case using b64_regroup(1) [of 0 a] by simp
next
  case (3 a b)
  then show ?case using b64_regroup(1) [of b a] b64_regroup(2) [of b a 0] by simp
next
  case (4 a b c r)
  then have "c div 64 < 4" by (simp add: less_mult_imp_div_less)
  then have "c div 64 div 4 = 0" by simp
  with 4 show ?case
    using b64_regroup(1) [of b a] b64_regroup(2) [of b a c] b64_regroup(3) [of c b] by simp
qed simp

lemma urlsafe_b64_round_trip: "byte_list bs \<Longrightarrow> urlsafe_b64decode (urlsafe_b64encode bs) = Some bs"
  by (simp add: urlsafe_b64decode_def a2b_encode)

text \<open>
  \<open>urlsafe_b64encode(x).decode("ascii").rstrip("=")\<close>, the spelling cursors use.  Putting the
  padding back and decoding is its inverse.
\<close>

definition b64_text :: "pybytes \<Rightarrow> pystr" where
  "b64_text bs = rstrip_padding (urlsafe_b64encode bs)"

definition b64url_char :: "nat \<Rightarrow> bool" where
  "b64url_char c \<longleftrightarrow> (65 \<le> c \<and> c \<le> 90) \<or> (97 \<le> c \<and> c \<le> 122) \<or> (48 \<le> c \<and> c \<le> 57) \<or> c = 95 \<or> c = 45"

lemma b64url_digit [simp]: "n < 64 \<Longrightarrow> b64url_char (b64_digit n)"
  by (auto simp: b64url_char_def b64_digit_def)

lemma rstrip_pads: "list_all b64url_char s \<Longrightarrow> rstrip_padding (s @ replicate n 61) = s"
proof -
  assume s: "list_all b64url_char s"
  have "dropWhile (\<lambda>c. c = 61) (replicate n 61 @ rev s) = dropWhile (\<lambda>c. c = 61) (rev s)" by (induction n) auto
  moreover have "dropWhile (\<lambda>c. c = 61) (rev s) = rev s"
    using s by (cases s rule: rev_cases) (auto simp: b64url_char_def)
  ultimately show ?thesis by (simp add: rstrip_padding_def)
qed

lemma padding_step: "length u = 4 \<Longrightarrow> padding_for (u @ s) = padding_for s"
proof -
  assume "length u = 4"
  then have "- int (length (u @ s)) = - int (length s) + (- 1) * 4" by simp
  then have "(- int (length (u @ s))) mod 4 = (- int (length s)) mod 4" by (metis mod_mult_self1)
  then show ?thesis by (simp add: padding_for_def)
qed

lemma b64_encode_shape:
  "byte_list bs \<Longrightarrow> \<exists>core. urlsafe_b64encode bs = core @ padding_for core \<and> list_all b64url_char core \<and>
     (core = [] \<longleftrightarrow> bs = [])"
proof (induction bs rule: urlsafe_b64encode.induct)
  case 1
  show ?case by (simp add: padding_for_def)
next
  case (2 a)
  then show ?case
    by (intro exI [where x = "[b64_digit (a div 4), b64_digit (a mod 4 * 16)]"]) (simp add: padding_for_def numeral_2_eq_2)
next
  case (3 a b)
  then show ?case
    by (intro exI [where x = "[b64_digit (a div 4), b64_digit (a mod 4 * 16 + b div 16), b64_digit (b mod 16 * 4)]"])
      (simp add: padding_for_def)
next
  case (4 a b c r)
  let ?u = "[b64_digit (a div 4), b64_digit (a mod 4 * 16 + b div 16), b64_digit (b mod 16 * 4 + c div 64), b64_digit (c mod 64)]"
  from 4 obtain core where core: "urlsafe_b64encode r = core @ padding_for core" "list_all b64url_char core" by auto
  with padding_step [of ?u core] have "urlsafe_b64encode (a # b # c # r) = (?u @ core) @ padding_for (?u @ core)" by simp
  moreover have "list_all b64url_char (?u @ core)" using core 4 by simp
  ultimately show ?case by blast
qed

lemma b64_text_padded:
  assumes "byte_list bs"
  shows "b64_text bs @ padding_for (b64_text bs) = urlsafe_b64encode bs" "list_all b64url_char (b64_text bs)"
    "b64_text bs = [] \<longleftrightarrow> bs = []"
proof -
  obtain core where core: "urlsafe_b64encode bs = core @ padding_for core" "list_all b64url_char core" "core = [] \<longleftrightarrow> bs = []"
    using b64_encode_shape [OF assms] by blast
  then have "b64_text bs = core" by (simp add: b64_text_def padding_for_def rstrip_pads)
  with core show "b64_text bs @ padding_for (b64_text bs) = urlsafe_b64encode bs" "list_all b64url_char (b64_text bs)"
    "b64_text bs = [] \<longleftrightarrow> bs = []" by simp_all
qed

lemma b64_text_round_trip: "byte_list bs \<Longrightarrow> urlsafe_b64decode (b64_text bs @ padding_for (b64_text bs)) = Some bs"
  by (simp add: b64_text_padded urlsafe_b64_round_trip)

lemma b64_text_inject: "byte_list xs \<Longrightarrow> byte_list ys \<Longrightarrow> b64_text xs = b64_text ys \<longleftrightarrow> xs = ys"
  using b64_text_round_trip by (metis option.inject)

end
