(* ===== verification/PyJson.thy ===== *)
theory PyJson
  imports PyCodec
begin

text \<open>
  \<open>json.loads\<close> as CPython 3.12 implements it: the scanner with its nesting limit and hooks, the
  encodings it detects in \<open>bytes\<close>; and the theorem that it inverts the canonical \<open>json.dumps\<close>.
\<close>

subsection \<open>Strings\<close>

datatype json_error = Json_Invalid | Json_Recursion

type_synonym 'a parsed = "json_error + 'a \<times> pystr"

definition json_ws :: "nat \<Rightarrow> bool" where
  "json_ws c \<longleftrightarrow> c = 32 \<or> c = 9 \<or> c = 10 \<or> c = 13"

abbreviation skip_ws :: "pystr \<Rightarrow> pystr" where
  "skip_ws \<equiv> dropWhile json_ws"

definition hex_value :: "nat \<Rightarrow> nat option" where
  "hex_value c =
     (if 48 \<le> c \<and> c \<le> 57 then Some (c - 48)
      else if 97 \<le> c \<and> c \<le> 102 then Some (c - 87)
      else if 65 \<le> c \<and> c \<le> 70 then Some (c - 55)
      else None)"

fun scan_hex4 :: "pystr \<Rightarrow> (nat \<times> pystr) option" where
  "scan_hex4 (a # b # c # d # r) =
     (case (hex_value a, hex_value b, hex_value c, hex_value d) of
        (Some w, Some x, Some y, Some z) \<Rightarrow> Some (w * 4096 + x * 256 + y * 16 + z, r)
      | _ \<Rightarrow> None)"
| "scan_hex4 _ = None"

definition high_surrogate :: "nat \<Rightarrow> bool" where
  "high_surrogate c \<longleftrightarrow> 55296 \<le> c \<and> c \<le> 56319"

definition low_surrogate :: "nat \<Rightarrow> bool" where
  "low_surrogate c \<longleftrightarrow> 56320 \<le> c \<and> c \<le> 57343"

definition join_surrogates :: "nat \<Rightarrow> nat \<Rightarrow> nat" where
  "join_surrogates h l = 65536 + (h - 55296) * 1024 + (l - 56320)"

text \<open>What follows \<open>\u\<close>: four digits, and the second half of a surrogate pair when it is there.\<close>

definition scan_u :: "pystr \<Rightarrow> (nat \<times> pystr) option" where
  "scan_u s =
     (case scan_hex4 s of
        None \<Rightarrow> None
      | Some (c, r) \<Rightarrow>
          if high_surrogate c \<and> take 2 r = [92, 117] then
            (case scan_hex4 (drop 2 r) of
               None \<Rightarrow> None
             | Some (l, r') \<Rightarrow> if low_surrogate l then Some (join_surrogates c l, r') else Some (c, r))
          else Some (c, r))"

definition scan_escape :: "pystr \<Rightarrow> (nat \<times> pystr) option" where
  "scan_escape s =
     (case s of
        [] \<Rightarrow> None
      | c # r \<Rightarrow>
          if c = 34 \<or> c = 92 \<or> c = 47 then Some (c, r)
          else if c = 98 then Some (8, r)
          else if c = 102 then Some (12, r)
          else if c = 110 then Some (10, r)
          else if c = 114 then Some (13, r)
          else if c = 116 then Some (9, r)
          else if c = 117 then scan_u r
          else None)"

lemma scan_hex4_shorter: "scan_hex4 s = Some (c, r) \<Longrightarrow> length r < length s"
  by (induction s rule: scan_hex4.induct) (auto split: option.splits)

lemma scan_escape_shorter: "scan_escape s = Some (c, r) \<Longrightarrow> length r < length s"
  by (auto simp: scan_escape_def scan_u_def split: list.splits if_splits option.splits dest!: scan_hex4_shorter)

text \<open>The body of a string, after its opening quote, up to and with the closing one.\<close>

function scan_string :: "pystr \<Rightarrow> (pystr \<times> pystr) option" where
  "scan_string [] = None"
| "scan_string (c # s) =
     (if c = 34 then Some ([], s)
      else if c = 92 then
        (case scan_escape s of
           None \<Rightarrow> None
         | Some (x, r) \<Rightarrow> map_option (\<lambda>(t, r'). (x # t, r')) (scan_string r))
      else if c < 32 then None
      else map_option (\<lambda>(t, r'). (c # t, r')) (scan_string s))"
  by pat_completeness auto
termination
  by (relation "measure length") (auto dest: scan_escape_shorter)

declare scan_string.simps(2) [simp del]

subsection \<open>Numbers and constants\<close>

text \<open>
  The hooks of a call: \<open>parse_float\<close> and what \<open>json.dumps\<close> writes for its result (\<open>jh_float\<close>), the
  treatment of \<open>NaN\<close> and the infinities, and of the pairs of an object.  \<open>float\<close> arithmetic is the
  platform's, so \<open>jh_float\<close> stays a parameter.
\<close>

record json_hooks =
  jh_float :: "pystr \<Rightarrow> pystr"
  jh_constants :: bool
  jh_pairs :: "(pystr \<times> json) list \<Rightarrow> (pystr \<times> json) list option"

definition digit :: "nat \<Rightarrow> bool" where
  "digit c \<longleftrightarrow> 48 \<le> c \<and> c \<le> 57"

definition scan_integer :: "pystr \<Rightarrow> (pystr \<times> pystr) option" where
  "scan_integer s =
     (let sgn = takeWhile (\<lambda>c. c = 45) (take 1 s); r = drop (length sgn) s in
      case r of
        [] \<Rightarrow> None
      | c # cs \<Rightarrow>
          if c = 48 then Some (sgn @ [48], cs)
          else if digit c then Some (sgn @ takeWhile digit r, dropWhile digit r)
          else None)"

definition scan_fraction :: "pystr \<Rightarrow> pystr \<times> pystr" where
  "scan_fraction s =
     (case s of
        c # d # _ \<Rightarrow> if c = 46 \<and> digit d then (c # takeWhile digit (tl s), dropWhile digit (tl s)) else ([], s)
      | _ \<Rightarrow> ([], s))"

definition scan_exponent :: "pystr \<Rightarrow> pystr \<times> pystr" where
  "scan_exponent s =
     (case s of
        e # r \<Rightarrow>
          (let sgn = takeWhile (\<lambda>c. c = 43 \<or> c = 45) (take 1 r); ds = takeWhile digit (drop (length sgn) r) in
           if (e = 101 \<or> e = 69) \<and> ds \<noteq> [] then (e # sgn @ ds, drop (length sgn + length ds) r) else ([], s))
      | [] \<Rightarrow> ([], s))"

definition int_value :: "pystr \<Rightarrow> int" where
  "int_value t = (if take 1 t = [45] then - int (digits_value 0 (drop 1 t)) else int (digits_value 0 t))"

text \<open>\<open>int\<close> refuses more than 4300 digits; a sign is not a digit.\<close>

definition scan_number :: "json_hooks \<Rightarrow> pystr \<Rightarrow> json parsed" where
  "scan_number hk s =
     (case scan_integer s of
        None \<Rightarrow> Inl Json_Invalid
      | Some (whole, r) \<Rightarrow>
          (case scan_fraction r of (frac, r1) \<Rightarrow>
          (case scan_exponent r1 of (ex, r2) \<Rightarrow>
           if frac = [] \<and> ex = [] then
             (if 4300 < length (filter digit whole) then Inl Json_Invalid else Inr (JInt (int_value whole), r2))
           else Inr (JFloat (jh_float hk (whole @ frac @ ex)), r2))))"

definition strip_literal :: "string \<Rightarrow> pystr \<Rightarrow> pystr option" where
  "strip_literal w s = (if take (length w) s = lit w then Some (drop (length w) s) else None)"

definition scan_literal :: "json_hooks \<Rightarrow> pystr \<Rightarrow> json parsed option" where
  "scan_literal hk s =
     (case strip_literal ''null'' s of Some r \<Rightarrow> Some (Inr (JNull, r)) | None \<Rightarrow>
     (case strip_literal ''true'' s of Some r \<Rightarrow> Some (Inr (JBool True, r)) | None \<Rightarrow>
     (case strip_literal ''false'' s of Some r \<Rightarrow> Some (Inr (JBool False, r)) | None \<Rightarrow>
     (case strip_literal ''NaN'' s of
        Some r \<Rightarrow> Some (if jh_constants hk then Inr (JFloat (lit ''NaN''), r) else Inl Json_Invalid) | None \<Rightarrow>
     (case strip_literal ''Infinity'' s of
        Some r \<Rightarrow> Some (if jh_constants hk then Inr (JFloat (lit ''Infinity''), r) else Inl Json_Invalid) | None \<Rightarrow>
     (case strip_literal ''-Infinity'' s of
        Some r \<Rightarrow> Some (if jh_constants hk then Inr (JFloat (lit ''-Infinity''), r) else Inl Json_Invalid)
      | None \<Rightarrow> None))))))"

subsection \<open>Containers\<close>

text \<open>
  Elements and members are scanned by a loop over the text; each turn consumes a character, so
  its length is fuel enough.
\<close>

fun scan_sequence :: "nat \<Rightarrow> nat \<Rightarrow> (pystr \<Rightarrow> 'a parsed) \<Rightarrow> pystr \<Rightarrow> 'a list parsed" where
  "scan_sequence close 0 item s = Inl Json_Invalid"
| "scan_sequence close (Suc n) item s =
     and_then (item s) (\<lambda>(v, r).
       (case skip_ws r of
          [] \<Rightarrow> Inl Json_Invalid
        | c # r' \<Rightarrow>
            if c = close then Inr ([v], r')
            else if c = 44 then and_then (scan_sequence close n item (skip_ws r')) (\<lambda>(vs, t). Inr (v # vs, t))
            else Inl Json_Invalid))"

definition scan_member :: "(pystr \<Rightarrow> json parsed) \<Rightarrow> pystr \<Rightarrow> (pystr \<times> json) parsed" where
  "scan_member value s =
     (if take 1 s \<noteq> [34] then Inl Json_Invalid
      else
        (case scan_string (drop 1 s) of
           None \<Rightarrow> Inl Json_Invalid
         | Some (k, r) \<Rightarrow>
             if take 1 (skip_ws r) \<noteq> [58] then Inl Json_Invalid
             else and_then (value (skip_ws (drop 1 (skip_ws r)))) (\<lambda>(v, r'). Inr ((k, v), r'))))"

definition scan_array :: "(pystr \<Rightarrow> json parsed) \<Rightarrow> pystr \<Rightarrow> json parsed" where
  "scan_array value s =
     (let s' = skip_ws s in
      if take 1 s' = [93] then Inr (JArr [], drop 1 s')
      else and_then (scan_sequence 93 (length s') value s') (\<lambda>(vs, r). Inr (JArr vs, r)))"

definition scan_object :: "json_hooks \<Rightarrow> (pystr \<Rightarrow> json parsed) \<Rightarrow> pystr \<Rightarrow> json parsed" where
  "scan_object hk value s =
     (let s' = skip_ws s;
          built = (\<lambda>(kvs, r). case jh_pairs hk kvs of None \<Rightarrow> Inl Json_Invalid | Some o' \<Rightarrow> Inr (JObj o', r)) in
      if take 1 s' = [125] then built ([], drop 1 s')
      else and_then (scan_sequence 125 (length s') (scan_member value) s') built)"

text \<open>One value; \<open>inner\<close> scans the values nested in it, unless the nesting limit is reached.\<close>

definition scan_with :: "json_hooks \<Rightarrow> (pystr \<Rightarrow> json parsed) option \<Rightarrow> pystr \<Rightarrow> json parsed" where
  "scan_with hk inner s =
     (case s of
        [] \<Rightarrow> Inl Json_Invalid
      | c # r \<Rightarrow>
          if c = 34 then (case scan_string r of None \<Rightarrow> Inl Json_Invalid | Some (t, r') \<Rightarrow> Inr (JStr t, r'))
          else if c = 123 then (case inner of None \<Rightarrow> Inl Json_Recursion | Some value \<Rightarrow> scan_object hk value r)
          else if c = 91 then (case inner of None \<Rightarrow> Inl Json_Recursion | Some value \<Rightarrow> scan_array value r)
          else (case scan_literal hk s of Some res \<Rightarrow> res | None \<Rightarrow> scan_number hk s))"

primrec scan_once :: "json_hooks \<Rightarrow> nat \<Rightarrow> pystr \<Rightarrow> json parsed" where
  "scan_once hk 0 = scan_with hk None"
| "scan_once hk (Suc depth) = scan_with hk (Some (scan_once hk depth))"

text \<open>The rest of \<open>JSONDecoder.decode\<close>: white space around the value and nothing else.\<close>

definition json_decode :: "json_hooks \<Rightarrow> nat \<Rightarrow> pystr \<Rightarrow> json_error + json" where
  "json_decode hk limit s =
     and_then (scan_once hk limit (skip_ws s)) (\<lambda>(v, r). if skip_ws r = [] then Inr v else Inl Json_Invalid)"

subsection \<open>Bytes\<close>

text \<open>
  \<open>json.loads\<close> of \<open>bytes\<close> guesses the encoding from the first four bytes and decodes with the
  \<open>surrogatepass\<close> error handler, which lets encoded surrogates through.
\<close>

definition decode_char_pass :: "pybytes \<Rightarrow> (nat \<times> pybytes) option" where
  "decode_char_pass bs =
     (case decode_char bs of
        Some x \<Rightarrow> Some x
      | None \<Rightarrow>
          (case bs of
             b # b1 # b2 # r \<Rightarrow>
               if b = 237 \<and> 160 \<le> b1 \<and> b1 < 192 \<and> continuation b2
               then Some (53248 + (b1 - 128) * 64 + (b2 - 128), r) else None
           | _ \<Rightarrow> None))"

lemma decode_char_pass_shorter: "decode_char_pass bs = Some (c, r) \<Longrightarrow> length r < length bs"
  by (auto simp: decode_char_pass_def dest: decode_char_shorter split: option.splits list.splits if_splits)

function utf8_decode_pass :: "pybytes \<Rightarrow> pystr option" where
  "utf8_decode_pass bs =
     (if bs = [] then Some []
      else (case decode_char_pass bs of
              None \<Rightarrow> None
            | Some (c, r) \<Rightarrow> map_option (\<lambda>cs. c # cs) (utf8_decode_pass r)))"
  by pat_completeness auto
termination
  by (relation "measure length") (auto dest: decode_char_pass_shorter)

declare utf8_decode_pass.simps [simp del]

fun units16 :: "bool \<Rightarrow> pybytes \<Rightarrow> nat list option" where
  "units16 big [] = Some []"
| "units16 big [a] = None"
| "units16 big (a # b # r) = map_option (\<lambda>us. (if big then a * 256 + b else b * 256 + a) # us) (units16 big r)"

fun join16 :: "nat list \<Rightarrow> pystr" where
  "join16 (h # l # us) =
     (if high_surrogate h \<and> low_surrogate l then join_surrogates h l # join16 us else h # join16 (l # us))"
| "join16 us = us"

fun decode32 :: "bool \<Rightarrow> pybytes \<Rightarrow> pystr option" where
  "decode32 big [] = Some []"
| "decode32 big (a # b # c # d # r) =
     (let u = (if big then ((a * 256 + b) * 256 + c) * 256 + d else ((d * 256 + c) * 256 + b) * 256 + a) in
      if u < 1114112 then map_option (\<lambda>us. u # us) (decode32 big r) else None)"
| "decode32 big _ = None"

definition json_bytes_text :: "pybytes \<Rightarrow> pystr option" where
  "json_bytes_text b =
     (if take 4 b = [0, 0, 254, 255] then decode32 True (drop 4 b)
      else if take 4 b = [255, 254, 0, 0] then decode32 False (drop 4 b)
      else if take 2 b = [254, 255] then map_option join16 (units16 True (drop 2 b))
      else if take 2 b = [255, 254] then map_option join16 (units16 False (drop 2 b))
      else if take 3 b = [239, 187, 191] then utf8_decode_pass (drop 3 b)
      else
        (case b of
           b0 # b1 # b2 # b3 # _ \<Rightarrow>
             if b0 = 0 then (if b1 \<noteq> 0 then map_option join16 (units16 True b) else decode32 True b)
             else if b1 = 0 then (if b2 \<noteq> 0 \<or> b3 \<noteq> 0 then map_option join16 (units16 False b) else decode32 False b)
             else utf8_decode_pass b
         | [b0, b1] \<Rightarrow>
             if b0 = 0 then map_option join16 (units16 True b)
             else if b1 = 0 then map_option join16 (units16 False b)
             else utf8_decode_pass b
         | _ \<Rightarrow> utf8_decode_pass b))"

definition json_loads :: "json_hooks \<Rightarrow> nat \<Rightarrow> pybytes \<Rightarrow> json_error + json" where
  "json_loads hk limit b = (case json_bytes_text b of None \<Rightarrow> Inl Json_Invalid | Some s \<Rightarrow> json_decode hk limit s)"

text \<open>The default treatment of pairs, a \<open>dict\<close> in which the last value of a key wins.\<close>

fun dict_set :: "'k \<Rightarrow> 'v \<Rightarrow> ('k \<times> 'v) list \<Rightarrow> ('k \<times> 'v) list" where
  "dict_set k v [] = [(k, v)]"
| "dict_set k v ((k', v') # kvs) = (if k' = k then (k, v) # kvs else (k', v') # dict_set k v kvs)"

definition dict_of :: "('k \<times> 'v) list \<Rightarrow> ('k \<times> 'v) list" where
  "dict_of kvs = fold (\<lambda>(k, v). dict_set k v) kvs []"

lemma dict_set_new: "k \<notin> fst ` set d \<Longrightarrow> dict_set k v d = d @ [(k, v)]"
  by (induction d) auto

lemma dict_of_distinct: "distinct (map fst kvs) \<Longrightarrow> dict_of kvs = kvs"
proof -
  have "fold (\<lambda>(k, v). dict_set k v) kvs d = d @ kvs" if "distinct (map fst kvs)" "fst ` set d \<inter> fst ` set kvs = {}" for d
    using that
  proof (induction kvs arbitrary: d)
    case (Cons kv kvs)
    obtain k v where kv: "kv = (k, v)" by fastforce
    with Cons.prems have "dict_set k v d = d @ [(k, v)]" by (intro dict_set_new) auto
    moreover have "fst ` set (d @ [(k, v)]) \<inter> fst ` set kvs = {}" using Cons.prems kv by auto
    ultimately show ?case using Cons kv by simp
  qed simp
  then show "distinct (map fst kvs) \<Longrightarrow> dict_of kvs = kvs" by (simp add: dict_of_def)
qed

subsection \<open>Scanning what was written: strings\<close>

lemma hex_value_digit: "d < 16 \<Longrightarrow> hex_value (if d < 10 then 48 + d else 87 + d) = Some d"
  by (auto simp: hex_value_def)

lemma scan_hex4_digits:
  assumes "w < 16" "x < 16" "y < 16" "z < 16"
  shows "scan_hex4 ([if w < 10 then 48 + w else 87 + w, if x < 10 then 48 + x else 87 + x,
      if y < 10 then 48 + y else 87 + y, if z < 10 then 48 + z else 87 + z] @ r)
    = Some (w * 4096 + x * 256 + y * 16 + z, r)"
  using assms by (simp only: append_Cons append_Nil scan_hex4.simps hex_value_digit prod.case option.case)

lemma scan_hex4_hex4:
  assumes "c < 65536"
  shows "scan_hex4 (hex4 c @ r) = Some (c, r)"
proof -
  have "c div 4096 mod 16 = c div 4096" using assms by (intro mod_less) (simp add: less_mult_imp_div_less)
  moreover have "c div 4096 = c div 256 div 16" "c div 256 = c div 16 div 16" by (simp_all add: div_mult2_eq [symmetric])
  then have "c div 4096 * 4096 + c div 256 mod 16 * 256 + c div 16 mod 16 * 16 + c mod 16 = c"
    using div_mult_mod_eq [of "c div 256" 16] div_mult_mod_eq [of "c div 16" 16] div_mult_mod_eq [of c 16] by linarith
  ultimately have "c div 4096 mod 16 * 4096 + c div 256 mod 16 * 256 + c div 16 mod 16 * 16 + c mod 16 = c" by metis
  moreover have "scan_hex4 (hex4 c @ r) = Some (c div 4096 mod 16 * 4096 + c div 256 mod 16 * 256 + c div 16 mod 16 * 16 + c mod 16, r)"
    unfolding hex4_def Let_def by (rule scan_hex4_digits) simp_all
  ultimately show ?thesis by (simp only:)
qed

abbreviation prepend :: "nat \<Rightarrow> (pystr \<times> pystr) option \<Rightarrow> (pystr \<times> pystr) option" where
  "prepend c \<equiv> map_option (\<lambda>(u, r). (c # u, r))"

lemma scan_string_quote [simp]: "scan_string (34 # r) = Some ([], r)"
  by (simp add: scan_string.simps)

lemma scan_string_plain: "32 \<le> c \<Longrightarrow> c \<noteq> 34 \<Longrightarrow> c \<noteq> 92 \<Longrightarrow> scan_string (c # t) = prepend c (scan_string t)"
  by (simp add: scan_string.simps(2))

lemma scan_string_escape: "scan_escape s = Some (c, t) \<Longrightarrow> scan_string (92 # s) = prepend c (scan_string t)"
  by (simp add: scan_string.simps(2))

lemma scan_string_u: "c < 65536 \<Longrightarrow> \<not> high_surrogate c \<Longrightarrow> scan_string (92 # 117 # hex4 c @ t) = prepend c (scan_string t)"
  by (rule scan_string_escape) (simp add: scan_escape_def scan_u_def scan_hex4_hex4)

lemma scan_string_pair:
  assumes "65536 \<le> c" "c < 1114112"
  shows "scan_string (92 # 117 # hex4 (55296 + (c - 65536) div 1024) @ 92 # 117 # hex4 (56320 + (c - 65536) mod 1024) @ t)
    = prepend c (scan_string t)"
proof (rule scan_string_escape)
  let ?h = "(c - 65536) div 1024" and ?l = "(c - 65536) mod 1024"
  have h: "?h < 1024" using assms by (simp add: less_mult_imp_div_less)
  have l: "?l < 1024" by simp
  have "?h * 1024 + ?l = c - 65536" by simp
  then have "join_surrogates (55296 + ?h) (56320 + ?l) = c" using assms by (simp add: join_surrogates_def)
  moreover have "high_surrogate (55296 + ?h)" "low_surrogate (56320 + ?l)"
    using h l by (auto simp: high_surrogate_def low_surrogate_def simp del: mod_less_divisor)
  moreover have "55296 + ?h < 65536" "56320 + ?l < 65536" using h l by linarith+
  ultimately show "scan_escape (117 # hex4 (55296 + ?h) @ 92 # 117 # hex4 (56320 + ?l) @ t) = Some (c, t)"
    by (simp add: scan_escape_def scan_u_def scan_hex4_hex4)
qed

text \<open>
  A writer of strings: what its escape of a character promises the scanner.  Both settings of
  \<open>ensure_ascii\<close> are such writers.
\<close>

locale json_writer =
  fixes esc :: "nat \<Rightarrow> pystr"
  assumes scan_esc: "scalar_value c \<Longrightarrow> scan_string (esc c @ t) = prepend c (scan_string t)"
    and scalar_esc: "scalar_value c \<Longrightarrow> list_all scalar_value (esc c)"
begin

lemma scan_quoted: "list_all scalar_value s \<Longrightarrow> scan_string (concat (map esc s) @ 34 # r) = Some (s, r)"
  by (induction s) (simp_all add: scan_esc)

end

lemma scan_json_escape: "scan_string (json_escape c @ t) = prepend c (scan_string t)"
proof (cases "c < 32 \<or> c = 34 \<or> c = 92")
  case True
  then show ?thesis
    using scan_string_u [of c t] by (auto simp: json_escape_def high_surrogate_def intro!: scan_string_escape) (simp_all add: scan_escape_def)
next
  case False
  then show ?thesis using scan_string_plain [of c t] by (simp add: json_escape_def)
qed

lemma scalar_ascii [simp]: "c < 128 \<Longrightarrow> scalar_value c"
  by (simp add: scalar_value_def surrogate_def)

lemma scalar_hex4 [simp]: "list_all scalar_value (hex4 c)"
proof -
  have "scalar_value (if x mod 16 < 10 then 48 + x mod 16 else 87 + x mod 16)" for x :: nat
    using mod_less_divisor [of 16 x] by (intro scalar_ascii) (simp split: if_split, linarith)
  then show ?thesis unfolding hex4_def Let_def list.pred_inject(2) by (intro conjI) simp_all
qed

interpretation utf8_writer: json_writer json_escape
  by unfold_locales (rule scan_json_escape, simp add: json_escape_def)

interpretation ascii_writer: json_writer ascii_escape
proof unfold_locales
  fix c t
  assume "scalar_value c"
  then have c: "c < 1114112" "\<not> surrogate c" by (simp_all add: scalar_value_def)
  consider "c < 32 \<or> c = 34 \<or> c = 92" | "32 \<le> c" "c < 127" "c \<noteq> 34" "c \<noteq> 92" | "127 \<le> c" "c < 65536" | "65536 \<le> c" by linarith
  then show "scan_string (ascii_escape c @ t) = prepend c (scan_string t)"
  proof cases
    case 1
    then show ?thesis using scan_json_escape by (simp add: ascii_escape_def)
  next
    case 2
    then show ?thesis using scan_string_plain by (simp add: ascii_escape_def)
  next
    case 3
    with c scan_string_u [of c t] show ?thesis by (auto simp: ascii_escape_def surrogate_def high_surrogate_def)
  next
    case 4
    with c scan_string_pair [of c t] show ?thesis by (simp add: ascii_escape_def)
  qed
  show "list_all scalar_value (ascii_escape c)"
    using \<open>scalar_value c\<close> by (simp add: ascii_escape_def json_escape_def)
qed

subsection \<open>Scanning what was written: numbers\<close>

text \<open>What may follow a value in canonical text: nothing, a delimiter or the newline of a record.\<close>

definition follows :: "pystr \<Rightarrow> bool" where
  "follows r \<longleftrightarrow> r = [] \<or> hd r \<in> {10, 44, 93, 125}"

lemma digits_of_digits: "list_all digit (digits_of n)"
proof (induction n rule: digits_of.induct)
  case (1 n)
  have "digit (48 + k)" if "k < 10" for k using that by (simp add: digit_def)
  with 1 show ?case by (cases "n < 10") (simp_all add: digits_of.simps [of n])
qed

lemma digits_of_nonempty [simp]: "digits_of n \<noteq> []"
  by (subst digits_of.simps) simp

lemma digits_of_head: "0 < n \<Longrightarrow> hd (digits_of n) \<noteq> 48"
proof (induction n rule: digits_of.induct)
  case (1 n)
  show ?case
  proof (cases "n < 10")
    case True
    with 1 show ?thesis by (simp add: digits_of.simps [of n])
  next
    case False
    then have "0 < n div 10" by simp
    with 1 False show ?thesis by (simp add: digits_of.simps [of n])
  qed
qed

lemma takeWhile_digits: "list_all digit s \<Longrightarrow> follows r \<Longrightarrow> takeWhile digit (s @ r) = s"
  by (cases r) (auto simp: follows_def digit_def list_all_iff takeWhile_append)

lemma dropWhile_digits: "list_all digit s \<Longrightarrow> follows r \<Longrightarrow> dropWhile digit (s @ r) = r"
  by (cases r) (auto simp: follows_def digit_def list_all_iff dropWhile_append)

lemma scan_integer_digits:
  assumes "follows r"
  shows "scan_integer (digits_of n @ r) = Some (digits_of n, r)"
    "scan_integer (45 # digits_of n @ r) = Some (45 # digits_of n, r)"
proof -
  obtain c cs where d: "digits_of n = c # cs" by (cases "digits_of n") auto
  have c: "digit c" "list_all digit cs" using digits_of_digits [of n] by (simp_all add: d)
  have zero: "cs = []" if "c = 48"
    using that d digits_of_head [of n] by (cases "n = 0") (auto simp: digits_of.simps [of 0])
  have c45: "c \<noteq> 45" using c by (auto simp: digit_def)
  have tw: "takeWhile digit (c # cs @ r) = c # cs" "dropWhile digit (c # cs @ r) = r"
    using takeWhile_digits [of "c # cs" r] dropWhile_digits [of "c # cs" r] c assms by simp_all
  show "scan_integer (digits_of n @ r) = Some (digits_of n, r)"
    using c zero tw c45 by (auto simp: scan_integer_def d Let_def)
  show "scan_integer (45 # digits_of n @ r) = Some (45 # digits_of n, r)"
    using c zero tw c45 by (auto simp: scan_integer_def d Let_def)
qed

lemma scan_int_text:
  assumes "follows r" "length (digits_of (nat \<bar>i\<bar>)) \<le> 4300"
  shows "scan_number hk (int_text i @ r) = Inr (JInt i, r)"
proof -
  have fr: "scan_fraction r = ([], r)" "scan_exponent r = ([], r)"
    using assms(1) by (auto simp: follows_def scan_fraction_def scan_exponent_def Let_def split: list.split)
  have sc: "scan_integer (int_text i @ r) = Some (int_text i, r)"
    using scan_integer_digits [OF assms(1)] by (simp add: int_text_def)
  have "filter digit (digits_of n) = digits_of n" for n
    using digits_of_digits [of n] by (simp add: filter_id_conv list_all_iff)
  then have "length (filter digit (int_text i)) = length (digits_of (nat \<bar>i\<bar>))"
    by (auto simp: int_text_def digit_def)
  moreover have "int_value (int_text i) = i"
  proof (cases "i < 0")
    case False
    obtain c cs where d: "digits_of (nat i) = c # cs" by (cases "digits_of (nat i)") auto
    then have "c \<noteq> 45" using digits_of_digits [of "nat i"] by (auto simp: digit_def)
    with False d digits_value_digits_of [of "nat i"] show ?thesis by (simp add: int_value_def int_text_def)
  qed (simp add: int_value_def int_text_def digits_value_digits_of)
  ultimately show ?thesis using assms(2) by (simp add: scan_number_def sc fr)
qed

lemma int_text_head: "\<exists>c cs. int_text i = c # cs \<and> (c = 45 \<or> digit c) \<and> (c = 45 \<longrightarrow> (\<exists>d ds. cs = d # ds \<and> digit d))"
proof -
  obtain c cs where d: "digits_of (nat \<bar>i\<bar>) = c # cs" by (cases "digits_of (nat \<bar>i\<bar>)") auto
  then have "digit c" using digits_of_digits [of "nat \<bar>i\<bar>"] by simp
  with d show ?thesis by (auto simp: int_text_def digit_def)
qed

lemma strip_literal_head: "c \<noteq> of_char (hd w) \<Longrightarrow> w \<noteq> [] \<Longrightarrow> strip_literal w (c # s) = None"
  by (cases w) (simp_all add: strip_literal_def lit_def)

lemma scan_literal_int: "scan_literal hk (int_text i @ r) = None"
proof -
  obtain c cs where t: "int_text i = c # cs" "c = 45 \<or> digit c" "c = 45 \<longrightarrow> (\<exists>d ds. cs = d # ds \<and> digit d)"
    using int_text_head [of i] by auto
  then show ?thesis by (auto simp: scan_literal_def strip_literal_def lit_def digit_def)
qed

subsection \<open>Scanning what was written: values\<close>

text \<open>
  The values the theorem covers: no floats, integers of at most 4300 digits, strings of Unicode
  scalar values and objects without duplicate keys.
\<close>

fun fine :: "json \<Rightarrow> bool" where
  "fine (JInt i) \<longleftrightarrow> length (digits_of (nat \<bar>i\<bar>)) \<le> 4300"
| "fine (JFloat t) \<longleftrightarrow> False"
| "fine (JStr s) \<longleftrightarrow> list_all scalar_value s"
| "fine (JArr xs) \<longleftrightarrow> list_all fine xs"
| "fine (JObj kvs) \<longleftrightarrow> distinct (map fst kvs) \<and> list_all (\<lambda>kv. list_all scalar_value (fst kv) \<and> fine (snd kv)) kvs"
| "fine JNull \<longleftrightarrow> True"
| "fine (JBool b) \<longleftrightarrow> True"

fun nesting :: "json \<Rightarrow> nat" where
  "nesting (JArr xs) = Suc (fold max (map nesting xs) 0)"
| "nesting (JObj kvs) = Suc (fold max (map (\<lambda>kv. nesting (snd kv)) kvs) 0)"
| "nesting v = 0"

text \<open>Reading back sorts the keys of every object.\<close>

fun canon :: "json \<Rightarrow> json" where
  "canon (JArr xs) = JArr (map canon xs)"
| "canon (JObj kvs) = JObj (sort_key fst (map (\<lambda>kv. (fst kv, canon (snd kv))) kvs))"
| "canon v = v"

definition keeps_distinct :: "json_hooks \<Rightarrow> bool" where
  "keeps_distinct hk \<longleftrightarrow> (\<forall>kvs. distinct (map fst kvs) \<longrightarrow> jh_pairs hk kvs = Some kvs)"

lemma insort_map_snd: "insort_key fst (k, g v) (map (\<lambda>kv. (fst kv, g (snd kv))) xs)
    = map (\<lambda>kv. (fst kv, g (snd kv))) (insort_key fst (k, v) xs)"
  by (induction xs) auto

lemma sort_map_snd: "sort_key fst (map (\<lambda>kv. (fst kv, g (snd kv))) xs) = map (\<lambda>kv. (fst kv, g (snd kv))) (sort_key fst xs)"
  by (induction xs) (auto simp: insort_map_snd)

lemma le_fold_max: "x \<in> set xs \<Longrightarrow> (x::nat) \<le> fold max xs a"
proof -
  have "a \<le> fold max xs a" for a :: nat and xs by (induction xs arbitrary: a) (auto intro: order_trans max.cobounded2)
  then show "x \<in> set xs \<Longrightarrow> x \<le> fold max xs a"
    by (induction xs arbitrary: a) (auto intro: order_trans [OF max.cobounded1])
qed

lemma nesting_inner:
  "x \<in> set xs \<Longrightarrow> nesting x < nesting (JArr xs)"
  "kv \<in> set kvs \<Longrightarrow> nesting (snd kv) < nesting (JObj kvs)"
  using le_fold_max [of "nesting x" "map nesting xs" 0] le_fold_max [of "nesting (snd kv)" "map (\<lambda>kv. nesting (snd kv)) kvs" 0]
  by auto

lemma json_text_object:
  "json_text esc (JObj kvs) = 123 # comma_join (map (\<lambda>kv. quoted esc (fst kv) @ 58 # json_text esc (snd kv)) (sort_key fst kvs)) @ [125]"
  by (simp add: sort_map_snd comp_def)

lemma canon_object: "canon (JObj kvs) = JObj (map (\<lambda>kv. (fst kv, canon (snd kv))) (sort_key fst kvs))"
  by (simp add: sort_map_snd)

text \<open>Every canonical text starts with a character that is not white space.\<close>

lemma json_text_head: "fine v \<Longrightarrow> \<exists>c cs. json_text esc v = c # cs \<and> \<not> json_ws c \<and> c \<noteq> 93 \<and> c \<noteq> 125"
proof (cases v)
  case (JInt i)
  then show ?thesis using int_text_head [of i] by (auto simp: json_ws_def digit_def)
qed (auto simp: json_ws_def lit_def quoted_def)

lemma skip_ws_text: "fine v \<Longrightarrow> skip_ws (json_text esc v @ r) = json_text esc v @ r"
  using json_text_head [of v esc] by auto

lemma comma_join_longer: "(\<And>x. x \<in> set xs \<Longrightarrow> x \<noteq> []) \<Longrightarrow> length xs \<le> length (comma_join xs)"
proof (induction xs rule: comma_join.induct)
  case (3 x y xs)
  then have "length (y # xs) \<le> length (comma_join (y # xs))" by simp
  moreover have "0 < length x" using 3 by simp
  ultimately show ?case by simp
qed (auto simp: Suc_le_eq)

lemma scan_sequence_text:
  assumes "xs \<noteq> []" "length xs \<le> n" "close = 93 \<or> close = 125"
    and item: "\<And>v r. v \<in> set xs \<Longrightarrow> follows r \<Longrightarrow> item (f v @ r) = Inr (g v, r)"
    and head: "\<And>v. v \<in> set xs \<Longrightarrow> \<exists>c cs. f v = c # cs \<and> \<not> json_ws c"
  shows "scan_sequence close n item (comma_join (map f xs) @ close # r) = Inr (map g xs, r)"
  using assms
proof (induction xs arbitrary: n rule: list_nonempty_induct)
  case (single x)
  then have "follows (close # r)" "\<not> json_ws close" by (auto simp: follows_def json_ws_def)
  with single show ?case by (cases n) auto
next
  case (cons x xs)
  then obtain m where n: "n = Suc m" "length xs \<le> m" by (cases n) auto
  let ?rest = "comma_join (map f xs) @ close # r"
  have "follows (44 # ?rest)" by (simp add: follows_def)
  then have first: "item (f x @ 44 # ?rest) = Inr (g x, 44 # ?rest)" using cons.prems(3) by simp
  have more: "scan_sequence close m item ?rest = Inr (map g xs, r)"
    using cons.IH [OF n(2) cons.prems(2)] cons.prems(3,4) by simp
  obtain y ys where xs: "xs = y # ys" using cons.hyps by (cases xs) auto
  then obtain c cs where "f y = c # cs" "\<not> json_ws c" using cons.prems(4) [of y] by auto
  then have skip: "skip_ws ?rest = ?rest" by (cases ys) (simp_all add: xs)
  have "comma_join (map f (x # xs)) @ close # r = f x @ 44 # ?rest" by (simp add: xs)
  moreover have "close \<noteq> 44" "\<not> json_ws 44" using cons.prems(2) by (auto simp: json_ws_def)
  ultimately show ?case by (simp add: n first more skip)
qed

lemma scan_array_eq:
  "skip_ws s = s \<Longrightarrow> take 1 s \<noteq> [93] \<Longrightarrow> scan_sequence 93 (length s) value s = Inr (vs, r) \<Longrightarrow>
     scan_array value s = Inr (JArr vs, r)"
  by (simp add: scan_array_def)

lemma scan_object_eq:
  "skip_ws s = s \<Longrightarrow> take 1 s \<noteq> [125] \<Longrightarrow> scan_sequence 125 (length s) (scan_member value) s = Inr (kvs, r) \<Longrightarrow>
     jh_pairs hk kvs = Some kvs' \<Longrightarrow> scan_object hk value s = Inr (JObj kvs', r)"
  by (simp add: scan_object_def)

lemma utf8_decode_passes: "utf8_decode bs = Some s \<Longrightarrow> utf8_decode_pass bs = Some s"
proof (induction bs arbitrary: s rule: utf8_decode.induct)
  case (1 bs)
  show ?case
  proof (cases "bs = []")
    case True
    with 1 show ?thesis by (simp add: utf8_decode.simps utf8_decode_pass.simps)
  next
    case False
    with 1(2) obtain c r cs where d: "decode_char bs = Some (c, r)" "utf8_decode r = Some cs" "s = c # cs"
      by (subst (asm) utf8_decode.simps) (auto split: option.splits)
    with 1(1) [OF False d(1) refl d(2)] False show ?thesis
      by (subst utf8_decode_pass.simps) (simp add: decode_char_pass_def)
  qed
qed

text \<open>A property of the ASCII characters and of every escape holds of the whole text.\<close>

lemma list_all_join: "P 44 \<Longrightarrow> (\<And>x. x \<in> set xs \<Longrightarrow> list_all P x) \<Longrightarrow> list_all P (comma_join xs)"
  by (induction xs rule: comma_join.induct) auto

lemma list_all_text:
  assumes ascii: "\<And>c. c < 128 \<Longrightarrow> P c" and esc: "\<And>c. scalar_value c \<Longrightarrow> list_all P (esc c)"
  shows "fine v \<Longrightarrow> list_all P (json_text esc v)"
proof (induction v rule: canon.induct)
  case (1 xs)
  then have "list_all P (comma_join (map (json_text esc) xs))"
    by (intro list_all_join) (auto simp: list_all_iff ascii)
  then show ?case by (simp add: ascii)
next
  case (2 kvs)
  have q: "list_all P (quoted esc s)" if "list_all scalar_value s" for s
    using that by (induction s) (auto simp: quoted_def ascii esc)
  have "list_all P (quoted esc (fst kv) @ 58 # json_text esc (snd kv))" if "kv \<in> set kvs" for kv
    using 2(2) 2(1) [OF that] that q [of "fst kv"] by (cases kv) (auto simp: list_all_iff ascii)
  then have "list_all P (comma_join (map (\<lambda>kv. quoted esc (fst kv) @ 58 # json_text esc (snd kv)) (sort_key fst kvs)))"
    by (intro list_all_join) (auto simp: ascii)
  then show ?case unfolding json_text_object by (simp add: ascii)
next
  case "3_3"
  have "list_all P (digits_of n)" for n
    using digits_of_digits [of n] by (auto simp: list_all_iff digit_def ascii)
  then show ?case by (simp add: int_text_def ascii)
next
  case "3_5"
  have "list_all P (concat (map esc s))" if "list_all scalar_value s" for s using that by (induction s) (auto simp: esc)
  with "3_5" show ?case by (simp add: quoted_def ascii)
qed (auto simp: lit_def ascii)

context json_writer
begin

lemma object_text_shape: "\<exists>c cs. json_text esc (JObj kvs) @ r = 123 # c # cs \<and> (c = 34 \<or> c = 125)"
proof (cases "sort_key fst kvs")
  case (Cons y ys)
  then show ?thesis unfolding json_text_object by (cases ys) (simp_all add: quoted_def)
qed (simp add: json_text_object del: json_text.simps)

lemma scan_member_text:
  assumes k: "list_all scalar_value k" and v: "\<And>r. follows r \<Longrightarrow> value (t @ r) = Inr (w, r)" and r: "follows r"
    and head: "\<exists>c cs. t = c # cs \<and> \<not> json_ws c"
  shows "scan_member value ((quoted esc k @ 58 # t) @ r) = Inr ((k, w), r)"
proof -
  have "skip_ws (58 # t @ r) = 58 # t @ r" "skip_ws (t @ r) = t @ r" using head by (auto simp: json_ws_def)
  then show ?thesis using scan_quoted [OF k, of "58 # t @ r"] v [OF r] by (simp add: scan_member_def quoted_def)
qed

lemma scan_once_scalar:
  assumes "follows r"
  shows "scan_once hk depth (json_text esc JNull @ r) = Inr (JNull, r)"
    "scan_once hk depth (json_text esc (JBool b) @ r) = Inr (JBool b, r)"
    "length (digits_of (nat \<bar>i\<bar>)) \<le> 4300 \<Longrightarrow> scan_once hk depth (json_text esc (JInt i) @ r) = Inr (JInt i, r)"
    "list_all scalar_value s \<Longrightarrow> scan_once hk depth (json_text esc (JStr s) @ r) = Inr (JStr s, r)"
proof -
  have unroll: "scan_once hk depth = scan_with hk (case depth of 0 \<Rightarrow> None | Suc d \<Rightarrow> Some (scan_once hk d))"
    by (cases depth) simp_all
  show "scan_once hk depth (json_text esc JNull @ r) = Inr (JNull, r)"
    "scan_once hk depth (json_text esc (JBool b) @ r) = Inr (JBool b, r)"
    unfolding unroll by (simp_all add: scan_with_def lit_def scan_literal_def strip_literal_def)
  show "scan_once hk depth (json_text esc (JStr s) @ r) = Inr (JStr s, r)" if "list_all scalar_value s"
    unfolding unroll using scan_quoted [OF that, of r] by (simp add: scan_with_def quoted_def)
  show "scan_once hk depth (json_text esc (JInt i) @ r) = Inr (JInt i, r)" if "length (digits_of (nat \<bar>i\<bar>)) \<le> 4300"
  proof -
    obtain c cs where c: "int_text i = c # cs" "c = 45 \<or> digit c" using int_text_head [of i] by auto
    then have "c \<noteq> 34" "c \<noteq> 123" "c \<noteq> 91" by (auto simp: digit_def)
    then have "scan_once hk depth (int_text i @ r) =
        (case scan_literal hk (int_text i @ r) of Some res \<Rightarrow> res | None \<Rightarrow> scan_number hk (int_text i @ r))"
      unfolding unroll by (simp add: scan_with_def c split: option.split)
    then show ?thesis using scan_int_text [OF assms that] by (simp add: scan_literal_int)
  qed
qed

theorem scan_once_text:
  assumes "fine v" "nesting v \<le> depth" "follows r" "keeps_distinct hk"
  shows "scan_once hk depth (json_text esc v @ r) = Inr (canon v, r)"
  using assms
proof (induction v arbitrary: depth r rule: canon.induct)
  case (1 xs)
  then obtain d where d: "depth = Suc d" by (cases depth) auto
  have inner: "scan_once hk d (json_text esc x @ r') = Inr (canon x, r')" if "x \<in> set xs" "follows r'" for x r'
    using 1 that nesting_inner(1) [OF that(1)] by (auto simp: d list_all_iff)
  have head: "\<exists>c cs. json_text esc x = c # cs \<and> \<not> json_ws c" if "x \<in> set xs" for x
    using json_text_head [of x esc] 1 that by (auto simp: list_all_iff)
  let ?t = "comma_join (map (json_text esc) xs) @ 93 # r"
  show ?case
  proof (cases "xs = []")
    case True
    then show ?thesis by (simp add: d scan_with_def scan_array_def json_ws_def)
  next
    case False
    then obtain y ys where "xs = y # ys" by (cases xs) auto
    with head [of y] json_text_head [of y esc] 1 have t: "skip_ws ?t = ?t" "take 1 ?t \<noteq> [93]"
      by (cases ys; auto)+
    have "length xs \<le> length ?t"
      using comma_join_longer [of "map (json_text esc) xs"] head by fastforce
    then have "scan_sequence 93 (length ?t) (scan_once hk d) ?t = Inr (map canon xs, r)"
      using False inner head by (intro scan_sequence_text) auto
    then show ?thesis using scan_array_eq [OF t] by (simp add: d scan_with_def del: scan_sequence.simps)
  qed
next
  case (2 kvs)
  let ?f = "\<lambda>kv. quoted esc (fst kv) @ 58 # json_text esc (snd kv)" and ?g = "\<lambda>kv. (fst kv, canon (snd kv))"
  let ?kvs = "sort_key fst kvs"
  from 2 obtain d where d: "depth = Suc d" by (cases depth) auto
  have each: "list_all scalar_value (fst kv) \<and> fine (snd kv)" if "kv \<in> set kvs" for kv
    using 2 that by (auto simp: list_all_iff)
  have inner: "scan_once hk d (json_text esc (snd kv) @ r') = Inr (canon (snd kv), r')" if "kv \<in> set kvs" "follows r'" for kv r'
    using 2 that nesting_inner(2) [OF that(1)] each [OF that(1)] by (auto simp: d)
  have item: "scan_member (scan_once hk d) (?f kv @ r') = Inr (?g kv, r')" if "kv \<in> set ?kvs" "follows r'" for kv r'
    using that each [of kv] json_text_head [of "snd kv" esc] inner [of kv] by (intro scan_member_text) auto
  have pairs: "jh_pairs hk (map ?g ?kvs) = Some (map ?g ?kvs)"
  proof -
    have "distinct (map fst ?kvs)"
      using 2(2) by (simp add: distinct_map)
    then have "distinct (map fst (map ?g ?kvs))" by (simp add: comp_def)
    with 2 show ?thesis by (simp add: keeps_distinct_def)
  qed
  let ?t = "comma_join (map ?f ?kvs) @ 125 # r"
  have written: "json_text esc (JObj kvs) @ r = 123 # ?t" by (simp add: json_text_object del: json_text.simps)
  show ?case
  proof (cases "kvs = []")
    case True
    then show ?thesis using pairs by (simp add: written d scan_with_def scan_object_def json_ws_def canon_object)
  next
    case False
    then obtain y ys where "?kvs = y # ys" by (cases ?kvs) (auto dest: arg_cong [where f = set])
    then have t: "skip_ws ?t = ?t" "take 1 ?t \<noteq> [125]" by (cases ys; simp add: quoted_def json_ws_def)+
    have "length ?kvs \<le> length ?t"
      using comma_join_longer [of "map ?f ?kvs"] by (fastforce simp: quoted_def)
    then have "scan_sequence 125 (length ?t) (scan_member (scan_once hk d)) ?t = Inr (map ?g ?kvs, r)"
      using False item by (intro scan_sequence_text) (auto simp: quoted_def json_ws_def dest: arg_cong [where f = set])
    then show ?thesis
      unfolding written using scan_object_eq [OF t _ pairs] by (simp add: d scan_with_def canon_object del: canon.simps scan_sequence.simps)
  qed
qed (simp_all add: scan_once_scalar del: json_text.simps)

lemma scalar_text: "fine v \<Longrightarrow> list_all scalar_value (json_text esc v)"
  by (rule list_all_text) (auto simp: scalar_esc)

theorem json_decode_text:
  "fine v \<Longrightarrow> nesting v \<le> limit \<Longrightarrow> keeps_distinct hk \<Longrightarrow> r = [] \<or> r = [10] \<Longrightarrow>
     json_decode hk limit (json_text esc v @ r) = Inr (canon v)"
  using scan_once_text [of v limit r hk] skip_ws_text [of v esc r]
  by (auto simp: json_decode_def follows_def json_ws_def simp del: and_then_Inr)

text \<open>Writing an object as UTF-8 and loading the bytes gives the object back, with its keys sorted.\<close>

theorem json_loads_object:
  assumes v: "fine v" "v = JObj kvs" and lim: "nesting v \<le> limit" and hk: "keeps_distinct hk" and r: "r = [] \<or> r = [10]"
  shows "\<exists>bs. utf8_encode (json_text esc v @ r) = Some bs \<and> json_loads hk limit bs = Inr (canon v)"
proof -
  have "list_all scalar_value (json_text esc v @ r)" using scalar_text v(1) r by auto
  then obtain bs where bs: "utf8_encode (json_text esc v @ r) = Some bs" "utf8_decode bs = Some (json_text esc v @ r)"
    using utf8_round_trip by blast
  obtain c cs where t: "json_text esc v @ r = 123 # c # cs" "c = 34 \<or> c = 125"
    using object_text_shape [of kvs r] v(2) by blast
  have "\<exists>bs'. bs = 123 # c # bs'" using bs(1) t by (auto simp: encode_char_def split: if_splits)
  then have "json_bytes_text bs = utf8_decode_pass bs"
    using t(2) by (auto simp: json_bytes_text_def split: list.split)
  then show ?thesis
    using bs json_decode_text [OF v(1) lim hk r] by (auto simp: json_loads_def utf8_decode_passes)
qed

end

subsection \<open>How deep a text can nest\<close>

text \<open>
  Scanning consumes text, nests at most \<open>depth\<close> containers, and exceeds the limit only on a text
  that is longer than the limit.
\<close>

lemma fold_max_le: "fold max xs a \<le> (n::nat) \<longleftrightarrow> a \<le> n \<and> (\<forall>x \<in> set xs. x \<le> n)"
  by (induction xs arbitrary: a) auto

definition hook_restricts :: "json_hooks \<Rightarrow> bool" where
  "hook_restricts hk \<longleftrightarrow> (\<forall>kvs kvs'. jh_pairs hk kvs = Some kvs' \<longrightarrow> set kvs' \<subseteq> set kvs)"

definition scans :: "nat \<Rightarrow> (pystr \<Rightarrow> json parsed) \<Rightarrow> bool" where
  "scans depth value \<longleftrightarrow>
     (\<forall>s v r. value s = Inr (v, r) \<longrightarrow> length r < length s \<and> nesting v \<le> depth) \<and>
     (\<forall>s. value s = Inl Json_Recursion \<longrightarrow> depth < length s)"

lemma scan_string_shorter: "scan_string s = Some (t, r) \<Longrightarrow> length r < length s"
proof (induction s arbitrary: t r rule: scan_string.induct)
  case (2 c s)
  from 2(3) show ?case
    using 2(1,2) by (fastforce simp: scan_string.simps(2) split: if_splits option.splits dest: scan_escape_shorter)
qed simp

lemma skip_ws_shorter: "length (skip_ws s) \<le> length s"
  by (rule length_dropWhile_le)

lemma scan_number_shorter: "scan_number hk s = Inr (v, r) \<Longrightarrow> length r < length s \<and> nesting v = 0"
proof -
  have i: "scan_integer s = Some (w, r) \<Longrightarrow> length r < length s" for w r
  proof -
    assume a: "scan_integer s = Some (w, r)"
    let ?u = "drop (length (takeWhile (\<lambda>c. c = 45) (take 1 s))) s"
    have u: "length ?u \<le> length s" by (simp only: length_drop diff_le_self)
    from a obtain c cs where c: "?u = c # cs" "r = cs \<or> digit c \<and> r = dropWhile digit ?u"
      by (auto simp: scan_integer_def Let_def split: list.splits if_splits)
    then have "length r \<le> length cs" using length_dropWhile_le [of digit cs] by auto
    moreover have "length ?u = Suc (length cs)" using c(1) by (simp only: list.size add_0_right add_Suc_right)
    ultimately show ?thesis using u by linarith
  qed
  have f: "scan_fraction x = (a, b) \<Longrightarrow> length b \<le> length x" for x a b
    using length_dropWhile_le [of digit "tl x"] by (auto simp: scan_fraction_def split: list.splits if_splits)
  have e: "scan_exponent x = (a, b) \<Longrightarrow> length b \<le> length x" for x a b
    by (auto simp: scan_exponent_def Let_def split: list.splits if_splits)
  assume "scan_number hk s = Inr (v, r)"
  then show ?thesis
    using i f e by (fastforce simp: scan_number_def split: option.splits prod.splits if_splits dest: order_trans)
qed

lemma scan_literal_shorter:
  assumes "scan_literal hk s = Some res"
  shows "res \<noteq> Inl Json_Recursion" "res = Inr (v, r) \<Longrightarrow> length r < length s \<and> nesting v = 0"
proof -
  have l: "strip_literal w s = Some r \<Longrightarrow> w \<noteq> [] \<Longrightarrow> length r < length s" for w r
    by (cases s) (auto simp: strip_literal_def lit_def split: if_splits)
  show "res \<noteq> Inl Json_Recursion" using assms by (auto simp: scan_literal_def split: option.splits if_splits)
  show "res = Inr (v, r) \<Longrightarrow> length r < length s \<and> nesting v = 0"
    using assms by (auto simp: scan_literal_def dest: l split: option.splits if_splits)
qed

lemma scan_sequence_bounds:
  assumes item: "\<And>s v r. item s = Inr (v, r) \<Longrightarrow> length r < length s \<and> P v"
    and deep: "\<And>s. item s = Inl Json_Recursion \<Longrightarrow> depth < length s"
  shows "scan_sequence close n item s = Inr (vs, r) \<Longrightarrow> length r < length s \<and> (\<forall>v \<in> set vs. P v)"
    "scan_sequence close n item s = Inl Json_Recursion \<Longrightarrow> depth < length s"
proof -
  have tail: "length (skip_ws r') < length s" if "item s = Inr (v, r)" "skip_ws r = c # r'" for s v r c r'
  proof -
    have "length r < length s" using item [OF that(1)] by simp
    moreover have "Suc (length r') \<le> length r" using skip_ws_shorter [of r] that(2) by simp
    ultimately show ?thesis using skip_ws_shorter [of r'] by linarith
  qed
  show "scan_sequence close n item s = Inr (vs, r) \<Longrightarrow> length r < length s \<and> (\<forall>v \<in> set vs. P v)"
  proof (induction n arbitrary: s vs)
    case (Suc n)
    from Suc.prems obtain v r0 c r' where it: "item s = Inr (v, r0)" and sk: "skip_ws r0 = c # r'"
      and fin: "c = close \<and> vs = [v] \<and> r = r' \<or> (\<exists>ws. scan_sequence close n item (skip_ws r') = Inr (ws, r) \<and> vs = v # ws)"
      by (auto simp: and_then_def split: sum.splits list.splits if_splits simp del: and_then_Inr)
    have "length r' < length s" using item [OF it] skip_ws_shorter [of r0] sk by simp
    with fin item [OF it] tail [OF it sk] Suc.IH show ?case by (fastforce dest: order_less_trans)
  qed simp
  show "scan_sequence close n item s = Inl Json_Recursion \<Longrightarrow> depth < length s"
  proof (induction n arbitrary: s)
    case (Suc n)
    show ?case
    proof (cases "item s")
      case (Inl e)
      then show ?thesis using Suc.prems deep by simp
    next
      case (Inr vr)
      obtain v r0 where vr: "vr = (v, r0)" by fastforce
      with Suc.prems Inr obtain c r' where sk: "skip_ws r0 = c # r'" and rec: "scan_sequence close n item (skip_ws r') = Inl Json_Recursion"
        by (auto simp: and_then_def split: list.splits if_splits sum.splits)
      show ?thesis using Suc.IH [OF rec] tail [OF Inr [unfolded vr] sk] by simp
    qed
  qed simp
qed

lemma scan_member_bounds:
  assumes "scans depth value"
  shows "scan_member value s = Inr (kv, r) \<Longrightarrow> length r < length s \<and> nesting (snd kv) \<le> depth"
    "scan_member value s = Inl Json_Recursion \<Longrightarrow> depth < length s"
proof -
  have after: "length (skip_ws (drop 1 (skip_ws r0))) < length s" if "scan_string (drop 1 s) = Some (k, r0)" for k r0
    using scan_string_shorter [OF that] skip_ws_shorter [of r0] skip_ws_shorter [of "drop 1 (skip_ws r0)"] by simp
  show "scan_member value s = Inr (kv, r) \<Longrightarrow> length r < length s \<and> nesting (snd kv) \<le> depth"
    using assms after by (fastforce simp: scan_member_def scans_def split: if_splits option.splits dest: order_less_trans)
  show "scan_member value s = Inl Json_Recursion \<Longrightarrow> depth < length s"
    using assms after
    by (fastforce simp: scan_member_def scans_def and_then_def split: if_splits option.splits sum.splits dest: order_less_trans)
qed

lemma scan_array_bounds:
  assumes "scans depth value"
  shows "scan_array value s = Inr (v, r) \<Longrightarrow> length r \<le> length s \<and> nesting v \<le> Suc depth"
    "scan_array value s = Inl Json_Recursion \<Longrightarrow> depth < length s"
proof -
  have item: "\<And>s v r. value s = Inr (v, r) \<Longrightarrow> length r < length s \<and> nesting v \<le> depth"
    and deep: "\<And>s. value s = Inl Json_Recursion \<Longrightarrow> depth < length s" using assms by (auto simp: scans_def)
  note seq = scan_sequence_bounds [where item = "value" and P = "\<lambda>v. nesting v \<le> depth", OF item deep]
  show "scan_array value s = Inr (v, r) \<Longrightarrow> length r \<le> length s \<and> nesting v \<le> Suc depth"
    using seq(1) [of 93 "length (skip_ws s)" "skip_ws s"] skip_ws_shorter [of s]
    by (fastforce simp: scan_array_def Let_def fold_max_le split: if_splits)
  show "scan_array value s = Inl Json_Recursion \<Longrightarrow> depth < length s"
    using seq(2) [of 93 "length (skip_ws s)" "skip_ws s"] skip_ws_shorter [of s]
    by (fastforce simp: scan_array_def Let_def and_then_def split: if_splits sum.splits)
qed

lemma scan_object_bounds:
  assumes "scans depth value" "hook_restricts hk"
  shows "scan_object hk value s = Inr (v, r) \<Longrightarrow> length r \<le> length s \<and> nesting v \<le> Suc depth"
    "scan_object hk value s = Inl Json_Recursion \<Longrightarrow> depth < length s"
proof -
  note seq = scan_sequence_bounds [where item = "scan_member value" and P = "\<lambda>kv. nesting (snd kv) \<le> depth" and depth = depth,
      OF scan_member_bounds [OF assms(1)]]
  have sub: "jh_pairs hk kvs = Some kvs' \<Longrightarrow> kv \<in> set kvs' \<Longrightarrow> kv \<in> set kvs" for kvs kvs' kv
    using assms(2) by (auto simp: hook_restricts_def)
  show "scan_object hk value s = Inr (v, r) \<Longrightarrow> length r \<le> length s \<and> nesting v \<le> Suc depth"
    using seq(1) [of 125 "length (skip_ws s)" "skip_ws s"] skip_ws_shorter [of s]
    by (fastforce simp: scan_object_def Let_def fold_max_le dest: sub split: if_splits option.splits)
  show "scan_object hk value s = Inl Json_Recursion \<Longrightarrow> depth < length s"
    using seq(2) [of 125 "length (skip_ws s)" "skip_ws s"] skip_ws_shorter [of s]
    by (fastforce simp: scan_object_def Let_def and_then_def split: if_splits option.splits sum.splits)
qed

lemma scan_with_bounds:
  assumes inner: "case inner of None \<Rightarrow> depth = 0 | Some value \<Rightarrow> (\<exists>d. depth = Suc d \<and> scans d value)" and hk: "hook_restricts hk"
  shows "scans depth (scan_with hk inner)"
proof -
  have "length r < length s \<and> nesting v \<le> depth" if sc: "scan_with hk inner s = Inr (v, r)" for s v r
  proof (cases s)
    case (Cons c t)
    consider "c = 34" | "c = 123" | "c = 91" | "c \<noteq> 34" "c \<noteq> 123" "c \<noteq> 91" by blast
    then show ?thesis
    proof cases
      case 1
      then show ?thesis using sc Cons by (auto simp: scan_with_def dest!: scan_string_shorter split: option.splits)
    next
      case 2
      then obtain nested d where "inner = Some nested" "depth = Suc d" "scans d nested" "scan_object hk nested t = Inr (v, r)"
        using sc Cons inner by (auto simp: scan_with_def split: option.splits)
      then show ?thesis using scan_object_bounds(1) hk Cons by fastforce
    next
      case 3
      then obtain nested d where "inner = Some nested" "depth = Suc d" "scans d nested" "scan_array nested t = Inr (v, r)"
        using sc Cons inner by (auto simp: scan_with_def split: option.splits)
      then show ?thesis using scan_array_bounds(1) Cons by fastforce
    next
      case 4
      then show ?thesis
        using sc Cons scan_literal_shorter(2) [of hk s] scan_number_shorter [of hk s v r]
        by (auto simp: scan_with_def split: option.splits)
    qed
  qed (use sc in \<open>simp add: scan_with_def\<close>)
  moreover have "depth < length s" if sc: "scan_with hk inner s = Inl Json_Recursion" for s
  proof (cases s)
    case (Cons c t)
    have "scan_number hk s \<noteq> Inl Json_Recursion"
      by (auto simp: scan_number_def split: option.splits prod.splits if_splits)
    then consider "c = 123" | "c = 91"
      using sc Cons scan_literal_shorter(1) [of hk s] by (auto simp: scan_with_def split: option.splits if_splits)
    then show ?thesis
    proof cases
      case 1
      then show ?thesis
        using sc Cons inner hk scan_object_bounds(2) by (fastforce simp: scan_with_def split: option.splits)
    next
      case 2
      then show ?thesis
        using sc Cons inner scan_array_bounds(2) by (fastforce simp: scan_with_def split: option.splits)
    qed
  qed (use sc in \<open>simp add: scan_with_def\<close>)
  ultimately show ?thesis by (auto simp: scans_def)
qed

lemma scan_once_bounds: "hook_restricts hk \<Longrightarrow> scans depth (scan_once hk depth)"
  by (induction depth) (auto intro!: scan_with_bounds)

theorem json_decode_bounds:
  assumes "hook_restricts hk"
  shows "json_decode hk limit s = Inr v \<Longrightarrow> nesting v \<le> limit"
    "json_decode hk limit s = Inl Json_Recursion \<Longrightarrow> limit < length s"
  using scan_once_bounds [OF assms, of limit] skip_ws_shorter [of s]
  by (fastforce simp: json_decode_def scans_def and_then_def split: sum.splits prod.splits if_splits)+

end
