(* ===== verification/Cursors.thy ===== *)
theory Cursors
  imports PyJson "HOL-Library.Multiset"
begin

text \<open>
  Pagination cursors: the authenticated codec of \<open>services/cursors.py\<close> (class \<open>CursorCodec\<close>), the
  wrappers \<open>generic_cursor_encode\<close> and \<open>generic_cursor_decode\<close> of \<open>main.py\<close>, and the older signed form of
  \<open>services/taxonomy.py\<close>.  SHA-256 and HMAC are parameters (\<open>crypto\<close>).
\<close>

subsection \<open>Digests\<close>

record crypto =
  cr_sha256 :: "pybytes \<Rightarrow> pybytes"
  cr_hmac :: "pybytes \<Rightarrow> pybytes \<Rightarrow> pybytes"

text \<open>What is documented of both: a digest is 32 bytes.\<close>

definition crypto_ok :: "crypto \<Rightarrow> bool" where
  "crypto_ok cr \<longleftrightarrow>
     (\<forall>x. byte_list (cr_sha256 cr x) \<and> length (cr_sha256 cr x) = 32) \<and>
     (\<forall>k x. byte_list (cr_hmac cr k x) \<and> length (cr_hmac cr k x) = 32)"

definition hex2 :: "nat \<Rightarrow> pystr" where
  "hex2 b = (let h = (\<lambda>d. if d < 10 then 48 + d else 87 + d) in [h (b div 16), h (b mod 16)])"

definition hexdigest :: "pybytes \<Rightarrow> pystr" where
  "hexdigest bs = concat (map hex2 bs)"

subsection \<open>Canonical JSON\<close>

text \<open>
  \<open>Cursor_Error\<close> is the exception of the module; \<open>Recursion_Error\<close> and \<open>Type_Error\<close> are exceptions of
  the library that no handler of the module names, and so is \<open>Value_Error\<close> when a cursor is written.
\<close>

datatype cursor_error = Cursor_Error | Recursion_Error | Type_Error | Value_Error

text \<open>
  \<open>allow_nan=False\<close> refuses the three non-finite floats, and \<open>int.__repr__\<close> more than 4300 digits.
\<close>

definition finite_text :: "pystr \<Rightarrow> bool" where
  "finite_text t \<longleftrightarrow> t \<noteq> lit ''NaN'' \<and> t \<noteq> lit ''Infinity'' \<and> t \<noteq> lit ''-Infinity''"

fun writable :: "bool \<Rightarrow> json \<Rightarrow> bool" where
  "writable allow_nan (JFloat t) \<longleftrightarrow> allow_nan \<or> finite_text t"
| "writable allow_nan (JInt i) \<longleftrightarrow> int (length (digits_of (nat \<bar>i\<bar>))) \<le> 4300"
| "writable allow_nan (JArr xs) \<longleftrightarrow> list_all (writable allow_nan) xs"
| "writable allow_nan (JObj kvs) \<longleftrightarrow> list_all (\<lambda>kv. writable allow_nan (snd kv)) kvs"
| "writable allow_nan v \<longleftrightarrow> True"

definition canonical_json :: "nat \<Rightarrow> json \<Rightarrow> cursor_error + pybytes" where
  "canonical_json limit v =
     (if limit < nesting v then Inl Recursion_Error
      else if \<not> writable False v then Inl Cursor_Error
      else (case utf8_encode (json_dumps v) of None \<Rightarrow> Inl Cursor_Error | Some bs \<Rightarrow> Inr bs))"

subsection \<open>The codec\<close>

record cursor_codec =
  cc_crypto :: crypto
  cc_secret :: pybytes
  cc_max_length :: int
  cc_limit :: nat
  cc_float :: "pystr \<Rightarrow> pystr"

text \<open>The constructor; \<open>limit\<close> is the interpreter's nesting limit, \<open>float_text\<close> its \<open>repr(float(s))\<close>.\<close>

definition new_codec :: "crypto \<Rightarrow> nat \<Rightarrow> (pystr \<Rightarrow> pystr) \<Rightarrow> pybytes \<Rightarrow> int \<Rightarrow> cursor_codec option" where
  "new_codec cr limit float_text secret max_length =
     (if length secret < 32 \<or> max_length < 128 \<or> 2048 < max_length then None
      else Some \<lparr>cc_crypto = cr, cc_secret = secret, cc_max_length = max_length, cc_limit = limit, cc_float = float_text\<rparr>)"

definition ascii_alnum :: "nat \<Rightarrow> bool" where
  "ascii_alnum c \<longleftrightarrow> (65 \<le> c \<and> c \<le> 90) \<or> (97 \<le> c \<and> c \<le> 122) \<or> (48 \<le> c \<and> c \<le> 57)"

definition scope_ok :: "pystr \<Rightarrow> bool" where
  "scope_ok s =
     (case s of
        [] \<Rightarrow> False
      | c # cs \<Rightarrow> ascii_alnum c \<and> length cs \<le> 255 \<and> list_all (\<lambda>x. ascii_alnum x \<or> x = 58 \<or> x = 95 \<or> x = 45) cs)"

definition b64url_ok :: "pystr \<Rightarrow> bool" where
  "b64url_ok s \<longleftrightarrow> s \<noteq> [] \<and> list_all b64url_char s"

definition k_version :: pystr where "k_version = lit ''__cursor_v''"

definition k_scope :: pystr where "k_scope = lit ''__cursor_scope''"

definition k_binding :: pystr where "k_binding = lit ''__cursor_binding''"

definition k_sig :: pystr where "k_sig = lit ''__cursor_sig''"

definition meta_keys :: "pystr list" where
  "meta_keys = [k_version, k_scope, k_binding, k_sig]"

definition binding_digest :: "cursor_codec \<Rightarrow> pystr list \<Rightarrow> cursor_error + pystr" where
  "binding_digest cc bindings =
     and_then (require (length bindings \<le> 16) Cursor_Error) (\<lambda>_.
     and_then (require (list_all (\<lambda>b. length b \<le> 2048) bindings) Cursor_Error) (\<lambda>_.
     and_then (canonical_json (cc_limit cc) (JArr (map JStr bindings))) (\<lambda>bs.
     Inr (hexdigest (cr_sha256 (cc_crypto cc) bs)))))"

text \<open>The signature over an envelope, and the envelope with its signature as the client sees it.\<close>

definition signature_of :: "cursor_codec \<Rightarrow> (pystr \<times> json) list \<Rightarrow> cursor_error + pystr" where
  "signature_of cc envelope =
     and_then (canonical_json (cc_limit cc) (JObj envelope)) (\<lambda>bs.
     Inr (b64_text (cr_hmac (cc_crypto cc) (cc_secret cc) (b64_text bs))))"

definition envelope_of :: "(pystr \<times> json) list \<Rightarrow> pystr \<Rightarrow> pystr \<Rightarrow> json \<Rightarrow> (pystr \<times> json) list" where
  "envelope_of payload binding scope version =
     payload @ [(k_binding, JStr binding), (k_scope, JStr scope), (k_version, version)]"

definition seal :: "cursor_codec \<Rightarrow> (pystr \<times> json) list \<Rightarrow> cursor_error + pystr" where
  "seal cc envelope =
     and_then (signature_of cc envelope) (\<lambda>sig.
     and_then (canonical_json (cc_limit cc) (JObj (envelope @ [(k_sig, JStr sig)]))) (\<lambda>bs.
     Inr (b64_text bs)))"

definition cursor_encode :: "cursor_codec \<Rightarrow> (pystr \<times> json) list \<Rightarrow> pystr \<Rightarrow> pystr list \<Rightarrow> cursor_error + pystr" where
  "cursor_encode cc payload scope bindings =
     and_then (require (scope_ok scope) Cursor_Error) (\<lambda>_.
     and_then (require (\<not> list_ex (\<lambda>kv. fst kv \<in> set meta_keys) payload) Cursor_Error) (\<lambda>_.
     and_then (binding_digest cc bindings) (\<lambda>binding.
     and_then (seal cc (envelope_of payload binding scope (JInt 1))) (\<lambda>result.
     and_then (require (int (length result) \<le> cc_max_length cc) Cursor_Error) (\<lambda>_.
     Inr result)))))"

definition strict_hooks :: "cursor_codec \<Rightarrow> json_hooks" where
  "strict_hooks cc = \<lparr>jh_float = cc_float cc, jh_constants = False,
     jh_pairs = (\<lambda>kvs. if distinct (map fst kvs) then Some kvs else None)\<rparr>"

definition from_json_error :: "json_error + 'a \<Rightarrow> cursor_error + 'a" where
  "from_json_error r = (case r of Inl Json_Invalid \<Rightarrow> Inl Cursor_Error | Inl Json_Recursion \<Rightarrow> Inl Recursion_Error | Inr v \<Rightarrow> Inr v)"

text \<open>Python's \<open>x == 1\<close> also holds of \<open>True\<close> and of \<open>1.0\<close>.\<close>

definition equals_one :: "json \<Rightarrow> bool" where
  "equals_one v \<longleftrightarrow> v = JInt 1 \<or> v = JBool True \<or> v = JFloat (lit ''1.0'')"

definition cursor_decode :: "cursor_codec \<Rightarrow> pystr \<Rightarrow> pystr \<Rightarrow> pystr list \<Rightarrow> cursor_error + (pystr \<times> json) list" where
  "cursor_decode cc cursor scope bindings =
     and_then (require (cursor \<noteq> [] \<and> int (length cursor) \<le> cc_max_length cc \<and> scope_ok scope) Cursor_Error) (\<lambda>_.
     and_then (require (b64url_ok cursor) Cursor_Error) (\<lambda>_.
     (case urlsafe_b64decode (cursor @ padding_for cursor) of
        None \<Rightarrow> Inl Cursor_Error
      | Some raw \<Rightarrow>
          and_then (require (cursor = b64_text raw) Cursor_Error) (\<lambda>_.
          and_then (from_json_error (json_loads (strict_hooks cc) (cc_limit cc) raw)) (\<lambda>v.
          (case v of
             JObj envelope \<Rightarrow>
               and_then (require (set meta_keys \<subseteq> fst ` set envelope) Cursor_Error) (\<lambda>_.
               and_then (canonical_json (cc_limit cc) (JObj envelope)) (\<lambda>canonical_outer.
               and_then (require (raw = canonical_outer) Cursor_Error) (\<lambda>_.
               (case map_of envelope k_sig of
                  Some (JStr supplied) \<Rightarrow>
                    and_then (require (b64url_ok supplied) Cursor_Error) (\<lambda>_.
                    (let inner = filter (\<lambda>kv. fst kv \<noteq> k_sig) envelope in
                     and_then (signature_of cc inner) (\<lambda>expected.
                     and_then (require (supplied = expected) Cursor_Error) (\<lambda>_.
                     and_then (require (case map_of inner k_version of Some v \<Rightarrow> equals_one v | None \<Rightarrow> False) Cursor_Error) (\<lambda>_.
                     and_then (require (map_of inner k_scope = Some (JStr scope)) Cursor_Error) (\<lambda>_.
                     (case map_of inner k_binding of
                        Some (JStr b) \<Rightarrow>
                          and_then (binding_digest cc bindings) (\<lambda>digest.
                          and_then (require (b = digest) Cursor_Error) (\<lambda>_.
                          Inr (filter (\<lambda>kv. fst kv \<notin> set meta_keys) inner)))
                      | _ \<Rightarrow> Inl Cursor_Error)))))))
                | _ \<Rightarrow> Inl Cursor_Error))))
           | _ \<Rightarrow> Inl Cursor_Error))))))"

text \<open>
  The wrappers of \<open>main.py\<close>: the scope of a cursor is given or is the \<open>"scope"\<close> of the payload, and
  a cursor that is refused is answered with status 400.
\<close>

definition generic_cursor_encode ::
    "cursor_codec \<Rightarrow> (pystr \<times> json) list \<Rightarrow> pystr option \<Rightarrow> pystr list \<Rightarrow> cursor_error + pystr" where
  "generic_cursor_encode cc payload scope bindings =
     (case scope of
        Some s \<Rightarrow> cursor_encode cc payload s bindings
      | None \<Rightarrow>
          (case map_of payload (lit ''scope'') of
             Some (JStr s) \<Rightarrow> cursor_encode cc payload s bindings
           | _ \<Rightarrow> Inl Cursor_Error))"

definition http_status :: "cursor_error \<Rightarrow> nat" where
  "http_status e = (if e = Cursor_Error then 400 else 500)"

definition generic_cursor_decode ::
    "cursor_codec \<Rightarrow> pystr \<Rightarrow> pystr \<Rightarrow> pystr list \<Rightarrow> nat + (pystr \<times> json) list" where
  "generic_cursor_decode cc cursor scope bindings =
     (case cursor_decode cc cursor scope bindings of Inl e \<Rightarrow> Inl (http_status e) | Inr p \<Rightarrow> Inr p)"

subsection \<open>The signed cursors of the taxonomy\<close>

text \<open>\<open>json.dumps(payload, separators=(",", ":"), sort_keys=True)\<close>; its text is ASCII.\<close>

definition dumps_ascii :: "nat \<Rightarrow> json \<Rightarrow> cursor_error + pystr" where
  "dumps_ascii limit v =
     (if limit < nesting v then Inl Recursion_Error
      else if \<not> writable True v then Inl Value_Error
      else Inr (json_dumps_ascii v))"

definition sign_text :: "cursor_codec \<Rightarrow> pystr \<Rightarrow> pystr" where
  "sign_text cc encoded = b64_text (cr_hmac (cc_crypto cc) (cc_secret cc) encoded)"

definition taxonomy_cursor_encode :: "cursor_codec \<Rightarrow> (pystr \<times> json) list \<Rightarrow> cursor_error + pystr" where
  "taxonomy_cursor_encode cc payload =
     and_then (dumps_ascii (cc_limit cc) (JObj payload)) (\<lambda>t.
     (let encoded = b64_text t in Inr (encoded @ [46] @ sign_text cc encoded)))"

text \<open>\<open>cursor.rsplit(".", 1)\<close>, and its failure to unpack when there is no dot.\<close>

definition rsplit_dot :: "pystr \<Rightarrow> (pystr \<times> pystr) option" where
  "rsplit_dot s =
     (if 46 \<in> set s
      then Some (rev (tl (dropWhile (\<lambda>c. c \<noteq> 46) (rev s))), rev (takeWhile (\<lambda>c. c \<noteq> 46) (rev s)))
      else None)"

definition is_ascii :: "pystr \<Rightarrow> bool" where
  "is_ascii s \<longleftrightarrow> list_all (\<lambda>c. c < 128) s"

definition default_hooks :: "cursor_codec \<Rightarrow> json_hooks" where
  "default_hooks cc = \<lparr>jh_float = cc_float cc, jh_constants = True, jh_pairs = (\<lambda>kvs. Some (dict_of kvs))\<rparr>"

text \<open>
  \<open>hmac.compare_digest\<close> of two strings raises \<open>TypeError\<close> when one of them is not ASCII, which the
  handler of this function does not catch.
\<close>

definition taxonomy_cursor_decode :: "cursor_codec \<Rightarrow> pystr \<Rightarrow> cursor_error + (pystr \<times> json) list" where
  "taxonomy_cursor_decode cc cursor =
     and_then (require (strip cursor \<noteq> [] \<and> length cursor \<le> 2048) Cursor_Error) (\<lambda>_.
     (case rsplit_dot cursor of
        None \<Rightarrow> Inl Cursor_Error
      | Some (encoded, supplied) \<Rightarrow>
          and_then (require (is_ascii encoded) Cursor_Error) (\<lambda>_.
          and_then (require (is_ascii supplied) Type_Error) (\<lambda>_.
          and_then (require (supplied = sign_text cc encoded) Cursor_Error) (\<lambda>_.
          (case urlsafe_b64decode (encoded @ padding_for encoded) of
             None \<Rightarrow> Inl Cursor_Error
           | Some raw \<Rightarrow>
               and_then (from_json_error (json_loads (default_hooks cc) (cc_limit cc) raw)) (\<lambda>v.
               (case v of JObj payload \<Rightarrow> Inr payload | _ \<Rightarrow> Inl Cursor_Error))))))))"

subsection \<open>The order of keys does not matter\<close>

lemma nesting_le:
  "nesting (JArr xs) \<le> n \<longleftrightarrow> (\<exists>m. n = Suc m \<and> (\<forall>x \<in> set xs. nesting x \<le> m))"
  "nesting (JObj kvs) \<le> n \<longleftrightarrow> (\<exists>m. n = Suc m \<and> (\<forall>kv \<in> set kvs. nesting (snd kv) \<le> m))"
  by (cases n; simp add: fold_max_le)+

lemma same_bounds: "(\<And>n. (a::nat) \<le> n \<longleftrightarrow> b \<le> n) \<Longrightarrow> a = b"
  by (meson order_antisym order_refl)

lemma sorted_keys_unique:
  assumes "distinct (map fst xs)" "distinct (map fst ys)" "set xs = set ys"
  shows "sort_key fst xs = sort_key fst (ys :: ('k::linorder \<times> 'v) list)"
proof (rule sort_key_inj_key_eq)
  show "mset xs = mset (sort_key fst ys)"
    using assms set_eq_iff_mset_eq_distinct [of xs ys] by (simp add: distinct_map)
  show "inj_on fst (set xs)" using assms by (simp add: distinct_map)
qed simp

lemma canonical_json_perm:
  assumes "distinct (map fst xs)" "distinct (map fst ys)" "set xs = set ys"
  shows "canonical_json limit (JObj xs) = canonical_json limit (JObj ys)"
proof -
  have "nesting (JObj xs) = nesting (JObj ys)" by (rule same_bounds) (simp only: nesting_le assms(3))
  moreover have "writable False (JObj xs) = writable False (JObj ys)" using assms(3) by (simp add: list_all_iff)
  moreover have "json_dumps (JObj xs) = json_dumps (JObj ys)"
    unfolding json_text_object sorted_keys_unique [OF assms] ..
  ultimately show ?thesis by (simp add: canonical_json_def del: json_text.simps nesting.simps writable.simps)
qed

lemma canon_keys: "distinct (map fst kvs) \<Longrightarrow> distinct (map fst (map (\<lambda>kv. (fst kv, g (snd kv))) kvs))"
  by (simp add: comp_def)

lemma nesting_canon: "nesting (canon v) = nesting v"
proof (induction v rule: canon.induct)
  case (1 xs)
  then show ?case by (simp add: comp_def cong: map_cong)
next
  case (2 kvs)
  show ?case
    by (rule same_bounds) (use 2 in \<open>auto simp: nesting_le simp del: nesting.simps\<close>)
qed simp_all

lemma writable_canon: "writable nan (canon v) = writable nan v"
  by (induction v rule: canon.induct) (auto simp: list_all_iff)

lemma text_canon: "json_text esc (canon v) = json_text esc v"
proof (induction v rule: canon.induct)
  case (1 xs)
  then have "map (\<lambda>x. json_text esc (canon x)) xs = map (json_text esc) xs" by (intro map_cong) auto
  then show ?case by (simp only: canon.simps json_text.simps map_map comp_def)
next
  case (2 kvs)
  have "map (\<lambda>kv. quoted esc (fst kv) @ 58 # json_text esc (canon (snd kv))) (sort_key fst kvs)
      = map (\<lambda>kv. quoted esc (fst kv) @ 58 # json_text esc (snd kv)) (sort_key fst kvs)"
    using 2 by (auto intro!: map_cong)
  moreover have "sort_key fst (map (\<lambda>kv. (fst kv, canon (snd kv))) (sort_key fst kvs))
      = map (\<lambda>kv. (fst kv, canon (snd kv))) (sort_key fst kvs)"
    unfolding sort_map_snd by (simp add: sort_key_id_if_sorted)
  ultimately show ?case unfolding canon_object json_text_object by (simp only: map_map comp_def fst_conv snd_conv)
qed simp_all

lemma canonical_json_canon: "canonical_json limit (canon v) = canonical_json limit v"
  by (simp add: canonical_json_def text_canon nesting_canon writable_canon)

subsection \<open>Every issued cursor is read back\<close>

lemma byte_list_encode_char: "c < 1114112 \<Longrightarrow> byte_list (encode_char c)"
proof -
  assume c: "c < 1114112"
  have "x mod 64 < 64" for x :: nat by simp
  then have m: "128 + x mod 64 < 256" for x :: nat by (simp add: add.commute less_SucI order_less_trans)
  have "c < 2048 \<Longrightarrow> c div 64 < 64" "c < 65536 \<Longrightarrow> c div 4096 < 32" "c div 262144 < 16" using c by linarith+
  with m show ?thesis by (simp add: encode_char_def)
qed

lemma byte_list_utf8: "list_all scalar_value s \<Longrightarrow> utf8_encode s = Some bs \<Longrightarrow> byte_list bs"
  by (induction s arbitrary: bs) (auto simp: scalar_value_def byte_list_encode_char split: if_splits)

lemma hex_scalar: "byte_list bs \<Longrightarrow> list_all scalar_value (hexdigest bs)"
proof (induction bs)
  case (Cons b bs)
  have "scalar_value (if d < 10 then 48 + d else 87 + d)" if "d < 16" for d using that by (intro scalar_ascii) simp
  moreover have "b div 16 < 16" "b mod 16 < 16" using Cons by (simp_all add: less_mult_imp_div_less)
  ultimately have "list_all scalar_value (hex2 b)"
    unfolding hex2_def Let_def list.pred_inject(2) by (intro conjI list.pred_inject(1)) blast+
  with Cons show ?case by (simp add: hexdigest_def)
qed (simp add: hexdigest_def)

lemma b64url_scalar: "list_all b64url_char s \<Longrightarrow> list_all scalar_value s"
  by (auto simp: list_all_iff b64url_char_def)

lemma scope_scalar: "scope_ok s \<Longrightarrow> list_all scalar_value s"
  by (cases s) (auto simp: scope_ok_def list_all_iff ascii_alnum_def)

lemma meta_scalar [simp]:
  "list_all scalar_value k_version" "list_all scalar_value k_scope" "list_all scalar_value k_binding" "list_all scalar_value k_sig"
  by (simp_all add: k_version_def k_scope_def k_binding_def k_sig_def lit_def)

lemma meta_distinct [simp]:
  "k_version \<noteq> k_scope" "k_version \<noteq> k_binding" "k_version \<noteq> k_sig" "k_scope \<noteq> k_binding" "k_scope \<noteq> k_sig" "k_binding \<noteq> k_sig"
  by (simp_all add: k_version_def k_scope_def k_binding_def k_sig_def lit_def)

lemmas meta_distinct' [simp] = meta_distinct [symmetric]

text \<open>The parts of an issued cursor.\<close>

lemma canonical_json_fine:
  assumes "canonical_json limit (JObj kvs) = Inr bs" "fine (JObj kvs)"
  shows "byte_list bs" "bs \<noteq> []" "nesting (JObj kvs) \<le> limit"
    "keeps_distinct hk \<Longrightarrow> json_loads hk limit bs = Inr (canon (JObj kvs))"
proof -
  from assms(1) have bs: "utf8_encode (json_dumps (JObj kvs)) = Some bs" and lim: "nesting (JObj kvs) \<le> limit"
    by (auto simp: canonical_json_def split: if_splits option.splits simp del: json_text.simps nesting.simps writable.simps)
  show "byte_list bs" using byte_list_utf8 [OF utf8_writer.scalar_text [OF assms(2)] bs] .
  show "nesting (JObj kvs) \<le> limit" by (rule lim)
  show "bs \<noteq> []" using bs by (auto simp: json_text_object encode_char_def split: if_splits simp del: json_text.simps)
  show "json_loads hk limit bs = Inr (canon (JObj kvs))" if "keeps_distinct hk"
    using utf8_writer.json_loads_object [OF assms(2) refl lim that, of "[]"] bs by simp
qed

lemma keeps_distinct_strict: "keeps_distinct (strict_hooks cc)"
  by (simp add: keeps_distinct_def strict_hooks_def)

lemma binding_digest_scalar: "crypto_ok (cc_crypto cc) \<Longrightarrow> binding_digest cc bs = Inr b \<Longrightarrow> list_all scalar_value b"
  by (auto simp: binding_digest_def crypto_ok_def hex_scalar)

lemma signature_chars:
  assumes "crypto_ok (cc_crypto cc)" "signature_of cc env = Inr sig"
  shows "b64url_ok sig"
proof -
  obtain x where sig: "sig = b64_text (cr_hmac (cc_crypto cc) (cc_secret cc) x)" using assms(2) by (auto simp: signature_of_def)
  let ?m = "cr_hmac (cc_crypto cc) (cc_secret cc) x"
  have m: "byte_list ?m" "length ?m = 32" using assms(1) by (simp_all add: crypto_ok_def)
  then have "?m \<noteq> []" by auto
  with m show ?thesis by (simp add: sig b64url_ok_def b64_text_padded)
qed

definition meta_free :: "(pystr \<times> json) list \<Rightarrow> bool" where
  "meta_free payload \<longleftrightarrow> fst ` set payload \<inter> set meta_keys = {}"

lemma envelope_distinct:
  assumes "distinct (map fst p)" "meta_free p"
  shows "distinct (map fst (envelope_of p b s v @ [(k_sig, x)]))"
  using assms by (auto simp: envelope_of_def meta_free_def meta_keys_def)

abbreviation canon_items :: "(pystr \<times> json) list \<Rightarrow> (pystr \<times> json) list" where
  "canon_items kvs \<equiv> map (\<lambda>kv. (fst kv, canon (snd kv))) (sort_key fst kvs)"

lemma map_of_snd: "map_of (map (\<lambda>kv. (fst kv, g (snd kv))) xs) k = map_option g (map_of xs k)"
  by (induction xs) auto

lemma sorted_lookup:
  assumes "distinct (map fst kvs)"
  shows "map_of (canon_items kvs) k = map_option canon (map_of kvs k)"
proof -
  have "map_of (sort_key fst kvs) = map_of kvs"
    using assms by (intro map_of_inject_set [THEN iffD2]) (simp_all add: distinct_map)
  then show ?thesis by (simp add: map_of_snd)
qed

lemma map_of_filter_key: "map_of (filter (\<lambda>kv. P (fst kv)) xs) k = (if P k then map_of xs k else None)"
  by (induction xs) auto

lemma canon_items_filter: "filter (\<lambda>kv. P (fst kv)) (canon_items kvs) = canon_items (filter (\<lambda>kv. P (fst kv)) kvs)"
  by (simp add: filter_map comp_def filter_sort)

lemma signature_perm: "signature_of cc (canon_items env) = signature_of cc env"
  using canonical_json_canon [of "cc_limit cc" "JObj env"] by (simp add: signature_of_def canon_object del: canon.simps)

lemma envelope_parts:
  assumes "meta_free p"
  shows "filter (\<lambda>kv. fst kv \<noteq> k_sig) (envelope_of p b s v @ [(k_sig, x)]) = envelope_of p b s v"
    "filter (\<lambda>kv. fst kv \<notin> set meta_keys) (envelope_of p b s v) = p"
    "set meta_keys \<subseteq> fst ` set (envelope_of p b s v @ [(k_sig, x)])"
    "map_of (envelope_of p b s v @ [(k_sig, x)]) k_sig = Some x"
    "map_of (envelope_of p b s v) k_version = Some v"
    "map_of (envelope_of p b s v) k_scope = Some (JStr s)"
    "map_of (envelope_of p b s v) k_binding = Some (JStr b)"
proof -
  have ne: "fst kv \<notin> set meta_keys" if "kv \<in> set p" for kv using assms that by (auto simp: meta_free_def)
  have no: "map_of p k = None" if "k \<in> set meta_keys" for k
    using assms that by (auto simp: meta_free_def map_of_eq_None_iff)
  show "filter (\<lambda>kv. fst kv \<noteq> k_sig) (envelope_of p b s v @ [(k_sig, x)]) = envelope_of p b s v"
    "filter (\<lambda>kv. fst kv \<notin> set meta_keys) (envelope_of p b s v) = p"
    using ne by (auto simp: envelope_of_def meta_keys_def filter_id_conv)
  show "set meta_keys \<subseteq> fst ` set (envelope_of p b s v @ [(k_sig, x)])"
    by (auto simp: envelope_of_def meta_keys_def)
  show "map_of (envelope_of p b s v @ [(k_sig, x)]) k_sig = Some x"
    "map_of (envelope_of p b s v) k_version = Some v"
    "map_of (envelope_of p b s v) k_scope = Some (JStr s)"
    "map_of (envelope_of p b s v) k_binding = Some (JStr b)"
    using no by (simp_all add: envelope_of_def meta_keys_def map_add_def)
qed

lemma issued_cursor_read:
  assumes cr: "crypto_ok (cc_crypto cc)" and fine: "fine (JObj payload)"
    and enc: "cursor_encode cc payload scope bindings = Inr cursor"
  shows "cursor_decode cc cursor scope bindings = Inr (canon_items payload)"
proof -
  from enc obtain b sig bs where scope: "scope_ok scope" and meta: "meta_free payload"
    and b: "binding_digest cc bindings = Inr b" and sig: "signature_of cc (envelope_of payload b scope (JInt 1)) = Inr sig"
    and bs: "canonical_json (cc_limit cc) (JObj (envelope_of payload b scope (JInt 1) @ [(k_sig, JStr sig)])) = Inr bs"
    and c: "cursor = b64_text bs" "int (length cursor) \<le> cc_max_length cc"
    by (auto simp: cursor_encode_def seal_def meta_free_def list_ex_iff)
  let ?env = "envelope_of payload b scope (JInt 1)" and ?full = "envelope_of payload b scope (JInt 1) @ [(k_sig, JStr sig)]"
  have d: "distinct (map fst ?full)" using fine meta by (intro envelope_distinct) simp_all
  have sigc: "b64url_ok sig" by (rule signature_chars [OF cr sig])
  have "fine (JObj ?full)"
    using fine d scope_scalar [OF scope] binding_digest_scalar [OF cr b] sigc
    by (auto simp: envelope_of_def b64url_ok_def b64url_scalar digits_of.simps [of "Suc 0"])
  note full = canonical_json_fine [OF bs this]
  have loads: "json_loads (strict_hooks cc) (cc_limit cc) bs = Inr (JObj (canon_items ?full))"
    using full(4) [OF keeps_distinct_strict] by (simp only: canon_object)
  have outer: "canonical_json (cc_limit cc) (JObj (canon_items ?full)) = Inr bs"
    using canonical_json_canon [of "cc_limit cc" "JObj ?full"] bs by (simp only: canon_object)
  have inner: "filter (\<lambda>kv. fst kv \<noteq> k_sig) (canon_items ?full) = canon_items ?env"
    by (simp only: canon_items_filter [of "\<lambda>k. k \<noteq> k_sig"] envelope_parts(1) [OF meta])
  have keys: "set meta_keys \<subseteq> fst ` set (canon_items ?full)"
    using envelope_parts(3) [OF meta] by (simp add: image_image)
  have sup: "map_of (canon_items ?full) k_sig = Some (JStr sig)"
    using sorted_lookup [OF d] envelope_parts(4) [OF meta] by simp
  have denv: "distinct (map fst ?env)" using d by simp
  note look = sorted_lookup [OF denv]
  have "b64url_ok cursor" using full by (simp add: c b64url_ok_def b64_text_padded)
  moreover have "urlsafe_b64decode (cursor @ padding_for cursor) = Some bs"
    using full by (simp add: c b64_text_round_trip)
  moreover have "filter (\<lambda>kv. fst kv \<notin> set meta_keys) (canon_items ?env) = canon_items payload"
    by (simp only: canon_items_filter [of "\<lambda>k. k \<notin> set meta_keys"] envelope_parts(2) [OF meta])
  ultimately show ?thesis
    using scope c b sig sigc keys envelope_parts(5-7) [OF meta, of b scope "JInt 1"]
    by (simp add: cursor_decode_def from_json_error_def loads outer inner sup look signature_perm equals_one_def
        b64url_ok_def del: canon.simps(1,2))
qed

subsection \<open>Only sealed cursors are accepted\<close>

text \<open>The strict hook refuses duplicate keys, so an accepted object has none.\<close>

lemma strict_object_distinct:
  assumes "json_loads (strict_hooks cc) limit raw = Inr (JObj kvs)"
  shows "distinct (map fst kvs)"
proof -
  obtain s r where "scan_once (strict_hooks cc) limit s = Inr (JObj kvs, r)"
    using assms by (auto simp: json_loads_def json_decode_def split: option.splits if_splits)
  then obtain inner where sc: "scan_with (strict_hooks cc) inner s = Inr (JObj kvs, r)" by (cases limit) auto
  then obtain nested where "inner = Some nested" "scan_object (strict_hooks cc) nested (tl s) = Inr (JObj kvs, r)"
    by (auto simp: scan_with_def scan_array_def scan_literal_def scan_number_def Let_def split: list.splits if_splits option.splits prod.splits)
  then show ?thesis
    by (auto simp: scan_object_def strict_hooks_def Let_def split: if_splits option.splits)
qed

lemma decode_cases:
  "(case v of JObj e \<Rightarrow> f e | _ \<Rightarrow> Inl x) = Inr y \<longleftrightarrow> (\<exists>e. v = JObj e \<and> f e = Inr y)"
  "(case v of JStr t \<Rightarrow> g t | _ \<Rightarrow> Inl x) = Inr y \<longleftrightarrow> (\<exists>t. v = JStr t \<and> g t = Inr y)"
  "(case r of None \<Rightarrow> Inl x | Some z \<Rightarrow> h z) = Inr y \<longleftrightarrow> (\<exists>z. r = Some z \<and> h z = Inr y)"
  "(case w of Some z \<Rightarrow> P z | None \<Rightarrow> False) \<longleftrightarrow> (\<exists>z. w = Some z \<and> P z)"
  "from_json_error q = Inr k \<longleftrightarrow> q = Inr k"
  by (auto simp: from_json_error_def split: json.split option.split sum.split json_error.split)

lemma distinct_lookup: "distinct (map fst kvs) \<Longrightarrow> (k, x) \<in> set kvs \<longleftrightarrow> map_of kvs k = Some x"
  by (rule map_of_eq_Some_iff [symmetric])

lemma envelope_set:
  assumes d: "distinct (map fst env)" and keys: "set meta_keys \<subseteq> fst ` set env"
    and sig: "map_of env k_sig = Some x" and v: "map_of env k_version = Some v"
    and sc: "map_of env k_scope = Some (JStr scope)" and b: "map_of env k_binding = Some (JStr b)"
    and p: "p = filter (\<lambda>kv. fst kv \<notin> set meta_keys) env"
  shows "set (envelope_of p b scope v @ [(k_sig, x)]) = set env"
proof -
  have "kv \<in> set env \<longleftrightarrow> kv \<in> set p \<or> kv \<in> {(k_sig, x), (k_version, v), (k_scope, JStr scope), (k_binding, JStr b)}" for kv
  proof (cases "fst kv \<in> set meta_keys")
    case True
    then have "kv \<in> set env \<longleftrightarrow> kv \<in> {(k_sig, x), (k_version, v), (k_scope, JStr scope), (k_binding, JStr b)}"
      using distinct_lookup [OF d, of "fst kv" "snd kv"] sig v sc b by (cases kv) (auto simp: meta_keys_def)
    with True p show ?thesis by auto
  next
    case False
    then have "kv \<notin> {(k_sig, x), (k_version, v), (k_scope, JStr scope), (k_binding, JStr b)}"
      by (cases kv) (auto simp: meta_keys_def)
    with False p show ?thesis by auto
  qed
  then show ?thesis by (auto simp: envelope_of_def)
qed

text \<open>
  C23. A cursor is accepted only as the server sealed it.  Whatever \<open>decode\<close> returns for a scope
  and bindings, the cursor is letter for letter the one that sealing that payload with that scope
  and the digest of those bindings produces: its signature is the HMAC of exactly that content,
  and no other spelling, scope or binding set is accepted.  With the version written as the
  integer 1 it is the cursor \<open>encode\<close> issues.
\<close>

theorem cursor_authentic:
  assumes "cursor_decode cc cursor scope bindings = Inr payload"
  shows "\<exists>b v. binding_digest cc bindings = Inr b \<and> equals_one v \<and> distinct (map fst payload) \<and> meta_free payload \<and>
     seal cc (envelope_of payload b scope v) = Inr cursor \<and>
     (v = JInt 1 \<longrightarrow> cursor_encode cc payload scope bindings = Inr cursor)"
proof -
  from assms obtain raw env sig b v where c: "cursor = b64_text raw" "int (length cursor) \<le> cc_max_length cc" "scope_ok scope"
    and loads: "json_loads (strict_hooks cc) (cc_limit cc) raw = Inr (JObj env)"
    and keys: "set meta_keys \<subseteq> fst ` set env" and outer: "canonical_json (cc_limit cc) (JObj env) = Inr raw"
    and sig: "map_of env k_sig = Some (JStr sig)"
    and sg: "signature_of cc (filter (\<lambda>kv. fst kv \<noteq> k_sig) env) = Inr sig"
    and v: "map_of (filter (\<lambda>kv. fst kv \<noteq> k_sig) env) k_version = Some v" "equals_one v"
    and sc: "map_of (filter (\<lambda>kv. fst kv \<noteq> k_sig) env) k_scope = Some (JStr scope)"
    and b: "map_of (filter (\<lambda>kv. fst kv \<noteq> k_sig) env) k_binding = Some (JStr b)" "binding_digest cc bindings = Inr b"
    and p: "payload = filter (\<lambda>kv. fst kv \<notin> set meta_keys) (filter (\<lambda>kv. fst kv \<noteq> k_sig) env)"
    by (auto simp: cursor_decode_def Let_def decode_cases)
  have p': "payload = filter (\<lambda>kv. fst kv \<notin> set meta_keys) env" by (auto simp: p meta_keys_def intro: filter_cong)
  have d: "distinct (map fst env)" by (rule strict_object_distinct [OF loads])
  have free: "meta_free payload" "distinct (map fst payload)"
    using d by (auto simp: p' meta_free_def distinct_map inj_on_def)
  note look = map_of_filter_key [of "\<lambda>k. k \<noteq> k_sig"]
  let ?env = "envelope_of payload b scope v"
  have full: "set (?env @ [(k_sig, JStr sig)]) = set env"
    using d keys sig v sc b p' by (intro envelope_set) (simp_all add: look)
  have df: "distinct (map fst (?env @ [(k_sig, JStr sig)]))" by (rule envelope_distinct [OF free(2,1)])
  have "set ?env = set (filter (\<lambda>kv. fst kv \<noteq> k_sig) env)"
    using envelope_parts(1) [OF free(1), of b scope v "JStr sig"] full by (metis set_filter)
  then have "signature_of cc ?env = Inr sig"
    using sg canonical_json_perm [of ?env "filter (\<lambda>kv. fst kv \<noteq> k_sig) env" "cc_limit cc"] df d
    by (auto simp: signature_of_def distinct_map inj_on_def)
  moreover have "canonical_json (cc_limit cc) (JObj (?env @ [(k_sig, JStr sig)])) = Inr raw"
    using canonical_json_perm [OF df d full] outer by simp
  ultimately have "seal cc ?env = Inr cursor" by (simp add: seal_def c)
  with b v c free show ?thesis
    by (auto simp: cursor_encode_def list_ex_iff meta_free_def)
qed

subsection \<open>Tokens that are issued and read\<close>

text \<open>
  What both cursor formats promise their routes: a token that was issued for a payload is read
  back as that payload.  Two payloads that share a token then read the same.
\<close>

locale issued_tokens =
  fixes issue :: "'p \<Rightarrow> 'e + 'c" and read_token :: "'c \<Rightarrow> 'e + 'q"
    and admissible :: "'p \<Rightarrow> 'c \<Rightarrow> bool" and view :: "'p \<Rightarrow> 'q"
  assumes read_issue: "admissible p c \<Longrightarrow> issue p = Inr c \<Longrightarrow> read_token c = Inr (view p)"
begin

lemma issue_unambiguous:
  "admissible p c \<Longrightarrow> admissible p' c \<Longrightarrow> issue p = Inr c \<Longrightarrow> issue p' = Inr c \<Longrightarrow> view p = view p'"
  using read_issue [of p c] read_issue [of p' c] by simp

end

interpretation sealed: issued_tokens
  "\<lambda>p. cursor_encode cc p scope bindings" "\<lambda>c. cursor_decode cc c scope bindings"
  "\<lambda>p c. crypto_ok (cc_crypto cc) \<and> fine (JObj p)" canon_items
  for cc scope bindings
  by unfold_locales (auto intro: issued_cursor_read simp del: fine.simps)

lemma rsplit_dot_append: "46 \<notin> set sig \<Longrightarrow> rsplit_dot (encoded @ [46] @ sig) = Some (encoded, sig)"
proof -
  assume "46 \<notin> set sig"
  then have "takeWhile (\<lambda>c. c \<noteq> 46) (rev sig @ 46 # rev encoded) = rev sig"
    "dropWhile (\<lambda>c. c \<noteq> 46) (rev sig @ 46 # rev encoded) = 46 # rev encoded"
    by (auto simp: takeWhile_append dropWhile_append)
  then show ?thesis by (simp add: rsplit_dot_def)
qed

lemma rsplit_dot_join: "rsplit_dot s = Some (x, y) \<Longrightarrow> s = x @ [46] @ y"
proof -
  assume r: "rsplit_dot s = Some (x, y)"
  let ?d = "dropWhile (\<lambda>c. c \<noteq> 46) (rev s)"
  from r have dot: "46 \<in> set s" and x: "x = rev (tl ?d)" and y: "y = rev (takeWhile (\<lambda>c. c \<noteq> 46) (rev s))"
    by (auto simp: rsplit_dot_def split: if_splits)
  have "?d \<noteq> []" using dot by (simp add: dropWhile_eq_Nil_conv)
  then have "?d = 46 # tl ?d" using hd_dropWhile [of "\<lambda>c. c \<noteq> 46" "rev s"] dot by (cases ?d) (auto simp: dropWhile_eq_Nil_conv)
  then have "rev s = takeWhile (\<lambda>c. c \<noteq> 46) (rev s) @ 46 # tl ?d" by (metis takeWhile_dropWhile_id)
  then have "s = rev (tl ?d) @ [46] @ rev (takeWhile (\<lambda>c. c \<noteq> 46) (rev s))"
    by (metis append.assoc append_Cons append_Nil rev.simps(2) rev_append rev_rev_ident)
  with x y show ?thesis by simp
qed

lemma ascii_utf8: "is_ascii s \<Longrightarrow> utf8_encode s = Some s"
  by (induction s) (auto simp: is_ascii_def encode_char_def surrogate_def)

lemma b64url_ascii: "list_all b64url_char s \<Longrightarrow> is_ascii s"
  by (auto simp: is_ascii_def list_all_iff b64url_char_def)

lemma ascii_dumps: "fine v \<Longrightarrow> is_ascii (json_dumps_ascii v)"
  unfolding is_ascii_def
proof (rule list_all_text)
  have h: "list_all (\<lambda>c. c < 128) (hex4 c)" for c
  proof -
    have "(if x mod 16 < 10 then 48 + x mod 16 else 87 + x mod 16) < 128" for x :: nat
      using mod_less_divisor [of 16 x] by simp linarith
    then show ?thesis unfolding hex4_def Let_def list.pred_inject(2) by (intro conjI) simp_all
  qed
  show "list_all (\<lambda>c. c < 128) (ascii_escape c)" for c
    using h by (simp add: ascii_escape_def json_escape_def)
qed

lemma sign_text_chars:
  assumes "crypto_ok (cc_crypto cc)"
  shows "list_all b64url_char (sign_text cc x)" "sign_text cc x \<noteq> []" "46 \<notin> set (sign_text cc x)"
proof -
  let ?m = "cr_hmac (cc_crypto cc) (cc_secret cc) x"
  have m: "byte_list ?m" "length ?m = 32" using assms by (simp_all add: crypto_ok_def)
  then have "?m \<noteq> []" by auto
  with m show "list_all b64url_char (sign_text cc x)" "sign_text cc x \<noteq> []" by (simp_all add: sign_text_def b64_text_padded)
  then show "46 \<notin> set (sign_text cc x)" by (auto simp: list_all_iff b64url_char_def)
qed

lemma b64url_not_space: "b64url_char c \<Longrightarrow> \<not> py_space c"
  by (auto simp: b64url_char_def py_space_def)

lemma keeps_distinct_default: "keeps_distinct (default_hooks cc)"
  by (simp add: keeps_distinct_def default_hooks_def dict_of_distinct)

lemma issued_taxonomy_cursor_read:
  assumes cr: "crypto_ok (cc_crypto cc)" and fine: "fine (JObj p)" and len: "length cursor \<le> 2048"
    and enc: "taxonomy_cursor_encode cc p = Inr cursor"
  shows "taxonomy_cursor_decode cc cursor = Inr (canon_items p)"
proof -
  let ?t = "json_dumps_ascii (JObj p)"
  let ?e = "b64_text ?t"
  from enc have c: "cursor = ?e @ [46] @ sign_text cc ?e" and lim: "nesting (JObj p) \<le> cc_limit cc"
    by (auto simp: taxonomy_cursor_encode_def dumps_ascii_def Let_def simp del: json_text.simps nesting.simps writable.simps split: if_splits)
  have asc: "is_ascii ?t" by (rule ascii_dumps [OF fine])
  then have bytes: "byte_list ?t" by (auto simp: is_ascii_def byte_list_def list_all_iff)
  have "?t \<noteq> []" by (simp add: json_text_object del: json_text.simps)
  with bytes have e: "list_all b64url_char ?e" "?e \<noteq> []" by (simp_all add: b64_text_padded)
  note sg = sign_text_chars [OF cr, of ?e]
  have "b64url_char (hd ?e)" "b64url_char (last (sign_text cc ?e))" using e sg by (auto simp: list_all_iff)
  then have "strip cursor = cursor" using e sg b64url_not_space by (intro strip_by_id) (simp add: c hd_append last_append)
  moreover have "rsplit_dot cursor = Some (?e, sign_text cc ?e)" unfolding c by (rule rsplit_dot_append [OF sg(3)])
  moreover have "is_ascii ?e" "is_ascii (sign_text cc ?e)" using e sg b64url_ascii by simp_all
  moreover have "urlsafe_b64decode (?e @ padding_for ?e) = Some ?t" by (rule b64_text_round_trip [OF bytes])
  moreover have "json_loads (default_hooks cc) (cc_limit cc) ?t = Inr (JObj (canon_items p))"
    using ascii_writer.json_loads_object [OF fine refl lim keeps_distinct_default, of "[]"] ascii_utf8 [OF asc]
    by (auto simp: canon_object simp del: json_text.simps canon.simps)
  moreover have "cursor \<noteq> []" by (simp add: c)
  ultimately show ?thesis using len by (simp add: taxonomy_cursor_decode_def from_json_error_def del: json_text.simps)
qed

interpretation taxonomy_cursor: issued_tokens
  "\<lambda>p. taxonomy_cursor_encode cc p" "\<lambda>c. taxonomy_cursor_decode cc c"
  "\<lambda>p c. crypto_ok (cc_crypto cc) \<and> fine (JObj p) \<and> length c \<le> 2048" canon_items
  for cc
  by unfold_locales (auto intro: issued_taxonomy_cursor_read simp del: fine.simps)

subsection \<open>No cursor exhausts the interpreter\<close>

lemma a2b_length:
  "quad < 4 \<Longrightarrow> a2b_base64 quad left pads s = Some bs \<Longrightarrow> 4 * length bs \<le> 3 * length s + (if quad = 0 then 0 else 4 - quad)"
proof (induction quad left pads s arbitrary: bs rule: a2b_base64.induct)
  case (2 quad left pads c cs)
  show ?case
  proof (cases "c = 61 \<or> b64_value c = None")
    case True
    with 2 show ?thesis by (fastforce split: if_splits)
  next
    case False
    then obtain v where v: "c \<noteq> 61" "b64_value c = Some v" by auto
    consider "quad = 0" | "quad = 1" | "quad = 2" | "quad = 3" using 2(7) by linarith
    then show ?thesis using v 2(3-6,8) by cases (fastforce split: if_splits)+
  qed
qed (auto split: if_splits)

lemma decoded_length: "length cursor \<le> 2048 \<Longrightarrow> urlsafe_b64decode (cursor @ padding_for cursor) = Some raw \<Longrightarrow> length raw \<le> 1538"
proof -
  assume len: "length cursor \<le> 2048" and "urlsafe_b64decode (cursor @ padding_for cursor) = Some raw"
  then have "4 * length raw \<le> 3 * length (cursor @ padding_for cursor)"
    using a2b_length [of 0 0 0 "cursor @ padding_for cursor" raw] by (simp add: urlsafe_b64decode_def)
  moreover have "length (padding_for cursor) < 4"
    using pos_mod_bound [of 4 "- int (length cursor)"] by (simp add: padding_for_def)
  ultimately show ?thesis using len by simp
qed

lemma json_bytes_text_length: "json_bytes_text b = Some s \<Longrightarrow> length s \<le> length b"
proof -
  have pass: "utf8_decode_pass b = Some s \<Longrightarrow> length s \<le> length b" for b s
  proof (induction b arbitrary: s rule: utf8_decode_pass.induct)
    case (1 bs)
    then show ?case
      by (subst (asm) (2) utf8_decode_pass.simps) (fastforce dest: decode_char_pass_shorter split: if_splits option.splits)
  qed
  have units: "units16 big b = Some us \<Longrightarrow> length us \<le> length b" for big b us
    by (induction big b arbitrary: us rule: units16.induct) fastforce+
  have join: "length (join16 us) \<le> length us" for us by (induction us rule: join16.induct) auto
  have d32: "decode32 big b = Some us \<Longrightarrow> length us \<le> length b" for big b us
    by (induction big b arbitrary: us rule: decode32.induct) (fastforce simp: Let_def split: if_splits)+
  have u16: "map_option join16 (units16 big b) = Some s \<Longrightarrow> length s \<le> length b" for big b s
    using units join by (fastforce dest: order_trans)
  define short where "short b r \<longleftrightarrow> (\<forall>s. r = Some s \<longrightarrow> length s \<le> length b)" for b :: pybytes and r :: "pystr option"
  have dropped: "short b (utf8_decode_pass (drop n b))" "short b (map_option join16 (units16 big (drop n b)))"
    "short b (decode32 big (drop n b))" for n big b
    using pass [of "drop n b"] u16 [of big "drop n b"] d32 [of big "drop n b"]
    unfolding short_def by (auto simp del: map_option_eq_Some intro: order_trans)
  have whole: "short b (utf8_decode_pass b)" "short b (map_option join16 (units16 big b))" "short b (decode32 big b)" for big b
    using pass u16 d32 unfolding short_def by blast+
  have "short b (json_bytes_text b)"
    unfolding json_bytes_text_def by (simp only: dropped whole simp_thms split: if_split list.split)
  then show "json_bytes_text b = Some s \<Longrightarrow> length s \<le> length b" by (simp add: short_def)
qed

lemma strict_restricts: "hook_restricts (strict_hooks cc)"
  by (simp add: hook_restricts_def strict_hooks_def)

text \<open>What the loader makes of a cursor of admissible length.\<close>

lemma cursor_loads_bounds:
  assumes "length cursor \<le> 2048" "urlsafe_b64decode (cursor @ padding_for cursor) = Some raw" "1538 \<le> cc_limit cc"
  shows "json_loads (strict_hooks cc) (cc_limit cc) raw \<noteq> Inl Json_Recursion"
    "json_loads (strict_hooks cc) (cc_limit cc) raw = Inr v \<Longrightarrow> nesting v \<le> cc_limit cc"
proof -
  have "length raw \<le> 1538" by (rule decoded_length [OF assms(1,2)])
  then show "json_loads (strict_hooks cc) (cc_limit cc) raw \<noteq> Inl Json_Recursion"
    using assms(3) json_bytes_text_length json_decode_bounds(2) [OF strict_restricts]
    by (fastforce simp: json_loads_def split: option.splits)
  show "json_loads (strict_hooks cc) (cc_limit cc) raw = Inr v \<Longrightarrow> nesting v \<le> cc_limit cc"
    using json_decode_bounds(1) [OF strict_restricts] by (auto simp: json_loads_def split: option.splits)
qed

text \<open>A step that fails with \<open>Cursor_Error\<close> only, and how steps compose.\<close>

definition refuses :: "cursor_error + 'a \<Rightarrow> bool" where
  "refuses r \<longleftrightarrow> (\<forall>e. r = Inl e \<longrightarrow> e = Cursor_Error)"

lemma refuses_simps [simp]: "refuses (Inr x)" "refuses (Inl Cursor_Error)" "refuses (require ok Cursor_Error)"
  by (auto simp: refuses_def require_def)

lemma refuses_and_then: "refuses r \<Longrightarrow> (\<And>x. r = Inr x \<Longrightarrow> refuses (f x)) \<Longrightarrow> refuses (and_then r f)"
  by (cases r) (auto simp: refuses_def)

lemma refuses_cases:
  "(\<And>z. r = Some z \<Longrightarrow> refuses (h z)) \<Longrightarrow> refuses (case r of None \<Rightarrow> Inl Cursor_Error | Some z \<Rightarrow> h z)"
  "(\<And>e. v = JObj e \<Longrightarrow> refuses (f e)) \<Longrightarrow> refuses (case v of JObj e \<Rightarrow> f e | _ \<Rightarrow> Inl Cursor_Error)"
  "(\<And>t. v = JStr t \<Longrightarrow> refuses (g t)) \<Longrightarrow> refuses (case v of JStr t \<Rightarrow> g t | _ \<Rightarrow> Inl Cursor_Error)"
  by (auto split: option.split json.split)

lemma canonical_json_refuses: "nesting v \<le> limit \<Longrightarrow> refuses (canonical_json limit v)"
  by (auto simp: refuses_def canonical_json_def split: if_splits option.splits)

lemma nesting_filter: "nesting (JObj (filter P kvs)) \<le> nesting (JObj kvs)"
  unfolding nesting_le(2) using nesting_inner(2) [of _ kvs]
  by (intro exI [where x = "nesting (JObj kvs) - 1"]) (fastforce simp: less_eq_Suc_le)

lemma signature_refuses: "nesting (JObj env) \<le> cc_limit cc \<Longrightarrow> refuses (signature_of cc env)"
  unfolding signature_of_def by (intro refuses_and_then canonical_json_refuses) simp_all

lemma binding_refuses:
  assumes "1 \<le> cc_limit cc"
  shows "refuses (binding_digest cc bs)"
proof -
  have "nesting (JArr (map JStr bs)) \<le> cc_limit cc" using assms by (cases "cc_limit cc") (auto simp: fold_max_le)
  then show ?thesis unfolding binding_digest_def by (intro refuses_and_then canonical_json_refuses) simp_all
qed

lemma cursor_decode_refuses:
  assumes limit: "1538 \<le> cc_limit cc" and max: "cc_max_length cc \<le> 2048"
  shows "refuses (cursor_decode cc cursor scope bindings)"
proof -
  have one: "1 \<le> cc_limit cc" using limit by simp
  have inner: "nesting (JObj kvs) \<le> cc_limit cc \<Longrightarrow> nesting (JObj (filter P kvs)) \<le> cc_limit cc" for kvs P
    using nesting_filter order_trans by blast
  have load: "refuses (from_json_error (json_loads (strict_hooks cc) (cc_limit cc) raw))"
    and nest: "from_json_error (json_loads (strict_hooks cc) (cc_limit cc) raw) = Inr v \<Longrightarrow> nesting v \<le> cc_limit cc"
    if "int (length cursor) \<le> cc_max_length cc" "urlsafe_b64decode (cursor @ padding_for cursor) = Some raw" for raw v
  proof -
    have "length cursor \<le> 2048" using that(1) max by linarith
    note b = cursor_loads_bounds [OF this that(2) limit]
    show "refuses (from_json_error (json_loads (strict_hooks cc) (cc_limit cc) raw))"
      using b(1) by (auto simp: refuses_def from_json_error_def split: sum.splits json_error.splits)
    show "from_json_error (json_loads (strict_hooks cc) (cc_limit cc) raw) = Inr v \<Longrightarrow> nesting v \<le> cc_limit cc"
      using b(2) by (simp add: decode_cases)
  qed
  show ?thesis
    unfolding cursor_decode_def Let_def
    by (intro refuses_and_then refuses_cases refuses_simps signature_refuses canonical_json_refuses binding_refuses [OF one] load inner)
      (use nest in \<open>auto simp del: nesting.simps\<close>)
qed

subsection \<open>Properties\<close>

text \<open>
  C24. Every cursor the server issues is read back.  When \<open>encode\<close> issues a cursor for a payload, a
  scope and bindings, \<open>decode\<close> of that cursor under the same scope and bindings returns the
  payload, its keys in sorted order; and no payload with other contents has the same cursor.
\<close>

theorem cursor_round_trip:
  assumes "crypto_ok (cc_crypto cc)" and "fine (JObj payload)"
    and "cursor_encode cc payload scope bindings = Inr cursor"
  shows "cursor_decode cc cursor scope bindings = Inr (canon_items payload) \<and>
    (\<forall>other. fine (JObj other) \<and> cursor_encode cc other scope bindings = Inr cursor \<longrightarrow> canon_items other = canon_items payload)"
  using sealed.read_issue sealed.issue_unambiguous [where p' = payload] assms by blast

text \<open>
  C25. No cursor a client sends is a server error.  On an interpreter that allows 1538 nested
  containers, whatever text arrives as a cursor of the generic codec, the answer is the payload
  or status 400: no nesting of the JSON inside it exhausts the recursion limit.
\<close>

theorem generic_cursor_total:
  assumes limit: "1538 \<le> cc_limit cc" and max: "cc_max_length cc \<le> 2048"
    and err: "generic_cursor_decode cc cursor scope bindings = Inl status"
  shows "status = 400"
proof -
  from err obtain e where e: "cursor_decode cc cursor scope bindings = Inl e" "status = http_status e"
    by (auto simp: generic_cursor_decode_def split: sum.splits)
  have "e = Cursor_Error" using cursor_decode_refuses [OF limit max] e(1) by (auto simp: refuses_def)
  with e show ?thesis by (simp add: http_status_def)
qed


subsection \<open>Instances\<close>

definition sample_crypto :: crypto where
  "sample_crypto = \<lparr>cr_sha256 = (\<lambda>x. replicate 32 7), cr_hmac = (\<lambda>k x. replicate 32 9)\<rparr>"

definition sample_codec :: cursor_codec where
  "sample_codec = \<lparr>cc_crypto = sample_crypto, cc_secret = replicate 32 1, cc_max_length = 2048, cc_limit = 100, cc_float = id\<rparr>"

lemma sample_crypto_ok: "crypto_ok (cc_crypto sample_codec)"
  by (simp add: crypto_ok_def sample_codec_def sample_crypto_def byte_list_def list_all_iff)

definition sample_payload :: "(pystr \<times> json) list" where
  "sample_payload = [(lit ''id'', JStr (lit ''a''))]"

definition sample_cursor :: pystr where
  "sample_cursor = (case cursor_encode sample_codec sample_payload (lit ''jobs'') [lit ''o1''] of Inr c \<Rightarrow> c | Inl _ \<Rightarrow> [])"

lemma sample_cursor_issued: "cursor_encode sample_codec sample_payload (lit ''jobs'') [lit ''o1''] = Inr sample_cursor"
proof -
  have "\<not> isl (cursor_encode sample_codec sample_payload (lit ''jobs'') [lit ''o1''])" by code_simp
  then show ?thesis by (auto simp: sample_cursor_def split: sum.splits)
qed

lemma sample_payload_fine: "fine (JObj sample_payload)" "canon_items sample_payload = sample_payload"
  by (simp_all add: sample_payload_def lit_def)

theorem cursor_round_trip_witness:
  "cursor_decode sample_codec sample_cursor (lit ''jobs'') [lit ''o1''] = Inr sample_payload"
  using cursor_round_trip [OF sample_crypto_ok sample_payload_fine(1) sample_cursor_issued] by (simp add: sample_payload_fine)

theorem cursor_authentic_witness:
  "\<exists>b v. equals_one v \<and> seal sample_codec (envelope_of sample_payload b (lit ''jobs'') v) = Inr sample_cursor"
  using cursor_authentic [OF issued_cursor_read [OF sample_crypto_ok sample_payload_fine(1) sample_cursor_issued]]
  by (auto simp: sample_payload_fine)

theorem generic_cursor_total_witness: "generic_cursor_decode (sample_codec\<lparr>cc_limit := 1538\<rparr>) (lit ''!'') (lit ''jobs'') [] = Inl 400"
proof -
  have "generic_cursor_decode (sample_codec\<lparr>cc_limit := 1538\<rparr>) (lit ''!'') (lit ''jobs'') [] = Inl (http_status Cursor_Error)"
    by (simp add: generic_cursor_decode_def cursor_decode_def b64url_ok_def b64url_char_def lit_def require_def and_then_def)
  from generic_cursor_total [OF _ _ this] this show ?thesis by (simp add: sample_codec_def)
qed


end
