(* ===== verification/Lifecycle.thy ===== *)
theory Lifecycle
  imports Cursors
begin

text \<open>
  The keyed digests and authenticated envelopes of \<open>auth.py\<close> that account deletion uses:
  \<open>lifecycle_hmac\<close>, and the encryption of provider subjects, sessions and receipts.  AES-GCM is a
  parameter (\<open>aead\<close>).
\<close>

subsection \<open>Settings and parameters\<close>

record lifecycle_settings =
  ls_hmac_key :: "pystr option"
  ls_aead_key :: "pystr option"

record aead =
  ae_encrypt :: "pybytes \<Rightarrow> pybytes \<Rightarrow> pybytes \<Rightarrow> pybytes \<Rightarrow> pybytes"
  ae_decrypt :: "pybytes \<Rightarrow> pybytes \<Rightarrow> pybytes \<Rightarrow> pybytes \<Rightarrow> pybytes option"

text \<open>
  What is documented of AES-GCM: a tag of 16 bytes is appended, and decryption under the same
  key, nonce and associated data returns the plaintext.
\<close>

definition aead_ok :: "aead \<Rightarrow> bool" where
  "aead_ok ae \<longleftrightarrow>
     (\<forall>k n p a. byte_list p \<longrightarrow>
        byte_list (ae_encrypt ae k n p a) \<and> length (ae_encrypt ae k n p a) = length p + 16 \<and>
        ae_decrypt ae k n (ae_encrypt ae k n p a) a = Some p)"

datatype auth_error = Authentication_Unavailable | Unicode_Encode_Error

definition encode_utf8 :: "pystr \<Rightarrow> auth_error + pybytes" where
  "encode_utf8 s = (case utf8_encode s of None \<Rightarrow> Inl Unicode_Encode_Error | Some bs \<Rightarrow> Inr bs)"

subsection \<open>The operations\<close>

definition lifecycle_hmac :: "crypto \<Rightarrow> lifecycle_settings \<Rightarrow> string \<Rightarrow> pystr \<Rightarrow> auth_error + pystr" where
  "lifecycle_hmac cr st label v =
     (case ls_hmac_key st of
        None \<Rightarrow> Inl Authentication_Unavailable
      | Some key \<Rightarrow>
          and_then (encode_utf8 key) (\<lambda>k.
          and_then (encode_utf8 (lit ''connect.md:lifecycle:'' @ lit label @ lit '':v1:'' @ v)) (\<lambda>text.
          Inr (hexdigest (cr_hmac cr k text)))))"

definition lifecycle_aead_key :: "crypto \<Rightarrow> lifecycle_settings \<Rightarrow> auth_error + pybytes" where
  "lifecycle_aead_key cr st =
     (case ls_aead_key st of
        None \<Rightarrow> Inl Authentication_Unavailable
      | Some key \<Rightarrow>
          and_then (encode_utf8 key) (\<lambda>k. Inr (cr_sha256 cr (lit ''connect.md:lifecycle:aead:v1:'' @ k))))"

definition lifecycle_provider_context :: "pystr \<Rightarrow> string \<Rightarrow> auth_error + pybytes" where
  "lifecycle_provider_context deletion_id field =
     encode_utf8 (lit ''connect.md:lifecycle:provider-'' @ lit field @ lit '':v1:'' @ deletion_id)"

definition encrypt_lifecycle_provider_value ::
    "crypto \<Rightarrow> aead \<Rightarrow> lifecycle_settings \<Rightarrow> pybytes \<Rightarrow> pystr \<Rightarrow> string \<Rightarrow> pystr \<Rightarrow> auth_error + pystr" where
  "encrypt_lifecycle_provider_value cr ae st nonce deletion_id field v =
     and_then (require (1 \<le> length v \<and> length v \<le> 255) Authentication_Unavailable) (\<lambda>_.
     and_then (lifecycle_aead_key cr st) (\<lambda>key.
     and_then (encode_utf8 v) (\<lambda>plain.
     and_then (lifecycle_provider_context deletion_id field) (\<lambda>context.
     Inr (lit ''v1.'' @ urlsafe_b64encode (nonce @ ae_encrypt ae key nonce plain context))))))"

text \<open>\<open>ciphertext.split(".", 1)\<close>.\<close>

definition split_dot :: "pystr \<Rightarrow> (pystr \<times> pystr) option" where
  "split_dot s = (if 46 \<in> set s then Some (takeWhile (\<lambda>c. c \<noteq> 46) s, tl (dropWhile (\<lambda>c. c \<noteq> 46) s)) else None)"

text \<open>Every failure on the way is reported as \<open>AuthenticationUnavailable\<close>.\<close>

definition unavailable :: "'e + 'a \<Rightarrow> auth_error + 'a" where
  "unavailable r = (case r of Inl _ \<Rightarrow> Inl Authentication_Unavailable | Inr x \<Rightarrow> Inr x)"

definition unavailable_unless :: "'a option \<Rightarrow> auth_error + 'a" where
  "unavailable_unless x = (case x of None \<Rightarrow> Inl Authentication_Unavailable | Some y \<Rightarrow> Inr y)"

definition decrypt_lifecycle_provider_value ::
    "crypto \<Rightarrow> aead \<Rightarrow> lifecycle_settings \<Rightarrow> pystr \<Rightarrow> string \<Rightarrow> pystr \<Rightarrow> auth_error + pystr" where
  "decrypt_lifecycle_provider_value cr ae st deletion_id field ciphertext =
     and_then (unavailable_unless (split_dot ciphertext)) (\<lambda>(version, encoded).
     and_then (require (version = lit ''v1'') Authentication_Unavailable) (\<lambda>_.
     and_then (require (is_ascii (encoded @ padding_for encoded)) Authentication_Unavailable) (\<lambda>_.
     and_then (unavailable_unless (urlsafe_b64decode (encoded @ padding_for encoded))) (\<lambda>payload.
     and_then (require (12 + 16 < length payload) Authentication_Unavailable) (\<lambda>_.
     and_then (unavailable (lifecycle_aead_key cr st)) (\<lambda>key.
     and_then (unavailable (lifecycle_provider_context deletion_id field)) (\<lambda>context.
     and_then (unavailable_unless (ae_decrypt ae key (take 12 payload) (drop 12 payload) context)) (\<lambda>plain.
     and_then (unavailable_unless (utf8_decode plain)) (\<lambda>v.
     and_then (require (v \<noteq> []) Authentication_Unavailable) (\<lambda>_.
     Inr v))))))))))"

definition encrypt_lifecycle_provider_subject ::
    "crypto \<Rightarrow> aead \<Rightarrow> lifecycle_settings \<Rightarrow> pybytes \<Rightarrow> pystr \<Rightarrow> pystr \<Rightarrow> auth_error + pystr" where
  "encrypt_lifecycle_provider_subject cr ae st nonce deletion_id subject =
     encrypt_lifecycle_provider_value cr ae st nonce deletion_id ''subject'' subject"

definition decrypt_lifecycle_provider_subject ::
    "crypto \<Rightarrow> aead \<Rightarrow> lifecycle_settings \<Rightarrow> pystr \<Rightarrow> pystr \<Rightarrow> auth_error + pystr" where
  "decrypt_lifecycle_provider_subject cr ae st deletion_id ciphertext =
     decrypt_lifecycle_provider_value cr ae st deletion_id ''subject'' ciphertext"

subsection \<open>What was encrypted is decrypted\<close>

lemma padded_length: "byte_list bs \<Longrightarrow> padding_for (urlsafe_b64encode bs) = []"
proof -
  assume "byte_list bs"
  then obtain core where "urlsafe_b64encode bs = core @ padding_for core" using b64_encode_shape by blast
  then have "int (length (urlsafe_b64encode bs)) = int (length core) + (- int (length core)) mod 4"
    by (simp add: padding_for_def)
  then have "(- int (length (urlsafe_b64encode bs))) mod 4 = (- (int (length core) + (- int (length core)) mod 4)) mod 4" by simp
  also have "\<dots> = (- (int (length core) + - int (length core))) mod 4" by (metis mod_add_right_eq mod_minus_eq)
  finally show ?thesis by (simp add: padding_for_def)
qed

lemma b64_encode_ascii: "byte_list bs \<Longrightarrow> is_ascii (urlsafe_b64encode bs) \<and> 46 \<notin> set (urlsafe_b64encode bs)"
proof -
  assume "byte_list bs"
  then obtain core where "urlsafe_b64encode bs = core @ padding_for core" "list_all b64url_char core" using b64_encode_shape by blast
  then show ?thesis using b64url_ascii [of core] by (auto simp: is_ascii_def padding_for_def list_all_iff b64url_char_def)
qed

lemma split_dot_first: "46 \<notin> set x \<Longrightarrow> split_dot (x @ 46 # y) = Some (x, y)"
  by (simp add: split_dot_def takeWhile_append dropWhile_append)

lemma split_v1: "split_dot (lit ''v1.'' @ e) = Some (lit ''v1'', e)"
  using split_dot_first [of "lit ''v1''" e] by (simp add: lit_def)

lemma scalar_lit [simp]: "list_all scalar_value (lit s)"
proof -
  have "scalar_value c" if "c < 256" for c using that by (simp add: scalar_value_def surrogate_def)
  then show ?thesis using latin_lit [of s] by (auto simp: latin_def list_all_iff)
qed

lemma encrypt_decrypt:
  assumes ae: "aead_ok ae" and n: "length nonce = 12" "byte_list nonce" and v: "list_all scalar_value v"
    and enc: "encrypt_lifecycle_provider_value cr ae st nonce i field v = Inr c"
  shows "decrypt_lifecycle_provider_value cr ae st i field c = Inr v" "is_ascii c" "take 3 c = lit ''v1.''"
proof -
  from enc obtain key pt cx where v': "1 \<le> length v" and key: "lifecycle_aead_key cr st = Inr key"
    and pt: "utf8_encode v = Some pt" and ctx: "lifecycle_provider_context i field = Inr cx"
    and c: "c = lit ''v1.'' @ urlsafe_b64encode (nonce @ ae_encrypt ae key nonce pt cx)"
    by (auto simp: encrypt_lifecycle_provider_value_def encode_utf8_def split: option.splits)
  let ?p = "nonce @ ae_encrypt ae key nonce pt cx"
  have pb: "byte_list pt" by (rule byte_list_utf8 [OF v pt])
  note box = ae [unfolded aead_ok_def, rule_format, OF pb, of key nonce cx]
  have bytes: "byte_list ?p" using n box by simp
  have dec: "utf8_decode pt = Some v" using utf8_round_trip [OF v] pt by auto
  have "length v \<le> length pt" using utf8_length_bounds [of v "length pt"] utf8_encode_length [of v] pt by simp
  then have len: "28 < length ?p" using v' n box by (cases pt) auto
  have e: "split_dot c = Some (lit ''v1'', urlsafe_b64encode ?p)" unfolding c by (rule split_v1)
  have "decrypt_lifecycle_provider_value cr ae st i field c = (case ae_decrypt ae key nonce (drop 12 ?p) cx of
      None \<Rightarrow> Inl Authentication_Unavailable | Some pt' \<Rightarrow> and_then (unavailable_unless (utf8_decode pt')) (\<lambda>v.
     and_then (require (v \<noteq> []) Authentication_Unavailable) (\<lambda>_. Inr v)))"
    using len n key ctx urlsafe_b64_round_trip [OF bytes] padded_length [OF bytes] b64_encode_ascii [OF bytes]
    by (simp add: decrypt_lifecycle_provider_value_def e unavailable_unless_def unavailable_def split: option.split)
  also have "\<dots> = Inr v" using n box dec v' by (auto simp: unavailable_unless_def)
  finally show "decrypt_lifecycle_provider_value cr ae st i field c = Inr v" .
  show "is_ascii c" "take 3 c = lit ''v1.''" using b64_encode_ascii [OF bytes] by (auto simp: c is_ascii_def lit_def)
qed

text \<open>
  C27. A provider value survives its envelope.  Whatever the field, a value that
  \<open>_encrypt_lifecycle_provider_value\<close> accepts is returned by \<open>_decrypt_lifecycle_provider_value\<close> under the
  same settings, deletion and field; the envelope is ASCII and starts with \<open>v1.\<close>, and encryption
  accepts exactly the values of 1 to 255 characters when the key is configured.
\<close>

theorem lifecycle_round_trip:
  assumes "aead_ok ae" "length nonce = 12" "byte_list nonce" "list_all scalar_value v" "list_all scalar_value i"
    and "ls_aead_key st = Some k" "list_all scalar_value k"
  shows "(case encrypt_lifecycle_provider_value cr ae st nonce i field v of
       Inl e \<Rightarrow> e = Authentication_Unavailable \<and> (v = [] \<or> 255 < length v)
     | Inr c \<Rightarrow> 1 \<le> length v \<and> length v \<le> 255 \<and> is_ascii c \<and> take 3 c = lit ''v1.'' \<and>
         decrypt_lifecycle_provider_value cr ae st i field c = Inr v)"
proof (cases "encrypt_lifecycle_provider_value cr ae st nonce i field v")
  case (Inr c)
  then have "1 \<le> length v \<and> length v \<le> 255" by (auto simp: encrypt_lifecycle_provider_value_def)
  with Inr encrypt_decrypt [OF assms(1-4) Inr] show ?thesis by simp
next
  case (Inl e)
  have ok: "\<exists>bs. encode_utf8 s = Inr bs" if "list_all scalar_value s" for s
    using utf8_round_trip [OF that] by (auto simp: encode_utf8_def)
  have "list_all scalar_value (lit ''connect.md:lifecycle:provider-'' @ lit field @ lit '':v1:'' @ i)"
    using assms(5) by simp
  then obtain cx where "lifecycle_provider_context i field = Inr cx"
    unfolding lifecycle_provider_context_def using ok by blast
  moreover obtain key where "lifecycle_aead_key cr st = Inr key" using ok [OF assms(7)] by (auto simp: lifecycle_aead_key_def assms(6))
  moreover obtain pt where "encode_utf8 v = Inr pt" using ok [OF assms(4)] by blast
  ultimately have "\<not> (1 \<le> length v \<and> length v \<le> 255) \<and> e = Authentication_Unavailable"
    using Inl by (auto simp: encrypt_lifecycle_provider_value_def require_def split: if_splits)
  with Inl show ?thesis by (cases v) auto
qed

definition sample_aead :: aead where
  "sample_aead = \<lparr>ae_encrypt = (\<lambda>k n p a. p @ replicate 16 0), ae_decrypt = (\<lambda>k n c a. Some (take (length c - 16) c))\<rparr>"

definition sample_lifecycle :: lifecycle_settings where
  "sample_lifecycle = \<lparr>ls_hmac_key = Some (replicate 32 65), ls_aead_key = Some (replicate 32 66)\<rparr>"

lemma sample_aead_ok: "aead_ok sample_aead"
  by (simp add: aead_ok_def sample_aead_def byte_list_def list_all_iff)

theorem lifecycle_round_trip_witness:
  "\<exists>c. encrypt_lifecycle_provider_value sample_crypto sample_aead sample_lifecycle (replicate 12 7) (lit ''d1'') ''subject'' (lit ''u'') = Inr c \<and>
     decrypt_lifecycle_provider_value sample_crypto sample_aead sample_lifecycle (lit ''d1'') ''subject'' c = Inr (lit ''u'')"
proof -
  have "byte_list (replicate 12 7)" "list_all scalar_value (replicate 32 (66::nat))"
    by (auto simp: byte_list_def list_all_iff)
  from lifecycle_round_trip [OF sample_aead_ok _ this(1) _ _ _ this(2), where st = sample_lifecycle and v = "lit ''u''"
      and i = "lit ''d1''" and cr = sample_crypto and field = "''subject''"]
  show ?thesis by (auto simp: sample_lifecycle_def lit_def [of "''u''"] split: sum.splits)
qed

end
