(* ===== verification/PyTime.thy ===== *)
theory PyTime
  imports PyData
begin

text \<open>
  \<open>datetime.isoformat(timespec="microseconds")\<close> of a UTC instant, written with \<open>Z\<close>, and its strict
  reading as \<open>_parse_utc\<close> of \<open>services/deletion_journal.py\<close> accepts it.  Reading inverts writing for
  every instant Python can represent.
\<close>

subsection \<open>Days and dates\<close>

definition days_from_civil :: "int \<Rightarrow> int \<Rightarrow> int \<Rightarrow> int" where
  "days_from_civil y m d =
     (let y' = (if m \<le> 2 then y - 1 else y);
          era = y' div 400;
          yoe = y' mod 400;
          doy = (153 * ((m + 9) mod 12) + 2) div 5 + d - 1
      in era * 146097 + (yoe * 365 + yoe div 4 - yoe div 100 + doy) - 719468)"

text \<open>The year of a day within its 400-year cycle, and the bounds on the day within that year.\<close>

definition cycle_year :: "int \<Rightarrow> int" where
  "cycle_year doe = (doe - doe div 1460 + doe div 36524 - doe div 146096) div 365"

definition year_start :: "int \<Rightarrow> int" where
  "year_start y = 365 * y + y div 4 - y div 100"

lemma div_bounds: "0 < (k::int) \<Longrightarrow> k * (x div k) \<le> x" "0 < k \<Longrightarrow> x < k * (x div k) + k"
proof -
  have "k * (x div k) + x mod k = x" by (rule mult_div_mod_eq)
  then show "0 < k \<Longrightarrow> k * (x div k) \<le> x" "0 < k \<Longrightarrow> x < k * (x div k) + k"
    using pos_mod_bound [of k x] pos_mod_sign [of k x] by linarith+
qed

lemma cycle_year_bounds:
  assumes "0 \<le> doe" "doe < 146097"
  shows "0 \<le> cycle_year doe" "cycle_year doe < 400"
    "0 \<le> doe - year_start (cycle_year doe)" "doe - year_start (cycle_year doe) \<le> 366"
proof -
  define a b c Y where abc: "a = doe div 1460" "b = doe div 36524" "c = doe div 146096" "Y = cycle_year doe"
  have A: "1460 * a \<le> doe" "doe < 1460 * a + 1460" and B: "36524 * b \<le> doe" "doe < 36524 * b + 36524"
    and C: "146096 * c \<le> doe" "doe < 146096 * c + 146096"
    using div_bounds [of 1460 doe] div_bounds [of 36524 doe] div_bounds [of 146096 doe] by (simp_all add: abc)
  have Y: "365 * Y \<le> doe - a + b - c" "doe - a + b - c < 365 * Y + 365"
    using div_bounds [of 365 "doe - a + b - c"] by (simp_all add: abc cycle_year_def)
  define q h where qh: "q = Y div 4" "h = Y div 100"
  have Q: "4 * q \<le> Y" "Y < 4 * q + 4" and H: "100 * h \<le> Y" "Y < 100 * h + 100"
    using div_bounds [of 4 Y] div_bounds [of 100 Y] by (simp_all add: qh)
  have small: "0 \<le> a" "a \<le> 100" "0 \<le> c" "c \<le> 1" using A C assms by linarith+
  have b: "b = 0 \<or> b = 1 \<or> b = 2 \<or> b = 3 \<or> b = 4" using B assms by linarith
  show "0 \<le> cycle_year doe" using Y A B C small assms b unfolding abc(4) [symmetric] by linarith
  have "a = 100 \<or> a \<le> 99" "c = 0 \<or> c = 1" using small by linarith+
  then show "cycle_year doe < 400" using Y A B C assms unfolding abc(4) [symmetric] by linarith
  have start: "year_start Y = 365 * Y + q - h" by (simp add: year_start_def qh)
  have qa: "q \<le> a" using Y Q A B small b by linarith
  have hb: "b - c \<le> h" using Y H A B C small b by linarith
  show "0 \<le> doe - year_start (cycle_year doe)" unfolding abc(4) [symmetric] start using Y qa hb by linarith
  have aq: "a \<le> q + 1" using Y Q A B C small b by linarith
  have bh: "h \<le> b" using Y H A B C small b by linarith
  show "doe - year_start (cycle_year doe) \<le> 366" unfolding abc(4) [symmetric] start using Y aq bh small by linarith
qed

lemma month_of_day:
  fixes doy :: int
  assumes "0 \<le> doy" "doy \<le> 366"
  defines "mp \<equiv> (5 * doy + 2) div 153"
  shows "0 \<le> mp" "mp \<le> 11" "1 \<le> doy - (153 * mp + 2) div 5 + 1" "doy - (153 * mp + 2) div 5 + 1 \<le> 31"
proof -
  have M: "153 * mp \<le> 5 * doy + 2" "5 * doy + 2 < 153 * mp + 153"
    using div_bounds [of 153 "5 * doy + 2"] by (simp_all add: mp_def)
  have D: "5 * ((153 * mp + 2) div 5) \<le> 153 * mp + 2" "153 * mp + 2 < 5 * ((153 * mp + 2) div 5) + 5"
    using div_bounds [of 5 "153 * mp + 2"] by simp_all
  show "0 \<le> mp" "mp \<le> 11" "1 \<le> doy - (153 * mp + 2) div 5 + 1" "doy - (153 * mp + 2) div 5 + 1 \<le> 31"
    using M D assms(1,2) by linarith+
qed

lemma civil_round_trip:
  assumes "civil_from_days n = (y, m, d)"
  shows "days_from_civil y m d = n" "1 \<le> m" "m \<le> 12" "1 \<le> d" "d \<le> 31"
proof -
  define z era doe where z: "z = n + 719468" "era = z div 146097" "doe = z mod 146097"
  define yoe where yoe: "yoe = cycle_year doe"
  define doy where doy: "doy = doe - year_start yoe"
  define mp where mp: "mp = (5 * doy + 2) div 153"
  have civil: "civil_from_days n =
      (yoe + era * 400 + (if (if mp < 10 then mp + 3 else mp - 9) \<le> 2 then 1 else 0),
       if mp < 10 then mp + 3 else mp - 9, doy - (153 * mp + 2) div 5 + 1)"
    by (simp only: civil_from_days_def Let_def mp doy yoe z cycle_year_def year_start_def)
  have "0 \<le> doe" "doe < 146097" by (simp_all add: z)
  note yb = cycle_year_bounds [OF this, folded yoe, folded doy]
  note mb = month_of_day [OF yb(3,4), folded mp]
  have md: "m = (if mp < 10 then mp + 3 else mp - 9)" "d = doy - (153 * mp + 2) div 5 + 1"
    and y: "(if m \<le> 2 then y - 1 else y) = yoe + era * 400"
    using assms civil by auto
  show "1 \<le> m" "m \<le> 12" "1 \<le> d" "d \<le> 31" using mb md by (auto split: if_splits)
  have mm: "(m + 9) mod 12 = mp"
  proof (cases "mp < 10")
    case True
    then have "m + 9 = mp + 12" by (simp add: md)
    then show ?thesis using mb True by simp
  qed (use mb in \<open>simp add: md\<close>)
  have "(yoe + era * 400) div 400 = era" "(yoe + era * 400) mod 400 = yoe" using yb by simp_all
  then have "days_from_civil y m d = era * 146097 + (yoe * 365 + yoe div 4 - yoe div 100 + ((153 * mp + 2) div 5 + d - 1)) - 719468"
    by (simp add: days_from_civil_def Let_def y mm)
  also have "\<dots> = era * 146097 + doe - 719468" by (simp add: md doy year_start_def)
  also have "\<dots> = n" using div_mult_mod_eq [of z 146097] by (simp add: z)
  finally show "days_from_civil y m d = n" .
qed

subsection \<open>Canonical UTC text\<close>

definition utc_text_us :: "time \<Rightarrow> pystr" where
  "utc_text_us t =
     (case civil_from_days (t div 86400000000) of
        (y, m, d) \<Rightarrow>
          (let us = t mod 86400000000; s = us div 1000000 in
           padded 4 y @ [45] @ padded 2 m @ [45] @ padded 2 d @ [84] @
           padded 2 (s div 3600) @ [58] @ padded 2 (s div 60 mod 60) @ [58] @ padded 2 (s mod 60) @ [46] @
           padded 6 (us mod 1000000) @ [90]))"

definition year_of :: "time \<Rightarrow> int" where
  "year_of t = fst (civil_from_days (t div 86400000000))"

text \<open>The instants a \<open>datetime\<close> can hold.\<close>

definition representable :: "time \<Rightarrow> bool" where
  "representable t \<longleftrightarrow> 1 \<le> year_of t \<and> year_of t \<le> 9999"

definition field_at :: "nat \<Rightarrow> nat \<Rightarrow> pystr \<Rightarrow> int" where
  "field_at i n s = int (digits_value 0 (take n (drop i s)))"

text \<open>
  Reading takes the fields at their places and, as the source does, requires that writing the
  result gives the text back; every other spelling \<open>fromisoformat\<close> understands is refused there.
\<close>

definition parse_utc :: "pystr \<Rightarrow> time option" where
  "parse_utc s =
     (let t = days_from_civil (field_at 0 4 s) (field_at 5 2 s) (field_at 8 2 s) * 86400000000
              + (((field_at 11 2 s * 60 + field_at 14 2 s) * 60 + field_at 17 2 s) * 1000000 + field_at 20 6 s) in
      if representable t \<and> utc_text_us t = s then Some t else None)"

lemma digits_of_length: "n < 10 ^ k \<Longrightarrow> 0 < k \<Longrightarrow> length (digits_of n) \<le> k"
proof (induction n arbitrary: k rule: digits_of.induct)
  case (1 n)
  show ?case
  proof (cases "n < 10")
    case True
    with 1 show ?thesis by (simp add: digits_of.simps [of n])
  next
    case False
    obtain j where k: "k = Suc j" using 1(3) by (cases k) auto
    have "n div 10 < 10 ^ j" using 1(2) by (simp add: k less_mult_imp_div_less mult.commute)
    moreover have "0 < j" using False 1(2) by (cases j) (auto simp: k)
    ultimately show ?thesis using 1(1) False by (simp add: digits_of.simps [of n] k)
  qed
qed

lemma digits_value_zeros: "digits_value 0 (replicate n 48 @ s) = digits_value 0 s"
  by (induction n) simp_all

lemma padded_field:
  assumes "0 \<le> i" "i < 10 ^ k" "0 < k"
  shows "length (padded k i) = k" "int (digits_value 0 (padded k i)) = i"
proof -
  have "nat i < 10 ^ k" using assms by (simp add: nat_less_iff)
  from digits_of_length [OF this assms(3)] show "length (padded k i) = k" by (simp add: padded_def zero_pad_def)
  show "int (digits_value 0 (padded k i)) = i"
    using assms(1) by (simp add: padded_def zero_pad_def digits_value_zeros digits_value_digits_of)
qed

lemma padded_at:
  assumes "length pre = j" "length x = k"
  shows "take k (drop j (pre @ x @ post)) = x"
  using assms by simp

lemma parse_utc_round_trip:
  assumes "representable t"
  shows "parse_utc (utc_text_us t) = Some t"
proof -
  obtain y m d where civil: "civil_from_days (t div 86400000000) = (y, m, d)" by (metis prod_cases3)
  define us s where us: "us = t mod 86400000000" "s = us div 1000000"
  have y: "0 \<le> y" "y < 10 ^ 4" using assms civil by (simp_all add: representable_def year_of_def)
  note md = civil_round_trip [OF civil]
  have "0 \<le> us" "us < 86400000000" by (simp_all add: us)
  then have sb: "0 \<le> s" "s < 86400" unfolding us by linarith+
  define h mi sec fr where p: "h = s div 3600" "mi = s div 60 mod 60" "sec = s mod 60" "fr = us mod 1000000"
  have b: "0 \<le> h" "h < 10 ^ 2" "0 \<le> mi" "mi < 10 ^ 2" "0 \<le> sec" "sec < 10 ^ 2" "0 \<le> fr" "fr < 10 ^ 6"
    using sb pos_mod_bound [of 60 s] pos_mod_bound [of 60 "s div 60"] by (auto simp: p)
  note Y = padded_field [OF y, simplified] and M = padded_field [of m 2] and D = padded_field [of d 2]
    and HH = padded_field [of h 2] and MI = padded_field [of mi 2] and SE = padded_field [of sec 2] and FR = padded_field [of fr 6]
  have written: "utc_text_us t = padded 4 y @ [45] @ padded 2 m @ [45] @ padded 2 d @ [84] @ padded 2 h @ [58] @ padded 2 mi @ [58]
      @ padded 2 sec @ [46] @ padded 6 fr @ [90]"
    by (simp add: utc_text_us_def civil Let_def p us)
  have "field_at 0 4 (utc_text_us t) = y" "field_at 5 2 (utc_text_us t) = m" "field_at 8 2 (utc_text_us t) = d"
    "field_at 11 2 (utc_text_us t) = h" "field_at 14 2 (utc_text_us t) = mi" "field_at 17 2 (utc_text_us t) = sec"
    "field_at 20 6 (utc_text_us t) = fr"
    unfolding field_at_def written using md b Y M D HH MI SE FR by (simp_all add: numeral_eq_Suc)
  moreover have "(h * 60 + mi) * 60 + sec = s"
  proof -
    have "s div 3600 = s div 60 div 60" using zdiv_zmult2_eq [of 60 s 60] by simp
    then have "h * 60 + mi = s div 60" by (simp add: p)
    then show ?thesis by (simp add: p)
  qed
  moreover have "s * 1000000 + fr = us" by (simp add: p us)
  moreover have "days_from_civil y m d * 86400000000 + us = t" by (simp add: md(1) us)
  ultimately show ?thesis using assms by (simp add: parse_utc_def Let_def)
qed

lemma parse_utc_Some: "parse_utc s = Some t \<longleftrightarrow> representable t \<and> utc_text_us t = s"
proof
  show "representable t \<and> utc_text_us t = s" if "parse_utc s = Some t"
    using that by (auto simp only: parse_utc_def Let_def option.inject option.distinct split: if_splits)
  show "parse_utc s = Some t" if "representable t \<and> utc_text_us t = s"
    using that parse_utc_round_trip [of t] by simp
qed

lemma ascii_utc_text: "list_all (\<lambda>c. c < 128) (utc_text_us t)"
proof -
  have dig: "list_all (\<lambda>c. c < 128) (digits_of n)" for n
    by (induction n rule: digits_of.induct) (subst digits_of.simps, auto)
  have pad: "list_all (\<lambda>c. c < 128) (padded k i)" for k i
    using dig by (auto simp: padded_def zero_pad_def list_all_iff)
  show ?thesis unfolding utc_text_us_def Let_def by (simp add: pad split: prod.split)
qed

end
