(* ===== verification/DeletionJournal.thy ===== *)
theory DeletionJournal
  imports Lifecycle PyTime
begin

text \<open>
  The external deletion journal of \<open>services/deletion_journal.py\<close>: HMAC-chained entry files, a state
  file with the head of the chain, and an independent chain of head witnesses.  The files are
  modelled with their bytes and the permissions the code checks (the POSIX branches); the two
  locks make each operation one step.
\<close>

subsection \<open>Files, keys and errors\<close>

record jfile =
  jf_plain :: bool
  jf_mode :: nat
  jf_nlink :: nat
  jf_bytes :: pybytes

record jdir =
  jd_plain :: bool
  jd_mode :: nat

record ledger_dir =
  ld_root :: jdir
  ld_lock_safe :: bool
  ld_entries_root :: jdir
  ld_entries :: "(pystr \<times> jfile) list"

record journal_fs =
  js_journal :: ledger_dir
  js_state :: "jfile option"
  js_witness :: ledger_dir

text \<open>\<open>DeletionJournalError\<close>, and the exceptions no handler of the module turns into it.\<close>

datatype journal_error = Journal_Error | Journal_Type_Error | Journal_Recursion | Journal_Auth auth_error

record journal_settings =
  jt_lifecycle :: lifecycle_settings
  jt_witness_key :: "pystr option"
  jt_journal_path :: "string list option"
  jt_witness_path :: "string list option"

record journal =
  jr_crypto :: crypto
  jr_aead :: aead
  jr_settings :: lifecycle_settings
  jr_key :: pybytes
  jr_witness_key :: pybytes
  jr_hmac_fp :: pystr
  jr_aead_fp :: pystr
  jr_witness_fp :: pystr
  jr_limit :: nat
  jr_float :: "pystr \<Rightarrow> pystr"

record commitment =
  cm_sequence :: nat
  cm_deletion_id :: pystr
  cm_subject_hmac :: pystr
  cm_subject_ciphertext :: pystr
  cm_backup_generation_id :: pystr
  cm_backup_generation_created_at :: time
  cm_committed_at :: time
  cm_policy_version :: pystr

type_synonym jdict = "(pystr \<times> json) list"

definition journal_format :: pystr where "journal_format = lit ''connectmd-deletion-journal-v1''"

definition witness_format :: pystr where "witness_format = lit ''connectmd-deletion-head-witness-v1''"

definition zero_digest :: pystr where "zero_digest = replicate 64 48"

definition digest_ok :: "pystr \<Rightarrow> bool" where
  "digest_ok s \<longleftrightarrow> length s = 64 \<and> list_all lower_hex s"

text \<open>\<open>f"{sequence:020d}.json"\<close>; a file name matches the pattern with this number only if it is this name.\<close>

definition entry_name :: "nat \<Rightarrow> pystr" where
  "entry_name n = zero_pad 20 (digits_of n) @ lit ''.json''"

definition credential_fingerprint :: "crypto \<Rightarrow> pystr option \<Rightarrow> journal_error + pystr" where
  "credential_fingerprint cr v =
     (case v of
        None \<Rightarrow> Inl Journal_Error
      | Some key \<Rightarrow>
          (case utf8_encode key of
             None \<Rightarrow> Inl (Journal_Auth Unicode_Encode_Error)
           | Some bs \<Rightarrow> if length bs < 32 then Inl Journal_Error else Inr (hexdigest (cr_sha256 cr bs))))"

definition within :: "string list \<Rightarrow> string list \<Rightarrow> bool" where
  "within p q \<longleftrightarrow> take (length q) p = q"

definition key_bytes :: "pystr option \<Rightarrow> pybytes" where
  "key_bytes v = (case v of None \<Rightarrow> [] | Some key \<Rightarrow> (case utf8_encode key of None \<Rightarrow> [] | Some bs \<Rightarrow> bs))"

definition new_journal ::
    "crypto \<Rightarrow> aead \<Rightarrow> nat \<Rightarrow> (pystr \<Rightarrow> pystr) \<Rightarrow> journal_settings \<Rightarrow> journal_error + journal" where
  "new_journal cr ae limit float_text st =
     (case (jt_journal_path st, jt_witness_path st) of
        (Some p, Some w) \<Rightarrow>
          and_then (require (\<not> within p w \<and> \<not> within w p) Journal_Error) (\<lambda>_.
          and_then (credential_fingerprint cr (ls_hmac_key (jt_lifecycle st))) (\<lambda>hmac_fp.
          and_then (credential_fingerprint cr (ls_aead_key (jt_lifecycle st))) (\<lambda>aead_fp.
          and_then (credential_fingerprint cr (jt_witness_key st)) (\<lambda>witness_fp.
          Inr \<lparr>jr_crypto = cr, jr_aead = ae, jr_settings = jt_lifecycle st, jr_key = key_bytes (ls_hmac_key (jt_lifecycle st)),
               jr_witness_key = key_bytes (jt_witness_key st), jr_hmac_fp = hmac_fp, jr_aead_fp = aead_fp,
               jr_witness_fp = witness_fp, jr_limit = limit, jr_float = float_text\<rparr>))))
      | _ \<Rightarrow> Inl Journal_Error)"

subsection \<open>Records\<close>

text \<open>\<open>_canonical\<close>; the payloads are flat or were loaded, so writing them cannot fail.\<close>

definition canonical_record :: "jdict \<Rightarrow> pybytes" where
  "canonical_record payload = json_dumps_ascii (JObj payload)"

definition line_of :: "jdict \<Rightarrow> pybytes" where
  "line_of payload = canonical_record payload @ [10]"

definition sha_hex :: "journal \<Rightarrow> pybytes \<Rightarrow> pystr" where
  "sha_hex j bs = hexdigest (cr_sha256 (jr_crypto j) bs)"

definition record_mac :: "journal \<Rightarrow> string \<Rightarrow> jdict \<Rightarrow> pystr" where
  "record_mac j label payload =
     hexdigest (cr_hmac (jr_crypto j) (jr_key j)
       (lit ''connect.md:deletion-journal:v1:'' @ lit label @ lit '':'' @ canonical_record payload))"

definition witness_mac :: "journal \<Rightarrow> jdict \<Rightarrow> pystr" where
  "witness_mac j payload =
     hexdigest (cr_hmac (jr_crypto j) (jr_witness_key j)
       (lit ''connect.md:deletion-head-witness:v1:'' @ canonical_record payload))"

definition loader_hooks :: "journal \<Rightarrow> json_hooks" where
  "loader_hooks j = \<lparr>jh_float = jr_float j, jh_constants = True, jh_pairs = (\<lambda>kvs. Some (dict_of kvs))\<rparr>"

definition read_json :: "journal \<Rightarrow> jfile option \<Rightarrow> journal_error + jdict" where
  "read_json j f =
     (case f of
        None \<Rightarrow> Inl Journal_Error
      | Some file \<Rightarrow>
          and_then (require (jf_plain file) Journal_Error) (\<lambda>_.
          and_then (require (jf_mode file = 384 \<and> jf_nlink file = 1) Journal_Error) (\<lambda>_.
          and_then (require (jf_bytes file \<noteq> [] \<and> last (jf_bytes file) = 10 \<and> length (jf_bytes file) \<le> 16384) Journal_Error) (\<lambda>_.
          (case json_loads (loader_hooks j) (jr_limit j) (jf_bytes file) of
             Inl Json_Recursion \<Rightarrow> Inl Journal_Recursion
           | Inl Json_Invalid \<Rightarrow> Inl Journal_Error
           | Inr (JObj payload) \<Rightarrow> Inr payload
           | Inr _ \<Rightarrow> Inl Journal_Error)))))"

text \<open>Python's \<open>==\<close> of a loaded value with an \<open>int\<close>: \<open>True\<close>, \<open>False\<close> and whole floats compare as numbers.\<close>

definition equals_int :: "json \<Rightarrow> nat \<Rightarrow> bool" where
  "equals_int v n \<longleftrightarrow> v = JInt (int n) \<or> v = JFloat (digits_of n @ lit ''.0'') \<or>
     (n = 1 \<and> v = JBool True) \<or> (n = 0 \<and> v = JBool False)"

definition holds :: "jdict \<Rightarrow> string \<Rightarrow> pystr \<Rightarrow> bool" where
  "holds d k v \<longleftrightarrow> map_of d (lit k) = Some (JStr v)"

definition text_at :: "jdict \<Rightarrow> string \<Rightarrow> journal_error + pystr" where
  "text_at d k = (case map_of d (lit k) of Some (JStr s) \<Rightarrow> Inr s | _ \<Rightarrow> Inl Journal_Error)"

definition utc_at :: "jdict \<Rightarrow> string \<Rightarrow> journal_error + time" where
  "utc_at d k =
     and_then (text_at d k) (\<lambda>s. (case parse_utc s of None \<Rightarrow> Inl Journal_Error | Some t \<Rightarrow> Inr t))"

definition without :: "string \<Rightarrow> jdict \<Rightarrow> jdict" where
  "without k d = filter (\<lambda>kv. fst kv \<noteq> lit k) d"

text \<open>\<open>compare_digest\<close> of two strings, which refuses text that is not ASCII.\<close>

definition compare_digest :: "pystr \<Rightarrow> pystr \<Rightarrow> journal_error + unit" where
  "compare_digest x y =
     and_then (require (is_ascii x \<and> is_ascii y) Journal_Type_Error) (\<lambda>_. require (x = y) Journal_Error)"

definition has_keys :: "string list \<Rightarrow> jdict \<Rightarrow> bool" where
  "has_keys ks d \<longleftrightarrow> fst ` set d = lit ` set ks"

subsection \<open>Verification\<close>

definition state_keys :: "string list" where
  "state_keys = [''format'', ''created_at'', ''hmac_key_sha256'', ''aead_key_sha256'', ''witness_hmac_key_sha256'',
     ''head_sequence'', ''head_digest'', ''state_mac'']"

definition entry_keys :: "string list" where
  "entry_keys = [''format'', ''sequence'', ''deletion_id'', ''subject_hmac'', ''subject_ciphertext'', ''backup_generation_id'',
     ''backup_generation_created_at'', ''committed_at'', ''policy_version'', ''prior_digest'', ''entry_mac'']"

definition witness_keys :: "string list" where
  "witness_keys = [''format'', ''sequence'', ''journal_head_digest'', ''prior_witness_digest'', ''observed_at'',
     ''journal_hmac_key_sha256'', ''journal_aead_key_sha256'', ''witness_hmac_key_sha256'', ''witness_mac'']"

definition sorted_entries :: "ledger_dir \<Rightarrow> (pystr \<times> jfile) list" where
  "sorted_entries l = sort_key fst (ld_entries l)"

definition witness_content :: "journal \<Rightarrow> nat \<Rightarrow> pystr \<Rightarrow> pystr \<Rightarrow> time \<Rightarrow> jdict" where
  "witness_content j sequence head_digest prior_digest observed_at =
     [(lit ''format'', JStr witness_format), (lit ''sequence'', JInt (int sequence)),
      (lit ''journal_head_digest'', JStr head_digest), (lit ''prior_witness_digest'', JStr prior_digest),
      (lit ''observed_at'', JStr (utc_text_us observed_at)), (lit ''journal_hmac_key_sha256'', JStr (jr_hmac_fp j)),
      (lit ''journal_aead_key_sha256'', JStr (jr_aead_fp j)), (lit ''witness_hmac_key_sha256'', JStr (jr_witness_fp j))]"

definition witness_payload :: "journal \<Rightarrow> nat \<Rightarrow> pystr \<Rightarrow> pystr \<Rightarrow> time \<Rightarrow> jdict" where
  "witness_payload j sequence head_digest prior_digest observed_at =
     (let payload = witness_content j sequence head_digest prior_digest observed_at
      in payload @ [(lit ''witness_mac'', JStr (witness_mac j payload))])"

text \<open>One witness file, against the entry file and the commitment of the same number.\<close>

definition verify_witness_step ::
    "journal \<Rightarrow> journal_fs \<Rightarrow> jdict \<Rightarrow> commitment list \<Rightarrow> nat \<Rightarrow> pystr \<Rightarrow> pystr \<times> jfile \<Rightarrow> journal_error + pystr" where
  "verify_witness_step j fs state commitments sequence prior path =
     and_then (require (fst path = entry_name sequence) Journal_Error) (\<lambda>_.
     and_then (read_json j (Some (snd path))) (\<lambda>witness.
     and_then (require (has_keys witness_keys witness \<and> holds witness ''format'' witness_format) Journal_Error) (\<lambda>_.
     and_then (text_at witness ''witness_mac'') (\<lambda>supplied.
     and_then (compare_digest supplied (witness_mac j (without ''witness_mac'' witness))) (\<lambda>_.
     and_then (if sequence = 0 then Inr zero_digest
               else (case map_of (ld_entries (js_journal fs)) (entry_name sequence) of
                       None \<Rightarrow> Inl Journal_Error
                     | Some file \<Rightarrow> Inr (sha_hex j (jf_bytes file)))) (\<lambda>expected_digest.
     and_then (if sequence = 0 then utc_at state ''created_at''
               else Inr (cm_committed_at (commitments ! (sequence - 1)))) (\<lambda>expected_observed_at.
     and_then (require ((case map_of witness (lit ''sequence'') of Some v \<Rightarrow> equals_int v sequence | None \<Rightarrow> False) \<and>
         holds witness ''journal_head_digest'' expected_digest \<and> holds witness ''prior_witness_digest'' prior \<and>
         holds witness ''journal_hmac_key_sha256'' (jr_hmac_fp j) \<and> holds witness ''journal_aead_key_sha256'' (jr_aead_fp j) \<and>
         holds witness ''witness_hmac_key_sha256'' (jr_witness_fp j)) Journal_Error) (\<lambda>_.
     and_then (utc_at witness ''observed_at'') (\<lambda>observed_at.
     and_then (require (observed_at = expected_observed_at) Journal_Error) (\<lambda>_.
     Inr (sha_hex j (line_of witness))))))))))))"

fun verify_witnesses ::
    "journal \<Rightarrow> journal_fs \<Rightarrow> jdict \<Rightarrow> commitment list \<Rightarrow> nat \<Rightarrow> pystr \<Rightarrow> (pystr \<times> jfile) list \<Rightarrow> journal_error + pystr" where
  "verify_witnesses j fs state commitments sequence prior [] = Inr prior"
| "verify_witnesses j fs state commitments sequence prior (path # paths) =
     and_then (verify_witness_step j fs state commitments sequence prior path) (\<lambda>prior'.
     verify_witnesses j fs state commitments (Suc sequence) prior' paths)"

definition directory_safe :: "ledger_dir \<Rightarrow> journal_error + unit" where
  "directory_safe l =
     and_then (require (jd_plain (ld_entries_root l)) Journal_Error) (\<lambda>_.
     require (jd_mode (ld_root l) = 448 \<and> jd_mode (ld_entries_root l) = 448) Journal_Error)"

definition verify_witness_locked ::
    "journal \<Rightarrow> journal_fs \<Rightarrow> jdict \<Rightarrow> nat \<Rightarrow> pystr \<Rightarrow> commitment list \<Rightarrow> journal_error + unit" where
  "verify_witness_locked j fs state head_sequence head_digest commitments =
     and_then (directory_safe (js_witness fs)) (\<lambda>_.
     (let paths = sorted_entries (js_witness fs) in
      and_then (require (length paths = head_sequence + 1) Journal_Error) (\<lambda>_.
      and_then (verify_witnesses j fs state commitments 0 zero_digest paths) (\<lambda>_.
      and_then (require (fst (last paths) = entry_name head_sequence) Journal_Error) (\<lambda>_.
      and_then (read_json j (Some (snd (last paths)))) (\<lambda>final_witness.
      require (holds final_witness ''journal_head_digest'' head_digest) Journal_Error))))))"

text \<open>The state file: its schema, the pinned keys and its MAC; then the head it names.\<close>

definition head_of :: "jdict \<Rightarrow> journal_error + nat \<times> pystr" where
  "head_of state =
     (case (map_of state (lit ''head_sequence''), map_of state (lit ''head_digest'')) of
        (Some (JInt n), Some (JStr digest)) \<Rightarrow>
          and_then (require (0 \<le> n \<and> digest_ok digest) Journal_Error) (\<lambda>_. Inr (nat n, digest))
      | _ \<Rightarrow> Inl Journal_Error)"

definition verify_state :: "journal \<Rightarrow> jfile option \<Rightarrow> journal_error + jdict" where
  "verify_state j f =
     and_then (read_json j f) (\<lambda>state.
     and_then (require (has_keys state_keys state \<and> holds state ''format'' journal_format) Journal_Error) (\<lambda>_.
     and_then (utc_at state ''created_at'') (\<lambda>_.
     and_then (require (holds state ''hmac_key_sha256'' (jr_hmac_fp j) \<and> holds state ''aead_key_sha256'' (jr_aead_fp j) \<and>
         holds state ''witness_hmac_key_sha256'' (jr_witness_fp j)) Journal_Error) (\<lambda>_.
     and_then (text_at state ''state_mac'') (\<lambda>supplied.
     and_then (compare_digest supplied (record_mac j ''state'' (without ''state_mac'' state))) (\<lambda>_.
     Inr state))))))"

definition lift_auth :: "auth_error + 'a \<Rightarrow> journal_error + 'a" where
  "lift_auth r = (case r of Inl e \<Rightarrow> Inl (Journal_Auth e) | Inr x \<Rightarrow> Inr x)"

text \<open>One entry file; \<open>seen\<close> are the commitments before it.\<close>

definition verify_entry_step ::
    "journal \<Rightarrow> nat \<Rightarrow> pystr \<Rightarrow> commitment list \<Rightarrow> pystr \<times> jfile \<Rightarrow> journal_error + pystr \<times> commitment" where
  "verify_entry_step j sequence prior seen path =
     and_then (require (fst path = entry_name sequence) Journal_Error) (\<lambda>_.
     and_then (read_json j (Some (snd path))) (\<lambda>entry.
     and_then (require (has_keys entry_keys entry \<and> holds entry ''format'' journal_format) Journal_Error) (\<lambda>_.
     and_then (text_at entry ''entry_mac'') (\<lambda>supplied.
     and_then (compare_digest supplied (record_mac j ''entry'' (without ''entry_mac'' entry))) (\<lambda>_.
     and_then (require ((case map_of entry (lit ''sequence'') of Some v \<Rightarrow> equals_int v sequence | None \<Rightarrow> False) \<and>
         holds entry ''prior_digest'' prior) Journal_Error) (\<lambda>_.
     and_then (text_at entry ''deletion_id'') (\<lambda>deletion_id.
     and_then (require (deletion_id \<noteq> [] \<and> deletion_id \<notin> cm_deletion_id ` set seen) Journal_Error) (\<lambda>_.
     and_then (text_at entry ''subject_hmac'') (\<lambda>subject_hmac.
     and_then (require (digest_ok subject_hmac) Journal_Error) (\<lambda>_.
     and_then (text_at entry ''subject_ciphertext'') (\<lambda>ciphertext.
     and_then (require (take 3 ciphertext = lit ''v1.'') Journal_Error) (\<lambda>_.
     and_then (text_at entry ''backup_generation_id'') (\<lambda>generation_id.
     and_then (text_at entry ''policy_version'') (\<lambda>policy_version.
     and_then (require (generation_id \<noteq> [] \<and> policy_version \<noteq> []) Journal_Error) (\<lambda>_.
     and_then (utc_at entry ''backup_generation_created_at'') (\<lambda>generation_created_at.
     and_then (utc_at entry ''committed_at'') (\<lambda>committed_at.
     (case decrypt_lifecycle_provider_subject (jr_crypto j) (jr_aead j) (jr_settings j) deletion_id ciphertext of
        Inl _ \<Rightarrow> Inl Journal_Error
      | Inr subject \<Rightarrow>
          and_then (lift_auth (lifecycle_hmac (jr_crypto j) (jr_settings j) ''subject'' subject)) (\<lambda>keyed.
          and_then (compare_digest subject_hmac keyed) (\<lambda>_.
          Inr (sha_hex j (line_of entry),
            \<lparr>cm_sequence = sequence, cm_deletion_id = deletion_id, cm_subject_hmac = subject_hmac,
             cm_subject_ciphertext = ciphertext, cm_backup_generation_id = generation_id,
             cm_backup_generation_created_at = generation_created_at, cm_committed_at = committed_at,
             cm_policy_version = policy_version\<rparr>)))))))))))))))))))))"

fun verify_entries ::
    "journal \<Rightarrow> nat \<Rightarrow> pystr \<Rightarrow> commitment list \<Rightarrow> (pystr \<times> jfile) list \<Rightarrow> journal_error + pystr \<times> commitment list" where
  "verify_entries j sequence prior commitments [] = Inr (prior, commitments)"
| "verify_entries j sequence prior commitments (path # paths) =
     and_then (verify_entry_step j sequence prior commitments path) (\<lambda>(prior', c).
     verify_entries j (Suc sequence) prior' (commitments @ [c]) paths)"

definition verify_locked :: "journal \<Rightarrow> journal_fs \<Rightarrow> journal_error + jdict \<times> commitment list" where
  "verify_locked j fs =
     and_then (directory_safe (js_journal fs)) (\<lambda>_.
     and_then (verify_state j (js_state fs)) (\<lambda>state.
     and_then (head_of state) (\<lambda>(head_sequence, head_digest).
     (let paths = sorted_entries (js_journal fs) in
      and_then (require (length paths = head_sequence) Journal_Error) (\<lambda>_.
      and_then (verify_entries j 1 zero_digest [] paths) (\<lambda>(prior, commitments).
      and_then (require (prior = head_digest) Journal_Error) (\<lambda>_.
      and_then (verify_witness_locked j fs state head_sequence head_digest commitments) (\<lambda>_.
      Inr (state, commitments)))))))))"

definition locked :: "journal_fs \<Rightarrow> (unit \<Rightarrow> journal_error + 'a) \<Rightarrow> journal_error + 'a" where
  "locked fs body =
     and_then (require (jd_plain (ld_root (js_journal fs)) \<and> ld_lock_safe (js_journal fs)) Journal_Error) (\<lambda>_.
     and_then (require (jd_plain (ld_root (js_witness fs)) \<and> ld_lock_safe (js_witness fs)) Journal_Error) (\<lambda>_.
     body ()))"

definition verify :: "journal \<Rightarrow> journal_fs \<Rightarrow> journal_error + commitment list" where
  "verify j fs = locked fs (\<lambda>_. and_then (verify_locked j fs) (\<lambda>(_, commitments). Inr commitments))"

definition checkpoint :: "journal \<Rightarrow> journal_fs \<Rightarrow> journal_error + nat \<times> pystr" where
  "checkpoint j fs = locked fs (\<lambda>_. and_then (verify_locked j fs) (\<lambda>(state, _). head_of state))"

definition assert_checkpoint :: "journal \<Rightarrow> journal_fs \<Rightarrow> nat \<Rightarrow> pystr \<Rightarrow> journal_error + unit" where
  "assert_checkpoint j fs head_sequence head_digest =
     and_then (checkpoint j fs) (\<lambda>(current_sequence, current_digest).
     and_then (require (head_sequence = current_sequence) Journal_Error) (\<lambda>_.
     compare_digest head_digest current_digest))"

subsection \<open>Appending\<close>

definition new_file :: "pybytes \<Rightarrow> jfile" where
  "new_file bs = \<lparr>jf_plain = True, jf_mode = 384, jf_nlink = 1, jf_bytes = bs\<rparr>"

definition add_file :: "pystr \<Rightarrow> pybytes \<Rightarrow> ledger_dir \<Rightarrow> ledger_dir" where
  "add_file name bs l = l\<lparr>ld_entries := ld_entries l @ [(name, new_file bs)]\<rparr>"

text \<open>\<open>_write_new\<close>: \<open>os.link\<close> refuses a name that exists.\<close>

definition write_new :: "pystr \<Rightarrow> pybytes \<Rightarrow> ledger_dir \<Rightarrow> journal_error + ledger_dir" where
  "write_new name bs l =
     (if name \<in> fst ` set (ld_entries l) then Inl Journal_Error else Inr (add_file name bs l))"

record deletion_request =
  dq_deletion_id :: pystr
  dq_subject :: pystr
  dq_subject_hmac :: pystr
  dq_backup_generation_id :: pystr
  dq_backup_generation_created_at :: time
  dq_committed_at :: time
  dq_policy_version :: pystr

definition replay_commitment :: "journal \<Rightarrow> deletion_request \<Rightarrow> commitment \<Rightarrow> journal_error + commitment" where
  "replay_commitment j rq c =
     and_then (require (cm_subject_hmac c = dq_subject_hmac rq) Journal_Error) (\<lambda>_.
     and_then (lift_auth (decrypt_lifecycle_provider_subject (jr_crypto j) (jr_aead j) (jr_settings j)
         (cm_deletion_id c) (cm_subject_ciphertext c))) (\<lambda>subject.
     and_then (compare_digest subject (dq_subject rq)) (\<lambda>_.
     and_then (require (cm_backup_generation_id c = dq_backup_generation_id rq \<and>
         cm_backup_generation_created_at c = dq_backup_generation_created_at rq \<and>
         cm_policy_version c = dq_policy_version rq) Journal_Error) (\<lambda>_.
     Inr c))))"

definition entry_content :: "deletion_request \<Rightarrow> nat \<Rightarrow> pystr \<Rightarrow> pystr \<Rightarrow> jdict" where
  "entry_content rq sequence ciphertext prior_digest =
     [(lit ''format'', JStr journal_format), (lit ''sequence'', JInt (int sequence)),
      (lit ''deletion_id'', JStr (dq_deletion_id rq)), (lit ''subject_hmac'', JStr (dq_subject_hmac rq)),
      (lit ''subject_ciphertext'', JStr ciphertext), (lit ''backup_generation_id'', JStr (dq_backup_generation_id rq)),
      (lit ''backup_generation_created_at'', JStr (utc_text_us (dq_backup_generation_created_at rq))),
      (lit ''committed_at'', JStr (utc_text_us (dq_committed_at rq))), (lit ''policy_version'', JStr (dq_policy_version rq)),
      (lit ''prior_digest'', JStr prior_digest)]"

definition entry_payload :: "journal \<Rightarrow> deletion_request \<Rightarrow> nat \<Rightarrow> pystr \<Rightarrow> pystr \<Rightarrow> jdict" where
  "entry_payload j rq sequence ciphertext prior_digest =
     (let entry = entry_content rq sequence ciphertext prior_digest
      in entry @ [(lit ''entry_mac'', JStr (record_mac j ''entry'' entry))])"

definition advance_state :: "journal \<Rightarrow> jdict \<Rightarrow> nat \<Rightarrow> pystr \<Rightarrow> jdict" where
  "advance_state j state sequence head_digest =
     (let st = dict_set (lit ''head_digest'') (JStr head_digest)
                 (dict_set (lit ''head_sequence'') (JInt (int sequence)) (without ''state_mac'' state))
      in dict_set (lit ''state_mac'') (JStr (record_mac j ''state'' st)) st)"

text \<open>The three durable writes of an append, in order: the entry, the state, the witness.\<close>

definition put_entry :: "nat \<Rightarrow> jdict \<Rightarrow> journal_fs \<Rightarrow> journal_error + journal_fs" where
  "put_entry sequence entry fs =
     and_then (write_new (entry_name sequence) (line_of entry) (js_journal fs)) (\<lambda>l. Inr (fs\<lparr>js_journal := l\<rparr>))"

definition put_state :: "jdict \<Rightarrow> journal_fs \<Rightarrow> journal_fs" where
  "put_state state fs = fs\<lparr>js_state := Some (new_file (line_of state))\<rparr>"

definition put_witness :: "journal \<Rightarrow> nat \<Rightarrow> pystr \<Rightarrow> time \<Rightarrow> journal_fs \<Rightarrow> journal_error + journal_fs" where
  "put_witness j sequence head_digest observed_at fs =
     (case map_of (ld_entries (js_witness fs)) (entry_name (sequence - 1)) of
        None \<Rightarrow> Inl Journal_Error
      | Some prior \<Rightarrow>
          and_then (write_new (entry_name sequence)
              (line_of (witness_payload j sequence head_digest (sha_hex j (jf_bytes prior)) observed_at)) (js_witness fs)) (\<lambda>l.
          Inr (fs\<lparr>js_witness := l\<rparr>)))"

text \<open>An append that has been admitted: the files as they are when it stops, and its outcome.\<close>

definition write_commitment ::
    "journal \<Rightarrow> deletion_request \<Rightarrow> pystr \<Rightarrow> jdict \<Rightarrow> nat \<Rightarrow> pystr \<Rightarrow> journal_fs \<Rightarrow> journal_fs \<times> (journal_error + commitment)" where
  "write_commitment j rq ciphertext state head_sequence head_digest fs =
     (let sequence = head_sequence + 1;
          entry = entry_payload j rq sequence ciphertext head_digest;
          digest = sha_hex j (line_of entry);
          state' = advance_state j state sequence digest in
      case put_entry sequence entry fs of
        Inl e \<Rightarrow> (fs, Inl e)
      | Inr fs1 \<Rightarrow>
          (let fs2 = put_state state' fs1 in
           case put_witness j sequence digest (dq_committed_at rq) fs2 of
             Inl e \<Rightarrow> (fs2, Inl e)
           | Inr fs3 \<Rightarrow> (fs3, and_then (verify_locked j fs3) (\<lambda>(_, commitments). Inr (last commitments)))))"

definition append_locked ::
    "journal \<Rightarrow> pybytes \<Rightarrow> deletion_request \<Rightarrow> journal_fs \<Rightarrow> journal_fs \<times> (journal_error + commitment)" where
  "append_locked j nonce rq fs =
     (case verify_locked j fs of
        Inl e \<Rightarrow> (fs, Inl e)
      | Inr (state, commitments) \<Rightarrow>
          (case find (\<lambda>c. cm_deletion_id c = dq_deletion_id rq) commitments of
             Some existing \<Rightarrow> (fs, replay_commitment j rq existing)
           | None \<Rightarrow>
               (case and_then (head_of state) (\<lambda>(head_sequence, head_digest).
                       and_then (lift_auth (encrypt_lifecycle_provider_subject (jr_crypto j) (jr_aead j) (jr_settings j) nonce
                           (dq_deletion_id rq) (dq_subject rq))) (\<lambda>ciphertext.
                       Inr (head_sequence, head_digest, ciphertext))) of
                  Inl e \<Rightarrow> (fs, Inl e)
                | Inr (head_sequence, head_digest, ciphertext) \<Rightarrow>
                    write_commitment j rq ciphertext state head_sequence head_digest fs)))"

definition append_commitment :: "journal \<Rightarrow> pybytes \<Rightarrow> deletion_request \<Rightarrow> journal_fs \<Rightarrow> journal_fs \<times> (journal_error + commitment)" where
  "append_commitment j nonce rq fs =
     (case and_then (lift_auth (lifecycle_hmac (jr_crypto j) (jr_settings j) ''subject'' (dq_subject rq))) (\<lambda>expected.
             and_then (compare_digest (dq_subject_hmac rq) expected) (\<lambda>_. locked fs (\<lambda>_. Inr ()))) of
        Inl e \<Rightarrow> (fs, Inl e)
      | Inr _ \<Rightarrow> append_locked j nonce rq fs)"

subsection \<open>Initialization\<close>

definition initial_content :: "journal \<Rightarrow> time \<Rightarrow> jdict" where
  "initial_content j created =
     [(lit ''format'', JStr journal_format), (lit ''created_at'', JStr (utc_text_us created)),
      (lit ''hmac_key_sha256'', JStr (jr_hmac_fp j)), (lit ''aead_key_sha256'', JStr (jr_aead_fp j)),
      (lit ''witness_hmac_key_sha256'', JStr (jr_witness_fp j)), (lit ''head_sequence'', JInt 0),
      (lit ''head_digest'', JStr zero_digest)]"

definition initial_state :: "journal \<Rightarrow> time \<Rightarrow> jdict" where
  "initial_state j created =
     (let state = initial_content j created in state @ [(lit ''state_mac'', JStr (record_mac j ''state'' state))])"

text \<open>
  \<open>initialize\<close> after its directories exist with their permissions and the locks are held.  A
  journal without its state file is completed from an existing first witness, if there is one.
\<close>

definition initialize_locked :: "journal \<Rightarrow> time \<Rightarrow> journal_fs \<Rightarrow> journal_fs \<times> (journal_error + unit)" where
  "initialize_locked j now fs =
     (if js_state fs \<noteq> None then (fs, and_then (verify_locked j fs) (\<lambda>_. Inr ()))
      else
        (let existing = sorted_entries (js_witness fs) in
         case (if existing = [] then Inr now
               else and_then (require (length existing = 1 \<and> fst (hd existing) = entry_name 0) Journal_Error) (\<lambda>_.
                    and_then (read_json j (Some (snd (hd existing)))) (\<lambda>w. utc_at w ''observed_at''))) of
           Inl e \<Rightarrow> (fs, Inl e)
         | Inr created \<Rightarrow>
             (let state = initial_state j created;
                  fs1 = (if existing = []
                         then fs\<lparr>js_witness := add_file (entry_name 0)
                                   (line_of (witness_payload j 0 zero_digest zero_digest created)) (js_witness fs)\<rparr>
                         else fs) in
              case verify_witness_locked j fs1 state 0 zero_digest [] of
                Inl e \<Rightarrow> (fs1, Inl e)
              | Inr _ \<Rightarrow>
                  (let fs2 = put_state state fs1 in
                   (fs2, and_then (verify_locked j fs2) (\<lambda>_. Inr ()))))))"

end
