(* ===== verification/DeletionJournalSafety.thy ===== *)
theory DeletionJournalSafety
  imports DeletionJournal
begin

text \<open>
  The deletion journal keeps its promise: an append to a verified journal gives a verified journal
  with exactly one more commitment, a replay changes nothing, and every crash in the middle of an
  append leaves a journal that verification refuses.
\<close>

subsection \<open>Names of entries\<close>

lemma digits_value_acc: "digits_value acc s = acc * 10 ^ length s + digits_value 0 s"
proof (induction s arbitrary: acc)
  case (Cons c s)
  show ?case using Cons [of "acc * 10 + (c - 48)"] Cons [of "c - 48"] by (simp add: algebra_simps)
qed simp

lemma digits_value_bound: "list_all digit s \<Longrightarrow> digits_value 0 s < 10 ^ length s"
proof (induction s)
  case (Cons c s)
  then have "digits_value 0 s < 10 ^ length s" "c - 48 \<le> 9" by (auto simp: digit_def)
  then have "(c - 48) * 10 ^ length s + digits_value 0 s < 9 * 10 ^ length s + 10 ^ length s"
    by (intro add_le_less_mono mult_le_mono1)
  then show ?case using digits_value_acc [of "c - 48" s] by simp
qed simp

lemma digits_order:
  "length xs = length ys \<Longrightarrow> list_all digit xs \<Longrightarrow> list_all digit ys \<Longrightarrow> digits_value 0 xs < digits_value 0 ys \<Longrightarrow> xs @ z < ys @ z"
proof (induction xs ys rule: list_induct2)
  case (Cons x xs y ys)
  have v: "digits_value 0 (x # xs) = (x - 48) * 10 ^ length xs + digits_value 0 xs"
    "digits_value 0 (y # ys) = (y - 48) * 10 ^ length xs + digits_value 0 ys"
    using digits_value_acc [of "x - 48" xs] digits_value_acc [of "y - 48" ys] Cons.hyps by simp_all
  have b: "digits_value 0 xs < 10 ^ length xs" "digits_value 0 ys < 10 ^ length xs"
    using digits_value_bound [of xs] digits_value_bound [of ys] Cons.prems Cons.hyps by simp_all
  consider "x < y" | "x = y" | "y < x" by linarith
  then show ?case
  proof cases
    case 3
    then have "Suc (y - 48) \<le> x - 48" using Cons.prems by (auto simp: digit_def)
    then have "Suc (y - 48) * 10 ^ length xs \<le> (x - 48) * 10 ^ length xs" by (rule mult_le_mono1)
    then have "digits_value 0 (y # ys) < digits_value 0 (x # xs)" unfolding v using b by simp
    with Cons.prems show ?thesis by simp
  qed (use Cons v in auto)
qed simp

lemma entry_digits:
  assumes "n < 10 ^ 20"
  shows "length (zero_pad 20 (digits_of n)) = 20" "list_all digit (zero_pad 20 (digits_of n))"
    "digits_value 0 (zero_pad 20 (digits_of n)) = n"
proof -
  have "length (digits_of n) \<le> 20" using digits_of_length [of n 20] assms by simp
  then show "length (zero_pad 20 (digits_of n)) = 20" by (simp add: zero_pad_def)
  show "list_all digit (zero_pad 20 (digits_of n))"
    using digits_of_digits [of n] by (auto simp: zero_pad_def list_all_iff digit_def)
  show "digits_value 0 (zero_pad 20 (digits_of n)) = n" by (simp add: zero_pad_def digits_value_zeros digits_value_digits_of)
qed

lemma entry_name_less: "m < n \<Longrightarrow> n < 10 ^ 20 \<Longrightarrow> entry_name m < entry_name n"
  unfolding entry_name_def using entry_digits [of m] entry_digits [of n] by (intro digits_order) auto

lemma sorted_entries_add:
  assumes names: "map fst (sorted_entries l) = map entry_name [k..<n]" and n: "n < 10 ^ 20"
  shows "sorted_entries (add_file (entry_name n) bs l) = sorted_entries l @ [(entry_name n, new_file bs)]"
    "entry_name n \<notin> fst ` set (ld_entries l)"
proof -
  have less: "x < entry_name n" if "x \<in> fst ` set (ld_entries l)" for x
  proof -
    have "fst ` set (ld_entries l) = set (map fst (sorted_entries l))" by (simp add: sorted_entries_def)
    then have "fst ` set (ld_entries l) = entry_name ` {k..<n}" using names by simp
    then show ?thesis using that n entry_name_less by auto
  qed
  then show "entry_name n \<notin> fst ` set (ld_entries l)" by blast
  have ins: "insort_key fst y (zs @ [x]) = insort_key fst y zs @ [x]" if "fst y < fst x" for zs and x y :: "pystr \<times> jfile"
    using that by (induction zs) auto
  have snoc: "sort_key fst (xs @ [x]) = sort_key fst xs @ [x]" if "\<forall>y \<in> set xs. fst y < fst x" for xs and x :: "pystr \<times> jfile"
    using that by (induction xs) (auto simp: ins)
  show "sorted_entries (add_file (entry_name n) bs l) = sorted_entries l @ [(entry_name n, new_file bs)]"
    using less by (simp add: sorted_entries_def add_file_def snoc)
qed

subsection \<open>Records that were written are read back\<close>

lemma lit_eq [simp]: "lit a = lit b \<longleftrightarrow> a = b"
  unfolding lit_def by (rule inj_map_eq_map) (auto simp: inj_def)

text \<open>The records of the journal are flat: texts and small numbers under distinct keys.\<close>

definition flat_value :: "json \<Rightarrow> bool" where
  "flat_value v = (case v of JStr s \<Rightarrow> list_all scalar_value s | JInt i \<Rightarrow> length (digits_of (nat \<bar>i\<bar>)) \<le> 4300 | _ \<Rightarrow> False)"

definition flat :: "jdict \<Rightarrow> bool" where
  "flat d \<longleftrightarrow> distinct (map fst d) \<and> list_all (\<lambda>kv. list_all scalar_value (fst kv) \<and> flat_value (snd kv)) d"

lemma flat_fine:
  assumes "flat d"
  shows "fine (JObj d)" "nesting (JObj d) = 1" "canon_items d = sort_key fst d"
proof -
  have v: "fine (snd kv) \<and> nesting (snd kv) = 0 \<and> canon (snd kv) = snd kv" if "kv \<in> set d" for kv
    using assms that by (cases "snd kv") (auto simp: flat_def flat_value_def list_all_iff)
  show "fine (JObj d)" using assms v by (auto simp: flat_def list_all_iff)
  have "map (\<lambda>kv. nesting (snd kv)) d = map (\<lambda>kv. 0) d" using v by simp
  moreover have "fold max (map (\<lambda>kv. 0::nat) d) 0 = 0" by (induction d) auto
  ultimately show "nesting (JObj d) = 1" by (simp only: nesting.simps One_nat_def)
  show "canon_items d = sort_key fst d" using v by (intro map_idI) auto
qed

lemma line_ascii: "flat d \<Longrightarrow> is_ascii (line_of d)"
  using ascii_dumps [OF flat_fine(1)] by (simp add: line_of_def canonical_record_def is_ascii_def del: json_text.simps)

lemma load_line:
  assumes "flat d" "1 \<le> jr_limit j"
  shows "json_loads (loader_hooks j) (jr_limit j) (line_of d) = Inr (JObj (sort_key fst d))"
proof -
  have "keeps_distinct (loader_hooks j)" by (simp add: keeps_distinct_def loader_hooks_def dict_of_distinct)
  from ascii_writer.json_loads_object [OF flat_fine(1) [OF assms(1)] refl _ this, of "jr_limit j" "[10]"]
  have "\<exists>bs. utf8_encode (json_dumps_ascii (JObj d) @ [10]) = Some bs \<and> json_loads (loader_hooks j) (jr_limit j) bs = Inr (canon (JObj d))"
    using assms flat_fine(2) by (simp del: json_text.simps canon.simps nesting.simps)
  moreover have "utf8_encode (line_of d) = Some (line_of d)" by (rule ascii_utf8 [OF line_ascii [OF assms(1)]])
  ultimately have "json_loads (loader_hooks j) (jr_limit j) (line_of d) = Inr (canon (JObj d))"
    by (simp add: line_of_def canonical_record_def del: json_text.simps canon.simps)
  then show ?thesis by (simp only: canon_object flat_fine(3) [OF assms(1)])
qed

definition fits :: "jdict \<Rightarrow> bool" where
  "fits d \<longleftrightarrow> length (line_of d) \<le> 16384"

lemma read_written:
  "flat d \<Longrightarrow> fits d \<Longrightarrow> 1 \<le> jr_limit j \<Longrightarrow> read_json j (Some (new_file (line_of d))) = Inr (sort_key fst d)"
  using load_line [of d j] by (simp add: read_json_def new_file_def fits_def line_of_def)

lemma canonical_perm:
  assumes "distinct (map fst xs)" "distinct (map fst ys)" "set xs = set ys"
  shows "canonical_record xs = canonical_record ys"
  unfolding canonical_record_def json_text_object sorted_keys_unique [OF assms] ..

lemma distinct_sorted: "distinct (map fst d) \<Longrightarrow> distinct (map fst (sort_key fst d))"
  by (simp add: distinct_map)

lemma line_sorted: "distinct (map fst d) \<Longrightarrow> line_of (sort_key fst d) = line_of d"
  unfolding line_of_def using canonical_perm [OF distinct_sorted, of d d] by simp

lemma lookup_sorted: "distinct (map fst d) \<Longrightarrow> map_of (sort_key fst d) k = map_of d k"
  by (rule fun_cong [OF map_of_inject_set [THEN iffD2]]) (simp_all add: distinct_map)

lemma record_read_back:
  assumes "distinct (map fst (p @ [(lit k, v)]))"
  shows "canonical_record (without k (sort_key fst (p @ [(lit k, v)]))) = canonical_record p"
proof (rule canonical_perm)
  let ?r = "p @ [(lit k, v)]"
  show "distinct (map fst (without k (sort_key fst ?r)))"
    unfolding without_def by (rule distinct_map_filter [OF distinct_sorted [OF assms]])
  show "distinct (map fst p)" using assms by simp
  show "set (without k (sort_key fst ?r)) = set p" using assms by (force simp: without_def)
qed

lemma map_fst_dict_set: "map fst (dict_set k v d) = map fst d @ (if k \<in> fst ` set d then [] else [k])"
  by (induction d) (auto simp: image_iff, force)

lemma dict_of_keys: "distinct (map fst (dict_of kvs))"
proof -
  have "distinct (map fst (fold (\<lambda>(k, v). dict_set k v) kvs d))" if "distinct (map fst d)" for d :: "('a \<times> 'b) list"
    using that
  proof (induction kvs arbitrary: d)
    case (Cons kv kvs)
    then show ?case by (cases kv) (auto simp: map_fst_dict_set)
  qed simp
  then show ?thesis by (simp add: dict_of_def)
qed

subsection \<open>Size of the state and witness records\<close>

text \<open>An escape takes at most twelve characters, so a flat record is bounded by the size of its texts.\<close>

definition value_size :: "json \<Rightarrow> nat" where
  "value_size v = (case v of JStr s \<Rightarrow> 12 * length s + 2 | JInt i \<Rightarrow> 1 + length (digits_of (nat \<bar>i\<bar>)) | _ \<Rightarrow> 0)"

definition record_size :: "jdict \<Rightarrow> nat" where
  "record_size d = sum_list (map (\<lambda>kv. 12 * length (fst kv) + 4 + value_size (snd kv)) d)"

lemma length_escape: "length (ascii_escape c) \<le> 12"
  by (simp add: ascii_escape_def json_escape_def hex4_def Let_def)

lemma length_quoted: "length (quoted ascii_escape s) \<le> 12 * length s + 2"
proof (induction s)
  case (Cons c s)
  then show ?case using length_escape [of c] by (simp add: quoted_def)
qed (simp add: quoted_def)

lemma length_join: "length (comma_join xs) \<le> sum_list (map (\<lambda>x. Suc (length x)) xs)"
  by (induction xs rule: comma_join.induct) auto

lemma line_size: "flat d \<Longrightarrow> length (line_of d) \<le> record_size d + 3"
proof -
  assume flat: "flat d"
  let ?f = "\<lambda>kv. quoted ascii_escape (fst kv) @ 58 # json_text ascii_escape (snd kv)"
  have v: "length (json_text ascii_escape (snd kv)) \<le> value_size (snd kv)" if "kv \<in> set d" for kv
    using flat that length_quoted
    by (cases "snd kv") (auto simp: flat_def flat_value_def value_size_def list_all_iff int_text_def)
  have "Suc (length (?f kv)) \<le> 12 * length (fst kv) + 4 + value_size (snd kv)" if "kv \<in> set d" for kv
    using v [OF that] length_quoted [of "fst kv"] by simp
  then have "sum_list (map (\<lambda>kv. Suc (length (?f kv))) (sort_key fst d)) \<le> sum_list (map (\<lambda>kv. 12 * length (fst kv) + 4 + value_size (snd kv)) (sort_key fst d))"
    by (intro sum_list_mono) auto
  also have "\<dots> = record_size d"
  proof -
    have "mset (map f (sort_key fst d)) = mset (map f d)" for f :: "pystr \<times> json \<Rightarrow> nat" by simp
    from arg_cong [OF this, of sum_mset] show ?thesis unfolding record_size_def by (simp only: sum_mset_sum_list)
  qed
  finally have "length (comma_join (map ?f (sort_key fst d))) \<le> record_size d"
    using length_join [of "map ?f (sort_key fst d)"] by (simp add: comp_def)
  then show ?thesis by (simp add: line_of_def canonical_record_def json_text_object del: json_text.simps)
qed

lemma length_hex [simp]: "length (hexdigest bs) = 2 * length bs"
  by (induction bs) (simp_all add: hexdigest_def hex2_def Let_def)

lemma utc_text_length: "representable t \<Longrightarrow> length (utc_text_us t) = 27"
proof -
  assume r: "representable t"
  obtain y m d where civil: "civil_from_days (t div 86400000000) = (y, m, d)" by (metis prod_cases3)
  define us s where us: "us = t mod 86400000000" "s = us div 1000000"
  have "0 \<le> us" "us < 86400000000" by (simp_all add: us)
  then have sb: "0 \<le> s" "s < 86400" unfolding us by linarith+
  have "length (padded 4 y) = 4" using r civil by (intro padded_field) (simp_all add: representable_def year_of_def)
  moreover have "length (padded 2 m) = 2" "length (padded 2 d) = 2"
    using civil_round_trip [OF civil] by (auto intro!: padded_field)
  moreover have "length (padded 2 (s div 3600)) = 2" "length (padded 2 (s div 60 mod 60)) = 2" "length (padded 2 (s mod 60)) = 2"
    using sb pos_mod_bound [of 60 s] pos_mod_bound [of 60 "s div 60"] by (auto intro!: padded_field)
  moreover have "length (padded 6 (us mod 1000000)) = 6" by (intro padded_field) simp_all
  ultimately show ?thesis
    unfolding utc_text_us_def civil prod.case Let_def us [symmetric] length_append by (simp only: list.size)
qed

subsection \<open>What a verified journal is made of\<close>

text \<open>A configured journal: sound primitives and the three fingerprints of its constructor.\<close>

definition journal_ok :: "journal \<Rightarrow> bool" where
  "journal_ok j \<longleftrightarrow> crypto_ok (jr_crypto j) \<and> aead_ok (jr_aead j) \<and> 1 \<le> jr_limit j \<and>
     digest_ok (jr_hmac_fp j) \<and> digest_ok (jr_aead_fp j) \<and> digest_ok (jr_witness_fp j)"

lemma hex_digits: "byte_list bs \<Longrightarrow> list_all lower_hex (hexdigest bs)"
proof (induction bs)
  case (Cons b bs)
  have "lower_hex (if d < 10 then 48 + d else 87 + d)" if "d < 16" for d using that by (simp add: lower_hex_def)
  moreover have "b div 16 < 16" "b mod 16 < 16" using Cons by (simp_all add: less_mult_imp_div_less)
  ultimately have "list_all lower_hex (hex2 b)"
    unfolding hex2_def Let_def list.pred_inject(2) by (intro conjI list.pred_inject(1)) blast+
  with Cons show ?case by (simp add: hexdigest_def)
qed (simp add: hexdigest_def)

lemma digest_ok_hex: "byte_list bs \<Longrightarrow> length bs = 32 \<Longrightarrow> digest_ok (hexdigest bs)"
  by (simp add: digest_ok_def hex_digits)

lemma digests_ok:
  assumes "journal_ok j"
  shows "digest_ok (sha_hex j x)" "digest_ok (record_mac j l d)" "digest_ok (witness_mac j d)"
  using assms by (auto simp: journal_ok_def crypto_ok_def sha_hex_def record_mac_def witness_mac_def intro!: digest_ok_hex)

lemma digest_ascii: "digest_ok s \<Longrightarrow> is_ascii s"
  by (auto simp: digest_ok_def is_ascii_def list_all_iff lower_hex_def)

lemma ascii_scalar: "is_ascii s \<Longrightarrow> list_all scalar_value s"
  by (auto simp: is_ascii_def list_all_iff)

lemma digest_zero: "digest_ok zero_digest"
  by (simp add: digest_ok_def zero_digest_def lower_hex_def list_all_iff)

lemma format_ascii: "is_ascii journal_format" "is_ascii witness_format"
  by (simp_all add: journal_format_def witness_format_def is_ascii_def lit_def)

lemma ascii_utc: "is_ascii (utc_text_us t)"
  using ascii_utc_text by (simp add: is_ascii_def)

theorem new_journal_ok:
  assumes "crypto_ok cr" "aead_ok ae" "1 \<le> limit" "new_journal cr ae limit fl st = Inr j"
  shows "journal_ok j"
proof -
  have fp: "credential_fingerprint cr v = Inr x \<Longrightarrow> digest_ok x" for v x
    using assms(1) by (auto simp: credential_fingerprint_def crypto_ok_def digest_ok_hex split: option.splits if_splits)
  then show ?thesis
    using assms by (auto simp: new_journal_def journal_ok_def split: option.splits)
qed

text \<open>Reading a record that was written: the same lookups, the same line, the same content under any MAC.\<close>

lemma read_back:
  assumes "flat d" "fits d" "1 \<le> jr_limit j"
  obtains r where "read_json j (Some (new_file (line_of d))) = Inr r" "map_of r = map_of d" "fst ` set r = fst ` set d"
    "line_of r = line_of d" "\<forall>k. canonical_record (without k r) = canonical_record (without k d)" "distinct (map fst r)"
proof
  have d: "distinct (map fst d)" using assms(1) by (simp add: flat_def)
  show "read_json j (Some (new_file (line_of d))) = Inr (sort_key fst d)" by (rule read_written [OF assms])
  show "map_of (sort_key fst d) = map_of d" using lookup_sorted [OF d] by blast
  show "fst ` set (sort_key fst d) = fst ` set d" by simp
  show "line_of (sort_key fst d) = line_of d" by (rule line_sorted [OF d])
  show "distinct (map fst (sort_key fst d))" by (rule distinct_sorted [OF d])
  show "\<forall>k. canonical_record (without k (sort_key fst d)) = canonical_record (without k d)"
    unfolding without_def using d distinct_sorted [OF d] by (intro allI canonical_perm distinct_map_filter) auto
qed

lemma read_json_distinct: "read_json j f = Inr d \<Longrightarrow> distinct (map fst d)"
proof -
  assume "read_json j f = Inr d"
  then obtain g :: jfile where "json_loads (loader_hooks j) (jr_limit j) (jf_bytes g) = Inr (JObj d)"
    by (auto simp: read_json_def split: option.splits sum.splits json_error.splits json.splits)
  then obtain s r where "scan_once (loader_hooks j) (jr_limit j) s = Inr (JObj d, r)"
    by (auto simp: json_loads_def json_decode_def split: option.splits if_splits)
  then obtain inner where "scan_with (loader_hooks j) inner s = Inr (JObj d, r)" by (cases "jr_limit j") auto
  then obtain nested where "inner = Some nested" "scan_object (loader_hooks j) nested (tl s) = Inr (JObj d, r)"
    by (auto simp: scan_with_def scan_array_def scan_literal_def scan_number_def Let_def split: list.splits if_splits option.splits prod.splits)
  then obtain kvs where "d = dict_of kvs" by (auto simp: scan_object_def loader_hooks_def Let_def split: if_splits)
  then show ?thesis by (simp add: dict_of_keys)
qed

lemma compare_digest_eq [simp]: "compare_digest x y = Inr u \<longleftrightarrow> is_ascii x \<and> x = y"
  by (auto simp: compare_digest_def)

lemma text_at_Inr [simp]: "text_at d k = Inr s \<longleftrightarrow> map_of d (lit k) = Some (JStr s)"
  by (auto simp: text_at_def split: option.splits json.splits)

lemma utc_at_Inr [simp]: "utc_at d k = Inr t \<longleftrightarrow> representable t \<and> map_of d (lit k) = Some (JStr (utc_text_us t))"
proof
  show "representable t \<and> map_of d (lit k) = Some (JStr (utc_text_us t))" if "utc_at d k = Inr t"
    using that by (auto simp: utc_at_def dest: parse_utc_Some [THEN iffD1] split: option.splits)
qed (simp add: utc_at_def parse_utc_round_trip)

subsection \<open>A new entry verifies\<close>

text \<open>What the caller of an append must supply: Unicode texts, none of them empty, and real dates.\<close>

definition request_ok :: "deletion_request \<Rightarrow> bool" where
  "request_ok rq \<longleftrightarrow> dq_deletion_id rq \<noteq> [] \<and> dq_backup_generation_id rq \<noteq> [] \<and> dq_policy_version rq \<noteq> [] \<and>
     list_all scalar_value (dq_deletion_id rq) \<and> list_all scalar_value (dq_subject rq) \<and>
     list_all scalar_value (dq_backup_generation_id rq) \<and> list_all scalar_value (dq_policy_version rq) \<and>
     representable (dq_backup_generation_created_at rq) \<and> representable (dq_committed_at rq)"

definition commitment_of :: "deletion_request \<Rightarrow> nat \<Rightarrow> pystr \<Rightarrow> commitment" where
  "commitment_of rq sequence ciphertext =
     \<lparr>cm_sequence = sequence, cm_deletion_id = dq_deletion_id rq, cm_subject_hmac = dq_subject_hmac rq,
      cm_subject_ciphertext = ciphertext, cm_backup_generation_id = dq_backup_generation_id rq,
      cm_backup_generation_created_at = dq_backup_generation_created_at rq, cm_committed_at = dq_committed_at rq,
      cm_policy_version = dq_policy_version rq\<rparr>"

lemma small_number: "n < 10 ^ 20 \<Longrightarrow> length (digits_of n) \<le> 20"
  using digits_of_length [of n 20] by simp

lemma flat_text [simp]: "flat_value (JStr s) \<longleftrightarrow> list_all scalar_value s"
  by (simp add: flat_value_def)

lemma flat_number [simp]: "n < 10 ^ 20 \<Longrightarrow> flat_value (JInt (int n))"
  using small_number [of n] by (simp add: flat_value_def)

lemmas ascii_facts = digest_ascii [THEN ascii_scalar] format_ascii [THEN ascii_scalar] ascii_utc [THEN ascii_scalar]

lemma entry_flat:
  assumes "journal_ok j" "request_ok rq" "is_ascii ciphertext" "digest_ok prior" "digest_ok (dq_subject_hmac rq)" "n < 10 ^ 20"
  shows "flat (entry_payload j rq n ciphertext prior)"
  using assms digests_ok(2) [OF assms(1)]
  by (simp add: flat_def entry_payload_def entry_content_def Let_def request_ok_def ascii_facts ascii_scalar del: power_numeral)

lemma subject_digest:
  assumes "journal_ok j" "lifecycle_hmac (jr_crypto j) st l v = Inr h"
  shows "digest_ok h"
  using assms by (auto simp: lifecycle_hmac_def journal_ok_def crypto_ok_def digest_ok_hex split: option.splits)

lemma new_entry_verifies:
  assumes j: "journal_ok j" and rq: "request_ok rq" and n: "n < 10 ^ 20" and prior: "digest_ok prior"
    and fresh: "dq_deletion_id rq \<notin> cm_deletion_id ` set seen"
    and hmac: "lifecycle_hmac (jr_crypto j) (jr_settings j) ''subject'' (dq_subject rq) = Inr (dq_subject_hmac rq)"
    and nonce: "length nonce = 12" "byte_list nonce"
    and enc: "encrypt_lifecycle_provider_subject (jr_crypto j) (jr_aead j) (jr_settings j) nonce (dq_deletion_id rq) (dq_subject rq) = Inr ct"
    and fit: "fits (entry_payload j rq n ct prior)"
  defines "entry \<equiv> entry_payload j rq n ct prior"
  shows "verify_entry_step j n prior seen (entry_name n, new_file (line_of entry)) = Inr (sha_hex j (line_of entry), commitment_of rq n ct)"
proof -
  have ae: "aead_ok (jr_aead j)" and lim: "1 \<le> jr_limit j" using j by (simp_all add: journal_ok_def)
  have sc: "list_all scalar_value (dq_subject rq)" using rq by (simp add: request_ok_def)
  note ct = encrypt_decrypt [OF ae nonce sc enc [unfolded encrypt_lifecycle_provider_subject_def]]
  have hd: "digest_ok (dq_subject_hmac rq)" by (rule subject_digest [OF j hmac])
  have flat: "flat entry" unfolding entry_def by (rule entry_flat [OF j rq ct(2) prior hd n])
  obtain r where r: "read_json j (Some (new_file (line_of entry))) = Inr r" "map_of r = map_of entry" "fst ` set r = fst ` set entry"
    "line_of r = line_of entry" "\<forall>k. canonical_record (without k r) = canonical_record (without k entry)" "distinct (map fst r)"
    by (rule read_back [OF flat fit [folded entry_def] lim])
  define content where content_def: "content = entry_content rq n ct prior"
  have entry_split: "entry = content @ [(lit ''entry_mac'', JStr (record_mac j ''entry'' content))]"
    by (simp add: entry_def entry_payload_def content_def Let_def)
  have "without ''entry_mac'' entry = content" unfolding entry_split by (simp add: without_def content_def entry_content_def)
  then have mac: "record_mac j ''entry'' (without ''entry_mac'' r) = record_mac j ''entry'' content"
    by (simp add: record_mac_def r(5))
  have keys: "has_keys entry_keys r"
    unfolding has_keys_def r(3) entry_split by (simp add: content_def entry_content_def entry_keys_def insert_commute)
  have fields: "map_of entry (lit ''format'') = Some (JStr journal_format)" "map_of entry (lit ''sequence'') = Some (JInt (int n))"
    "map_of entry (lit ''deletion_id'') = Some (JStr (dq_deletion_id rq))" "map_of entry (lit ''subject_hmac'') = Some (JStr (dq_subject_hmac rq))"
    "map_of entry (lit ''subject_ciphertext'') = Some (JStr ct)" "map_of entry (lit ''prior_digest'') = Some (JStr prior)"
    "map_of entry (lit ''backup_generation_id'') = Some (JStr (dq_backup_generation_id rq))"
    "map_of entry (lit ''policy_version'') = Some (JStr (dq_policy_version rq))"
    "map_of entry (lit ''backup_generation_created_at'') = Some (JStr (utc_text_us (dq_backup_generation_created_at rq)))"
    "map_of entry (lit ''committed_at'') = Some (JStr (utc_text_us (dq_committed_at rq)))"
    "map_of entry (lit ''entry_mac'') = Some (JStr (record_mac j ''entry'' content))"
    unfolding entry_split by (simp_all add: content_def entry_content_def)
  have utc: "utc_at r ''backup_generation_created_at'' = Inr (dq_backup_generation_created_at rq)"
    "utc_at r ''committed_at'' = Inr (dq_committed_at rq)" using rq by (simp_all add: r(2) fields request_ok_def)
  have texts: "text_at r k = Inr x \<longleftrightarrow> map_of entry (lit k) = Some (JStr x)" for k x by (simp add: r(2))
  have asc: "is_ascii (record_mac j l d)" "is_ascii (dq_subject_hmac rq)" for l d
    using digests_ok(2) [OF j] hd digest_ascii by simp_all
  show ?thesis
    using rq fresh hd ct(1,3) hmac
    by (simp add: verify_entry_step_def r(1,4) keys holds_def r(2) fields mac asc utc equals_int_def request_ok_def
        fields decrypt_lifecycle_provider_subject_def lift_auth_def commitment_of_def
        texts)
qed

subsection \<open>The advanced state verifies\<close>

lemma map_of_dict_set: "map_of (dict_set k v d) = (map_of d)(k \<mapsto> v)"
  by (induction d) (auto simp: fun_eq_iff)

lemma keys_dict_set: "fst ` set (dict_set k v d) = insert k (fst ` set d)"
proof -
  have "fst ` set (dict_set k v d) = set (map fst (dict_set k v d))" by simp
  also have "\<dots> = insert k (fst ` set d)" unfolding map_fst_dict_set by auto
  finally show ?thesis .
qed

lemma distinct_dict_set: "distinct (map fst d) \<Longrightarrow> distinct (map fst (dict_set k v d))"
  by (simp add: map_fst_dict_set)

lemma flatI:
  assumes "distinct (map fst d)" "\<And>k v. map_of d k = Some v \<Longrightarrow> list_all scalar_value k \<and> flat_value v"
  shows "flat d"
proof -
  have "list_all scalar_value (fst kv) \<and> flat_value (snd kv)" if "kv \<in> set d" for kv
    using assms(2) [of "fst kv" "snd kv"] distinct_lookup [OF assms(1), of "fst kv" "snd kv"] that by simp
  with assms(1) show ?thesis by (simp add: flat_def list_all_iff)
qed

lemma small_record:
  assumes "flat d" "length d \<le> 9" "\<And>k v. map_of d k = Some v \<Longrightarrow> length k \<le> 24 \<and> value_size v \<le> 770"
  shows "fits d"
proof -
  have d: "distinct (map fst d)" using assms(1) by (simp add: flat_def)
  have "12 * length (fst kv) + 4 + value_size (snd kv) \<le> 1062" if "kv \<in> set d" for kv
    using assms(3) [of "fst kv" "snd kv"] distinct_lookup [OF d, of "fst kv" "snd kv"] that by simp
  then have "record_size d \<le> sum_list (map (\<lambda>_. 1062) d)" unfolding record_size_def by (intro sum_list_mono) auto
  also have "\<dots> = 1062 * length d" by (simp add: sum_list_triv)
  finally show ?thesis using line_size [OF assms(1)] assms(2) by (simp add: fits_def)
qed

lemma keys_length:
  assumes "distinct (map fst d)" "has_keys ks d"
  shows "length d \<le> length ks"
proof -
  have "length d = card (fst ` set d)" using assms(1) distinct_card [of "map fst d"] by simp
  also have "\<dots> \<le> card (set ks)" using assms(2) by (simp add: has_keys_def card_image_le)
  finally show ?thesis using card_length [of ks] by simp
qed

definition short_text :: "pystr \<Rightarrow> bool" where
  "short_text s \<longleftrightarrow> is_ascii s \<and> length s \<le> 64"

lemma short_texts:
  "digest_ok s \<Longrightarrow> short_text s" "short_text journal_format" "short_text witness_format" "representable t \<Longrightarrow> short_text (utc_text_us t)"
  using digest_ascii format_ascii ascii_utc utc_text_length
  by (auto simp: short_text_def digest_ok_def journal_format_def witness_format_def)

definition short_value :: "json \<Rightarrow> bool" where
  "short_value v \<longleftrightarrow> (\<exists>s. v = JStr s \<and> short_text s) \<or> (\<exists>n. v = JInt (int n) \<and> n < 10 ^ 20)"

lemma short_value_flat: "short_value v \<Longrightarrow> flat_value v \<and> value_size v \<le> 770"
  using small_number by (fastforce simp: short_value_def short_text_def value_size_def ascii_scalar)

text \<open>A record with a known set of short keys and short values is flat and fits its file.\<close>

lemma short_record:
  assumes "distinct (map fst d)" "has_keys ks d" "length ks \<le> 9" "\<forall>k \<in> set ks. length k \<le> 24"
    and v: "\<And>k. k \<in> set ks \<Longrightarrow> \<exists>v. map_of d (lit k) = Some v \<and> short_value v"
  shows "flat d" "fits d"
proof -
  have each: "\<exists>k' \<in> set ks. k = lit k' \<and> short_value x" if "map_of d k = Some x" for k x
  proof -
    have "k \<in> fst ` set d" using that by (metis map_of_eq_None_iff option.distinct(1))
    then obtain k' where k': "k' \<in> set ks" "k = lit k'" using assms(2) by (auto simp: has_keys_def)
    then show ?thesis using v [OF k'(1)] that by auto
  qed
  show flat: "flat d"
    using assms(1)
  proof (rule flatI)
    fix k x assume "map_of d k = Some x"
    from each [OF this] show "list_all scalar_value k \<and> flat_value x" using short_value_flat by auto
  qed
  show "fits d"
    using flat
  proof (rule small_record)
    show "length d \<le> 9" using keys_length [OF assms(1,2)] assms(3) by simp
    fix k x assume "map_of d k = Some x"
    from each [OF this] show "length k \<le> 24 \<and> value_size x \<le> 770" using short_value_flat assms(4) by auto
  qed
qed

text \<open>What verification of a state file establishes about it.\<close>

definition state_sound :: "journal \<Rightarrow> jdict \<Rightarrow> nat \<Rightarrow> pystr \<Rightarrow> bool" where
  "state_sound j st n digest \<longleftrightarrow> distinct (map fst st) \<and> has_keys state_keys st \<and>
     holds st ''format'' journal_format \<and> (\<exists>t. utc_at st ''created_at'' = Inr t) \<and>
     holds st ''hmac_key_sha256'' (jr_hmac_fp j) \<and> holds st ''aead_key_sha256'' (jr_aead_fp j) \<and>
     holds st ''witness_hmac_key_sha256'' (jr_witness_fp j) \<and>
     map_of st (lit ''head_sequence'') = Some (JInt (int n)) \<and> holds st ''head_digest'' digest \<and> digest_ok digest \<and>
     holds st ''state_mac'' (record_mac j ''state'' (without ''state_mac'' st))"

lemma head_of_Inr: "head_of st = Inr (n, digest) \<longleftrightarrow> map_of st (lit ''head_sequence'') = Some (JInt (int n)) \<and>
    holds st ''head_digest'' digest \<and> digest_ok digest"
proof
  show "head_of st = Inr (n, digest)" if "map_of st (lit ''head_sequence'') = Some (JInt (int n)) \<and> holds st ''head_digest'' digest \<and> digest_ok digest"
    using that by (simp add: head_of_def holds_def)
qed (auto simp: head_of_def holds_def split: option.splits json.splits)

lemma verify_state_sound:
  "verify_state j f = Inr st \<Longrightarrow> head_of st = Inr (n, digest) \<Longrightarrow> state_sound j st n digest"
  by (auto simp: verify_state_def state_sound_def head_of_Inr holds_def dest: read_json_distinct)

lemma state_short:
  assumes j: "journal_ok j" and st: "state_sound j st n digest" and n: "n < 10 ^ 20"
  shows "flat st" "fits st"
proof -
  have v: "\<exists>v. map_of st (lit k) = Some v \<and> short_value v" if "k \<in> set state_keys" for k
  proof -
    have tx: "\<exists>v. map_of st (lit k) = Some v \<and> short_value v" if "holds st k s" "short_text s" for k s
      using that by (auto simp: holds_def short_value_def)
    have "short_text (jr_hmac_fp j)" "short_text (jr_aead_fp j)" "short_text (jr_witness_fp j)" "short_text digest"
      "short_text (record_mac j ''state'' d)" "short_text journal_format" for d
      using j st digests_ok(2) [OF j] short_texts(1,2) by (simp_all add: journal_ok_def state_sound_def)
    moreover have "holds st ''format'' journal_format" "holds st ''hmac_key_sha256'' (jr_hmac_fp j)" "holds st ''aead_key_sha256'' (jr_aead_fp j)"
      "holds st ''witness_hmac_key_sha256'' (jr_witness_fp j)" "holds st ''head_digest'' digest"
      "holds st ''state_mac'' (record_mac j ''state'' (without ''state_mac'' st))" using st by (simp_all add: state_sound_def)
    moreover have "k = ''head_sequence'' \<or> k = ''created_at'' \<or> k = ''format'' \<or> k = ''hmac_key_sha256'' \<or> k = ''aead_key_sha256'' \<or>
      k = ''witness_hmac_key_sha256'' \<or> k = ''head_digest'' \<or> k = ''state_mac''" using that by (auto simp: state_keys_def)
    ultimately consider "k = ''head_sequence''" | "k = ''created_at''" | "\<exists>s. holds st k s \<and> short_text s" by blast
    then show ?thesis
    proof cases
      case 1
      then show ?thesis using st n by (auto simp: state_sound_def short_value_def)
    next
      case 2
      then show ?thesis using st short_texts(4) by (auto simp: state_sound_def short_value_def)
    next
      case 3
      then show ?thesis using tx by blast
    qed
  qed
  have "distinct (map fst st)" "has_keys state_keys st" using st by (simp_all add: state_sound_def)
  from short_record [OF this _ _ v] show "flat st" "fits st" by (simp_all add: state_keys_def)
qed

lemma advance_state_sound:
  assumes j: "journal_ok j" and st: "state_sound j st n digest" and d: "digest_ok digest'"
  shows "state_sound j (advance_state j st m digest') m digest'"
    "map_of (advance_state j st m digest') (lit ''created_at'') = map_of st (lit ''created_at'')"
proof -
  define st2 where st2: "st2 = dict_set (lit ''head_digest'') (JStr digest') (dict_set (lit ''head_sequence'') (JInt (int m)) (without ''state_mac'' st))"
  have adv: "advance_state j st m digest' = dict_set (lit ''state_mac'') (JStr (record_mac j ''state'' st2)) st2"
    by (simp add: advance_state_def Let_def st2)
  have keys0: "fst ` set (without ''state_mac'' st) = fst ` set st - {lit ''state_mac''}" by (auto simp: without_def image_iff)
  have keys2: "fst ` set st2 = fst ` set st - {lit ''state_mac''}"
    using st by (auto simp: st2 keys_dict_set keys0 state_sound_def has_keys_def state_keys_def)
  have d2: "distinct (map fst st2)"
    unfolding st2 without_def using st by (intro distinct_dict_set distinct_map_filter) (simp add: state_sound_def)
  have snoc: "advance_state j st m digest' = st2 @ [(lit ''state_mac'', JStr (record_mac j ''state'' st2))]"
    unfolding adv by (rule dict_set_new) (simp add: keys2)
  have "without ''state_mac'' (advance_state j st m digest') = filter (\<lambda>kv. fst kv \<noteq> lit ''state_mac'') st2"
    by (simp add: snoc without_def)
  also have "\<dots> = st2" using keys2 by (auto simp: filter_id_conv)
  finally have wo: "without ''state_mac'' (advance_state j st m digest') = st2" .
  have look: "map_of (advance_state j st m digest') (lit k) =
      (if k = ''state_mac'' then Some (JStr (record_mac j ''state'' st2)) else if k = ''head_digest'' then Some (JStr digest')
       else if k = ''head_sequence'' then Some (JInt (int m)) else map_of st (lit k))" for k
    unfolding adv map_of_dict_set
    by (simp add: st2 map_of_dict_set without_def map_of_filter_key [of "\<lambda>k. k \<noteq> lit ''state_mac''"])
  have "distinct (map fst (advance_state j st m digest'))" unfolding adv by (rule distinct_dict_set [OF d2])
  moreover have "has_keys state_keys (advance_state j st m digest')"
    using st unfolding has_keys_def adv keys_dict_set keys2 by (auto simp: state_sound_def has_keys_def state_keys_def)
  ultimately show "state_sound j (advance_state j st m digest') m digest'"
    using st d unfolding state_sound_def wo by (simp add: holds_def look del: map_of_eq_Some_iff)
  show "map_of (advance_state j st m digest') (lit ''created_at'') = map_of st (lit ''created_at'')" by (simp add: look)
qed

lemma sound_state_verifies:
  assumes j: "journal_ok j" and st: "state_sound j st n digest" and n: "n < 10 ^ 20"
  obtains r where "verify_state j (Some (new_file (line_of st))) = Inr r" "head_of r = Inr (n, digest)"
    "map_of r = map_of st"
proof -
  have lim: "1 \<le> jr_limit j" using j by (simp add: journal_ok_def)
  obtain r where r: "read_json j (Some (new_file (line_of st))) = Inr r" "map_of r = map_of st" "fst ` set r = fst ` set st"
    "line_of r = line_of st" "\<forall>k. canonical_record (without k r) = canonical_record (without k st)" "distinct (map fst r)"
    by (rule read_back [OF state_short [OF assms] lim])
  have "record_mac j ''state'' (without ''state_mac'' r) = record_mac j ''state'' (without ''state_mac'' st)"
    by (simp add: record_mac_def r(5))
  moreover have "is_ascii (record_mac j l d)" for l d using digests_ok(2) [OF j] digest_ascii by simp
  ultimately have "verify_state j (Some (new_file (line_of st))) = Inr r"
    using st by (auto simp: verify_state_def r(1-3) state_sound_def holds_def has_keys_def text_at_def compare_digest_def
        and_then_def utc_at_def require_def split: sum.splits)
  moreover have "head_of r = Inr (n, digest)" using st by (simp add: head_of_Inr state_sound_def holds_def r(2))
  ultimately show thesis using that r(2) by blast
qed

subsection \<open>A new witness verifies\<close>

lemma witness_short:
  assumes j: "journal_ok j" and n: "n < 10 ^ 20" and d: "digest_ok head" "digest_ok prior" and t: "representable t"
  shows "flat (witness_payload j n head prior t)" "fits (witness_payload j n head prior t)"
proof -
  let ?w = "witness_payload j n head prior t" and ?c = "witness_content j n head prior t"
  have split: "?w = ?c @ [(lit ''witness_mac'', JStr (witness_mac j ?c))]" by (simp add: witness_payload_def Let_def)
  have keys: "map fst ?w = map lit witness_keys" unfolding split by (simp add: witness_content_def witness_keys_def)
  have "distinct (map lit witness_keys)" by (simp add: witness_keys_def)
  then have dist: "distinct (map fst ?w)" by (simp only: keys)
  have has: "has_keys witness_keys ?w" using arg_cong [OF keys, of set] by (simp add: has_keys_def)
  have sv: "short_value (JStr s)" if "short_text s" for s using that by (simp add: short_value_def)
  have "short_text (jr_hmac_fp j)" "short_text (jr_aead_fp j)" "short_text (jr_witness_fp j)" "short_text (witness_mac j x)" for x
    using j digests_ok(3) [OF j] short_texts(1) by (simp_all add: journal_ok_def)
  then have vals: "list_all (\<lambda>kv. short_value (snd kv)) ?w"
    unfolding split using d t n short_texts by (simp add: witness_content_def sv) (auto simp: short_value_def)
  have "\<exists>v. map_of ?w (lit k) = Some v \<and> short_value v" if "k \<in> set witness_keys" for k
  proof -
    have "lit k \<in> fst ` set ?w" using has that by (auto simp: has_keys_def)
    then obtain v where v: "map_of ?w (lit k) = Some v" by (metis map_of_eq_None_iff not_None_eq)
    then have "(lit k, v) \<in> set ?w" by (rule map_of_SomeD)
    with vals v show ?thesis by (auto simp: list_all_iff)
  qed
  from short_record [OF dist has _ _ this] show "flat ?w" "fits ?w" by (simp_all add: witness_keys_def)
qed

lemma new_witness_verifies:
  assumes j: "journal_ok j" and n: "n < 10 ^ 20" and d: "digest_ok head" "digest_ok prior" and t: "representable t"
    and first: "n = 0 \<Longrightarrow> head = zero_digest \<and> utc_at state ''created_at'' = Inr t"
    and later: "0 < n \<Longrightarrow> (\<exists>f. map_of (ld_entries (js_journal fs)) (entry_name n) = Some f \<and> sha_hex j (jf_bytes f) = head) \<and>
      cm_committed_at (cs ! (n - 1)) = t"
  defines "w \<equiv> witness_payload j n head prior t"
  obtains r where "read_json j (Some (new_file (line_of w))) = Inr r" "holds r ''journal_head_digest'' head" "line_of r = line_of w"
    "verify_witness_step j fs state cs n prior (entry_name n, new_file (line_of w)) = Inr (sha_hex j (line_of w))"
proof -
  have lim: "1 \<le> jr_limit j" using j by (simp add: journal_ok_def)
  obtain r where r: "read_json j (Some (new_file (line_of w))) = Inr r" "map_of r = map_of w" "fst ` set r = fst ` set w"
    "line_of r = line_of w" "\<forall>k. canonical_record (without k r) = canonical_record (without k w)" "distinct (map fst r)"
    unfolding w_def by (rule read_back [OF witness_short [OF j n d t] lim])
  define content where content_def: "content = witness_content j n head prior t"
  have split: "w = content @ [(lit ''witness_mac'', JStr (witness_mac j content))]"
    by (simp add: w_def witness_payload_def content_def Let_def)
  have "without ''witness_mac'' w = content" unfolding split by (simp add: without_def content_def witness_content_def)
  then have mac: "witness_mac j (without ''witness_mac'' r) = witness_mac j content" by (simp add: witness_mac_def r(5))
  have keys: "has_keys witness_keys r"
    unfolding has_keys_def r(3) split by (simp add: content_def witness_content_def witness_keys_def insert_commute)
  have flds: "map_of w (lit ''format'') = Some (JStr witness_format)" "map_of w (lit ''sequence'') = Some (JInt (int n))"
    "map_of w (lit ''journal_head_digest'') = Some (JStr head)" "map_of w (lit ''prior_witness_digest'') = Some (JStr prior)"
    "map_of w (lit ''observed_at'') = Some (JStr (utc_text_us t))" "map_of w (lit ''journal_hmac_key_sha256'') = Some (JStr (jr_hmac_fp j))"
    "map_of w (lit ''journal_aead_key_sha256'') = Some (JStr (jr_aead_fp j))"
    "map_of w (lit ''witness_hmac_key_sha256'') = Some (JStr (jr_witness_fp j))"
    "map_of w (lit ''witness_mac'') = Some (JStr (witness_mac j content))"
    unfolding split by (simp_all add: content_def witness_content_def)
  have asc: "is_ascii (witness_mac j x)" for x using digests_ok(3) [OF j] digest_ascii by simp
  have obs: "utc_at r ''observed_at'' = Inr t" using t by (simp add: r(2) flds)
  have "verify_witness_step j fs state cs n prior (entry_name n, new_file (line_of w)) = Inr (sha_hex j (line_of w))"
    using first later
    by (cases "n = 0") (auto simp: verify_witness_step_def r(1,4) keys holds_def r(2) flds mac asc obs equals_int_def)
  then show thesis using that r(1,4) by (simp add: holds_def r(2) flds)
qed

subsection \<open>The chains\<close>

lemma verify_entries_snoc:
  "verify_entries j k prior cs (ps @ [x]) =
     and_then (verify_entries j k prior cs ps) (\<lambda>(p, cs'). and_then (verify_entry_step j (k + length ps) p cs' x) (\<lambda>(p', c). Inr (p', cs' @ [c])))"
proof (induction ps arbitrary: k prior cs)
  case (Cons y ps)
  then show ?case by (cases "verify_entry_step j k prior cs y") auto
qed (simp add: and_then_def split: sum.split prod.split)

lemma case_Inl_Inr: "(case x of Inl _ \<Rightarrow> Inl e | Inr y \<Rightarrow> f y) = Inr z \<longleftrightarrow> (\<exists>y. x = Inr y \<and> f y = Inr z)"
  by (cases x) simp_all

lemma upt_more: "[k..<k + length (x # ps)] = k # [Suc k..<Suc k + length ps]"
  by (simp add: upt_conv_Cons del: upt_Suc)

lemma verify_entry_step_shape:
  "journal_ok j \<Longrightarrow> verify_entry_step j k prior cs x = Inr (q, c) \<Longrightarrow> fst x = entry_name k \<and> digest_ok q"
  using digests_ok(1) by (fastforce simp: verify_entry_step_def case_Inl_Inr)

lemma verify_entries_shape:
  assumes "journal_ok j" "verify_entries j k prior cs ps = Inr (p, cs')" "digest_ok prior"
  shows "map fst ps = map entry_name [k..<k + length ps] \<and> length cs' = length cs + length ps \<and> digest_ok p"
  using assms(2,3)
proof (induction ps arbitrary: k prior cs)
  case (Cons x ps)
  then obtain q c where st: "verify_entry_step j k prior cs x = Inr (q, c)" and rest: "verify_entries j (Suc k) q (cs @ [c]) ps = Inr (p, cs')"
    by auto
  have "fst x = entry_name k" "digest_ok q" using verify_entry_step_shape [OF assms(1) st] by simp_all
  with Cons.IH [OF rest] show ?case unfolding upt_more by simp
qed simp

lemma verify_witnesses_snoc:
  "verify_witnesses j fs st cs k prior (ps @ [x]) =
     and_then (verify_witnesses j fs st cs k prior ps) (\<lambda>p. verify_witness_step j fs st cs (k + length ps) p x)"
proof (induction ps arbitrary: k prior)
  case (Cons y ps)
  then show ?case by (cases "verify_witness_step j fs st cs k prior y") auto
qed (simp add: and_then_def split: sum.split)

lemma verify_witnesses_names:
  "verify_witnesses j fs st cs k prior ps = Inr p \<Longrightarrow> map fst ps = map entry_name [k..<k + length ps]"
proof (induction ps arbitrary: k prior)
  case (Cons x ps)
  then obtain q where st: "verify_witness_step j fs st cs k prior x = Inr q" and rest: "verify_witnesses j fs st cs (Suc k) q ps = Inr p" by auto
  have "fst x = entry_name k" using st by (simp add: verify_witness_step_def)
  with Cons.IH [OF rest] show ?case unfolding upt_more by simp
qed simp

text \<open>Old witnesses look at old entries, old commitments and the creation time only.\<close>

lemma verify_witnesses_cong:
  assumes "\<And>i. 0 < i \<Longrightarrow> k \<le> i \<Longrightarrow> i < k + length ps \<Longrightarrow>
      map_of (ld_entries (js_journal fs)) (entry_name i) = map_of (ld_entries (js_journal fs')) (entry_name i) \<and> cs ! (i - 1) = cs' ! (i - 1)"
    and "map_of st (lit ''created_at'') = map_of st' (lit ''created_at'')"
  shows "verify_witnesses j fs st cs k prior ps = verify_witnesses j fs' st' cs' k prior ps"
  using assms(1)
proof (induction ps arbitrary: k prior)
  case (Cons x ps)
  have "utc_at st ''created_at'' = utc_at st' ''created_at''" using assms(2) by (simp add: utc_at_def text_at_def)
  then have "verify_witness_step j fs st cs k prior x = verify_witness_step j fs' st' cs' k prior x"
    using Cons.prems [of k] unfolding verify_witness_step_def by (cases "k = 0") simp_all
  moreover have "verify_witnesses j fs st cs (Suc k) q ps = verify_witnesses j fs' st' cs' (Suc k) q ps" for q
    using Cons.prems by (intro Cons.IH) simp
  ultimately show ?case by simp
qed simp

subsection \<open>Appending to a verified journal\<close>

text \<open>
  The journal stands at a list of commitments: it verifies to them, and the bytes of its last
  witness are the canonical form that the next witness will be chained to.
\<close>

definition head_witness :: "journal_fs \<Rightarrow> jfile" where
  "head_witness fs = snd (last (sorted_entries (js_witness fs)))"

definition journal_at :: "journal \<Rightarrow> journal_fs \<Rightarrow> jdict \<Rightarrow> commitment list \<Rightarrow> bool" where
  "journal_at j fs state cs \<longleftrightarrow> verify_locked j fs = Inr (state, cs) \<and> locked fs (\<lambda>_. Inr ()) = Inr () \<and>
     (\<exists>w. read_json j (Some (head_witness fs)) = Inr w \<and> jf_bytes (head_witness fs) = line_of w)"

lemma entry_name_distinct: "n < 10 ^ 20 \<Longrightarrow> distinct (map entry_name [k..<n])"
proof -
  assume n: "n < 10 ^ 20"
  have "inj_on entry_name {k..<n}"
  proof (rule linorder_inj_onI)
    fix x y assume "x < y" "x \<in> {k..<n}" "y \<in> {k..<n}"
    then show "entry_name x \<noteq> entry_name y" using entry_name_less [of x y] n by auto
  qed auto
  then show ?thesis by (simp add: distinct_map)
qed

lemma listed_names:
  assumes "map fst (sorted_entries l) = map entry_name [k..<n]" "n < 10 ^ 20"
  shows "distinct (map fst (ld_entries l))" "fst ` set (ld_entries l) = entry_name ` {k..<n}"
    "map_of (ld_entries l) = map_of (sorted_entries l)"
proof -
  have "distinct (map fst (sorted_entries l))" using entry_name_distinct [OF assms(2)] assms(1) by simp
  then show d: "distinct (map fst (ld_entries l))" by (simp add: sorted_entries_def distinct_map)
  have "fst ` set (ld_entries l) = set (map fst (sorted_entries l))" by (simp add: sorted_entries_def)
  then show "fst ` set (ld_entries l) = entry_name ` {k..<n}" by (simp add: assms(1))
  show "map_of (ld_entries l) = map_of (sorted_entries l)" using lookup_sorted [OF d] by (auto simp: sorted_entries_def)
qed

lemma journal_at_parts:
  assumes j: "journal_ok j" and at: "journal_at j fs state cs" and head: "head_of state = Inr (n, dg)"
  shows "directory_safe (js_journal fs) = Inr ()" "directory_safe (js_witness fs) = Inr ()" "state_sound j state n dg"
    "map fst (sorted_entries (js_journal fs)) = map entry_name [1..<Suc n]" "length (sorted_entries (js_journal fs)) = n"
    "verify_entries j 1 zero_digest [] (sorted_entries (js_journal fs)) = Inr (dg, cs)" "length cs = n" "digest_ok dg"
    "map fst (sorted_entries (js_witness fs)) = map entry_name [0..<Suc n]" "length (sorted_entries (js_witness fs)) = Suc n"
    "verify_witnesses j fs state cs 0 zero_digest (sorted_entries (js_witness fs)) = Inr (sha_hex j (jf_bytes (head_witness fs)))"
proof -
  let ?E = "sorted_entries (js_journal fs)" and ?W = "sorted_entries (js_witness fs)"
  from at have v: "verify_locked j fs = Inr (state, cs)" by (simp add: journal_at_def)
  from v head have st: "verify_state j (js_state fs) = Inr state" and len: "length ?E = n"
    and ent: "verify_entries j 1 zero_digest [] ?E = Inr (dg, cs)" and wit: "verify_witness_locked j fs state n dg cs = Inr ()"
    and safe: "directory_safe (js_journal fs) = Inr ()"
    by (auto simp: verify_locked_def Let_def)
  show "directory_safe (js_journal fs) = Inr ()" "length ?E = n" "verify_entries j 1 zero_digest [] ?E = Inr (dg, cs)"
    by (rule safe len ent)+
  show "state_sound j state n dg" by (rule verify_state_sound [OF st head])
  show "map fst ?E = map entry_name [1..<Suc n]" "length cs = n" "digest_ok dg"
    using verify_entries_shape [OF j ent digest_zero] len by simp_all
  from wit obtain p where safe': "directory_safe (js_witness fs) = Inr ()" and wl: "length ?W = Suc n"
    and ws: "verify_witnesses j fs state cs 0 zero_digest ?W = Inr p"
    by (auto simp: verify_witness_locked_def Let_def)
  show "directory_safe (js_witness fs) = Inr ()" "length ?W = Suc n" by (rule safe' wl)+
  show "map fst ?W = map entry_name [0..<Suc n]" using verify_witnesses_names [OF ws] wl by simp
  obtain W x where W: "?W = W @ [x]" using wl by (cases ?W rule: rev_cases) auto
  obtain q where "verify_witness_step j fs state cs (length W) q x = Inr p"
    using ws unfolding W verify_witnesses_snoc by auto
  then obtain w where "read_json j (Some (snd x)) = Inr w" "p = sha_hex j (line_of w)" by (auto simp: verify_witness_step_def)
  moreover have "head_witness fs = snd x" by (simp add: head_witness_def W)
  ultimately show "verify_witnesses j fs state cs 0 zero_digest ?W = Inr (sha_hex j (jf_bytes (head_witness fs)))"
    using ws at by (auto simp: journal_at_def)
qed

text \<open>Everything an admitted append relies on.\<close>

definition admitted :: "journal \<Rightarrow> pybytes \<Rightarrow> deletion_request \<Rightarrow> nat \<Rightarrow> pystr \<Rightarrow> pystr \<Rightarrow> bool" where
  "admitted j nonce rq n dg ct \<longleftrightarrow> request_ok rq \<and> Suc n < 10 ^ 20 \<and> length nonce = 12 \<and> byte_list nonce \<and>
     lifecycle_hmac (jr_crypto j) (jr_settings j) ''subject'' (dq_subject rq) = Inr (dq_subject_hmac rq) \<and>
     encrypt_lifecycle_provider_subject (jr_crypto j) (jr_aead j) (jr_settings j) nonce (dq_deletion_id rq) (dq_subject rq) = Inr ct \<and>
     fits (entry_payload j rq (Suc n) ct dg)"

lemma added_lookup:
  assumes "name \<notin> fst ` set (ld_entries l)"
  shows "map_of (ld_entries (add_file name bs l)) k = (if k = name then Some (new_file bs) else map_of (ld_entries l) k)"
proof -
  have "map_of (ld_entries l) name = None" using assms by (simp add: map_of_eq_None_iff)
  then show ?thesis by (cases "map_of (ld_entries l) k") (auto simp: add_file_def map_add_def)
qed

text \<open>The files an admitted append leaves, and the digest of its entry.\<close>

definition new_digest :: "journal \<Rightarrow> deletion_request \<Rightarrow> pystr \<Rightarrow> nat \<Rightarrow> pystr \<Rightarrow> pystr" where
  "new_digest j rq ct n dg = sha_hex j (line_of (entry_payload j rq (Suc n) ct dg))"

definition new_witness :: "journal \<Rightarrow> deletion_request \<Rightarrow> pystr \<Rightarrow> nat \<Rightarrow> pystr \<Rightarrow> journal_fs \<Rightarrow> jdict" where
  "new_witness j rq ct n dg fs =
     witness_payload j (Suc n) (new_digest j rq ct n dg) (sha_hex j (jf_bytes (head_witness fs))) (dq_committed_at rq)"

definition appended :: "journal \<Rightarrow> deletion_request \<Rightarrow> pystr \<Rightarrow> jdict \<Rightarrow> nat \<Rightarrow> pystr \<Rightarrow> journal_fs \<Rightarrow> journal_fs" where
  "appended j rq ct state n dg fs =
     fs\<lparr>js_journal := add_file (entry_name (Suc n)) (line_of (entry_payload j rq (Suc n) ct dg)) (js_journal fs),
        js_state := Some (new_file (line_of (advance_state j state (Suc n) (new_digest j rq ct n dg)))),
        js_witness := add_file (entry_name (Suc n)) (line_of (new_witness j rq ct n dg fs)) (js_witness fs)\<rparr>"

lemma appended_sel [simp]:
  "js_journal (appended j rq ct state n dg fs) = add_file (entry_name (Suc n)) (line_of (entry_payload j rq (Suc n) ct dg)) (js_journal fs)"
  "js_state (appended j rq ct state n dg fs) = Some (new_file (line_of (advance_state j state (Suc n) (new_digest j rq ct n dg))))"
  "js_witness (appended j rq ct state n dg fs) = add_file (entry_name (Suc n)) (line_of (new_witness j rq ct n dg fs)) (js_witness fs)"
  by (simp_all add: appended_def)

lemma directory_safe_add [simp]: "directory_safe (add_file name bs l) = directory_safe l"
  by (simp add: directory_safe_def add_file_def)

lemma appended_entries:
  assumes j: "journal_ok j" and at: "journal_at j fs state cs" and head: "head_of state = Inr (n, dg)"
    and adm: "admitted j nonce rq n dg ct" and fresh: "dq_deletion_id rq \<notin> cm_deletion_id ` set cs"
  shows "verify_entries j 1 zero_digest [] (sorted_entries (js_journal (appended j rq ct state n dg fs)))
     = Inr (new_digest j rq ct n dg, cs @ [commitment_of rq (Suc n) ct])"
proof -
  note parts = journal_at_parts [OF j at head]
  have rq: "request_ok rq" and n: "Suc n < 10 ^ 20" using adm by (simp_all add: admitted_def)
  have "verify_entry_step j (Suc n) dg cs (entry_name (Suc n), new_file (line_of (entry_payload j rq (Suc n) ct dg)))
      = Inr (new_digest j rq ct n dg, commitment_of rq (Suc n) ct)"
    unfolding new_digest_def using adm by (intro new_entry_verifies [OF j rq n parts(8) fresh]) (auto simp: admitted_def)
  then show ?thesis unfolding appended_sel sorted_entries_add(1) [OF parts(4) n] verify_entries_snoc parts(6) by (simp add: parts(5))
qed

lemma appended_lookup:
  assumes j: "journal_ok j" and at: "journal_at j fs state cs" and head: "head_of state = Inr (n, dg)" and n: "Suc n < 10 ^ 20"
  shows "entry_name (Suc n) \<notin> fst ` set (ld_entries (js_journal fs))" "entry_name (Suc n) \<notin> fst ` set (ld_entries (js_witness fs))"
    "map_of (ld_entries (js_witness fs)) (entry_name n) = Some (head_witness fs)"
proof -
  note parts = journal_at_parts [OF j at head]
  show "entry_name (Suc n) \<notin> fst ` set (ld_entries (js_journal fs))" "entry_name (Suc n) \<notin> fst ` set (ld_entries (js_witness fs))"
    by (rule sorted_entries_add(2) [OF parts(4) n] sorted_entries_add(2) [OF parts(9) n])+
  obtain W x where W: "sorted_entries (js_witness fs) = W @ [x]"
    using parts(10) by (cases "sorted_entries (js_witness fs)" rule: rev_cases) auto
  have "fst x = entry_name n" "snd x = head_witness fs" using parts(9) by (simp_all add: W head_witness_def)
  then have "x = (entry_name n, head_witness fs)" by (metis prod.collapse)
  moreover have "distinct (map fst (sorted_entries (js_witness fs)))" using entry_name_distinct [OF n, of 0] parts(9) by simp
  ultimately have "map_of (sorted_entries (js_witness fs)) (entry_name n) = Some (head_witness fs)"
    by (intro map_of_is_SomeI) (simp_all add: W)
  then show "map_of (ld_entries (js_witness fs)) (entry_name n) = Some (head_witness fs)"
    by (simp only: listed_names(3) [OF parts(9) n])
qed

lemma appended_witnesses:
  fixes ct :: pystr
  assumes j: "journal_ok j" and at: "journal_at j fs state cs" and head: "head_of state = Inr (n, dg)"
    and n: "Suc n < 10 ^ 20" and t: "representable (dq_committed_at rq)" "cm_committed_at c = dq_committed_at rq"
    and created: "map_of r (lit ''created_at'') = map_of state (lit ''created_at'')"
  defines "fs' \<equiv> appended j rq ct state n dg fs"
  shows "verify_witness_locked j fs' r (Suc n) (new_digest j rq ct n dg) (cs @ [c]) = Inr ()"
    "\<exists>w. read_json j (Some (head_witness fs')) = Inr w \<and> jf_bytes (head_witness fs') = line_of w"
proof -
  note parts = journal_at_parts [OF j at head] and look = appended_lookup [OF j at head n]
  define dg' where dg': "dg' = new_digest j rq ct n dg"
  define prior where prior: "prior = sha_hex j (jf_bytes (head_witness fs))"
  define w where w: "w = witness_payload j (Suc n) dg' prior (dq_committed_at rq)"
  have dgs: "digest_ok dg'" "digest_ok prior" unfolding dg' new_digest_def prior by (rule digests_ok(1) [OF j])+
  have w': "new_witness j rq ct n dg fs = w" by (simp add: new_witness_def w dg' prior)
  have lookup: "map_of (ld_entries (js_journal fs')) k =
      (if k = entry_name (Suc n) then Some (new_file (line_of (entry_payload j rq (Suc n) ct dg))) else map_of (ld_entries (js_journal fs)) k)" for k
    unfolding fs'_def appended_sel by (rule added_lookup [OF look(1)])
  obtain r' where r': "read_json j (Some (new_file (line_of w))) = Inr r'" "holds r' ''journal_head_digest'' dg'" "line_of r' = line_of w"
    "verify_witness_step j fs' r (cs @ [c]) (Suc n) prior (entry_name (Suc n), new_file (line_of w)) = Inr (sha_hex j (line_of w))"
    unfolding w
    by (rule new_witness_verifies [OF j n dgs t(1), of r fs' "cs @ [c]"])
      (auto simp: lookup dg' new_digest_def new_file_def t(2) nth_append parts(7))
  have "entry_name i \<noteq> entry_name (Suc n)" if "i < Suc n" for i using entry_name_less [OF that n] by auto
  then have "verify_witnesses j fs' r (cs @ [c]) 0 zero_digest (sorted_entries (js_witness fs))
      = verify_witnesses j fs state cs 0 zero_digest (sorted_entries (js_witness fs))"
    by (intro verify_witnesses_cong) (auto simp: lookup parts(7,10) nth_append created)
  then have "verify_witnesses j fs' r (cs @ [c]) 0 zero_digest (sorted_entries (js_witness fs')) = Inr (sha_hex j (line_of w))"
    using parts(11) r'(4) by (simp add: fs'_def w' sorted_entries_add(1) [OF parts(9) n] verify_witnesses_snoc prior parts(10))
  then show "verify_witness_locked j fs' r (Suc n) (new_digest j rq ct n dg) (cs @ [c]) = Inr ()"
    using parts(2,10) r'(1,2) by (simp add: verify_witness_locked_def Let_def fs'_def w' sorted_entries_add(1) [OF parts(9) n] dg')
  show "\<exists>w. read_json j (Some (head_witness fs')) = Inr w \<and> jf_bytes (head_witness fs') = line_of w"
    using r'(1,3) by (simp add: head_witness_def fs'_def w' sorted_entries_add(1) [OF parts(9) n]) (auto simp: new_file_def)
qed

lemma appended_verifies:
  assumes j: "journal_ok j" and at: "journal_at j fs state cs" and head: "head_of state = Inr (n, dg)"
    and adm: "admitted j nonce rq n dg ct" and fresh: "dq_deletion_id rq \<notin> cm_deletion_id ` set cs"
  obtains state' where "journal_at j (appended j rq ct state n dg fs) state' (cs @ [commitment_of rq (Suc n) ct])"
proof -
  note parts = journal_at_parts [OF j at head]
  let ?fs = "appended j rq ct state n dg fs" and ?dg = "new_digest j rq ct n dg" and ?c = "commitment_of rq (Suc n) ct"
  have n: "Suc n < 10 ^ 20" and t: "representable (dq_committed_at rq)" using adm by (simp_all add: admitted_def request_ok_def)
  have dg: "digest_ok ?dg" unfolding new_digest_def by (rule digests_ok(1) [OF j])
  note adv = advance_state_sound [OF j parts(3) dg]
  obtain r where r: "verify_state j (js_state ?fs) = Inr r" "head_of r = Inr (Suc n, ?dg)"
      "map_of r = map_of (advance_state j state (Suc n) ?dg)"
    unfolding appended_sel by (rule sound_state_verifies [OF j adv(1) n])
  have "cm_committed_at ?c = dq_committed_at rq" by (simp add: commitment_of_def)
  note wit = appended_witnesses [OF j at head n t this, of r ct, unfolded r(3), OF adv(2)]
  have len: "length (sorted_entries (js_journal ?fs)) = Suc n" by (simp add: sorted_entries_add(1) [OF parts(4) n] parts(5))
  have "directory_safe (js_journal ?fs) = Inr ()" by (simp add: parts(1))
  then have "verify_locked j ?fs = Inr (r, cs @ [?c])"
    unfolding verify_locked_def Let_def r(1) len using appended_entries [OF j at head adm fresh] wit(1) r(2)
    by (simp del: One_nat_def appended_sel)
  moreover have "locked ?fs (\<lambda>_. Inr ()) = Inr ()" using at by (simp add: journal_at_def locked_def add_file_def)
  ultimately have "journal_at j ?fs r (cs @ [?c])" using wit(2) by (simp add: journal_at_def del: appended_sel)
  then show thesis by (rule that)
qed

lemma write_commitment_extends:
  assumes j: "journal_ok j" and at: "journal_at j fs state cs" and head: "head_of state = Inr (n, dg)"
    and adm: "admitted j nonce rq n dg ct" and fresh: "dq_deletion_id rq \<notin> cm_deletion_id ` set cs"
  shows "write_commitment j rq ct state n dg fs = (appended j rq ct state n dg fs, Inr (commitment_of rq (Suc n) ct))"
proof -
  have n: "Suc n < 10 ^ 20" using adm by (simp add: admitted_def)
  note look = appended_lookup [OF j at head n]
  obtain state' where "journal_at j (appended j rq ct state n dg fs) state' (cs @ [commitment_of rq (Suc n) ct])"
    by (rule appended_verifies [OF j at head adm fresh])
  then have ver: "verify_locked j (appended j rq ct state n dg fs) = Inr (state', cs @ [commitment_of rq (Suc n) ct])"
    by (simp add: journal_at_def)
  have "put_entry (Suc n) (entry_payload j rq (Suc n) ct dg) fs
      = Inr (fs\<lparr>js_journal := add_file (entry_name (Suc n)) (line_of (entry_payload j rq (Suc n) ct dg)) (js_journal fs)\<rparr>)"
    using look(1) by (simp add: put_entry_def write_new_def)
  moreover have "put_witness j (Suc n) (new_digest j rq ct n dg) (dq_committed_at rq) (put_state (advance_state j state (Suc n) (new_digest j rq ct n dg))
      (fs\<lparr>js_journal := add_file (entry_name (Suc n)) (line_of (entry_payload j rq (Suc n) ct dg)) (js_journal fs)\<rparr>))
      = Inr (appended j rq ct state n dg fs)"
    using look(2,3) by (simp add: put_witness_def put_state_def write_new_def appended_def new_witness_def)
  ultimately show ?thesis using ver by (simp add: write_commitment_def Let_def new_digest_def [symmetric])
qed

end
