(* ===== verification/JournalGuarantees.thy ===== *)
theory JournalGuarantees
  imports DeletionJournalSafety
begin

text \<open>
  What the deletion journal promises its callers: it behaves like an append-only list of
  commitments, an append that stops half-way is noticed, a retried append answers as the first one
  did, and whoever cannot change the witness directory cannot change the journal unnoticed.
\<close>

subsection \<open>The list the journal implements\<close>

definition cipher_of :: "journal \<Rightarrow> pybytes \<Rightarrow> deletion_request \<Rightarrow> pystr" where
  "cipher_of j nonce rq =
     (case encrypt_lifecycle_provider_subject (jr_crypto j) (jr_aead j) (jr_settings j) nonce (dq_deletion_id rq) (dq_subject rq) of
        Inl _ \<Rightarrow> [] | Inr ct \<Rightarrow> ct)"

definition log_append :: "journal \<Rightarrow> pybytes \<Rightarrow> deletion_request \<Rightarrow> commitment list \<Rightarrow> commitment list \<times> (journal_error + commitment)" where
  "log_append j nonce rq cs =
     (case find (\<lambda>c. cm_deletion_id c = dq_deletion_id rq) cs of
        Some c \<Rightarrow> (cs, replay_commitment j rq c)
      | None \<Rightarrow> (let c = commitment_of rq (Suc (length cs)) (cipher_of j nonce rq) in (cs @ [c], Inr c)))"

text \<open>A request that can be committed at any place of the journal.\<close>

definition acceptable :: "journal \<Rightarrow> pybytes \<Rightarrow> deletion_request \<Rightarrow> bool" where
  "acceptable j nonce rq \<longleftrightarrow> request_ok rq \<and> length nonce = 12 \<and> byte_list nonce \<and>
     lifecycle_hmac (jr_crypto j) (jr_settings j) ''subject'' (dq_subject rq) = Inr (dq_subject_hmac rq) \<and>
     encrypt_lifecycle_provider_subject (jr_crypto j) (jr_aead j) (jr_settings j) nonce (dq_deletion_id rq) (dq_subject rq)
       = Inr (cipher_of j nonce rq) \<and>
     (\<forall>n dg. n < 10 ^ 20 \<and> digest_ok dg \<longrightarrow> fits (entry_payload j rq n (cipher_of j nonce rq) dg))"

fun append_all :: "journal \<Rightarrow> (pybytes \<times> deletion_request) list \<Rightarrow> journal_fs \<Rightarrow> journal_fs \<times> (journal_error + commitment) list" where
  "append_all j [] fs = (fs, [])"
| "append_all j ((nonce, rq) # rs) fs =
     (case append_commitment j nonce rq fs of (fs1, r) \<Rightarrow> map_prod id ((#) r) (append_all j rs fs1))"

fun log_all :: "journal \<Rightarrow> (pybytes \<times> deletion_request) list \<Rightarrow> commitment list \<Rightarrow> commitment list \<times> (journal_error + commitment) list" where
  "log_all j [] cs = (cs, [])"
| "log_all j ((nonce, rq) # rs) cs =
     (case log_append j nonce rq cs of (cs1, r) \<Rightarrow> map_prod id ((#) r) (log_all j rs cs1))"

lemma journal_at_head:
  assumes "journal_ok j" "journal_at j fs state cs"
  obtains dg where "head_of state = Inr (length cs, dg)"
proof -
  from assms(2) obtain n dg where h: "head_of state = Inr (n, dg)" by (auto simp: journal_at_def verify_locked_def Let_def)
  with journal_at_parts(7) [OF assms h] that show thesis by simp
qed

lemma journal_at_verify: "journal_at j fs state cs \<Longrightarrow> verify j fs = Inr cs"
  by (auto simp: journal_at_def verify_def locked_def)

lemma append_enters:
  assumes "journal_ok j" "locked fs (\<lambda>_. Inr ()) = Inr ()"
    "lifecycle_hmac (jr_crypto j) (jr_settings j) ''subject'' (dq_subject rq) = Inr (dq_subject_hmac rq)"
  shows "append_commitment j nonce rq fs = append_locked j nonce rq fs"
proof -
  have "is_ascii (dq_subject_hmac rq)" using subject_digest [OF assms(1,3)] digest_ascii by blast
  then have cd: "compare_digest (dq_subject_hmac rq) (dq_subject_hmac rq) = Inr ()" by simp
  show ?thesis using assms(2,3) by (simp add: append_commitment_def lift_auth_def cd)
qed

lemma append_step:
  assumes j: "journal_ok j" and at: "journal_at j fs state cs" and ok: "acceptable j nonce rq" and n: "Suc (length cs) < 10 ^ 20"
  obtains fs' state' where "append_commitment j nonce rq fs = (fs', snd (log_append j nonce rq cs))"
    "journal_at j fs' state' (fst (log_append j nonce rq cs))"
proof -
  have enter: "append_commitment j nonce rq fs = append_locked j nonce rq fs"
    using append_enters [OF j] at ok by (simp add: journal_at_def acceptable_def)
  have v: "verify_locked j fs = Inr (state, cs)" using at by (simp add: journal_at_def)
  show thesis
  proof (cases "find (\<lambda>c. cm_deletion_id c = dq_deletion_id rq) cs")
    case (Some c)
    then show thesis using that [of fs state] at by (simp add: enter append_locked_def v log_append_def)
  next
    case None
    obtain dg where h: "head_of state = Inr (length cs, dg)" by (rule journal_at_head [OF j at])
    let ?ct = "cipher_of j nonce rq"
    have fresh: "dq_deletion_id rq \<notin> cm_deletion_id ` set cs" using None by (auto simp: find_None_iff)
    have "digest_ok dg" using journal_at_parts(8) [OF j at h] .
    then have adm: "admitted j nonce rq (length cs) dg ?ct" using ok n by (simp add: admitted_def acceptable_def)
    obtain state' where st: "journal_at j (appended j rq ?ct state (length cs) dg fs) state' (cs @ [commitment_of rq (Suc (length cs)) ?ct])"
      by (rule appended_verifies [OF j at h adm fresh])
    have "append_locked j nonce rq fs = write_commitment j rq ?ct state (length cs) dg fs"
      using ok by (simp add: append_locked_def v None h acceptable_def lift_auth_def)
    with write_commitment_extends [OF j at h adm fresh] st that show thesis
      by (simp add: enter log_append_def None Let_def)
  qed
qed

text \<open>
  C28. The journal is an append-only list.  Started from a journal that verifies to a list of
  commitments, any sequence of acceptable appends answers what appending to that list answers (a
  new deletion is added at the end, a deletion that is already there is answered from its
  commitment), and the files then verify to exactly the list, in order.
\<close>

theorem append_refines_log:
  assumes "journal_ok j" and "journal_at j fs state cs"
    and "\<forall>(nonce, rq) \<in> set rs. acceptable j nonce rq" and "length cs + length rs < 10 ^ 20"
  shows "\<exists>fs' state'. append_all j rs fs = (fs', snd (log_all j rs cs)) \<and>
     journal_at j fs' state' (fst (log_all j rs cs)) \<and> verify j fs' = Inr (fst (log_all j rs cs))"
  using assms(2-)
proof (induction rs arbitrary: fs state cs)
  case Nil
  then show ?case using journal_at_verify by auto
next
  case (Cons r rs)
  obtain nonce rq where r: "r = (nonce, rq)" by (cases r)
  obtain fs1 st1 where s: "append_commitment j nonce rq fs = (fs1, snd (log_append j nonce rq cs))"
      "journal_at j fs1 st1 (fst (log_append j nonce rq cs))"
    using append_step [OF assms(1) Cons.prems(1), of nonce rq] Cons.prems(2,3) r by auto
  have "length (fst (log_append j nonce rq cs)) \<le> Suc (length cs)" by (auto simp: log_append_def Let_def split: option.split)
  then have "length (fst (log_append j nonce rq cs)) + length rs < 10 ^ 20" using Cons.prems(3) by simp
  from Cons.IH [OF s(2) _ this] Cons.prems(2) show ?case
    by (cases "log_append j nonce rq cs") (auto simp: r s(1) map_prod_def split: prod.splits)
qed

subsection \<open>Interrupted appends\<close>

lemma verify_Inl: "verify_locked j fs = Inl e \<Longrightarrow> \<exists>e. verify j fs = Inl e \<and> (\<forall>nonce rq. fst (append_commitment j nonce rq fs) = fs)"
  by (auto simp: verify_def append_commitment_def append_locked_def locked_def require_def and_then_def split: sum.split if_split)

text \<open>
  C30. An append that stops between its durable writes is noticed.  With the entry written and the
  state not yet advanced, and with entry and state written and the witness missing, verification
  fails, and no later append changes the files.
\<close>

theorem interrupted_append_detected:
  assumes "journal_ok j" and "journal_at j fs state cs" and "acceptable j nonce rq" and "Suc (length cs) < 10 ^ 20"
    and "head_of state = Inr (n, dg)" and "dq_deletion_id rq \<notin> cm_deletion_id ` set cs"
    and "entry = entry_payload j rq (Suc n) (cipher_of j nonce rq) dg" and "put_entry (Suc n) entry fs = Inr fs1"
    and "fs2 = put_state (advance_state j state (Suc n) (sha_hex j (line_of entry))) fs1"
  shows "(\<exists>e. verify j fs1 = Inl e) \<and> (\<exists>e. verify j fs2 = Inl e) \<and>
     (\<forall>nonce' rq'. fst (append_commitment j nonce' rq' fs1) = fs1 \<and> fst (append_commitment j nonce' rq' fs2) = fs2)"
proof -
  note j = assms(1) and at = assms(2) and head = assms(5)
  note parts = journal_at_parts [OF j at head]
  have n: "Suc n < 10 ^ 20" "n = length cs" using assms(4) parts(7) by simp_all
  have fs1: "fs1 = fs\<lparr>js_journal := add_file (entry_name (Suc n)) (line_of entry) (js_journal fs)\<rparr>"
    using assms(8) by (auto simp: put_entry_def write_new_def split: if_splits)
  have st: "verify_state j (js_state fs) = Inr state" using at by (auto simp: journal_at_def verify_locked_def Let_def)
  have len: "length (sorted_entries (js_journal fs1)) = Suc n" by (simp add: fs1 sorted_entries_add(1) [OF parts(4) n(1)] parts(5))
  have "\<exists>e. verify_locked j fs1 = Inl e"
    unfolding verify_locked_def Let_def len by (simp add: fs1 parts(1) st head require_def)
  moreover have "\<exists>e. verify_locked j fs2 = Inl e"
  proof (cases "verify_locked j fs2")
    case (Inr p)
    have dg: "digest_ok (sha_hex j (line_of entry))" by (rule digests_ok(1) [OF j])
    obtain r where "verify_state j (js_state fs2) = Inr r" "head_of r = Inr (Suc n, sha_hex j (line_of entry))"
      unfolding assms(9) put_state_def
      by (simp, rule sound_state_verifies [OF j advance_state_sound(1) [OF j parts(3) dg] n(1)])
    moreover have "length (sorted_entries (js_witness fs2)) = Suc n" by (simp add: assms(9) put_state_def fs1 parts(10))
    ultimately show ?thesis using Inr by (auto simp: verify_locked_def verify_witness_locked_def Let_def)
  qed simp
  ultimately show ?thesis using verify_Inl by metis
qed

subsection \<open>Retries\<close>

lemma find_skip: "find P xs = None \<Longrightarrow> find P (xs @ ys) = find P ys"
  by (induction xs) (auto split: if_splits)

lemma replay_own:
  assumes "journal_ok j" "acceptable j nonce rq" "is_ascii (dq_subject rq)"
  shows "replay_commitment j (rq\<lparr>dq_committed_at := t\<rparr>) (commitment_of rq n (cipher_of j nonce rq)) = Inr (commitment_of rq n (cipher_of j nonce rq))"
proof -
  have "aead_ok (jr_aead j)" using assms(1) by (simp add: journal_ok_def)
  moreover have "list_all scalar_value (dq_subject rq)" using assms(2) by (simp add: acceptable_def request_ok_def)
  ultimately have "decrypt_lifecycle_provider_subject (jr_crypto j) (jr_aead j) (jr_settings j) (dq_deletion_id rq) (cipher_of j nonce rq) = Inr (dq_subject rq)"
    using assms(2) unfolding acceptable_def encrypt_lifecycle_provider_subject_def decrypt_lifecycle_provider_subject_def
    by (intro encrypt_decrypt(1)) auto
  moreover have "compare_digest (dq_subject rq) (dq_subject rq) = Inr ()" using assms(3) by simp
  ultimately show ?thesis by (simp add: replay_commitment_def commitment_of_def lift_auth_def)
qed

lemma append_replays:
  fixes cs j nonce rq
  defines "c \<equiv> commitment_of rq (Suc (length cs)) (cipher_of j nonce rq)"
  assumes j: "journal_ok j" and at: "journal_at j fs' state' (cs @ [c])" and ok: "acceptable j nonce rq"
    and none: "find (\<lambda>c. cm_deletion_id c = dq_deletion_id rq) cs = None" and ascii: "is_ascii (dq_subject rq)"
  shows "append_commitment j nonce' (rq\<lparr>dq_committed_at := t\<rparr>) fs' = (fs', Inr c)"
proof -
  have "find (\<lambda>c. cm_deletion_id c = dq_deletion_id rq) (cs @ [c]) = Some c"
    using none by (simp add: find_skip c_def commitment_of_def)
  then have "append_locked j nonce' (rq\<lparr>dq_committed_at := t\<rparr>) fs' = (fs', Inr c)"
    using at replay_own [OF j ok ascii] by (simp add: append_locked_def journal_at_def c_def)
  moreover have "append_commitment j nonce' (rq\<lparr>dq_committed_at := t\<rparr>) fs' = append_locked j nonce' (rq\<lparr>dq_committed_at := t\<rparr>) fs'"
    using append_enters [OF j] at ok by (simp add: journal_at_def acceptable_def)
  ultimately show ?thesis by simp
qed

text \<open>
  A deletion is committed once.  After a first append of a request, a retry of it, with any
  nonce and whatever time it names, answers the commitment the first append made and leaves every
  file as it is.
\<close>

lemma append_retry_same:
  assumes "journal_ok j" and "journal_at j fs state cs" and "acceptable j nonce rq" and "Suc (length cs) < 10 ^ 20"
    and "dq_deletion_id rq \<notin> cm_deletion_id ` set cs" and "is_ascii (dq_subject rq)"
    and "append_commitment j nonce rq fs = (fs', r)"
  shows "append_commitment j nonce' (rq\<lparr>dq_committed_at := t\<rparr>) fs' = (fs', r) \<and>
     r = Inr (commitment_of rq (Suc (length cs)) (cipher_of j nonce rq))"
proof -
  let ?c = "commitment_of rq (Suc (length cs)) (cipher_of j nonce rq)"
  have none: "find (\<lambda>c. cm_deletion_id c = dq_deletion_id rq) cs = None" using assms(5) by (auto simp: find_None_iff image_iff)
  then have lg: "log_append j nonce rq cs = (cs @ [?c], Inr ?c)" by (simp add: log_append_def Let_def)
  obtain state' where at: "journal_at j fs' state' (cs @ [?c])" and r: "r = Inr ?c"
    using append_step [OF assms(1-4)] assms(7) by (auto simp: lg)
  show ?thesis using append_replays [OF assms(1) at assms(3) none assms(6)] r by simp
qed

subsection \<open>The witness pins the journal\<close>

text \<open>The witness of each entry fixes the digest of the entry file, whatever the files around it.\<close>

lemma verify_witnesses_at:
  assumes "verify_witnesses j fs st cs k prior ps = Inr p" "i < length ps"
  obtains q q' where "verify_witness_step j fs st cs (k + i) q (ps ! i) = Inr q'"
  using assms
proof (induction ps arbitrary: k prior i thesis)
  case (Cons x ps)
  obtain q where q: "verify_witness_step j fs st cs k prior x = Inr q" "verify_witnesses j fs st cs (Suc k) q ps = Inr p"
    using Cons.prems(2) by auto
  show ?case
  proof (cases i)
    case 0
    then show ?thesis using Cons.prems(1) q(1) by simp
  next
    case (Suc i')
    then show ?thesis using Cons.IH [OF _ q(2), of i'] Cons.prems(1,3) by auto
  qed
qed simp

lemma witness_step_pins:
  assumes "verify_witness_step j fs st cs i q x = Inr q'" "0 < i"
  obtains w f where "read_json j (Some (snd x)) = Inr w" "map_of (ld_entries (js_journal fs)) (entry_name i) = Some f"
    "holds w ''journal_head_digest'' (sha_hex j (jf_bytes f))"
  using assms by (auto simp: verify_witness_step_def split: option.splits)

text \<open>Reading a file depends on its bytes only, once its kind and permissions are accepted.\<close>

lemma read_json_bytes:
  "read_json j (Some f) = Inr d \<Longrightarrow> read_json j (Some g) = Inr e \<Longrightarrow> jf_bytes f = jf_bytes g \<Longrightarrow> d = e"
  by (auto simp: read_json_def split: sum.splits json_error.splits json.splits)

lemma verify_entries_same:
  assumes "verify_entries j k prior cs ps = Inr p" "verify_entries j k prior cs ps' = Inr p'"
    and "map (jf_bytes \<circ> snd) ps = map (jf_bytes \<circ> snd) ps'"
  shows "p = p'"
  using assms
proof (induction ps arbitrary: k prior cs ps')
  case (Cons x ps)
  obtain y qs where ps': "ps' = y # qs" using Cons.prems(3) by (cases ps') auto
  obtain q c q' c' where s: "verify_entry_step j k prior cs x = Inr (q, c)" "verify_entry_step j k prior cs y = Inr (q', c')"
    and rest: "verify_entries j (Suc k) q (cs @ [c]) ps = Inr p" "verify_entries j (Suc k) q' (cs @ [c']) qs = Inr p'"
    using Cons.prems(1,2) by (auto simp: ps')
  obtain d e where "read_json j (Some (snd x)) = Inr d" "read_json j (Some (snd y)) = Inr e"
    using s by (auto simp: verify_entry_step_def)
  moreover from this have "d = e" using Cons.prems(3) read_json_bytes by (fastforce simp: ps')
  moreover have "fst x = fst y" using s by (simp add: verify_entry_step_def)
  ultimately have "verify_entry_step j k prior cs x = verify_entry_step j k prior cs y"
    by (simp add: verify_entry_step_def)
  with s rest Cons.IH Cons.prems(3) show ?case by (auto simp: ps')
qed simp

lemma verify_lockedD:
  assumes "journal_ok j" "verify_locked j fs = Inr (state, cs)"
  obtains dg p where "map fst (sorted_entries (js_journal fs)) = map entry_name [1..<Suc (length cs)]"
    "verify_entries j 1 zero_digest [] (sorted_entries (js_journal fs)) = Inr (dg, cs)" "head_of state = Inr (length cs, dg)"
    "length (sorted_entries (js_witness fs)) = Suc (length cs)"
    "verify_witnesses j fs state cs 0 zero_digest (sorted_entries (js_witness fs)) = Inr p"
proof -
  from assms(2) obtain n dg p where h: "head_of state = Inr (n, dg)" "length (sorted_entries (js_journal fs)) = n"
      "verify_entries j 1 zero_digest [] (sorted_entries (js_journal fs)) = Inr (dg, cs)"
      "length (sorted_entries (js_witness fs)) = Suc n" "verify_witnesses j fs state cs 0 zero_digest (sorted_entries (js_witness fs)) = Inr p"
    by (auto simp: verify_locked_def verify_witness_locked_def Let_def)
  with verify_entries_shape [OF assms(1) h(3) digest_zero] that show thesis by simp
qed

lemma witnesses_agree:
  assumes "verify_witnesses j fs st cs 0 prior ps = Inr p" "verify_witnesses j fs' st' cs' 0 prior' ps = Inr p'"
    and "0 < i" "i < length ps"
  shows "\<exists>f f'. map_of (ld_entries (js_journal fs)) (entry_name i) = Some f \<and>
      map_of (ld_entries (js_journal fs')) (entry_name i) = Some f' \<and> sha_hex j (jf_bytes f) = sha_hex j (jf_bytes f')"
proof -
  obtain q r where "verify_witness_step j fs st cs (0 + i) q (ps ! i) = Inr r" by (rule verify_witnesses_at [OF assms(1,4)])
  moreover obtain q' r' where "verify_witness_step j fs' st' cs' (0 + i) q' (ps ! i) = Inr r'" by (rule verify_witnesses_at [OF assms(2,4)])
  ultimately show ?thesis using assms(3) by (elim witness_step_pins) (auto simp: holds_def)
qed

lemma numbered_lookup:
  fixes xs :: "(pystr \<times> jfile) list"
  assumes "map fst xs = map entry_name [1..<Suc n]" "Suc n < 10 ^ 20" "i < n"
  shows "map_of xs (entry_name (Suc i)) = Some (snd (xs ! i))"
proof -
  have l: "length xs = n" using arg_cong [OF assms(1), of length] by simp
  have "fst (xs ! i) = entry_name (Suc i)" using arg_cong [OF assms(1), of "\<lambda>l. l ! i"] assms(3) l by (simp del: upt_Suc)
  then have "(entry_name (Suc i), snd (xs ! i)) \<in> set xs" using assms(3) l by (metis nth_mem prod.collapse)
  moreover have "distinct (map fst xs)" unfolding assms(1) by (rule entry_name_distinct [OF assms(2)])
  ultimately show ?thesis by simp
qed

text \<open>
  C29. The witness directory pins the journal.  Two journals that verify against the same witness
  files hold the same commitments and the same head, unless at some place they hold two different
  files with the same SHA-256 digest: to rewrite, drop, reorder or roll back history without
  touching the witness, one has to find a collision between two entry files.
\<close>

theorem witness_pins_journal:
  assumes "journal_ok j" and "verify_locked j fs = Inr (state, cs)" and "verify_locked j fs' = Inr (state', cs')"
    and "js_witness fs' = js_witness fs" and "length cs < 10 ^ 20 - 1"
  shows "cs' = cs \<and> head_of state' = head_of state \<or>
     (\<exists>i f f'. 0 < i \<and> i \<le> length cs \<and> map_of (ld_entries (js_journal fs)) (entry_name i) = Some f \<and>
        map_of (ld_entries (js_journal fs')) (entry_name i) = Some f' \<and>
        jf_bytes f \<noteq> jf_bytes f' \<and> sha_hex j (jf_bytes f) = sha_hex j (jf_bytes f'))"
proof -
  obtain dg p where v: "map fst (sorted_entries (js_journal fs)) = map entry_name [1..<Suc (length cs)]"
      "verify_entries j 1 zero_digest [] (sorted_entries (js_journal fs)) = Inr (dg, cs)" "head_of state = Inr (length cs, dg)"
      "length (sorted_entries (js_witness fs)) = Suc (length cs)"
      "verify_witnesses j fs state cs 0 zero_digest (sorted_entries (js_witness fs)) = Inr p"
    by (rule verify_lockedD [OF assms(1,2)])
  obtain dg' p' where v': "map fst (sorted_entries (js_journal fs')) = map entry_name [1..<Suc (length cs')]"
      "verify_entries j 1 zero_digest [] (sorted_entries (js_journal fs')) = Inr (dg', cs')" "head_of state' = Inr (length cs', dg')"
      "length (sorted_entries (js_witness fs)) = Suc (length cs')"
      "verify_witnesses j fs' state' cs' 0 zero_digest (sorted_entries (js_witness fs)) = Inr p'"
    using verify_lockedD [OF assms(1,3)] unfolding assms(4) by metis
  have len: "length cs' = length cs" and n: "Suc (length cs) < 10 ^ 20" using v(4) v'(4) assms(5) by simp_all
  have lens: "length (sorted_entries (js_journal fs)) = length cs" "length (sorted_entries (js_journal fs')) = length cs"
    using v(1) v'(1) len by (metis length_map length_upt diff_Suc_1)+
  note names = listed_names(3) [OF v(1) n] listed_names(3) [OF v'(1) [unfolded len] n]
  show ?thesis
  proof (cases "map (jf_bytes \<circ> snd) (sorted_entries (js_journal fs)) = map (jf_bytes \<circ> snd) (sorted_entries (js_journal fs'))")
    case True
    then show ?thesis using verify_entries_same [OF v(2) v'(2)] v(3) v'(3) by simp
  next
    case False
    then obtain i where i: "i < length cs" "jf_bytes (snd (sorted_entries (js_journal fs) ! i)) \<noteq> jf_bytes (snd (sorted_entries (js_journal fs') ! i))"
      using lens by (auto simp: list_eq_iff_nth_eq)
    note at = numbered_lookup [OF v(1) n i(1)] numbered_lookup [OF v'(1) [unfolded len] n i(1)]
    have "sha_hex j (jf_bytes (snd (sorted_entries (js_journal fs) ! i))) = sha_hex j (jf_bytes (snd (sorted_entries (js_journal fs') ! i)))"
      using witnesses_agree [OF v(5) v'(5), of "Suc i"] i(1) v(4) unfolding names at by simp
    with i at show ?thesis unfolding names by (metis Suc_leI zero_less_Suc)
  qed
qed

subsection \<open>Initialization\<close>

definition first_witness :: "journal \<Rightarrow> time \<Rightarrow> journal_fs \<Rightarrow> journal_fs" where
  "first_witness j created fs =
     fs\<lparr>js_witness := add_file (entry_name 0) (line_of (witness_payload j 0 zero_digest zero_digest created)) (js_witness fs)\<rparr>"

definition empty_journal :: "journal_fs \<Rightarrow> bool" where
  "empty_journal fs \<longleftrightarrow> js_state fs = None \<and> ld_entries (js_journal fs) = [] \<and> ld_entries (js_witness fs) = [] \<and>
     directory_safe (js_journal fs) = Inr () \<and> directory_safe (js_witness fs) = Inr () \<and> locked fs (\<lambda>_. Inr ()) = Inr ()"

lemma initial_state_sound:
  assumes "journal_ok j" "representable t"
  shows "state_sound j (initial_state j t) 0 zero_digest"
proof -
  have split: "initial_state j t = initial_content j t @ [(lit ''state_mac'', JStr (record_mac j ''state'' (initial_content j t)))]"
    by (simp add: initial_state_def Let_def)
  have "without ''state_mac'' (initial_state j t) = initial_content j t"
    unfolding split by (simp add: without_def initial_content_def)
  moreover have "has_keys state_keys (initial_state j t)"
    unfolding has_keys_def split by (simp add: initial_content_def state_keys_def insert_commute)
  moreover have "distinct (map fst (initial_state j t))" unfolding split by (simp add: initial_content_def)
  moreover have "utc_at (initial_state j t) ''created_at'' = Inr t"
    using assms(2) by (simp add: split initial_content_def)
  ultimately show ?thesis
    using digest_zero unfolding state_sound_def
    by (simp add: holds_def del: map_of_eq_Some_iff utc_at_Inr) (auto simp: split initial_content_def simp del: utc_at_Inr)
qed

lemma first_witness_locked:
  assumes j: "journal_ok j" and t: "representable t" and e: "empty_journal fs"
    and state: "map_of state (lit ''created_at'') = Some (JStr (utc_text_us t))"
    and fs': "js_witness fs' = js_witness (first_witness j t fs)"
  shows "verify_witness_locked j fs' state 0 zero_digest [] = Inr ()"
    "\<exists>w. read_json j (Some (head_witness fs')) = Inr w \<and> jf_bytes (head_witness fs') = line_of w \<and> utc_at w ''observed_at'' = Inr t"
proof -
  let ?w = "witness_payload j 0 zero_digest zero_digest t"
  have created: "utc_at state ''created_at'' = Inr t" using state t by simp
  obtain r where r: "read_json j (Some (new_file (line_of ?w))) = Inr r" "holds r ''journal_head_digest'' zero_digest" "line_of r = line_of ?w"
    "verify_witness_step j fs' state [] 0 zero_digest (entry_name 0, new_file (line_of ?w)) = Inr (sha_hex j (line_of ?w))"
    by (rule new_witness_verifies [OF j _ digest_zero digest_zero t, of 0 state fs' "[]"]) (auto simp: created)
  have w: "sorted_entries (js_witness fs') = [(entry_name 0, new_file (line_of ?w))]"
    using e by (simp add: fs' first_witness_def add_file_def sorted_entries_def empty_journal_def)
  have "directory_safe (js_witness fs') = Inr ()" using e by (simp add: fs' first_witness_def empty_journal_def)
  then show "verify_witness_locked j fs' state 0 zero_digest [] = Inr ()"
    using r by (simp add: verify_witness_locked_def Let_def w)
  have "utc_at r ''observed_at'' = Inr t" using r(1,4) created by (auto simp: verify_witness_step_def)
  then show "\<exists>w. read_json j (Some (head_witness fs')) = Inr w \<and> jf_bytes (head_witness fs') = line_of w \<and> utc_at w ''observed_at'' = Inr t"
    using r(1,3) by (simp add: head_witness_def w del: utc_at_Inr) (auto simp: new_file_def)
qed

lemma initialized_at:
  assumes j: "journal_ok j" and t: "representable t" and e: "empty_journal fs"
  obtains state where "journal_at j (put_state (initial_state j t) (first_witness j t fs)) state []"
proof -
  let ?fs = "put_state (initial_state j t) (first_witness j t fs)"
  note snd = initial_state_sound [OF j t]
  obtain r where r: "verify_state j (js_state ?fs) = Inr r" "head_of r = Inr (0, zero_digest)" "map_of r = map_of (initial_state j t)"
    unfolding put_state_def by (simp, rule sound_state_verifies [OF j snd], simp)
  have "map_of r (lit ''created_at'') = Some (JStr (utc_text_us t))"
    unfolding r(3) by (simp add: initial_state_def initial_content_def Let_def)
  note wit = first_witness_locked [OF j t e this, of ?fs, unfolded put_state_def, simplified, folded put_state_def]
  have "directory_safe (js_journal ?fs) = Inr ()" "sorted_entries (js_journal ?fs) = []"
    using e by (simp_all add: put_state_def first_witness_def empty_journal_def sorted_entries_def)
  then have "verify_locked j ?fs = Inr (r, [])" using wit(1) by (simp add: verify_locked_def Let_def r)
  moreover have "locked ?fs (\<lambda>_. Inr ()) = Inr ()"
    using e by (simp add: locked_def empty_journal_def put_state_def first_witness_def add_file_def)
  ultimately have "journal_at j ?fs r []" using wit(2) unfolding journal_at_def by blast
  then show thesis by (rule that)
qed

text \<open>
  Initialization ends in a verified empty journal, also when an earlier one stopped half-way.
  On empty directories it succeeds and the files verify to no commitments; when an earlier attempt
  had written only its first witness, a later attempt completes that journal with the time the
  witness names, and leaves the very files the earlier attempt would have left.
\<close>

lemma initialize_establishes:
  assumes "journal_ok j" and "representable created" and "empty_journal fs"
  shows "\<exists>fs' state. initialize_locked j created fs = (fs', Inr ()) \<and> journal_at j fs' state [] \<and>
     verify j fs' = Inr [] \<and> (\<forall>now. initialize_locked j now (first_witness j created fs) = (fs', Inr ()))"
proof -
  let ?fs = "put_state (initial_state j created) (first_witness j created fs)"
  obtain state where at: "journal_at j ?fs state []" by (rule initialized_at [OF assms])
  have v: "verify_locked j ?fs = Inr (state, [])" using at by (simp add: journal_at_def)
  have "map_of (initial_state j created) (lit ''created_at'') = Some (JStr (utc_text_us created))"
    by (simp add: initial_state_def initial_content_def Let_def)
  note wit = first_witness_locked [OF assms this, of "first_witness j created fs", OF refl]
  have none: "sorted_entries (js_witness fs) = []" "js_state fs = None" "js_state (first_witness j created fs) = None"
    using assms(3) by (simp_all add: empty_journal_def sorted_entries_def first_witness_def)
  have one: "sorted_entries (js_witness (first_witness j created fs)) = [(entry_name 0, head_witness (first_witness j created fs))]"
    using assms(3) by (simp add: empty_journal_def sorted_entries_def first_witness_def add_file_def head_witness_def)
  have "initialize_locked j created fs = (?fs, Inr ())"
    using wit(1) by (simp add: initialize_locked_def none Let_def first_witness_def [symmetric] v)
  moreover have "initialize_locked j now (first_witness j created fs) = (?fs, Inr ())" for now
  proof -
    from wit(2) obtain w where "read_json j (Some (head_witness (first_witness j created fs))) = Inr w" "utc_at w ''observed_at'' = Inr created"
      by blast
    then show ?thesis using wit(1) by (simp add: initialize_locked_def none one Let_def v del: utc_at_Inr)
  qed
  ultimately show ?thesis using at journal_at_verify [OF at] by blast
qed

subsection \<open>A sample journal\<close>

lemma entry_fits:
  assumes "journal_ok j" "request_ok rq" "is_ascii ct" "digest_ok prior" "digest_ok (dq_subject_hmac rq)" "n < 10 ^ 20"
    and len: "length (dq_deletion_id rq) \<le> 64" "length (dq_backup_generation_id rq) \<le> 64" "length (dq_policy_version rq) \<le> 64" "length ct \<le> 64"
  shows "fits (entry_payload j rq n ct prior)"
proof -
  have "length prior = 64" "length (dq_subject_hmac rq) = 64" "length (record_mac j l d) = 64" for l d
    using assms(4,5) digests_ok(2) [OF assms(1)] by (simp_all add: digest_ok_def)
  moreover have "length (utc_text_us (dq_backup_generation_created_at rq)) = 27" "length (utc_text_us (dq_committed_at rq)) = 27"
    using assms(2) utc_text_length by (simp_all add: request_ok_def)
  moreover have "length (digits_of n) \<le> 20" by (rule small_number [OF assms(6)])
  ultimately have "record_size (entry_payload j rq n ct prior) \<le> 16000"
    using len by (simp add: record_size_def entry_payload_def entry_content_def Let_def value_size_def journal_format_def)
  then show ?thesis using line_size [OF entry_flat [OF assms(1-6)]] by (simp add: fits_def)
qed

definition sample_journal :: journal where
  "sample_journal = \<lparr>jr_crypto = sample_crypto, jr_aead = sample_aead, jr_settings = sample_lifecycle,
     jr_key = replicate 32 65, jr_witness_key = replicate 32 67, jr_hmac_fp = hexdigest (replicate 32 7),
     jr_aead_fp = hexdigest (replicate 32 7), jr_witness_fp = hexdigest (replicate 32 7), jr_limit = 100, jr_float = id\<rparr>"

definition sample_ledger :: ledger_dir where
  "sample_ledger = \<lparr>ld_root = \<lparr>jd_plain = True, jd_mode = 448\<rparr>, ld_lock_safe = True,
     ld_entries_root = \<lparr>jd_plain = True, jd_mode = 448\<rparr>, ld_entries = []\<rparr>"

definition sample_journal_fs :: journal_fs where
  "sample_journal_fs = \<lparr>js_journal = sample_ledger, js_state = None, js_witness = sample_ledger\<rparr>"

definition sample_deletion :: deletion_request where
  "sample_deletion = \<lparr>dq_deletion_id = lit ''d1'', dq_subject = lit ''u'', dq_subject_hmac = hexdigest (replicate 32 9),
     dq_backup_generation_id = lit ''g1'', dq_backup_generation_created_at = 0, dq_committed_at = 0, dq_policy_version = lit ''p1''\<rparr>"

definition sample_open_journal :: journal_fs where
  "sample_open_journal = put_state (initial_state sample_journal 0) (first_witness sample_journal 0 sample_journal_fs)"

lemma representable_epoch: "representable 0"
  by code_simp

lemma sample_journal_ok: "journal_ok sample_journal"
proof -
  have "byte_list (replicate 32 (7::nat))" by (simp add: byte_list_def list_all_iff)
  then show ?thesis using sample_crypto_ok sample_aead_ok
    by (simp add: journal_ok_def sample_journal_def sample_codec_def digest_ok_hex)
qed

lemma sample_empty: "empty_journal sample_journal_fs"
  by (simp add: empty_journal_def sample_journal_fs_def sample_ledger_def directory_safe_def locked_def)

lemma sample_initialized:
  obtains state where "journal_at sample_journal sample_open_journal state []"
  using initialized_at [OF sample_journal_ok representable_epoch sample_empty] unfolding sample_open_journal_def by blast

lemma sample_acceptable: "acceptable sample_journal (replicate 12 7) sample_deletion"
proof -
  have rq: "request_ok sample_deletion" using representable_epoch by (simp add: request_ok_def sample_deletion_def scalar_lit) (simp add: lit_def)
  have enc: "encrypt_lifecycle_provider_subject sample_crypto sample_aead sample_lifecycle (replicate 12 7) (lit ''d1'') (lit ''u'')
      = Inr (cipher_of sample_journal (replicate 12 7) sample_deletion)"
    by code_simp
  have ct: "is_ascii (cipher_of sample_journal (replicate 12 7) sample_deletion)" "length (cipher_of sample_journal (replicate 12 7) sample_deletion) \<le> 64"
    by code_simp+
  have hm: "lifecycle_hmac sample_crypto sample_lifecycle ''subject'' (lit ''u'') = Inr (hexdigest (replicate 32 9))" by code_simp
  have dg: "digest_ok (hexdigest (replicate 32 9))" by code_simp
  have "fits (entry_payload sample_journal sample_deletion n (cipher_of sample_journal (replicate 12 7) sample_deletion) d)"
    if "n < 10 ^ 20" "digest_ok d" for n d
    using entry_fits [OF sample_journal_ok rq ct(1) that(2) _ that(1)] ct(2) dg by (simp add: sample_deletion_def)
  moreover have "byte_list (replicate 12 (7::nat))" by (simp add: byte_list_def list_all_iff)
  ultimately show ?thesis using rq enc hm by (simp add: acceptable_def sample_journal_def sample_deletion_def)
qed

abbreviation sample_commitment :: commitment where
  "sample_commitment \<equiv> commitment_of sample_deletion 1 (cipher_of sample_journal (replicate 12 7) sample_deletion)"

theorem append_refines_log_witness:
  "\<exists>fs'. append_all sample_journal [(replicate 12 7, sample_deletion)] sample_open_journal = (fs', [Inr sample_commitment]) \<and>
     verify sample_journal fs' = Inr [sample_commitment]"
proof -
  obtain state where at: "journal_at sample_journal sample_open_journal state []" by (rule sample_initialized)
  show ?thesis using append_refines_log [OF sample_journal_ok at, of "[(replicate 12 7, sample_deletion)]"] sample_acceptable
    by (auto simp: log_append_def Let_def)
qed

theorem interrupted_append_detected_witness:
  "\<exists>fs1 e. put_entry 1 (entry_payload sample_journal sample_deletion 1 (cipher_of sample_journal (replicate 12 7) sample_deletion) zero_digest)
       sample_open_journal = Inr fs1 \<and> verify sample_journal fs1 = Inl e"
proof -
  obtain state where at: "journal_at sample_journal sample_open_journal state []" by (rule sample_initialized)
  obtain dg where h: "head_of state = Inr (0, dg)" using journal_at_head [OF sample_journal_ok at] by auto
  have "dg = zero_digest" using journal_at_parts(6) [OF sample_journal_ok at h]
    by (simp add: sample_open_journal_def put_state_def first_witness_def sample_journal_fs_def sample_ledger_def sorted_entries_def)
  moreover have "put_entry (Suc 0) x sample_open_journal = Inr (sample_open_journal\<lparr>js_journal := add_file (entry_name (Suc 0)) (line_of x) sample_ledger\<rparr>)" for x
    by (simp add: put_entry_def write_new_def sample_open_journal_def put_state_def first_witness_def sample_journal_fs_def sample_ledger_def)
  ultimately show ?thesis
    using interrupted_append_detected [OF sample_journal_ok at sample_acceptable _ h _ refl _ refl] by auto
qed

theorem witness_pins_journal_witness:
  "\<exists>state. verify_locked sample_journal sample_open_journal = Inr (state, []) \<and>
     (\<forall>fs' state' cs'. verify_locked sample_journal fs' = Inr (state', cs') \<longrightarrow> js_witness fs' = js_witness sample_open_journal \<longrightarrow> cs' = [])"
proof -
  obtain state where "journal_at sample_journal sample_open_journal state []" by (rule sample_initialized)
  then have v: "verify_locked sample_journal sample_open_journal = Inr (state, [])" by (simp add: journal_at_def)
  show ?thesis using v witness_pins_journal [OF sample_journal_ok v] by auto
qed

end
