(* ===== verification/AccountErasure.thy ===== *)
theory AccountErasure
  imports Retention SearchProjection DeletionJournal "HOL-Library.Option_ord"
begin

text \<open>
  Account erasure: the executor of \<open>services/account_erasure.py\<close>, the reservations it leaves
  (\<open>services/reservations.py\<close>), the mirror check of \<open>services/deletion_journal.py\<close>, the backup
  generations of \<open>services/backup_authority.py\<close>, and the part of the confirmation route of
  \<open>main.py\<close> that opens an erasure.  \<open>ed_reverifications\<close> holds the identifiers of the step-up
  verifications that were used.  Each transaction is one function; files that were unlinked stay
  gone when a transaction rolls back.
\<close>

subsection \<open>Rows\<close>

text \<open>The columns of an erasure item that the ledger's short row leaves out.\<close>

datatype disposition = Do_Delete | Do_Detach | Do_Hold

datatype hold_kind = Retention_Hold | Policy_Hold

record account_item = erasure_item_row +
  ei_deletion_id :: string
  ei_disposition :: disposition
  ei_attempts :: int
  ei_available_at :: "time option"
  ei_lease_expires_at :: "time option"
  ei_claimed_by :: "string option"
  ei_claim_token :: "string option"
  ei_hold_kind :: "hold_kind option"
  ei_hold_id :: "string option"
  ei_hold_review_at :: "time option"
  ei_last_error_code :: "string option"
  ei_created_at :: time
  ei_updated_at :: time
  ei_completed_at :: "time option"

datatype lifecycle_state =
    Confirmation_Pending | Concealed | Erasure_Planned | Erasing | Lifecycle_Held | Lifecycle_Failed
  | Live_Erasure_Complete | Backup_Expiry_Pending | Fully_Erased

datatype provider_state = Provider_Pending | Provider_Verified | Provider_Failed | Provider_Unsupported

datatype backup_state = Expiry_Pending | Backup_Verified

record lifecycle_row =
  al_id :: string
  al_subject_hmac :: pystr
  al_state :: lifecycle_state
  al_provider_state :: provider_state
  al_backup_state :: backup_state
  al_policy_version :: pystr
  al_provider_subject :: "pystr option"
  al_provider_session :: "pystr option"
  al_confirmed_at :: "time option"
  al_concealed_at :: "time option"
  al_live_erased_at :: "time option"
  al_terminal_at :: "time option"
  al_safe_failure_code :: "string option"
  al_request_hmac :: "pystr option"
  al_confirmation_hmac :: "pystr option"
  al_receipt_hmac :: "pystr option"
  al_receipt_recovery_hmac :: "pystr option"
  al_receipt_ciphertext :: "pystr option"

record deny_row =
  ad_subject_hmac :: pystr
  ad_deletion_id :: string
  ad_denied_at :: time

datatype manifest_state = Manifest_Active | Manifest_Expired | Manifest_Crypto_Destroyed

record manifest_row =
  bm_id :: string
  bm_generation_id :: string
  bm_created_at :: time
  bm_expires_at :: time
  bm_state :: manifest_state
  bm_db_digest :: string
  bm_markdown_digest :: string
  bm_expired_proof :: "string option"
  bm_expired_at :: "time option"
  bm_destroyed_proof :: "string option"
  bm_destroyed_at :: "time option"

datatype obligation_state = Obligation_Pending | Obligation_Verified

record obligation_row =
  ob_deletion_id :: string
  ob_generation_id :: string
  ob_generation_created_at :: "time option"
  ob_generation_expires_at :: "time option"
  ob_db_digest :: "string option"
  ob_markdown_digest :: "string option"
  ob_state :: obligation_state
  ob_proof_digest :: "pystr option"
  ob_verified_at :: "time option"

record file_proof_row =
  fp_deletion_id :: string
  fp_resource_type :: resource_type
  fp_resource_id :: string
  fp_relative_path :: string
  fp_deleted_at :: time

record reservation_row =
  rs_namespace :: pystr
  rs_identifier_hmac :: pystr
  rs_deletion_id :: string
  rs_created_at :: time

record terminal_row =
  tr_deletion_id :: string
  tr_policy_version :: pystr
  tr_phase :: string
  tr_result_digest :: pystr
  tr_occurred_at :: time

text \<open>
  The tables of account erasure beside the ledger.  The row of \<open>AccountBackupAuthority\<close> is present
  when its identifier is in the ledger; its one column that is read is \<open>ed_current_generation\<close>.
  Of the tables the ledger does not have, a row is its primary key with the columns that are
  read here: handles of agent identities and slugs of jobs and organizations, version and path
  of a post version; a document has a taxonomy and an exact-search projection while it is listed.
\<close>

record erasure_db =
  ed_ledger :: db
  ed_items :: "account_item list"
  ed_lifecycles :: "lifecycle_row list"
  ed_denies :: "deny_row list"
  ed_manifests :: "manifest_row list"
  ed_current_generation :: string
  ed_obligations :: "obligation_row list"
  ed_proofs :: "file_proof_row list"
  ed_reservations :: "reservation_row list"
  ed_terminals :: "terminal_row list"
  ed_receipt_limits :: "string list"
  ed_reverifications :: "pystr list"
  ed_tasks :: "projection_task list"
  ed_taxonomy :: "string list"
  ed_exact_search :: "string list"
  ed_api_keys :: "string list"
  ed_proposals :: "string list"
  ed_contact_policies :: "pystr list"
  ed_organizations :: "(string \<times> string) list"
  ed_identity_handles :: "(string \<times> string) list"
  ed_job_slugs :: "(string \<times> string) list"
  ed_post_files :: "(string \<times> int \<times> string) list"

type_synonym erasure_world = "erasure_db \<times> tree"

definition provider_session_t :: resource_type where "provider_session_t = Other_T ''provider_session''"
definition provider_user_t :: resource_type where "provider_user_t = Other_T ''provider_user''"
definition provider_ciphertext_t :: resource_type where "provider_ciphertext_t = Other_T ''provider_subject_ciphertext''"
definition backup_manifest_t :: resource_type where "backup_manifest_t = Other_T ''backup_manifest''"
definition api_key_t :: resource_type where "api_key_t = Other_T ''api_key''"
definition contact_policy_t :: resource_type where "contact_policy_t = Other_T ''contact_policy''"
definition agent_proposal_t :: resource_type where "agent_proposal_t = Other_T ''agent_proposal''"
definition account_lifecycle_t :: resource_type where "account_lifecycle_t = Other_T ''account_lifecycle''"

lemmas lifecycle_type_defs = provider_session_t_def provider_user_t_def provider_ciphertext_t_def backup_manifest_t_def
  api_key_t_def contact_policy_t_def agent_proposal_t_def account_lifecycle_t_def

lemma lifecycle_types_distinct [simp]:
  "provider_session_t \<noteq> provider_user_t" "provider_session_t \<noteq> provider_ciphertext_t" "provider_user_t \<noteq> provider_ciphertext_t"
  "backup_manifest_t \<noteq> provider_session_t" "backup_manifest_t \<noteq> provider_user_t" "backup_manifest_t \<noteq> provider_ciphertext_t"
  "provider_user_t \<noteq> provider_session_t" "provider_ciphertext_t \<noteq> provider_session_t" "provider_ciphertext_t \<noteq> provider_user_t"
  by (simp_all add: lifecycle_type_defs)

subsection \<open>Failures, claims and surroundings\<close>

datatype erasure_failure = Erasure_Failure (ef_code: string) (ef_retryable: bool) (ef_retry_at: "time option")

abbreviation dependency_unavailable :: erasure_failure where
  "dependency_unavailable \<equiv> Erasure_Failure ''erasure_dependency_unavailable'' True None"

abbreviation persistence_conflict :: erasure_failure where
  "persistence_conflict \<equiv> Erasure_Failure ''erasure_persistence_conflict'' True None"

abbreviation execution_failed :: erasure_failure where
  "execution_failed \<equiv> Erasure_Failure ''erasure_execution_failed'' True None"

record erasure_claim =
  ec_id :: string
  ec_deletion_id :: string
  ec_resource_type :: resource_type
  ec_resource_id :: string
  ec_phase :: erasure_phase
  ec_claim_token :: string
  ec_attempts :: int

record erasure_executor =
  ex_erasure_worker :: string
  ex_erasure_max_attempts :: int
  ex_erasure_lease_seconds :: int

datatype provider_outcome = Provider_Deleted | Provider_Already_Absent | Provider_Retryable | Provider_Permanent_Unsupported

datatype 'a answer = Answers 'a | Raises

text \<open>
  What one transaction meets: the file system and the digest function as for retention, the keys
  and primitives of the lifecycle settings, \<open>str.casefold\<close>, the answers of the search service and
  of the identity provider, the journal, whether the database refuses the transaction, and what
  the scan over the registered identity and content columns finds for a subject.
\<close>

record erasure_env =
  ee_files :: surroundings
  ee_crypto :: crypto
  ee_aead :: aead
  ee_settings :: lifecycle_settings
  ee_casefold :: "pystr \<Rightarrow> pystr"
  ee_search :: "(projection_error + attestation) answer"
  ee_provider :: "provider_outcome answer"
  ee_journal :: "(journal \<times> journal_fs) option"
  ee_refused :: bool
  ee_residue :: "erasure_db \<Rightarrow> pystr \<Rightarrow> string option"

definition auth_failure :: "auth_error \<Rightarrow> erasure_failure" where
  "auth_failure e = (case e of Authentication_Unavailable \<Rightarrow> dependency_unavailable | Unicode_Encode_Error \<Rightarrow> persistence_conflict)"

definition file_failure :: "storage_error \<Rightarrow> erasure_failure" where
  "file_failure e =
     (case e of Storage_Integrity_Error \<Rightarrow> dependency_unavailable | storage_error.Value_Error \<Rightarrow> persistence_conflict | Index_Error \<Rightarrow> execution_failed)"

definition map_failure :: "('e \<Rightarrow> 'f) \<Rightarrow> 'e + 'a \<Rightarrow> 'f + 'a" where
  "map_failure f r = (case r of Inl e \<Rightarrow> Inl (f e) | Inr x \<Rightarrow> Inr x)"

subsection \<open>Reservations\<close>

definition normalize_identifier :: "(pystr \<Rightarrow> pystr) \<Rightarrow> pystr \<Rightarrow> pystr option" where
  "normalize_identifier casefold v = (let n = casefold (strip v) in if n = [] then None else Some n)"

definition identifier_reservation_hmac ::
    "erasure_env \<Rightarrow> pystr \<Rightarrow> pystr \<Rightarrow> erasure_failure + pystr" where
  "identifier_reservation_hmac env namespace identifier =
     (case normalize_identifier (ee_casefold env) identifier of
        None \<Rightarrow> Inl persistence_conflict
      | Some n \<Rightarrow>
          map_failure auth_failure
            (lifecycle_hmac (ee_crypto env) (ee_settings env) ''identifier-reservation'' (namespace @ lit '':'' @ n)))"

definition identifier_is_reserved :: "erasure_env \<Rightarrow> pystr \<Rightarrow> pystr \<Rightarrow> erasure_db \<Rightarrow> erasure_failure + bool" where
  "identifier_is_reserved env namespace identifier s =
     (if ls_hmac_key (ee_settings env) = None then Inr (ed_reservations s \<noteq> [])
      else and_then (identifier_reservation_hmac env namespace identifier) (\<lambda>digest.
        Inr (exists_where (\<lambda>r. rs_namespace r = namespace \<and> rs_identifier_hmac r = digest) (ed_reservations s))))"

text \<open>\<open>_reserve_identifier\<close>: the namespace and the name of a row that has one.\<close>

definition reserved_name :: "erasure_db \<Rightarrow> resource_type \<Rightarrow> string \<Rightarrow> (pystr \<times> pystr) option" where
  "reserved_name s rt i =
     (case rt of
        Document_T \<Rightarrow> map_option (\<lambda>d. (lit (''document:'' @ doc_kind d), lit (doc_public_identifier d)))
          (get_row doc_id i (documents (ed_ledger s)))
      | Agent_Identity_T \<Rightarrow> map_option (\<lambda>h. (lit ''agent_identity'', lit h)) (map_of (ed_identity_handles s) i)
      | Organization_T \<Rightarrow> map_option (\<lambda>n. (lit ''organization'', lit n)) (map_of (ed_organizations s) i)
      | Job_T \<Rightarrow>
          (case (get_row job_id i (jobs (ed_ledger s)), map_of (ed_job_slugs s) i) of
             (Some j, Some n) \<Rightarrow> Some (lit (''job:'' @ job_organization_id j), lit n)
           | _ \<Rightarrow> None)
      | _ \<Rightarrow> None)"

definition reserve_identifier ::
    "erasure_env \<Rightarrow> time \<Rightarrow> account_item \<Rightarrow> erasure_db \<Rightarrow> erasure_failure + erasure_db" where
  "reserve_identifier env now item s =
     (case reserved_name s (ei_resource_type item) (ei_resource_id item) of
        None \<Rightarrow> Inr s
      | Some (namespace, identifier) \<Rightarrow>
          and_then (identifier_reservation_hmac env namespace identifier) (\<lambda>digest.
          if exists_where (\<lambda>r. rs_namespace r = namespace \<and> rs_identifier_hmac r = digest) (ed_reservations s) then Inr s
          else Inr (s\<lparr>ed_reservations := insert_row
            \<lparr>rs_namespace = namespace, rs_identifier_hmac = digest, rs_deletion_id = ei_deletion_id item, rs_created_at = now\<rparr>
            (ed_reservations s)\<rparr>)))"

subsection \<open>Files\<close>

definition relative_path :: "string \<Rightarrow> string \<Rightarrow> int \<Rightarrow> storage_error + string" where
  "relative_path kind i version =
     (let directory = (if kind = ''profile'' then Some ''profiles'' else if kind = ''resume'' then Some ''resumes''
                       else if kind = ''post'' then Some ''posts'' else None) in
      case directory of
        None \<Rightarrow> Inl storage_error.Value_Error
      | Some dir \<Rightarrow>
          if version < 1 then Inl storage_error.Value_Error
          else Inr (dir @ ''/'' @ i @ ''/versions/'' @ map char_of (padded 6 version) @ ''.md''))"

text \<open>
  \<open>delete_exact\<close>.  A link on the path makes the resolved path differ from the given one, or is
  met by the walk over the components; both raise.
\<close>

definition delete_exact :: "fault \<Rightarrow> tree \<Rightarrow> string \<Rightarrow> tree \<times> (storage_error + unit)" where
  "delete_exact fault t path =
     (let parts = posix_parts path in
      if path = [] \<or> CHR 0x5C \<in> set path then (t, Inl Storage_Integrity_Error)
      else if hd path = CHR ''/'' \<or> ''..'' \<in> set parts then (t, Inl Storage_Integrity_Error)
      else if parts = [] \<or> as_posix parts \<noteq> path then (t, Inl Storage_Integrity_Error)
      else if fault = Read_Fault then (t, Inl Storage_Integrity_Error)
      else
        (case walk t [] parts of
           Through_Link \<Rightarrow> (t, Inl Storage_Integrity_Error)
         | Missing \<Rightarrow> (t, Inr ())
         | Found (Regular _) \<Rightarrow>
             if fault = Unlink_Fault then (t, Inl Storage_Integrity_Error)
             else if fault = Fsync_Fault then (unlink t parts, Inl Storage_Integrity_Error)
             else (unlink t parts, Inr ())
         | Found _ \<Rightarrow> (t, Inl Storage_Integrity_Error)))"

text \<open>The file of an item: its expected and its stored path, and what a verified deletion expects.\<close>

type_synonym file_plan = "string \<times> string option \<times> (string \<times> int option \<times> int) option"

definition file_plan :: "erasure_db \<Rightarrow> account_item \<Rightarrow> erasure_failure + file_plan option" where
  "file_plan s item =
     (let d = ed_ledger s; i = ei_resource_id item in
      case ei_resource_type item of
        Document_Version_T \<Rightarrow>
          (case get_row dv_id i (document_versions d) of
             None \<Rightarrow> Inr None
           | Some v \<Rightarrow>
               (case get_row doc_id (dv_document_id v) (documents d) of
                  None \<Rightarrow> Inl (Erasure_Failure ''storage_parent_missing'' False None)
                | Some doc \<Rightarrow>
                    and_then (map_failure file_failure (relative_path (doc_kind doc) (doc_id doc) (dv_version v))) (\<lambda>expected.
                    Inr (Some (expected, Some (dv_storage_path v), None)))))
      | Post_Version_T \<Rightarrow>
          (case (get_row pv_id i (post_versions d), map_of (ed_post_files s) i) of
             (Some v, Some (version, path)) \<Rightarrow>
               and_then (map_failure file_failure (relative_path ''post'' (pv_post_id v) version)) (\<lambda>expected.
               Inr (Some (expected, Some path, None)))
           | _ \<Rightarrow> Inr None)
      | Verification_Evidence_T \<Rightarrow>
          (case get_row ve_id i (verification_evidence d) of
             None \<Rightarrow> Inr None
           | Some e \<Rightarrow>
               (case get_row ov_id (ve_verification_id e) (organization_verifications d) of
                  None \<Rightarrow> Inl (Erasure_Failure ''storage_parent_missing'' False None)
                | Some v \<Rightarrow> Inr (Some (evidence_path v e, Some (ve_storage_path e),
                    Some (ve_artifact_sha256 e, Some (ve_artifact_size_bytes e), 262144)))))
      | Application_T \<Rightarrow>
          (case get_row app_id i (applications d) of
             None \<Rightarrow> Inr None
           | Some a \<Rightarrow>
               and_then (map_failure file_failure (application_snapshot_relative_path (app_id a))) (\<lambda>expected.
               Inr (Some (expected, app_snapshot_storage_path a, Some (app_snapshot_sha256 a, app_snapshot_size_bytes a, 131072)))))
      | _ \<Rightarrow> Inl (Erasure_Failure ''erasure_file_plan_unsupported'' False None))"

definition remove_file :: "erasure_env \<Rightarrow> tree \<Rightarrow> file_plan \<Rightarrow> tree \<times> (erasure_failure + unit)" where
  "remove_file env t plan =
     (case plan of
        (expected, stored, verified) \<Rightarrow>
          if stored \<noteq> Some expected then (t, Inl (Erasure_Failure ''storage_path_mismatch'' False None))
          else
            (case verified of
               None \<Rightarrow> map_prod id (map_failure file_failure) (delete_exact (env_fault (ee_files env)) t expected)
             | Some (sha256, None, max_size) \<Rightarrow> (t, Inl (Erasure_Failure ''storage_metadata_invalid'' False None))
             | Some (sha256, Some sz, max_size) \<Rightarrow>
                 if sha256 = [] then (t, Inl (Erasure_Failure ''storage_metadata_invalid'' False None))
                 else map_prod id (map_failure file_failure)
                   (delete_verified_exact (env_sha (ee_files env)) (env_stat_follows (ee_files env)) (env_grants (ee_files env))
                      (env_fault (ee_files env)) t expected sha256 sz max_size)))"

definition add_file_proof :: "time \<Rightarrow> account_item \<Rightarrow> string \<Rightarrow> erasure_db \<Rightarrow> erasure_db" where
  "add_file_proof now item path s =
     (if exists_where (\<lambda>p. fp_deletion_id p = ei_deletion_id item \<and> fp_resource_type p = ei_resource_type item \<and>
           fp_resource_id p = ei_resource_id item) (ed_proofs s) then s
      else s\<lparr>ed_proofs := insert_row
        \<lparr>fp_deletion_id = ei_deletion_id item, fp_resource_type = ei_resource_type item, fp_resource_id = ei_resource_id item,
         fp_relative_path = path, fp_deleted_at = now\<rparr> (ed_proofs s)\<rparr>)"

definition erase_file ::
    "erasure_env \<Rightarrow> time \<Rightarrow> account_item \<Rightarrow> erasure_world \<Rightarrow> tree \<times> (erasure_failure + erasure_db)" where
  "erase_file env now item w =
     (case w of (s, t) \<Rightarrow>
       (case file_plan s item of
          Inl f \<Rightarrow> (t, Inl f)
        | Inr None \<Rightarrow> (t, Inr s)
        | Inr (Some plan) \<Rightarrow>
            (case remove_file env t plan of
               (t', Inl f) \<Rightarrow> (t', Inl f)
             | (t', Inr _) \<Rightarrow>
                 (case still_present (ee_files env) t' (fst plan) of
                    Inl _ \<Rightarrow> (t', Inl dependency_unavailable)
                  | Inr present \<Rightarrow>
                      if present then (t', Inl (Erasure_Failure ''storage_absence_unconfirmed'' True None))
                      else (t', Inr (add_file_proof now item (fst plan) s))))))"

subsection \<open>Rows to erase\<close>

definition lifecycle_subject :: "erasure_env \<Rightarrow> string \<Rightarrow> erasure_db \<Rightarrow> erasure_failure + pystr" where
  "lifecycle_subject env deletion_id s =
     (case get_row al_id deletion_id (ed_lifecycles s) of
        None \<Rightarrow> Inl (Erasure_Failure ''provider_ciphertext_unavailable'' False None)
      | Some l \<Rightarrow>
          (case al_provider_subject l of
             None \<Rightarrow> Inl (Erasure_Failure ''provider_ciphertext_unavailable'' False None)
           | Some c \<Rightarrow> map_failure auth_failure
               (decrypt_lifecycle_provider_subject (ee_crypto env) (ee_aead env) (ee_settings env) (lit deletion_id) c)))"

definition erasable :: "resource_type \<Rightarrow> bool" where
  "erasable rt \<longleftrightarrow> rt \<in> {Document_T, Document_Version_T, Post_T, Post_Version_T, api_key_t, Agent_Grant_T, Agent_Mandate_T,
     Agent_Identity_T, Connection_Request_T, Connection_T, Conversation_T, Message_T, Organization_T, Job_T, Application_T,
     Organization_Membership_T, agent_proposal_t}"

definition row_present :: "erasure_db \<Rightarrow> resource_type \<Rightarrow> string \<Rightarrow> bool" where
  "row_present s rt i =
     (let d = ed_ledger s in
      case rt of
        Document_T \<Rightarrow> get_row doc_id i (documents d) \<noteq> None
      | Document_Version_T \<Rightarrow> get_row dv_id i (document_versions d) \<noteq> None
      | Post_T \<Rightarrow> get_row post_id i (posts d) \<noteq> None
      | Post_Version_T \<Rightarrow> get_row pv_id i (post_versions d) \<noteq> None
      | Agent_Grant_T \<Rightarrow> get_row ag_id i (agent_grants d) \<noteq> None
      | Agent_Mandate_T \<Rightarrow> get_row am_id i (agent_mandates d) \<noteq> None
      | Agent_Identity_T \<Rightarrow> get_row ai_id i (agent_identities d) \<noteq> None
      | Connection_Request_T \<Rightarrow> get_row cr_id i (connection_requests d) \<noteq> None
      | Connection_T \<Rightarrow> get_row con_id i (connections d) \<noteq> None
      | Conversation_T \<Rightarrow> get_row cv_id i (conversations d) \<noteq> None
      | Message_T \<Rightarrow> get_row msg_id i (messages d) \<noteq> None
      | Organization_T \<Rightarrow> map_of (ed_organizations s) i \<noteq> None
      | Job_T \<Rightarrow> get_row job_id i (jobs d) \<noteq> None
      | Application_T \<Rightarrow> get_row app_id i (applications d) \<noteq> None
      | Organization_Membership_T \<Rightarrow> get_row om_id i (organization_memberships d) \<noteq> None
      | Other_T t \<Rightarrow> t = ''api_key'' \<and> i \<in> set (ed_api_keys s) \<or> t = ''agent_proposal'' \<and> i \<in> set (ed_proposals s)
      | _ \<Rightarrow> False)"

definition without_key :: "'k \<Rightarrow> ('k \<times> 'v) list \<Rightarrow> ('k \<times> 'v) list" where
  "without_key k = filter (\<lambda>kv. fst kv \<noteq> k)"

text \<open>\<open>session.delete(row)\<close> with the rows that go by \<open>ON DELETE CASCADE\<close>.\<close>

definition drop_job :: "string \<Rightarrow> db \<Rightarrow> db" where
  "drop_job i d = d\<lparr>jobs := delete_row job_id i (jobs d), applications := delete_where (\<lambda>a. app_job_id a = i) (applications d)\<rparr>"

definition drop_organization :: "string \<Rightarrow> db \<Rightarrow> db" where
  "drop_organization i d =
     (let d' = fold drop_job (map job_id (rows_where (\<lambda>j. job_organization_id j = i) (jobs d))) d
      in d'\<lparr>organization_memberships := delete_where (\<lambda>m. om_organization_id m = i) (organization_memberships d')\<rparr>)"

definition drop_ledger_row :: "resource_type \<Rightarrow> string \<Rightarrow> db \<Rightarrow> db" where
  "drop_ledger_row rt i d =
     (case rt of
        Document_T \<Rightarrow> d\<lparr>documents := delete_row doc_id i (documents d),
          document_versions := delete_where (\<lambda>v. dv_document_id v = i) (document_versions d)\<rparr>
      | Document_Version_T \<Rightarrow> d\<lparr>document_versions := delete_row dv_id i (document_versions d)\<rparr>
      | Post_T \<Rightarrow> d\<lparr>posts := delete_row post_id i (posts d),
          post_versions := delete_where (\<lambda>v. pv_post_id v = i) (post_versions d)\<rparr>
      | Post_Version_T \<Rightarrow> d\<lparr>post_versions := delete_row pv_id i (post_versions d)\<rparr>
      | Agent_Grant_T \<Rightarrow> d\<lparr>agent_grants := delete_row ag_id i (agent_grants d)\<rparr>
      | Agent_Mandate_T \<Rightarrow> d\<lparr>agent_mandates := delete_row am_id i (agent_mandates d)\<rparr>
      | Agent_Identity_T \<Rightarrow> d\<lparr>agent_identities := delete_row ai_id i (agent_identities d)\<rparr>
      | Connection_Request_T \<Rightarrow> d\<lparr>connection_requests := delete_row cr_id i (connection_requests d)\<rparr>
      | Connection_T \<Rightarrow> d\<lparr>connections := delete_row con_id i (connections d)\<rparr>
      | Conversation_T \<Rightarrow> d\<lparr>conversations := delete_row cv_id i (conversations d)\<rparr>
      | Message_T \<Rightarrow> d\<lparr>messages := delete_row msg_id i (messages d)\<rparr>
      | Organization_T \<Rightarrow> drop_organization i d
      | Job_T \<Rightarrow> drop_job i d
      | Application_T \<Rightarrow> d\<lparr>applications := delete_row app_id i (applications d)\<rparr>
      | Organization_Membership_T \<Rightarrow> d\<lparr>organization_memberships := delete_row om_id i (organization_memberships d)\<rparr>
      | _ \<Rightarrow> d)"

definition drop_row :: "resource_type \<Rightarrow> string \<Rightarrow> erasure_db \<Rightarrow> erasure_db" where
  "drop_row rt i s =
     (let s' = s\<lparr>ed_ledger := drop_ledger_row rt i (ed_ledger s)\<rparr> in
      case rt of
        Agent_Identity_T \<Rightarrow> s'\<lparr>ed_identity_handles := without_key i (ed_identity_handles s)\<rparr>
      | Organization_T \<Rightarrow> s'\<lparr>ed_organizations := without_key i (ed_organizations s)\<rparr>
      | Job_T \<Rightarrow> s'\<lparr>ed_job_slugs := without_key i (ed_job_slugs s)\<rparr>
      | Other_T t \<Rightarrow>
          if t = ''api_key'' then s'\<lparr>ed_api_keys := removeAll i (ed_api_keys s)\<rparr>
          else if t = ''agent_proposal'' then s'\<lparr>ed_proposals := removeAll i (ed_proposals s)\<rparr>
          else s'
      | _ \<Rightarrow> s')"

text \<open>The exact-version tombstone of a document's search projection is armed again.\<close>

definition rearm_projection :: "time \<Rightarrow> document_row \<Rightarrow> erasure_db \<Rightarrow> erasure_db" where
  "rearm_projection now doc s =
     (case get_row pt_key (doc_id doc, doc_current_version doc) (ed_tasks s) of
        None \<Rightarrow> s\<lparr>ed_tasks := insert_row
          \<lparr>pt_document_id = doc_id doc, pt_version = doc_current_version doc, pt_state = P_Pending, pt_attempts = 0,
           pt_available_at = now, pt_lease_expires_at = None, pt_claimed_by = None, pt_claim_token = None,
           pt_last_error_code = None, pt_dead_lettered_at = None, pt_created_at = now, pt_updated_at = now\<rparr> (ed_tasks s)\<rparr>
      | Some task \<Rightarrow> s\<lparr>ed_tasks := save_row pt_key
          (task\<lparr>pt_state := P_Pending, pt_attempts := 0, pt_available_at := now, pt_lease_expires_at := None,
             pt_claimed_by := None, pt_claim_token := None, pt_last_error_code := None, pt_dead_lettered_at := None,
             pt_updated_at := now\<rparr>) (ed_tasks s)\<rparr>)"

definition conceal_document :: "string \<Rightarrow> erasure_db \<Rightarrow> erasure_db" where
  "conceal_document i s = s\<lparr>ed_taxonomy := removeAll i (ed_taxonomy s), ed_exact_search := removeAll i (ed_exact_search s)\<rparr>"

definition erase_row :: "erasure_env \<Rightarrow> time \<Rightarrow> account_item \<Rightarrow> erasure_db \<Rightarrow> erasure_failure + erasure_db" where
  "erase_row env now item s =
     (let rt = ei_resource_type item; i = ei_resource_id item in
      if rt = contact_policy_t then
        and_then (lifecycle_subject env (ei_deletion_id item) s) (\<lambda>subject.
        Inr (s\<lparr>ed_contact_policies := removeAll subject (ed_contact_policies s)\<rparr>))
      else if \<not> erasable rt then Inl (Erasure_Failure ''erasure_row_plan_unsupported'' False None)
      else if \<not> row_present s rt i then Inr s
      else
        and_then (reserve_identifier env now item s) (\<lambda>s1.
        Inr (drop_row rt i
          (case (rt, get_row doc_id i (documents (ed_ledger s))) of
             (Document_T, Some doc) \<Rightarrow> conceal_document i (rearm_projection now doc s1)
           | _ \<Rightarrow> s1))))"

subsection \<open>Backup proofs and the final check\<close>

definition isoformat :: "time \<Rightarrow> pystr" where
  "isoformat t = butlast (isoformat_z t) @ lit ''+00:00''"

text \<open>\<open>json.dumps(snapshot, sort_keys=True)\<close> of texts, with the default separators.\<close>

definition spaced_json :: "(string \<times> pystr) list \<Rightarrow> pystr" where
  "spaced_json kvs =
     [123] @ concat (map (\<lambda>(n, kv). (if n = 0 then [] else [44, 32]) @ quoted ascii_escape (lit (fst kv)) @ [58, 32] @
        quoted ascii_escape (snd kv)) (enumerate 0 (sort_key fst kvs))) @ [125]"

definition erasure_digest :: "erasure_env \<Rightarrow> pystr \<Rightarrow> pystr" where
  "erasure_digest env text = hexdigest (cr_sha256 (ee_crypto env) text)"

definition backup_digest ::
    "erasure_env \<Rightarrow> obligation_row \<Rightarrow> time \<Rightarrow> time \<Rightarrow> string \<Rightarrow> string \<Rightarrow> string \<Rightarrow> time \<Rightarrow> string \<Rightarrow> pystr" where
  "backup_digest env ob created expires db_digest markdown_digest reason proof_time operator_proof =
     erasure_digest env (spaced_json
       [(''deletion_id'', lit (ob_deletion_id ob)), (''generation_id'', lit (ob_generation_id ob)),
        (''created_at'', isoformat created), (''expires_at'', isoformat expires), (''db_manifest_digest'', lit db_digest),
        (''markdown_manifest_digest'', lit markdown_digest), (''reason'', lit reason), (''proof_time'', isoformat proof_time),
        (''operator_proof'', lit operator_proof)])"

text \<open>The operator's proof that a generation is gone, if there is one that counts now.\<close>

definition retirement_proof :: "time \<Rightarrow> time \<Rightarrow> manifest_row \<Rightarrow> (string \<times> time \<times> string) option" where
  "retirement_proof now expires m =
     (case (bm_state m, bm_expired_proof m, bm_expired_at m, bm_destroyed_proof m, bm_destroyed_at m) of
        (Manifest_Expired, Some p, Some t, _, _) \<Rightarrow> if t \<le> now \<and> expires \<le> now then Some (''expired'', t, p) else None
      | (Manifest_Crypto_Destroyed, _, _, Some p, Some t) \<Rightarrow> if t \<le> now then Some (''crypto_destroyed'', t, p) else None
      | _ \<Rightarrow> None)"

definition verify_backup :: "erasure_env \<Rightarrow> time \<Rightarrow> account_item \<Rightarrow> erasure_db \<Rightarrow> erasure_failure + erasure_db" where
  "verify_backup env now item s =
     (case get_row bm_id (ei_resource_id item) (ed_manifests s) of
        None \<Rightarrow> Inl (Erasure_Failure ''backup_manifest_missing'' False None)
      | Some m \<Rightarrow>
          (case row_where (\<lambda>ob. ob_deletion_id ob = ei_deletion_id item \<and> ob_generation_id ob = bm_generation_id m) (ed_obligations s) of
             None \<Rightarrow> Inl (Erasure_Failure ''backup_snapshot_missing'' False None)
           | Some ob \<Rightarrow>
               (case (ob_generation_created_at ob, ob_generation_expires_at ob, ob_db_digest ob, ob_markdown_digest ob) of
                  (Some created, Some expires, Some dbd, Some mdd) \<Rightarrow>
                    if bm_created_at m \<noteq> created \<or> bm_expires_at m \<noteq> expires \<or> bm_db_digest m \<noteq> dbd \<or> bm_markdown_digest m \<noteq> mdd
                    then Inl (Erasure_Failure ''backup_snapshot_mismatch'' False None)
                    else
                      (case retirement_proof now expires m of
                         None \<Rightarrow> Inl (Erasure_Failure ''backup_expiry_pending'' True (Some (max (now + seconds 30) expires)))
                       | Some (reason, proof_time, operator_proof) \<Rightarrow>
                           Inr (s\<lparr>ed_obligations := update_where
                             (\<lambda>x. ob_deletion_id x = ob_deletion_id ob \<and> ob_generation_id x = ob_generation_id ob)
                             (\<lambda>x. x\<lparr>ob_proof_digest := Some (backup_digest env ob created expires dbd mdd reason proof_time operator_proof),
                                ob_verified_at := Some now, ob_state := Obligation_Verified\<rparr>) (ed_obligations s)\<rparr>))
                | _ \<Rightarrow> Inl (Erasure_Failure ''backup_snapshot_missing'' False None))))"

definition file_items :: "string \<Rightarrow> erasure_db \<Rightarrow> account_item list" where
  "file_items deletion_id s = rows_where (\<lambda>i. ei_deletion_id i = deletion_id \<and> ei_phase i = Delete_File) (ed_items s)"

definition proof_of :: "erasure_db \<Rightarrow> account_item \<Rightarrow> file_proof_row option" where
  "proof_of s item = row_where (\<lambda>p. fp_deletion_id p = ei_deletion_id item \<and> fp_resource_type p = ei_resource_type item \<and>
     fp_resource_id p = ei_resource_id item) (ed_proofs s)"

text \<open>The loop over the file items of \<open>_postcheck\<close>.\<close>

fun check_files :: "erasure_env \<Rightarrow> tree \<Rightarrow> erasure_db \<Rightarrow> account_item list \<Rightarrow> erasure_failure + unit" where
  "check_files env t s [] = Inr ()"
| "check_files env t s (item # rest) =
     (case proof_of s item of
        None \<Rightarrow> Inl (Erasure_Failure ''postcheck_file_absence_unconfirmed'' False None)
      | Some p \<Rightarrow>
          (case still_present (ee_files env) t (fp_relative_path p) of
             Inl _ \<Rightarrow> Inl dependency_unavailable
           | Inr True \<Rightarrow> Inl (Erasure_Failure ''postcheck_file_absence_unconfirmed'' False None)
           | Inr False \<Rightarrow> check_files env t s rest))"

definition postcheck :: "erasure_env \<Rightarrow> string \<Rightarrow> erasure_world \<Rightarrow> erasure_failure + unit" where
  "postcheck env deletion_id w =
     (case w of (s, t) \<Rightarrow>
        and_then (lifecycle_subject env deletion_id s) (\<lambda>subject.
        (case ee_residue env s subject of
           Some code \<Rightarrow> Inl (Erasure_Failure code False None)
         | None \<Rightarrow>
             and_then (require (list_all (\<lambda>i. ei_state i = E_Completed) (file_items deletion_id s))
               (Erasure_Failure ''postcheck_file_absence_unconfirmed'' True None)) (\<lambda>_.
             check_files env t s (file_items deletion_id s)))))"

subsection \<open>Holds and prerequisites\<close>

text \<open>
  The unreleased hold on the resource itself, or else one on an ancestor; the code takes the first
  it meets in a Python set, here the first in the table.
\<close>

definition erasure_hold :: "erasure_db \<Rightarrow> account_item \<Rightarrow> retention_hold_row option" where
  "erasure_hold s item =
     (let r = (ei_resource_type item, ei_resource_id item); holds = retention_holds (ed_ledger s) in
      case row_where (\<lambda>h. (hold_resource_type h, hold_resource_id h) = r \<and> hold_released_at h = None) holds of
        Some h \<Rightarrow> Some h
      | None \<Rightarrow> row_where (\<lambda>h. (hold_resource_type h, hold_resource_id h) \<in> hold_ancestors (ed_ledger s) r \<and>
          hold_released_at h = None) holds)"

definition hold_covers_item :: "erasure_db \<Rightarrow> retention_hold_row \<Rightarrow> account_item \<Rightarrow> bool" where
  "hold_covers_item s h item \<longleftrightarrow>
     (let r = (ei_resource_type item, ei_resource_id item) in
      (hold_resource_type h, hold_resource_id h) \<in> insert r (hold_ancestors (ed_ledger s) r))"

definition active_policy_ancestor :: "erasure_db \<Rightarrow> account_item \<Rightarrow> bool" where
  "active_policy_ancestor s item =
     exists_where (\<lambda>x. ei_deletion_id x = ei_deletion_id item \<and>
       (ei_resource_type x, ei_resource_id x) \<in> hold_ancestors (ed_ledger s) (ei_resource_type item, ei_resource_id item) \<and>
       ei_phase x = Delete_Row \<and> ei_state x = E_Held \<and> ei_hold_kind x = Some Policy_Hold) (ed_items s)"

definition incomplete_items :: "erasure_db \<Rightarrow> string \<Rightarrow> (account_item \<Rightarrow> bool) \<Rightarrow> bool" where
  "incomplete_items s deletion_id p =
     exists_where (\<lambda>x. ei_deletion_id x = deletion_id \<and> ei_state x \<noteq> E_Completed \<and> p x) (ed_items s)"

definition child_types :: "resource_type \<Rightarrow> resource_type list" where
  "child_types rt =
     (case rt of
        Agent_Mandate_T \<Rightarrow> [Agent_Grant_T]
      | Agent_Identity_T \<Rightarrow> [Agent_Grant_T, Agent_Mandate_T]
      | Document_T \<Rightarrow> [Document_Version_T, Post_T, Agent_Identity_T]
      | Post_T \<Rightarrow> [Post_Version_T, Post_Report_T, Moderation_Case_T, Moderation_Decision_T, Moderation_Appeal_T,
          Moderation_Audit_Event_T, Post_Moderation_Event_T]
      | Conversation_T \<Rightarrow> [Message_T]
      | Connection_T \<Rightarrow> [Conversation_T]
      | Connection_Request_T \<Rightarrow> [Connection_T]
      | Verification_T \<Rightarrow> [Verification_Evidence_T, Verification_Event_T]
      | Job_T \<Rightarrow> [Application_T]
      | Organization_T \<Rightarrow> [Job_T, Organization_Membership_T, Verification_T]
      | _ \<Rightarrow> [])"

definition prerequisites_complete :: "erasure_db \<Rightarrow> account_item \<Rightarrow> bool" where
  "prerequisites_complete s item =
     (let rt = ei_resource_type item; i = ei_resource_id item; phase = ei_phase item;
          missing = incomplete_items s (ei_deletion_id item);
          sessions = missing (\<lambda>x. ei_resource_type x = provider_session_t \<and> ei_phase x = Provider) in
      if phase = Backup then True
      else if rt = provider_session_t then True
      else if sessions then False
      else if phase = Postcheck then
        \<not> missing (\<lambda>x. ei_phase x \<notin> {Postcheck, Provider, Backup} \<and> ei_resource_type x \<noteq> provider_ciphertext_t)
      else if phase = Provider then \<not> missing (\<lambda>x. ei_phase x = Postcheck) \<and> \<not> sessions
      else if rt = provider_ciphertext_t then
        (case get_row al_id (ei_deletion_id item) (ed_lifecycles s) of
           None \<Rightarrow> False
         | Some l \<Rightarrow> al_provider_state l = Provider_Verified \<and>
             \<not> missing (\<lambda>x. ei_resource_type x = provider_user_t \<and> ei_phase x = Provider))
      else if phase = Delete_Row then
        \<not> (rt \<in> {Document_Version_T, Post_Version_T, Verification_Evidence_T, Application_T} \<and>
           missing (\<lambda>x. ei_resource_type x = rt \<and> ei_resource_id x = i \<and> ei_phase x = Delete_File)) \<and>
        \<not> (rt \<in> {Document_T, Post_T} \<and> missing (\<lambda>x. ei_resource_type x = rt \<and> ei_resource_id x = i \<and> ei_phase x = Unindex)) \<and>
        \<not> (child_types rt \<noteq> [] \<and> missing (\<lambda>x. ei_resource_type x \<in> set (child_types rt)))
      else True)"

subsection \<open>Changes of one item\<close>

definition clear_lease :: "account_item \<Rightarrow> account_item" where
  "clear_lease i = i\<lparr>ei_lease_expires_at := None, ei_claimed_by := None, ei_claim_token := None\<rparr>"

definition mark_held :: "time \<Rightarrow> retention_hold_row \<Rightarrow> account_item \<Rightarrow> account_item" where
  "mark_held now h i =
     (clear_lease i)\<lparr>ei_state := E_Held, ei_disposition := Do_Hold, ei_hold_kind := Some Retention_Hold,
       ei_hold_id := Some (hold_id h), ei_hold_review_at := Some (hold_review_at h), ei_available_at := None,
       ei_last_error_code := Some ''retention_hold_active'', ei_updated_at := now\<rparr>"

definition mark_policy_held :: "time \<Rightarrow> account_item \<Rightarrow> account_item" where
  "mark_policy_held now i =
     (clear_lease i)\<lparr>ei_state := E_Held, ei_disposition := Do_Hold, ei_hold_kind := Some Policy_Hold,
       ei_hold_id := None, ei_hold_review_at := None, ei_available_at := None,
       ei_last_error_code := Some ''policy_parent_held'', ei_updated_at := now\<rparr>"

definition complete_item :: "time \<Rightarrow> string option \<Rightarrow> account_item \<Rightarrow> account_item" where
  "complete_item now code i =
     (clear_lease i)\<lparr>ei_state := E_Completed, ei_available_at := None, ei_hold_kind := None, ei_hold_id := None,
       ei_hold_review_at := None, ei_last_error_code := code, ei_completed_at := Some now, ei_updated_at := now\<rparr>"

definition lease_item :: "erasure_executor \<Rightarrow> time \<Rightarrow> string \<Rightarrow> account_item \<Rightarrow> account_item" where
  "lease_item ex now token i =
     i\<lparr>ei_state := E_Leased, ei_attempts := ei_attempts i + 1,
       ei_lease_expires_at := Some (now + seconds (ex_erasure_lease_seconds ex)), ei_claimed_by := Some (ex_erasure_worker ex),
       ei_claim_token := Some token, ei_updated_at := now\<rparr>"

definition save_item :: "account_item \<Rightarrow> erasure_db \<Rightarrow> erasure_db" where
  "save_item i s = s\<lparr>ed_items := save_row ei_id i (ed_items s)\<rparr>"

definition save_lifecycle :: "lifecycle_row \<Rightarrow> erasure_db \<Rightarrow> erasure_db" where
  "save_lifecycle l s = s\<lparr>ed_lifecycles := save_row al_id l (ed_lifecycles s)\<rparr>"

definition leased_item :: "erasure_claim \<Rightarrow> erasure_db \<Rightarrow> account_item option" where
  "leased_item cl s =
     row_where (\<lambda>i. ei_id i = ec_id cl \<and> ei_state i = E_Leased \<and> ei_claim_token i = Some (ec_claim_token cl)) (ed_items s)"

subsection \<open>Releasing held items\<close>

definition requeue_item :: "erasure_db \<Rightarrow> time \<Rightarrow> account_item \<Rightarrow> account_item" where
  "requeue_item s now i =
     (let invalid = i\<lparr>ei_state := E_Dead_Letter, ei_last_error_code := Some ''retention_hold_reference_invalid'', ei_updated_at := now\<rparr> in
      case ei_hold_id i of
        None \<Rightarrow> invalid
      | Some h \<Rightarrow>
          (case get_row hold_id h (retention_holds (ed_ledger s)) of
             None \<Rightarrow> invalid
           | Some hold \<Rightarrow>
               if \<not> hold_covers_item s hold i then invalid
               else if hold_released_at hold = None then i
               else (clear_lease i)\<lparr>ei_state := E_Queued, ei_disposition := Do_Delete, ei_hold_kind := None, ei_hold_id := None,
                 ei_hold_review_at := None, ei_available_at := Some now, ei_last_error_code := Some ''retention_hold_released'',
                 ei_updated_at := now\<rparr>))"

definition requeue_released :: "time \<Rightarrow> erasure_db \<Rightarrow> erasure_db" where
  "requeue_released now s =
     s\<lparr>ed_items := update_where (\<lambda>i. ei_state i = E_Held \<and> ei_hold_kind i = Some Retention_Hold) (requeue_item s now) (ed_items s)\<rparr>"

subsection \<open>Claiming\<close>

definition item_eligible :: "time \<Rightarrow> account_item \<Rightarrow> bool" where
  "item_eligible now i \<longleftrightarrow>
     (ei_state i = E_Queued \<and> (case ei_available_at i of None \<Rightarrow> False | Some t \<Rightarrow> t \<le> now)) \<or>
     (ei_state i = E_Leased \<and> (case ei_lease_expires_at i of None \<Rightarrow> False | Some t \<Rightarrow> t \<le> now))"

definition claim_rows :: "time \<Rightarrow> erasure_db \<Rightarrow> account_item list" where
  "claim_rows now s =
     take 100 (order_by (\<lambda>i. (ei_available_at i, ei_created_at i, ei_id i)) (rows_where (item_eligible now) (ed_items s)))"

text \<open>
  The loop of \<open>_claim_one\<close> over the candidates, up to the first commit.  The rows are locked, so
  the guarded update matches the row that was read.
\<close>

fun claim_loop ::
    "erasure_executor \<Rightarrow> time \<Rightarrow> string \<Rightarrow> erasure_db \<Rightarrow> account_item list \<Rightarrow> erasure_db \<times> erasure_claim option \<times> account_item option" where
  "claim_loop ex now token s [] = (s, None, None)"
| "claim_loop ex now token s (item # rest) =
     (case get_row al_id (ei_deletion_id item) (ed_lifecycles s) of
        None \<Rightarrow> claim_loop ex now token s rest
      | Some l \<Rightarrow>
          if al_state l = Fully_Erased then claim_loop ex now token s rest
          else
            (case (if ei_phase item = Unindex then None else erasure_hold s item) of
               Some h \<Rightarrow> (save_item (mark_held now h item) s, None, Some item)
             | None \<Rightarrow>
                 if ei_phase item \<noteq> Unindex \<and> active_policy_ancestor s item
                 then (save_item (mark_policy_held now item) s, None, Some item)
                 else if \<not> prerequisites_complete s item then claim_loop ex now token s rest
                 else (save_item (lease_item ex now token item) s,
                   Some \<lparr>ec_id = ei_id item, ec_deletion_id = ei_deletion_id item, ec_resource_type = ei_resource_type item,
                     ec_resource_id = ei_resource_id item, ec_phase = ei_phase item, ec_claim_token = token,
                     ec_attempts = ei_attempts item + 1\<rparr>, None)))"

definition claim_item ::
    "erasure_executor \<Rightarrow> time \<Rightarrow> string \<Rightarrow> erasure_db \<Rightarrow> erasure_db \<times> erasure_claim option \<times> account_item option" where
  "claim_item ex now token s = claim_loop ex now token s (claim_rows now s)"

subsection \<open>Reconciling a lifecycle with its items\<close>

definition verify_live_deletion_mirror :: "journal \<Rightarrow> journal_fs \<Rightarrow> erasure_db \<Rightarrow> journal_error + nat" where
  "verify_live_deletion_mirror j fs s =
     and_then (verify j fs) (\<lambda>commitments.
     (let lifecycles = rows_where (\<lambda>l. al_state l \<noteq> Confirmation_Pending) (ed_lifecycles s);
          ids = cm_deletion_id ` set commitments in
      and_then (require (ids = (lit \<circ> al_id) ` set lifecycles \<and> ids = (lit \<circ> ad_deletion_id) ` set (ed_denies s)) Journal_Error) (\<lambda>_.
      and_then (require (list_all (\<lambda>c.
          (case (row_where (\<lambda>l. lit (al_id l) = cm_deletion_id c) lifecycles, row_where (\<lambda>d. lit (ad_deletion_id d) = cm_deletion_id c) (ed_denies s)) of
             (Some l, Some d) \<Rightarrow>
               al_subject_hmac l = cm_subject_hmac c \<and> al_policy_version l = cm_policy_version c \<and>
               al_confirmed_at l = Some (cm_committed_at c) \<and> al_concealed_at l = Some (cm_committed_at c) \<and>
               ad_subject_hmac d = cm_subject_hmac c \<and> ad_denied_at d = cm_committed_at c
           | _ \<Rightarrow> False)) commitments) Journal_Error) (\<lambda>_.
      Inr (length commitments)))))"

definition terminal_digest :: "erasure_env \<Rightarrow> string \<Rightarrow> pystr \<Rightarrow> time \<Rightarrow> pystr" where
  "terminal_digest env deletion_id policy_version t =
     erasure_digest env (lit ''connect.md:lifecycle:terminal:v1:'' @ lit deletion_id @ lit '':'' @ policy_version @ lit '':'' @ isoformat t)"

definition marker_ok :: "pystr option \<Rightarrow> bool" where
  "marker_ok m = (case m of None \<Rightarrow> True | Some v \<Rightarrow> digest_ok v)"

text \<open>\<open>_scrub_expired_terminal_markers\<close>; any doubt leaves the rows as they are.\<close>

definition scrub_markers :: "erasure_env \<Rightarrow> time \<Rightarrow> lifecycle_row \<Rightarrow> erasure_db \<Rightarrow> erasure_db" where
  "scrub_markers env now l s =
     (case (al_terminal_at l, row_where (\<lambda>r. tr_deletion_id r = al_id l) (ed_terminals s), ee_journal env) of
        (Some terminal, Some tomb, Some (j, fs)) \<Rightarrow>
          if now < terminal + days 30 \<or> al_state l \<noteq> Fully_Erased \<or> tr_phase tomb \<noteq> ''fully_erased'' \<or>
             tr_policy_version tomb \<noteq> al_policy_version l \<or> tr_occurred_at tomb \<noteq> terminal \<or>
             tr_result_digest tomb \<noteq> terminal_digest env (al_id l) (al_policy_version l) terminal
          then s
          else
            (case verify_live_deletion_mirror j fs s of
               Inl _ \<Rightarrow> s
             | Inr n \<Rightarrow>
                 if n < 1 \<or> \<not> marker_ok (al_request_hmac l) \<or> \<not> marker_ok (al_confirmation_hmac l) \<or>
                    \<not> marker_ok (al_receipt_hmac l) \<or> \<not> marker_ok (al_receipt_recovery_hmac l) then s
                 else save_lifecycle (l\<lparr>al_request_hmac := None, al_confirmation_hmac := None, al_receipt_hmac := None,
                   al_receipt_recovery_hmac := None\<rparr>) (s\<lparr>ed_receipt_limits := removeAll (al_id l) (ed_receipt_limits s)\<rparr>))
      | _ \<Rightarrow> s)"

definition items_of :: "erasure_db \<Rightarrow> string \<Rightarrow> account_item list" where
  "items_of s deletion_id = rows_where (\<lambda>i. ei_deletion_id i = deletion_id) (ed_items s)"

definition finish_lifecycle :: "erasure_env \<Rightarrow> time \<Rightarrow> lifecycle_row \<Rightarrow> erasure_db \<Rightarrow> erasure_db" where
  "finish_lifecycle env now l s =
     (let s' = save_lifecycle (l\<lparr>al_backup_state := Backup_Verified, al_terminal_at := Some now, al_state := Fully_Erased,
            al_safe_failure_code := None\<rparr>) s in
      if exists_where (\<lambda>r. tr_deletion_id r = al_id l) (ed_terminals s) then s'
      else s'\<lparr>ed_terminals := insert_row
        \<lparr>tr_deletion_id = al_id l, tr_policy_version = al_policy_version l, tr_phase = ''fully_erased'',
         tr_result_digest = terminal_digest env (al_id l) (al_policy_version l) now, tr_occurred_at = now\<rparr> (ed_terminals s)\<rparr>)"

text \<open>The part of \<open>_reconcile\<close> after every local item is completed and the provider is settled.\<close>

definition reconcile_live :: "erasure_env \<Rightarrow> time \<Rightarrow> lifecycle_row \<Rightarrow> erasure_db \<Rightarrow> erasure_db" where
  "reconcile_live env now l s =
     (let items = items_of s (al_id l);
          documents = set (map ei_resource_id (filter (\<lambda>i. ei_resource_type i = Document_T) items));
          tasks = rows_where (\<lambda>t. pt_document_id t \<in> documents) (ed_tasks s) in
      if exists_where (\<lambda>t. pt_state t = P_Dead_Letter) tasks
      then save_lifecycle (l\<lparr>al_state := Lifecycle_Failed, al_safe_failure_code := Some ''search_projection_dead_letter''\<rparr>) s
      else if tasks \<noteq> [] then save_lifecycle (l\<lparr>al_state := Erasing, al_safe_failure_code := None\<rparr>) s
      else
        (let l' = l\<lparr>al_live_erased_at := (case al_live_erased_at l of None \<Rightarrow> Some now | Some t \<Rightarrow> Some t)\<rparr> in
         if exists_where (\<lambda>i. ei_phase i = Backup \<and> ei_state i \<noteq> E_Completed) items \<or>
            exists_where (\<lambda>ob. ob_deletion_id ob = al_id l \<and> (ob_state ob \<noteq> Obligation_Verified \<or> ob_proof_digest ob = None)) (ed_obligations s)
         then save_lifecycle (l'\<lparr>al_backup_state := Expiry_Pending, al_state := Backup_Expiry_Pending\<rparr>) s
         else finish_lifecycle env now l' s))"

definition reconcile :: "erasure_env \<Rightarrow> time \<Rightarrow> string \<Rightarrow> erasure_db \<Rightarrow> erasure_db" where
  "reconcile env now deletion_id s =
     (if account_backup_authority_id \<notin> set (backup_authority (ed_ledger s)) then s
      else
        (case get_row al_id deletion_id (ed_lifecycles s) of
           None \<Rightarrow> s
         | Some l \<Rightarrow>
             if al_state l = Confirmation_Pending then s
             else if al_state l = Fully_Erased then scrub_markers env now l s
             else
               (let items = items_of s deletion_id in
                if exists_where (\<lambda>i. ei_state i = E_Dead_Letter) items
                then save_lifecycle (l\<lparr>al_state := Lifecycle_Failed, al_safe_failure_code := Some ''erasure_dead_letter''\<rparr>) s
                else if exists_where (\<lambda>i. ei_state i = E_Held) items
                then save_lifecycle (l\<lparr>al_state := Lifecycle_Held, al_safe_failure_code := Some ''erasure_hold_active''\<rparr>) s
                else if exists_where (\<lambda>i. ei_phase i \<noteq> Backup \<and> ei_state i \<noteq> E_Completed) items \<or>
                  al_provider_state l \<noteq> Provider_Verified \<or> al_provider_subject l \<noteq> None \<or> al_provider_session l \<noteq> None
                then save_lifecycle (l\<lparr>al_state := Erasing, al_safe_failure_code := None\<rparr>) s
                else reconcile_live env now l s)))"

definition reconcile_all :: "erasure_env \<Rightarrow> time \<Rightarrow> erasure_db \<Rightarrow> erasure_db" where
  "reconcile_all env now s = fold (reconcile env now) (map al_id (ed_lifecycles s)) s"

subsection \<open>Executing an item\<close>

definition erase_ciphertexts :: "string \<Rightarrow> erasure_db \<Rightarrow> erasure_failure + erasure_db" where
  "erase_ciphertexts deletion_id s =
     (case get_row al_id deletion_id (ed_lifecycles s) of
        None \<Rightarrow> Inl (Erasure_Failure ''provider_not_verified'' True None)
      | Some l \<Rightarrow>
          if al_provider_state l \<noteq> Provider_Verified then Inl (Erasure_Failure ''provider_not_verified'' True None)
          else Inr (save_lifecycle (l\<lparr>al_provider_subject := None, al_provider_session := None\<rparr>) s))"

definition execute ::
    "erasure_env \<Rightarrow> time \<Rightarrow> account_item \<Rightarrow> erasure_world \<Rightarrow> tree \<times> (erasure_failure + erasure_db \<times> string option)" where
  "execute env now item w =
     (case w of (s, t) \<Rightarrow>
       if ei_phase item = Delete_File then
         (case erase_file env now item (s, t) of (t', r) \<Rightarrow> (t', and_then r (\<lambda>s'. Inr (s', Some ''file_absence_attested''))))
       else (t,
         if ei_resource_type item = provider_ciphertext_t \<and> ei_phase item = Delete_Row then
           and_then (erase_ciphertexts (ei_deletion_id item) s) (\<lambda>s'. Inr (s', Some ''provider_ciphertext_erased''))
         else if ei_phase item = Delete_Row then and_then (erase_row env now item s) (\<lambda>s'. Inr (s', None))
         else if ei_phase item = Postcheck then
           and_then (postcheck env (ei_deletion_id item) (s, t)) (\<lambda>_. Inr (s, Some ''postcheck_attested''))
         else if ei_phase item = Backup then
           and_then (verify_backup env now item s) (\<lambda>s'. Inr (s', Some ''backup_proof_attested''))
         else Inl (Erasure_Failure ''erasure_plan_unsupported'' False None)))"

datatype erasure_outcome = Item_Completed | Item_Retried | Item_Dead_Lettered

text \<open>\<open>_fail\<close> without the reconciliation that follows it.\<close>

definition fail_item ::
    "erasure_executor \<Rightarrow> time \<Rightarrow> erasure_claim \<Rightarrow> erasure_failure \<Rightarrow> erasure_db \<Rightarrow> erasure_db \<times> erasure_outcome \<times> bool" where
  "fail_item ex now cl f s =
     (case leased_item cl s of
        None \<Rightarrow> (s, Item_Retried, False)
      | Some item \<Rightarrow>
          (let i = (clear_lease item)\<lparr>ei_last_error_code := Some (ef_code f), ei_updated_at := now\<rparr> in
           if ef_code f = ''backup_expiry_pending'' then
             (save_item (i\<lparr>ei_state := E_Queued, ei_attempts := max 0 (ei_attempts i - 1),
                ei_available_at := Some (case ef_retry_at f of None \<Rightarrow> now + seconds 30 | Some t \<Rightarrow> t)\<rparr>) s, Item_Retried, True)
           else if \<not> ef_retryable f \<or> ei_attempts i \<ge> ex_erasure_max_attempts ex then
             (save_item (i\<lparr>ei_state := E_Dead_Letter, ei_available_at := None\<rparr>) s, Item_Dead_Lettered, True)
           else
             (save_item (i\<lparr>ei_state := E_Queued, ei_available_at := Some (now + seconds (2 ^ nat (min (ei_attempts i) 6)))\<rparr>) s,
              Item_Retried, True)))"

definition fail_claim ::
    "erasure_executor \<Rightarrow> erasure_env \<Rightarrow> time \<Rightarrow> erasure_claim \<Rightarrow> erasure_failure \<Rightarrow> erasure_db \<Rightarrow> erasure_db \<times> erasure_outcome" where
  "fail_claim ex env now cl f s =
     (case fail_item ex now cl f s of
        (s', r, changed) \<Rightarrow> ((if changed then reconcile env now (ec_deletion_id cl) s' else s'), r))"

text \<open>The transaction inside the \<open>try\<close> of \<open>_process\<close>: its outcome, and whether the item was executed.\<close>

definition attempt_item ::
    "erasure_env \<Rightarrow> time \<Rightarrow> erasure_claim \<Rightarrow> erasure_world \<Rightarrow> tree \<times> (erasure_failure + erasure_db \<times> bool)" where
  "attempt_item env now cl w =
     (case w of (s, t) \<Rightarrow>
       if account_backup_authority_id \<notin> set (backup_authority (ed_ledger s))
       then (t, Inl (Erasure_Failure ''backup_authority_missing'' True None))
       else
         (case leased_item cl s of
            None \<Rightarrow> (t, Inr (s, False))
          | Some item \<Rightarrow>
              (case erasure_hold s item of
                 Some h \<Rightarrow> (t, if ee_refused env then Inl persistence_conflict else Inr (save_item (mark_held now h item) s, False))
               | None \<Rightarrow>
                   if active_policy_ancestor s item
                   then (t, if ee_refused env then Inl persistence_conflict else Inr (save_item (mark_policy_held now item) s, False))
                   else
                     (case execute env now item (s, t) of
                        (t', Inl f) \<Rightarrow> (t', Inl f)
                      | (t', Inr (s', code)) \<Rightarrow>
                          (t', if ee_refused env then Inl persistence_conflict
                               else Inr (save_item (complete_item now code item) s', True))))))"

definition process_local ::
    "erasure_executor \<Rightarrow> erasure_env \<Rightarrow> time \<Rightarrow> erasure_claim \<Rightarrow> erasure_world \<Rightarrow> erasure_world \<times> erasure_outcome" where
  "process_local ex env now cl w =
     (case attempt_item env now cl w of
        (t', Inl f) \<Rightarrow> (case fail_claim ex env now cl f (fst w) of (s', r) \<Rightarrow> ((s', t'), r))
      | (t', Inr (s', True)) \<Rightarrow> ((reconcile env now (ec_deletion_id cl) s', t'), Item_Completed)
      | (t', Inr (s', False)) \<Rightarrow> ((s', t'), Item_Retried))"

subsection \<open>Items that need the network\<close>

datatype prepared = Claim_Lost | Now_Held | Ready

text \<open>The first transaction of \<open>_process_network_action\<close>, and what it reads for the provider.\<close>

definition provider_access :: "erasure_env \<Rightarrow> erasure_claim \<Rightarrow> erasure_db \<Rightarrow> erasure_failure + unit" where
  "provider_access env cl s =
     and_then (lifecycle_subject env (ec_deletion_id cl) s) (\<lambda>_.
     if ec_resource_type cl = provider_session_t then
       (case get_row al_id (ec_deletion_id cl) (ed_lifecycles s) of
          None \<Rightarrow> Inl (Erasure_Failure ''provider_ciphertext_unavailable'' False None)
        | Some l \<Rightarrow>
            (case al_provider_session l of
               None \<Rightarrow> Inl (Erasure_Failure ''provider_session_ciphertext_unavailable'' False None)
             | Some c \<Rightarrow> map_failure auth_failure (and_then (decrypt_lifecycle_provider_value (ee_crypto env) (ee_aead env)
                 (ee_settings env) (lit (ec_deletion_id cl)) ''session'' c) (\<lambda>_. Inr ()))))
     else require (ec_resource_type cl = provider_user_t) (Erasure_Failure ''provider_plan_unsupported'' False None))"

definition network_prepare :: "erasure_env \<Rightarrow> time \<Rightarrow> erasure_claim \<Rightarrow> erasure_db \<Rightarrow> erasure_failure + erasure_db \<times> prepared" where
  "network_prepare env now cl s =
     (if account_backup_authority_id \<notin> set (backup_authority (ed_ledger s))
      then Inl (Erasure_Failure ''backup_authority_missing'' True None)
      else
        (case leased_item cl s of
           None \<Rightarrow> Inr (s, Claim_Lost)
         | Some item \<Rightarrow>
             (case (if ei_phase item = Unindex then None else erasure_hold s item) of
                Some h \<Rightarrow> if ee_refused env then Inl execution_failed else Inr (save_item (mark_held now h item) s, Now_Held)
              | None \<Rightarrow>
                  if ec_phase cl = Provider then and_then (provider_access env cl s) (\<lambda>_. Inr (s, Ready))
                  else Inr (s, Ready))))"

text \<open>The call itself: the outcome of the provider, if it was asked, and the completion code.\<close>

definition network_call :: "erasure_env \<Rightarrow> erasure_claim \<Rightarrow> erasure_failure + provider_outcome option \<times> string" where
  "network_call env cl =
     (if ec_phase cl = Unindex then
        (case ee_search env of
           Raises \<Rightarrow> Inl execution_failed
         | Answers (Inl e) \<Rightarrow> Inl (if e = Search_Unavailable then dependency_unavailable else execution_failed)
         | Answers (Inr Unconfigured) \<Rightarrow> Inl dependency_unavailable
         | Answers (Inr _) \<Rightarrow> Inr (None, ''search_absence_attested''))
      else
        (case ee_provider env of
           Raises \<Rightarrow> Inl execution_failed
         | Answers r \<Rightarrow> Inr (Some r,
             if ec_resource_type cl = provider_session_t then ''provider_sessions_revoked'' else ''provider_absence_attested'')))"

definition provider_result ::
    "erasure_claim \<Rightarrow> provider_outcome option \<Rightarrow> erasure_db \<Rightarrow> erasure_failure + erasure_db" where
  "provider_result cl r s =
     (case r of
        None \<Rightarrow> Inr s
      | Some Provider_Retryable \<Rightarrow> Inl (Erasure_Failure ''provider_retryable'' True None)
      | Some Provider_Permanent_Unsupported \<Rightarrow> Inl (Erasure_Failure ''provider_unsupported'' False None)
      | Some _ \<Rightarrow>
          if ec_resource_type cl = provider_user_t then
            (case get_row al_id (ec_deletion_id cl) (ed_lifecycles s) of
               None \<Rightarrow> Inl (Erasure_Failure ''erasure_lifecycle_missing'' False None)
             | Some l \<Rightarrow> Inr (save_lifecycle (l\<lparr>al_provider_state := Provider_Verified\<rparr>) s))
          else Inr s)"

text \<open>
  The second transaction.  When the provider does not support the deletion, the code also assigns
  \<open>provider_state = "unsupported"\<close> to the row, and then raises inside the session: the session is
  closed without a commit, and the assignment is lost.
\<close>

definition network_settle ::
    "erasure_env \<Rightarrow> time \<Rightarrow> erasure_claim \<Rightarrow> provider_outcome option \<times> string \<Rightarrow> erasure_db \<Rightarrow> erasure_failure + erasure_db \<times> prepared" where
  "network_settle env now cl r s =
     (if account_backup_authority_id \<notin> set (backup_authority (ed_ledger s))
      then Inl (Erasure_Failure ''backup_authority_missing'' True None)
      else
        (case leased_item cl s of
           None \<Rightarrow> Inr (s, Claim_Lost)
         | Some item \<Rightarrow>
             (case (if ei_phase item = Unindex then None else erasure_hold s item) of
                Some h \<Rightarrow> if ee_refused env then Inl execution_failed else Inr (save_item (mark_held now h item) s, Now_Held)
              | None \<Rightarrow>
                  and_then (provider_result cl (fst r) s) (\<lambda>s'.
                  if ee_refused env then Inl execution_failed
                  else Inr (save_item (complete_item now (Some (snd r)) item) s', Ready)))))"

definition process_network ::
    "erasure_executor \<Rightarrow> erasure_env \<Rightarrow> erasure_env \<Rightarrow> time \<Rightarrow> erasure_claim \<Rightarrow> erasure_db \<Rightarrow> erasure_db \<times> erasure_outcome" where
  "process_network ex env env' now cl s =
     (case network_prepare env now cl s of
        Inl f \<Rightarrow> fail_claim ex env now cl f s
      | Inr (s1, Claim_Lost) \<Rightarrow> (s1, Item_Retried)
      | Inr (s1, Now_Held) \<Rightarrow> (reconcile env now (ec_deletion_id cl) s1, Item_Retried)
      | Inr (s1, Ready) \<Rightarrow>
          (case network_call env cl of
             Inl f \<Rightarrow> fail_claim ex env' now cl f s1
           | Inr r \<Rightarrow>
               (case network_settle env' now cl r s1 of
                  Inl f \<Rightarrow> fail_claim ex env' now cl f s1
                | Inr (s2, Claim_Lost) \<Rightarrow> (s2, Item_Retried)
                | Inr (s2, Now_Held) \<Rightarrow> (reconcile env' now (ec_deletion_id cl) s2, Item_Retried)
                | Inr (s2, Ready) \<Rightarrow> (reconcile env' now (ec_deletion_id cl) s2, Item_Completed))))"

definition process_item ::
    "erasure_executor \<Rightarrow> erasure_env \<Rightarrow> erasure_env \<Rightarrow> time \<Rightarrow> erasure_claim \<Rightarrow> erasure_world \<Rightarrow> erasure_world \<times> erasure_outcome" where
  "process_item ex env env' now cl w =
     (if ec_phase cl = Unindex \<or> ec_phase cl = Provider
      then (case process_network ex env env' now cl (fst w) of (s', r) \<Rightarrow> ((s', snd w), r))
      else process_local ex env now cl w)"

subsection \<open>One run of the worker\<close>

record erasure_run_result =
  er_claimed :: int
  er_completed :: int
  er_held :: int
  er_retried :: int
  er_dead_lettered :: int

definition erasure_tally :: "erasure_outcome \<Rightarrow> erasure_run_result \<Rightarrow> erasure_run_result" where
  "erasure_tally res r =
     (let r' = r\<lparr>er_claimed := er_claimed r + 1\<rparr> in
      case res of
        Item_Completed \<Rightarrow> r'\<lparr>er_completed := er_completed r + 1\<rparr>
      | Item_Retried \<Rightarrow> r'\<lparr>er_retried := er_retried r + 1\<rparr>
      | Item_Dead_Lettered \<Rightarrow> r'\<lparr>er_dead_lettered := er_dead_lettered r + 1\<rparr>)"

text \<open>The turn with \<open>n\<close> more to come uses the \<open>n\<close>-th token and meets the \<open>n\<close>-th surroundings.\<close>

fun erasure_turns ::
    "erasure_executor \<Rightarrow> (nat \<Rightarrow> erasure_env) \<Rightarrow> (nat \<Rightarrow> string) \<Rightarrow> time \<Rightarrow> nat \<Rightarrow> erasure_world \<Rightarrow> erasure_run_result
      \<Rightarrow> erasure_world \<times> erasure_run_result" where
  "erasure_turns ex envs tokens now 0 w r = (w, r)"
| "erasure_turns ex envs tokens now (Suc n) w r =
     (case claim_item ex now (tokens n) (fst w) of
        (s, _, Some item) \<Rightarrow>
          erasure_turns ex envs tokens now n (reconcile (envs n) now (ei_deletion_id item) s, snd w) (r\<lparr>er_held := er_held r + 1\<rparr>)
      | (s, None, None) \<Rightarrow> ((s, snd w), r)
      | (s, Some cl, None) \<Rightarrow>
          (case process_item ex (envs n) (envs n) now cl (s, snd w) of
             (w', res) \<Rightarrow> erasure_turns ex envs tokens now n w' (erasure_tally res r)))"

datatype erasure_run_error = Lifecycle_Disabled | Erasure_Limit_Out_Of_Range

definition erasure_run_once ::
    "erasure_executor \<Rightarrow> bool \<Rightarrow> (nat \<Rightarrow> erasure_env) \<Rightarrow> (nat \<Rightarrow> string) \<Rightarrow> int \<Rightarrow> time \<Rightarrow> erasure_world
      \<Rightarrow> erasure_run_error + erasure_world \<times> erasure_run_result" where
  "erasure_run_once ex enabled envs tokens limit now w =
     (if \<not> enabled then Inl Lifecycle_Disabled
      else if limit < 1 \<or> limit > 1000 then Inl Erasure_Limit_Out_Of_Range
      else
        (case erasure_turns ex envs tokens now (nat limit) (requeue_released now (fst w), snd w)
                \<lparr>er_claimed = 0, er_completed = 0, er_held = 0, er_retried = 0, er_dead_lettered = 0\<rparr> of
           ((s, t), r) \<Rightarrow> Inr ((reconcile_all (envs 0) now s, t), r)))"

end
