(* ===== verification/ErasureAdmission.thy ===== *)
theory ErasureAdmission
  imports AccountErasure
begin

text \<open>
  What feeds the erasure executor: the registration and retirement of backup generations
  (\<open>services/backup_authority.py\<close>), the end of the confirmation route of \<open>main.py\<close>, where the
  inventory is stored, the commitment goes to the journal and the transaction commits, and the
  cancellation of a request that was not confirmed.
\<close>

subsection \<open>Backup generations\<close>

definition backup_digest_ok :: "string \<Rightarrow> bool" where
  "backup_digest_ok v \<longleftrightarrow> length v = 64 \<and> list_all lower_hex (lit v)"

definition generation_char :: "nat \<Rightarrow> bool" where
  "generation_char c \<longleftrightarrow> ascii_alnum c \<or> c \<in> {46, 95, 58, 45}"

definition generation_id_ok :: "string \<Rightarrow> bool" where
  "generation_id_ok v \<longleftrightarrow> v \<noteq> [] \<and> ascii_alnum (hd (lit v)) \<and> list_all generation_char (tl (lit v)) \<and> length v \<le> 128"

definition backup_item :: "string \<Rightarrow> time \<Rightarrow> string \<Rightarrow> string \<Rightarrow> account_item" where
  "backup_item i now deletion_id manifest_id =
     \<lparr>ei_id = i, ei_resource_type = backup_manifest_t, ei_resource_id = manifest_id, ei_phase = Backup, ei_state = E_Queued,
      ei_deletion_id = deletion_id, ei_disposition = Do_Hold, ei_attempts = 0, ei_available_at = Some now,
      ei_lease_expires_at = None, ei_claimed_by = None, ei_claim_token = None, ei_hold_kind = None, ei_hold_id = None,
      ei_hold_review_at = None, ei_last_error_code = None, ei_created_at = now, ei_updated_at = now, ei_completed_at = None\<rparr>"

definition obligation_for :: "string \<Rightarrow> manifest_row \<Rightarrow> obligation_row" where
  "obligation_for deletion_id m =
     \<lparr>ob_deletion_id = deletion_id, ob_generation_id = bm_generation_id m, ob_generation_created_at = Some (bm_created_at m),
      ob_generation_expires_at = Some (bm_expires_at m), ob_db_digest = Some (bm_db_digest m),
      ob_markdown_digest = Some (bm_markdown_digest m), ob_state = Obligation_Pending, ob_proof_digest = None, ob_verified_at = None\<rparr>"

definition open_lifecycles :: "erasure_db \<Rightarrow> string list" where
  "open_lifecycles s = map al_id (rows_where (\<lambda>l. al_confirmed_at l \<noteq> None \<and> al_state l \<noteq> Fully_Erased) (ed_lifecycles s))"

text \<open>Every open erasure gets an obligation and a backup item for the new generation.\<close>

definition attach_generation :: "(nat \<Rightarrow> string) \<Rightarrow> time \<Rightarrow> manifest_row \<Rightarrow> erasure_db \<Rightarrow> erasure_db" where
  "attach_generation new_id now m s =
     s\<lparr>ed_obligations := ed_obligations s @ map (\<lambda>d. obligation_for d m) (open_lifecycles s),
       ed_items := ed_items s @ map (\<lambda>(n, d). backup_item (new_id n) now d (bm_id m)) (enumerate 0 (open_lifecycles s))\<rparr>"

definition new_manifest :: "manifest_row \<Rightarrow> manifest_row" where
  "new_manifest m = m\<lparr>bm_state := Manifest_Active, bm_expired_proof := None, bm_expired_at := None, bm_destroyed_proof := None,
     bm_destroyed_at := None\<rparr>"

text \<open>
  The exit code of the command and the tables it leaves; \<open>m\<close> carries the arguments of the command
  and the identifier of the row.
\<close>

definition register_backup_generation ::
    "(nat \<Rightarrow> string) \<Rightarrow> time \<Rightarrow> manifest_row \<Rightarrow> erasure_db \<Rightarrow> erasure_db \<times> nat" where
  "register_backup_generation new_id now m s =
     (if \<not> backup_digest_ok (bm_db_digest m) \<or> \<not> backup_digest_ok (bm_markdown_digest m) \<or>
         \<not> generation_id_ok (bm_generation_id m) \<or> bm_expires_at m \<le> bm_created_at m then (s, 2)
      else
        (case row_where (\<lambda>x. bm_generation_id x = bm_generation_id m) (ed_manifests s) of
           Some x \<Rightarrow>
             (s, if bm_created_at x \<noteq> bm_created_at m \<or> bm_expires_at x \<noteq> bm_expires_at m \<or> bm_db_digest x \<noteq> bm_db_digest m \<or>
                    bm_markdown_digest x \<noteq> bm_markdown_digest m then 1
                 else if account_backup_authority_id \<notin> set (backup_authority (ed_ledger s)) then 1 else 0)
         | None \<Rightarrow>
             if exists_where (\<lambda>l. al_state l = Fully_Erased \<and>
                  (case al_live_erased_at l of None \<Rightarrow> False | Some t \<Rightarrow> t \<ge> bm_created_at m)) (ed_lifecycles s) then (s, 1)
             else
               (attach_generation new_id now m
                  (s\<lparr>ed_manifests := insert_row (new_manifest m) (ed_manifests s), ed_current_generation := bm_generation_id m,
                     ed_ledger := (ed_ledger s)\<lparr>backup_authority :=
                       (if account_backup_authority_id \<in> set (backup_authority (ed_ledger s)) then backup_authority (ed_ledger s)
                        else insert_row account_backup_authority_id (backup_authority (ed_ledger s)))\<rparr>\<rparr>), 0)))"

definition retire_manifest :: "time \<Rightarrow> bool \<Rightarrow> string \<Rightarrow> manifest_row \<Rightarrow> manifest_row" where
  "retire_manifest now expire proof_digest m =
     (if expire then m\<lparr>bm_state := Manifest_Expired, bm_expired_proof := Some proof_digest, bm_expired_at := Some now\<rparr>
      else m\<lparr>bm_state := Manifest_Crypto_Destroyed, bm_destroyed_proof := Some proof_digest, bm_destroyed_at := Some now\<rparr>)"

definition transition_backup_generation ::
    "time \<Rightarrow> bool \<Rightarrow> string \<Rightarrow> string \<Rightarrow> erasure_db \<Rightarrow> erasure_db \<times> nat" where
  "transition_backup_generation now expire generation proof_digest s =
     (if \<not> backup_digest_ok proof_digest then (s, 2)
      else
        (case row_where (\<lambda>x. bm_generation_id x = generation) (ed_manifests s) of
           None \<Rightarrow> (s, 1)
         | Some m \<Rightarrow>
             if account_backup_authority_id \<notin> set (backup_authority (ed_ledger s)) \<or> bm_state m \<noteq> Manifest_Active \<or>
                ed_current_generation s = bm_generation_id m \<or> now < bm_expires_at m then (s, 1)
             else (s\<lparr>ed_manifests := save_row bm_id (retire_manifest now expire proof_digest m) (ed_manifests s)\<rparr>, 0)))"

subsection \<open>Requests and receipts\<close>

text \<open>
  A request for deletion and the recovery of its receipt.  The answer is a status, or the
  identifier of the request with its receipt; a failure of the receipt's encryption is answered
  by the handler of unexpected errors.  The request's key, the subject and the step-up
  verification come as the digests the routes compute of them.
\<close>

record deletion_ask =
  da_subject_hmac :: pystr
  da_key_hmac :: pystr
  da_reverification_hmac :: pystr
  da_receipt :: pystr
  da_receipt_hmac :: pystr
  da_nonce :: pybytes

definition stored_receipt :: "erasure_env \<Rightarrow> lifecycle_row \<Rightarrow> pystr \<Rightarrow> nat + string \<times> pystr" where
  "stored_receipt env l c =
     map_failure (\<lambda>_. 500) (and_then (decrypt_lifecycle_provider_value (ee_crypto env) (ee_aead env) (ee_settings env) (lit (al_id l)) ''receipt'' c)
       (\<lambda>r. Inr (al_id l, r)))"

definition new_receipt :: "erasure_env \<Rightarrow> deletion_ask \<Rightarrow> string \<Rightarrow> nat + pystr" where
  "new_receipt env q deletion_id =
     map_failure (\<lambda>_. 500) (encrypt_lifecycle_provider_value (ee_crypto env) (ee_aead env) (ee_settings env) (da_nonce q) (lit deletion_id)
       ''receipt'' (da_receipt q))"

definition pending_lifecycle :: "string \<Rightarrow> pystr \<Rightarrow> deletion_ask \<Rightarrow> pystr \<Rightarrow> lifecycle_row" where
  "pending_lifecycle i policy q c =
     \<lparr>al_id = i, al_subject_hmac = da_subject_hmac q, al_state = Confirmation_Pending, al_provider_state = Provider_Pending,
      al_backup_state = Expiry_Pending, al_policy_version = policy, al_provider_subject = None, al_provider_session = None,
      al_confirmed_at = None, al_concealed_at = None, al_live_erased_at = None, al_terminal_at = None, al_safe_failure_code = None,
      al_request_hmac = Some (da_key_hmac q), al_confirmation_hmac = None, al_receipt_hmac = Some (da_receipt_hmac q),
      al_receipt_recovery_hmac = None, al_receipt_ciphertext = Some c\<rparr>"

definition create_deletion_request ::
    "erasure_env \<Rightarrow> string \<Rightarrow> pystr \<Rightarrow> deletion_ask \<Rightarrow> erasure_db \<Rightarrow> erasure_db \<times> (nat + string \<times> pystr)" where
  "create_deletion_request env i policy q s =
     (case row_where (\<lambda>l. al_subject_hmac l = da_subject_hmac q) (ed_lifecycles s) of
        Some l \<Rightarrow>
          (s, case al_receipt_ciphertext l of
                Some c \<Rightarrow> if al_request_hmac l = Some (da_key_hmac q) \<and> al_state l = Confirmation_Pending \<and> al_receipt_recovery_hmac l = None
                  then stored_receipt env l c else Inl 409
              | None \<Rightarrow> Inl 409)
      | None \<Rightarrow>
          if da_reverification_hmac q \<in> set (ed_reverifications s) then (s, Inl 409)
          else
            (case new_receipt env q i of
               Inl e \<Rightarrow> (s, Inl e)
             | Inr c \<Rightarrow>
                 if ee_refused env then (s, Inl 409)
                 else (s\<lparr>ed_lifecycles := insert_row (pending_lifecycle i policy q c) (ed_lifecycles s),
                         ed_reverifications := insert_row (da_reverification_hmac q) (ed_reverifications s)\<rparr>, Inr (i, da_receipt q))))"

definition recover_receipt :: "erasure_env \<Rightarrow> deletion_ask \<Rightarrow> erasure_db \<Rightarrow> erasure_db \<times> (nat + string \<times> pystr)" where
  "recover_receipt env q s =
     (case row_where (\<lambda>l. al_subject_hmac l = da_subject_hmac q \<and> al_state l = Confirmation_Pending) (ed_lifecycles s) of
        None \<Rightarrow> (s, Inl 404)
      | Some l \<Rightarrow>
          (case al_receipt_ciphertext l of
             None \<Rightarrow> (s, Inl 404)
           | Some c \<Rightarrow>
               if al_receipt_recovery_hmac l = Some (da_key_hmac q) then (s, stored_receipt env l c)
               else if da_reverification_hmac q \<in> set (ed_reverifications s) then (s, Inl 409)
               else
                 (case new_receipt env q (al_id l) of
                    Inl e \<Rightarrow> (s, Inl e)
                  | Inr c' \<Rightarrow>
                      if ee_refused env then (s, Inl 409)
                      else ((save_lifecycle (l\<lparr>al_receipt_hmac := Some (da_receipt_hmac q), al_receipt_ciphertext := Some c',
                               al_receipt_recovery_hmac := Some (da_key_hmac q)\<rparr>) s)
                              \<lparr>ed_reverifications := insert_row (da_reverification_hmac q) (ed_reverifications s)\<rparr>,
                            Inr (al_id l, da_receipt q)))))"

subsection \<open>Confirmation\<close>

text \<open>
  The confirmation of a deletion from the point where the inventory \<open>planned\<close> of the account's
  rows is complete: obligations and backup items for the active generations, the items of the
  provider and of the final check, the deny row, the journal, and the commit.
\<close>

definition planned_item :: "string \<Rightarrow> time \<Rightarrow> string \<Rightarrow> resource_type \<Rightarrow> string \<Rightarrow> erasure_phase \<Rightarrow> disposition \<Rightarrow> account_item" where
  "planned_item i now deletion_id rt k phase disp =
     \<lparr>ei_id = i, ei_resource_type = rt, ei_resource_id = k, ei_phase = phase, ei_state = E_Queued,
      ei_deletion_id = deletion_id, ei_disposition = disp, ei_attempts = 0, ei_available_at = Some now,
      ei_lease_expires_at = None, ei_claimed_by = None, ei_claim_token = None, ei_hold_kind = None, ei_hold_id = None,
      ei_hold_review_at = None, ei_last_error_code = None, ei_created_at = now, ei_updated_at = now, ei_completed_at = None\<rparr>"

definition item_key :: "account_item \<Rightarrow> string \<times> resource_type \<times> string \<times> erasure_phase" where
  "item_key i = (ei_deletion_id i, ei_resource_type i, ei_resource_id i, ei_phase i)"

text \<open>\<open>INSERT ... ON CONFLICT DO NOTHING\<close> for the inventory and for the obligations.\<close>

definition insert_item :: "account_item \<Rightarrow> account_item list \<Rightarrow> account_item list" where
  "insert_item i t = (if exists_where (\<lambda>x. item_key x = item_key i) t then t else insert_row i t)"

definition insert_obligation :: "obligation_row \<Rightarrow> obligation_row list \<Rightarrow> obligation_row list" where
  "insert_obligation ob t =
     (if exists_where (\<lambda>x. ob_deletion_id x = ob_deletion_id ob \<and> ob_generation_id x = ob_generation_id ob) t then t
      else insert_row ob t)"

definition closing_items :: "(nat \<Rightarrow> string) \<Rightarrow> time \<Rightarrow> string \<Rightarrow> manifest_row list \<Rightarrow> account_item list" where
  "closing_items new_id now d manifests =
     map (\<lambda>(n, m). planned_item (new_id (n + 4)) now d backup_manifest_t (bm_id m) Backup Do_Hold) (enumerate 0 manifests) @
     [planned_item (new_id 0) now d provider_session_t d Provider Do_Delete,
      planned_item (new_id 1) now d provider_user_t d Provider Do_Delete,
      planned_item (new_id 2) now d account_lifecycle_t d Postcheck Do_Detach,
      planned_item (new_id 3) now d provider_ciphertext_t d Delete_Row Do_Delete]"

text \<open>
  \<open>cf_replay_status\<close> is what the validation of a confirmation that was made before answers; such a
  replay changes nothing.
\<close>

record confirmation =
  cf_deletion_id :: string
  cf_subject :: pystr
  cf_session :: pystr
  cf_subject_hmac :: pystr
  cf_confirmation_hmac :: pystr
  cf_reverification_hmac :: pystr
  cf_replay_status :: nat
  cf_nonce_subject :: pybytes
  cf_nonce_session :: pybytes
  cf_nonce_journal :: pybytes

definition deletion_request_of :: "confirmation \<Rightarrow> lifecycle_row \<Rightarrow> manifest_row \<Rightarrow> time \<Rightarrow> deletion_request" where
  "deletion_request_of cf l m now =
     \<lparr>dq_deletion_id = lit (cf_deletion_id cf), dq_subject = cf_subject cf, dq_subject_hmac = cf_subject_hmac cf,
      dq_backup_generation_id = lit (bm_generation_id m), dq_backup_generation_created_at = bm_created_at m,
      dq_committed_at = now, dq_policy_version = al_policy_version l\<rparr>"

definition confirmed_lifecycle :: "confirmation \<Rightarrow> time \<Rightarrow> pystr \<Rightarrow> pystr \<Rightarrow> lifecycle_row \<Rightarrow> lifecycle_row" where
  "confirmed_lifecycle cf t subject_ct session_ct l =
     l\<lparr>al_state := Concealed, al_confirmed_at := Some t, al_concealed_at := Some t, al_provider_subject := Some subject_ct,
       al_provider_session := Some session_ct, al_confirmation_hmac := Some (cf_confirmation_hmac cf),
       al_request_hmac := None, al_receipt_recovery_hmac := None, al_receipt_ciphertext := None\<rparr>"

definition store_inventory :: "(nat \<Rightarrow> string) \<Rightarrow> time \<Rightarrow> string \<Rightarrow> account_item list \<Rightarrow> manifest_row list \<Rightarrow> erasure_db \<Rightarrow> erasure_db" where
  "store_inventory new_id now d planned active s =
     s\<lparr>ed_obligations := fold insert_obligation (map (obligation_for d) active) (ed_obligations s),
       ed_items := fold insert_item (planned @ closing_items new_id now d active) (ed_items s)\<rparr>"

definition admit_deletion :: "confirmation \<Rightarrow> time \<Rightarrow> lifecycle_row \<Rightarrow> erasure_db \<Rightarrow> erasure_db" where
  "admit_deletion cf t l s =
     (save_lifecycle l s)\<lparr>ed_reverifications := insert_row (cf_reverification_hmac cf) (ed_reverifications s),
       ed_denies := insert_row \<lparr>ad_subject_hmac = cf_subject_hmac cf, ad_deletion_id = al_id l, ad_denied_at = t\<rparr> (ed_denies s)\<rparr>"

text \<open>What the route checks and reads before it writes.\<close>

definition confirmable :: "confirmation \<Rightarrow> erasure_db \<Rightarrow> nat + lifecycle_row \<times> manifest_row list \<times> manifest_row" where
  "confirmable cf s =
     and_then (require (account_backup_authority_id \<in> set (backup_authority (ed_ledger s))) 503) (\<lambda>_.
     (case row_where (\<lambda>l. al_id l = cf_deletion_id cf \<and> al_subject_hmac l = cf_subject_hmac cf) (ed_lifecycles s) of
        None \<Rightarrow> Inl 404
      | Some l \<Rightarrow>
          and_then (case al_confirmation_hmac l of
                      None \<Rightarrow> Inr ()
                    | Some h \<Rightarrow> Inl (if \<not> digest_ok h then 503 else if h \<noteq> cf_confirmation_hmac cf then 409 else cf_replay_status cf)) (\<lambda>_.
          and_then (require (al_state l = Confirmation_Pending) 404) (\<lambda>_.
          and_then (require (\<not> exists_where (\<lambda>d. ad_subject_hmac d = cf_subject_hmac cf) (ed_denies s)) 403) (\<lambda>_.
          (let active = rows_where (\<lambda>m. bm_state m = Manifest_Active) (ed_manifests s) in
           case find (\<lambda>m. bm_generation_id m = ed_current_generation s) active of
             None \<Rightarrow> Inl 503
           | Some current \<Rightarrow> Inr (l, active, current)))))))"

definition confirm_deletion ::
    "erasure_env \<Rightarrow> (nat \<Rightarrow> string) \<Rightarrow> time \<Rightarrow> confirmation \<Rightarrow> account_item list \<Rightarrow> journal \<Rightarrow> erasure_db \<times> journal_fs
      \<Rightarrow> (erasure_db \<times> journal_fs) \<times> nat" where
  "confirm_deletion env new_id now cf planned j w =
     (case w of (s, fs) \<Rightarrow>
       (case confirmable cf s of
          Inl status \<Rightarrow> ((s, fs), status)
        | Inr (l, active, current) \<Rightarrow>
            if cf_reverification_hmac cf \<in> set (ed_reverifications s) then ((s, fs), 409)
            else
              (case (encrypt_lifecycle_provider_subject (ee_crypto env) (ee_aead env) (ee_settings env) (cf_nonce_subject cf)
                       (lit (al_id l)) (cf_subject cf),
                     encrypt_lifecycle_provider_value (ee_crypto env) (ee_aead env) (ee_settings env) (cf_nonce_session cf)
                       (lit (al_id l)) ''session'' (cf_session cf)) of
                 (Inr subject_ct, Inr session_ct) \<Rightarrow>
                   if ee_refused env then ((s, fs), 409)
                   else
                     (case append_commitment j (cf_nonce_journal cf) (deletion_request_of cf l current now) fs of
                        (fs', Inl _) \<Rightarrow> ((s, fs'), 503)
                      | (fs', Inr c) \<Rightarrow>
                          ((admit_deletion cf (cm_committed_at c)
                              (confirmed_lifecycle cf (cm_committed_at c) subject_ct session_ct l)
                              (store_inventory new_id now (al_id l) planned active s), fs'), 202))
               | _ \<Rightarrow> ((s, fs), 500))))"

text \<open>The database loses the acknowledged append: everything of the transaction is rolled back.\<close>

definition confirm_lost ::
    "erasure_env \<Rightarrow> (nat \<Rightarrow> string) \<Rightarrow> time \<Rightarrow> confirmation \<Rightarrow> account_item list \<Rightarrow> journal \<Rightarrow> erasure_db \<times> journal_fs
      \<Rightarrow> (erasure_db \<times> journal_fs) \<times> nat" where
  "confirm_lost env new_id now cf planned j w =
     (case confirm_deletion env new_id now cf planned j w of
        ((s, fs'), status) \<Rightarrow> ((fst w, fs'), if status = 202 then 503 else status))"

definition cancel_deletion :: "string \<Rightarrow> pystr \<Rightarrow> erasure_db \<Rightarrow> erasure_db \<times> nat" where
  "cancel_deletion deletion_id subject_hmac s =
     (let p = (\<lambda>l. al_id l = deletion_id \<and> al_subject_hmac l = subject_hmac \<and> al_state l = Confirmation_Pending) in
      if length (rows_where p (ed_lifecycles s)) \<noteq> 1 then (s, 404)
      else (s\<lparr>ed_receipt_limits := removeAll deletion_id (ed_receipt_limits s), ed_lifecycles := delete_where p (ed_lifecycles s)\<rparr>, 204))"

end
