(* ===== verification/ErasureSafety.thy ===== *)
theory ErasureSafety
  imports ErasureAdmission
begin

text \<open>
  The guarantees of account erasure over any interleaving of the transactions of its workers with
  confirmations, backup registrations and everything else that changes the ledger: work is done in
  the planned order, and an account is reported as fully erased only when nothing of it is left,
  in the live system or in a usable backup.
\<close>

subsection \<open>What an item keeps\<close>

definition same_item :: "account_item \<Rightarrow> account_item \<Rightarrow> bool" where
  "same_item i i' \<longleftrightarrow> ei_id i' = ei_id i \<and> ei_deletion_id i' = ei_deletion_id i \<and> ei_resource_type i' = ei_resource_type i \<and>
     ei_resource_id i' = ei_resource_id i \<and> ei_phase i' = ei_phase i"

lemmas item_changes = clear_lease_def mark_held_def mark_policy_held_def complete_item_def lease_item_def

lemma same_changes [simp]:
  "same_item i (mark_held now h i)" "same_item i (mark_policy_held now i)" "same_item i (complete_item now code i)"
  "same_item i (lease_item ex now token i)" "same_item i (clear_lease i)" "same_item i (requeue_item s now i)"
  by (auto simp: same_item_def item_changes requeue_item_def Let_def split: option.split)

lemma same_item_refl [simp]: "same_item i i"
  by (simp add: same_item_def)

lemma state_changes [simp]:
  "ei_state (mark_held now h i) = E_Held" "ei_state (mark_policy_held now i) = E_Held"
  "ei_state (complete_item now code i) = E_Completed" "ei_state (lease_item ex now token i) = E_Leased"
  by (simp_all add: item_changes)


lemma save_items [simp]: "ed_items (save_lifecycle l s) = ed_items s" "ed_lifecycles (save_item i s) = ed_lifecycles s"
  by (simp_all add: save_lifecycle_def save_item_def)

text \<open>Work on an item has started when it is leased, and stays started until it fails or is held.\<close>

definition started :: "account_item \<Rightarrow> bool" where
  "started i \<longleftrightarrow> ei_state i = E_Leased \<or> ei_state i = E_Completed"

lemma started_changes [simp]:
  "\<not> started (mark_held now h i)" "\<not> started (mark_policy_held now i)" "started (complete_item now code i)"
  "started (lease_item ex now token i)"
  by (simp_all add: started_def)

lemma requeue_not_started: "ei_state i = E_Held \<Longrightarrow> \<not> started (requeue_item s now i)"
  by (auto simp: requeue_item_def clear_lease_def Let_def started_def split: option.split)

subsection \<open>The invariant\<close>

definition lifecycle_done :: "erasure_db \<Rightarrow> lifecycle_row \<Rightarrow> bool" where
  "lifecycle_done s l \<longleftrightarrow>
     (\<forall>i \<in> set (ed_items s). ei_deletion_id i = al_id l \<longrightarrow> ei_state i = E_Completed) \<and>
     al_provider_state l = Provider_Verified \<and> al_provider_subject l = None \<and> al_provider_session l = None \<and>
     (\<forall>ob \<in> set (ed_obligations s). ob_deletion_id ob = al_id l \<longrightarrow> ob_state ob = Obligation_Verified \<and> ob_proof_digest ob \<noteq> None) \<and>
     al_live_erased_at l \<noteq> None \<and> (\<exists>r \<in> set (ed_terminals s). tr_deletion_id r = al_id l)"

definition covered :: "erasure_db \<Rightarrow> lifecycle_row \<Rightarrow> manifest_row \<Rightarrow> bool" where
  "covered s l m \<longleftrightarrow>
     (\<exists>ob \<in> set (ed_obligations s). ob_deletion_id ob = al_id l \<and> ob_generation_id ob = bm_generation_id m) \<or>
     al_state l = Fully_Erased \<and> (\<exists>t. al_live_erased_at l = Some t \<and> t < bm_created_at m)"

definition keys_ok :: "erasure_db \<Rightarrow> bool" where
  "keys_ok s \<longleftrightarrow> unique_by ei_id (ed_items s) \<and> unique_by al_id (ed_lifecycles s) \<and> unique_by bm_id (ed_manifests s) \<and>
     unique_by bm_generation_id (ed_manifests s)"

definition belongs :: "erasure_db \<Rightarrow> string \<Rightarrow> bool" where
  "belongs s d \<longleftrightarrow> (\<exists>l \<in> set (ed_lifecycles s). al_id l = d \<and> al_state l \<noteq> Confirmation_Pending)"

definition erasure_inv :: "erasure_db \<Rightarrow> bool" where
  "erasure_inv s \<longleftrightarrow> keys_ok s \<and>
     (\<forall>i \<in> set (ed_items s). belongs s (ei_deletion_id i)) \<and>
     (\<forall>ob \<in> set (ed_obligations s). belongs s (ob_deletion_id ob)) \<and>
     (\<forall>i \<in> set (ed_items s). started i \<longrightarrow> prerequisites_complete s i) \<and>
     (\<forall>l \<in> set (ed_lifecycles s). al_state l \<noteq> Confirmation_Pending \<longleftrightarrow> al_confirmed_at l \<noteq> None) \<and>
     (\<forall>l \<in> set (ed_lifecycles s). al_state l = Fully_Erased \<longrightarrow> lifecycle_done s l) \<and>
     (\<forall>l \<in> set (ed_lifecycles s). \<forall>m \<in> set (ed_manifests s).
        al_state l \<noteq> Confirmation_Pending \<and> bm_state m = Manifest_Active \<longrightarrow> covered s l m) \<and>
     (\<forall>ob \<in> set (ed_obligations s). \<forall>m \<in> set (ed_manifests s).
        ob_state ob = Obligation_Verified \<and> ob_generation_id ob = bm_generation_id m \<longrightarrow> bm_state m \<noteq> Manifest_Active) \<and>
     (\<forall>ob \<in> set (ed_obligations s). ob_generation_id ob \<in> bm_generation_id ` set (ed_manifests s))"

lemma erasure_invD:
  assumes "erasure_inv s"
  shows "keys_ok s" "\<And>i. i \<in> set (ed_items s) \<Longrightarrow> belongs s (ei_deletion_id i)"
    "\<And>ob. ob \<in> set (ed_obligations s) \<Longrightarrow> belongs s (ob_deletion_id ob)"
    "\<And>i. i \<in> set (ed_items s) \<Longrightarrow> started i \<Longrightarrow> prerequisites_complete s i"
    "\<And>l. l \<in> set (ed_lifecycles s) \<Longrightarrow> al_state l \<noteq> Confirmation_Pending \<longleftrightarrow> al_confirmed_at l \<noteq> None"
    "\<And>l. l \<in> set (ed_lifecycles s) \<Longrightarrow> al_state l = Fully_Erased \<Longrightarrow> lifecycle_done s l"
    "\<And>l m. l \<in> set (ed_lifecycles s) \<Longrightarrow> m \<in> set (ed_manifests s) \<Longrightarrow> al_state l \<noteq> Confirmation_Pending \<Longrightarrow>
      bm_state m = Manifest_Active \<Longrightarrow> covered s l m"
    "\<And>ob m. ob \<in> set (ed_obligations s) \<Longrightarrow> m \<in> set (ed_manifests s) \<Longrightarrow> ob_state ob = Obligation_Verified \<Longrightarrow>
      ob_generation_id ob = bm_generation_id m \<Longrightarrow> bm_state m \<noteq> Manifest_Active"
    "\<And>ob. ob \<in> set (ed_obligations s) \<Longrightarrow> ob_generation_id ob \<in> bm_generation_id ` set (ed_manifests s)"
  using assms by (auto simp: erasure_inv_def)

lemma erasure_invI:
  assumes "keys_ok s" "\<And>i. i \<in> set (ed_items s) \<Longrightarrow> belongs s (ei_deletion_id i)"
    "\<And>ob. ob \<in> set (ed_obligations s) \<Longrightarrow> belongs s (ob_deletion_id ob)"
    "\<And>i. i \<in> set (ed_items s) \<Longrightarrow> started i \<Longrightarrow> prerequisites_complete s i"
    "\<And>l. l \<in> set (ed_lifecycles s) \<Longrightarrow> al_state l \<noteq> Confirmation_Pending \<longleftrightarrow> al_confirmed_at l \<noteq> None"
    "\<And>l. l \<in> set (ed_lifecycles s) \<Longrightarrow> al_state l = Fully_Erased \<Longrightarrow> lifecycle_done s l"
    "\<And>l m. l \<in> set (ed_lifecycles s) \<Longrightarrow> m \<in> set (ed_manifests s) \<Longrightarrow> al_state l \<noteq> Confirmation_Pending \<Longrightarrow>
      bm_state m = Manifest_Active \<Longrightarrow> covered s l m"
    "\<And>ob m. ob \<in> set (ed_obligations s) \<Longrightarrow> m \<in> set (ed_manifests s) \<Longrightarrow> ob_state ob = Obligation_Verified \<Longrightarrow>
      ob_generation_id ob = bm_generation_id m \<Longrightarrow> bm_state m \<noteq> Manifest_Active"
    "\<And>ob. ob \<in> set (ed_obligations s) \<Longrightarrow> ob_generation_id ob \<in> bm_generation_id ` set (ed_manifests s)"
  shows "erasure_inv s"
  unfolding erasure_inv_def using assms by blast

text \<open>The tables the invariant is about.\<close>

definition same_core :: "erasure_db \<Rightarrow> erasure_db \<Rightarrow> bool" where
  "same_core s s' \<longleftrightarrow> ed_items s' = ed_items s \<and> ed_lifecycles s' = ed_lifecycles s \<and> ed_manifests s' = ed_manifests s \<and>
     ed_obligations s' = ed_obligations s \<and> ed_terminals s' = ed_terminals s \<and> ed_current_generation s' = ed_current_generation s"

lemma prerequisites_core:
  "ed_items s' = ed_items s \<Longrightarrow> ed_lifecycles s' = ed_lifecycles s \<Longrightarrow> prerequisites_complete s' i = prerequisites_complete s i"
  unfolding prerequisites_complete_def incomplete_items_def by (simp only:)

lemma inv_core:
  assumes "same_core s s'"
  shows "erasure_inv s' = erasure_inv s"
proof -
  have e: "ed_items s' = ed_items s" "ed_lifecycles s' = ed_lifecycles s" "ed_manifests s' = ed_manifests s"
    "ed_obligations s' = ed_obligations s" "ed_terminals s' = ed_terminals s" using assms by (simp_all add: same_core_def)
  show ?thesis
    unfolding erasure_inv_def keys_ok_def belongs_def lifecycle_done_def covered_def prerequisites_core [OF e(1,2)] e ..
qed

text \<open>
  Prerequisites ask whether some other item is not completed yet; none asks for an item of a
  backup generation.  They stay complete when items are completed, when generations are attached
  and while the provider stays verified.
\<close>

definition local_filter :: "(account_item \<Rightarrow> bool) \<Rightarrow> bool" where
  "local_filter p \<longleftrightarrow> (\<forall>i i'. same_item i i' \<longrightarrow> p i' = p i) \<and>
     (\<forall>i. ei_phase i = Backup \<and> ei_resource_type i = backup_manifest_t \<longrightarrow> \<not> p i)"

definition progress :: "erasure_db \<Rightarrow> erasure_db \<Rightarrow> string \<Rightarrow> bool" where
  "progress s s' d \<longleftrightarrow>
     (\<forall>p. local_filter p \<longrightarrow> incomplete_items s' d p \<longrightarrow> incomplete_items s d p) \<and>
     (\<forall>l. get_row al_id d (ed_lifecycles s) = Some l \<longrightarrow> al_provider_state l = Provider_Verified \<longrightarrow>
        (\<exists>l'. get_row al_id d (ed_lifecycles s') = Some l' \<and> al_provider_state l' = Provider_Verified))"

lemma child_types_no_backup: "backup_manifest_t \<notin> set (child_types rt)"
  by (cases rt) (simp_all add: child_types_def backup_manifest_t_def)

lemma local_filters:
  "local_filter (\<lambda>x. ei_resource_type x = provider_session_t \<and> ei_phase x = Provider)"
  "local_filter (\<lambda>x. ei_resource_type x = provider_user_t \<and> ei_phase x = Provider)"
  "local_filter (\<lambda>x. ei_phase x \<notin> {Postcheck, Provider, Backup} \<and> ei_resource_type x \<noteq> provider_ciphertext_t)"
  "local_filter (\<lambda>x. ei_phase x = Postcheck)"
  "local_filter (\<lambda>x. ei_resource_type x = rt \<and> ei_resource_id x = k \<and> ei_phase x = Delete_File)"
  "local_filter (\<lambda>x. ei_resource_type x = rt \<and> ei_resource_id x = k \<and> ei_phase x = Unindex)"
  "local_filter (\<lambda>x. ei_resource_type x \<in> set (child_types rt))"
  using child_types_no_backup by (auto simp: local_filter_def same_item_def)

lemma prerequisites_cases:
  defines "missing \<equiv> \<lambda>s i. incomplete_items s (ei_deletion_id i)"
  shows "ei_phase i = Backup \<Longrightarrow> prerequisites_complete s i"
    "ei_resource_type i = provider_session_t \<Longrightarrow> prerequisites_complete s i"
    "ei_phase i = Postcheck \<Longrightarrow> ei_resource_type i \<noteq> provider_session_t \<Longrightarrow> prerequisites_complete s i \<longleftrightarrow>
       \<not> missing s i (\<lambda>x. ei_resource_type x = provider_session_t \<and> ei_phase x = Provider) \<and>
       \<not> missing s i (\<lambda>x. ei_phase x \<notin> {Postcheck, Provider, Backup} \<and> ei_resource_type x \<noteq> provider_ciphertext_t)"
    "ei_phase i = Provider \<Longrightarrow> ei_resource_type i \<noteq> provider_session_t \<Longrightarrow> prerequisites_complete s i \<longleftrightarrow>
       \<not> missing s i (\<lambda>x. ei_resource_type x = provider_session_t \<and> ei_phase x = Provider) \<and> \<not> missing s i (\<lambda>x. ei_phase x = Postcheck)"
    "ei_phase i \<notin> {Backup, Postcheck, Provider} \<Longrightarrow> ei_resource_type i = provider_ciphertext_t \<Longrightarrow> prerequisites_complete s i \<longleftrightarrow>
       \<not> missing s i (\<lambda>x. ei_resource_type x = provider_session_t \<and> ei_phase x = Provider) \<and>
       (\<exists>l. get_row al_id (ei_deletion_id i) (ed_lifecycles s) = Some l \<and> al_provider_state l = Provider_Verified) \<and>
       \<not> missing s i (\<lambda>x. ei_resource_type x = provider_user_t \<and> ei_phase x = Provider)"
    "ei_phase i \<notin> {Backup, Postcheck, Provider} \<Longrightarrow> ei_resource_type i \<notin> {provider_ciphertext_t, provider_session_t} \<Longrightarrow>
       prerequisites_complete s i \<longleftrightarrow>
       \<not> missing s i (\<lambda>x. ei_resource_type x = provider_session_t \<and> ei_phase x = Provider) \<and>
       (ei_phase i = Delete_Row \<longrightarrow>
         \<not> (ei_resource_type i \<in> {Document_Version_T, Post_Version_T, Verification_Evidence_T, Application_T} \<and>
           missing s i (\<lambda>x. ei_resource_type x = ei_resource_type i \<and> ei_resource_id x = ei_resource_id i \<and> ei_phase x = Delete_File)) \<and>
         \<not> (ei_resource_type i \<in> {Document_T, Post_T} \<and>
           missing s i (\<lambda>x. ei_resource_type x = ei_resource_type i \<and> ei_resource_id x = ei_resource_id i \<and> ei_phase x = Unindex)) \<and>
         \<not> (child_types (ei_resource_type i) \<noteq> [] \<and> missing s i (\<lambda>x. ei_resource_type x \<in> set (child_types (ei_resource_type i)))))"
  unfolding prerequisites_complete_def Let_def missing_def by (auto split: option.split)

lemma prerequisites_mono:
  assumes p: "progress s s' (ei_deletion_id i)" and i: "same_item i i'" and c: "prerequisites_complete s i"
  shows "prerequisites_complete s' i'"
proof -
  have eqs: "ei_deletion_id i' = ei_deletion_id i" "ei_resource_type i' = ei_resource_type i" "ei_resource_id i' = ei_resource_id i"
    "ei_phase i' = ei_phase i" using i by (simp_all add: same_item_def)
  have m: "incomplete_items s' (ei_deletion_id i) q \<Longrightarrow> incomplete_items s (ei_deletion_id i) q" if "local_filter q" for q
    using p that by (simp add: progress_def)
  note ms = local_filters [THEN m]
  have prov: "(\<exists>l. get_row al_id (ei_deletion_id i) (ed_lifecycles s) = Some l \<and> al_provider_state l = Provider_Verified) \<Longrightarrow>
      (\<exists>l. get_row al_id (ei_deletion_id i) (ed_lifecycles s') = Some l \<and> al_provider_state l = Provider_Verified)"
    using p by (auto simp: progress_def)
  consider "ei_phase i = Backup" | "ei_resource_type i = provider_session_t"
    | "ei_phase i = Postcheck" "ei_resource_type i \<noteq> provider_session_t" | "ei_phase i = Provider" "ei_resource_type i \<noteq> provider_session_t"
    | "ei_phase i \<notin> {Backup, Postcheck, Provider}" "ei_resource_type i = provider_ciphertext_t"
    | "ei_phase i \<notin> {Backup, Postcheck, Provider}" "ei_resource_type i \<notin> {provider_ciphertext_t, provider_session_t}" by blast
  then show ?thesis
  proof cases
    case 1
    then show ?thesis by (intro prerequisites_cases(1)) (simp add: eqs)
  next
    case 2
    then show ?thesis by (intro prerequisites_cases(2)) (simp add: eqs)
  next
    case 3
    then show ?thesis using c ms(1,3) unfolding prerequisites_cases(3) [OF 3] prerequisites_cases(3) [of i', unfolded eqs, OF 3] by blast
  next
    case 4
    then show ?thesis using c ms(1,4) unfolding prerequisites_cases(4) [OF 4] prerequisites_cases(4) [of i', unfolded eqs, OF 4] by blast
  next
    case 5
    then show ?thesis using c ms(1,2) prov unfolding prerequisites_cases(5) [OF 5] prerequisites_cases(5) [of i', unfolded eqs, OF 5] by blast
  next
    case 6
    then show ?thesis using c ms(1) ms(5-7) unfolding prerequisites_cases(6) [OF 6] prerequisites_cases(6) [of i', unfolded eqs, OF 6] by blast
  qed
qed

subsection \<open>Changes that keep the invariant\<close>

lemma progress_refl: "progress s s d"
  by (simp add: progress_def)

text \<open>Items change in place: they keep their identity, a completed one is left alone, a leased one was ready.\<close>

lemma map_items_inv:
  assumes inv: "erasure_inv s" and f: "\<And>i. i \<in> set (ed_items s) \<Longrightarrow> same_item i (f i)"
    and c: "\<And>i. i \<in> set (ed_items s) \<Longrightarrow> ei_state i = E_Completed \<Longrightarrow> ei_state (f i) = E_Completed"
    and l: "\<And>i. i \<in> set (ed_items s) \<Longrightarrow> started (f i) \<Longrightarrow> started i \<or> prerequisites_complete s i"
  shows "erasure_inv (s\<lparr>ed_items := map f (ed_items s)\<rparr>)"
proof -
  let ?s = "s\<lparr>ed_items := map f (ed_items s)\<rparr>"
  note invD = erasure_invD [OF inv]
  have ids: "map ei_id (map f (ed_items s)) = map ei_id (ed_items s)" using f by (auto simp: same_item_def)
  have del: "ei_deletion_id (f i) = ei_deletion_id i" if "i \<in> set (ed_items s)" for i using f [OF that] by (simp add: same_item_def)
  have prog: "progress s ?s d" for d
  proof -
    have "incomplete_items s d p" if lf: "local_filter p" and inc: "incomplete_items ?s d p" for p
    proof -
      obtain i where i: "i \<in> set (ed_items s)" "ei_deletion_id (f i) = d" "ei_state (f i) \<noteq> E_Completed" "p (f i)"
        using inc by (auto simp: incomplete_items_def exists_where_iff)
      moreover have "p i" using lf f [OF i(1)] i(4) by (simp add: local_filter_def)
      ultimately show ?thesis using c [OF i(1)] del [OF i(1)] by (auto simp: incomplete_items_def exists_where_iff)
    qed
    then show ?thesis by (simp add: progress_def)
  qed
  have "prerequisites_complete ?s (f i)" if i: "i \<in> set (ed_items s)" and "started (f i)" for i
    using prerequisites_mono [OF prog f [OF i]] l [OF that] invD(4) [OF i] by blast
  moreover have "lifecycle_done ?s x" if "lifecycle_done s x" for x using that c del by (auto simp: lifecycle_done_def)
  moreover have "keys_ok ?s" using invD(1) by (simp add: keys_ok_def unique_by_def ids del: map_map)
  moreover have "covered ?s x m = covered s x m" "belongs ?s d = belongs s d" for x m d by (simp_all add: covered_def belongs_def)
  ultimately show ?thesis using invD del by (intro erasure_invI) auto
qed

lemma save_item_inv:
  assumes inv: "erasure_inv s" and i: "i \<in> set (ed_items s)" "same_item i i'" "ei_state i \<noteq> E_Completed"
    and l: "started i' \<Longrightarrow> started i \<or> prerequisites_complete s i"
  shows "erasure_inv (save_item i' s)"
proof -
  have u: "unique_by ei_id (ed_items s)" and id: "ei_id i' = ei_id i" using erasure_invD(1) [OF inv] i(2) by (simp_all add: keys_ok_def same_item_def)
  have only: "x = i" if "x \<in> set (ed_items s)" "ei_id x = ei_id i" for x using unique_byD [OF u that(1) i(1) that(2)] .
  have "erasure_inv (s\<lparr>ed_items := map (\<lambda>x. if ei_id x = ei_id i' then i' else x) (ed_items s)\<rparr>)"
  proof (rule map_items_inv [OF inv])
    fix x assume x: "x \<in> set (ed_items s)"
    show "same_item x (if ei_id x = ei_id i' then i' else x)" using only [OF x] i(2) id by (auto simp: same_item_def)
    show "ei_state (if ei_id x = ei_id i' then i' else x) = E_Completed" if "ei_state x = E_Completed" using only [OF x] i(3) id that by auto
    show "started x \<or> prerequisites_complete s x" if "started (if ei_id x = ei_id i' then i' else x)"
      using only [OF x] l id that by (auto split: if_splits)
  qed
  then show ?thesis by (simp add: save_item_def save_row_def)
qed

text \<open>A confirmed lifecycle changes in place.\<close>

lemma save_lifecycle_inv:
  assumes inv: "erasure_inv s" and l: "l \<in> set (ed_lifecycles s)" "al_id l' = al_id l" "al_state l \<noteq> Confirmation_Pending"
    and l': "al_state l' \<noteq> Confirmation_Pending" "al_confirmed_at l' = al_confirmed_at l"
    and verified: "al_provider_state l = Provider_Verified \<Longrightarrow> al_provider_state l' = Provider_Verified"
    and erased: "al_state l' = Fully_Erased \<Longrightarrow> lifecycle_done s l'"
    and final: "al_state l = Fully_Erased \<Longrightarrow> al_state l' = Fully_Erased \<and> al_live_erased_at l' = al_live_erased_at l"
  shows "erasure_inv (save_lifecycle l' s)"
proof -
  let ?s = "save_lifecycle l' s"
  note invD = erasure_invD [OF inv]
  have u: "unique_by al_id (ed_lifecycles s)" using invD(1) by (simp add: keys_ok_def)
  have sel: "ed_items ?s = ed_items s" "ed_obligations ?s = ed_obligations s" "ed_manifests ?s = ed_manifests s"
    "ed_terminals ?s = ed_terminals s" by (simp_all add: save_lifecycle_def)
  have ls: "ed_lifecycles ?s = save_row al_id l' (ed_lifecycles s)" by (simp add: save_lifecycle_def)
  have rows: "x \<in> set (ed_lifecycles ?s) \<longleftrightarrow> x = l' \<or> x \<in> set (ed_lifecycles s) \<and> al_id x \<noteq> al_id l" for x
    using l(1,2) by (auto simp: ls set_save_row)
  have dn: "lifecycle_done ?s x = lifecycle_done s x" for x by (simp add: lifecycle_done_def sel)
  have cov: "covered ?s x m = covered s x m" for x m by (simp add: covered_def sel)
  have prog: "progress s ?s d" for d
    using get_row_unique [OF u l(1)] l(2) verified by (auto simp: progress_def incomplete_items_def sel ls get_row_save)
  have bel: "belongs ?s d" if "belongs s d" for d
    using that l(2) l'(1) by (cases "d = al_id l") (auto simp: belongs_def rows)
  have cl': "covered s l' m" if "m \<in> set (ed_manifests s)" "bm_state m = Manifest_Active" for m
    using invD(7) [OF l(1) that(1) l(3) that(2)] final l(2) by (auto simp: covered_def)
  show ?thesis
  proof (rule erasure_invI)
    show "keys_ok ?s" using invD(1) by (simp add: keys_ok_def sel ls)
    show "prerequisites_complete ?s i" if "i \<in> set (ed_items ?s)" "started i" for i
      using prerequisites_mono [OF prog _ invD(4)] that by (simp add: same_item_def sel)
    show "al_state x \<noteq> Confirmation_Pending \<longleftrightarrow> al_confirmed_at x \<noteq> None" if "x \<in> set (ed_lifecycles ?s)" for x
      using that invD(5) l l' rows by auto
    show "lifecycle_done ?s x" if "x \<in> set (ed_lifecycles ?s)" "al_state x = Fully_Erased" for x
      using that invD(6) erased rows dn by auto
    show "covered ?s x m" if "x \<in> set (ed_lifecycles ?s)" "m \<in> set (ed_manifests ?s)" "al_state x \<noteq> Confirmation_Pending" "bm_state m = Manifest_Active" for x m
      using that invD(7) cl' rows cov sel by auto
  qed (use invD bel sel in auto)
qed

lemma insert_terminal_inv:
  "erasure_inv s \<Longrightarrow> erasure_inv (s\<lparr>ed_terminals := insert_row r (ed_terminals s)\<rparr>)"
proof -
  let ?s = "s\<lparr>ed_terminals := insert_row r (ed_terminals s)\<rparr>"
  assume inv: "erasure_inv s"
  have p: "prerequisites_complete ?s i = prerequisites_complete s i" for i by (rule prerequisites_core) simp_all
  have "lifecycle_done ?s x" if "lifecycle_done s x" for x using that by (auto simp: lifecycle_done_def insert_row_def)
  moreover have "covered ?s x m = covered s x m" "belongs ?s d = belongs s d" "keys_ok ?s = keys_ok s" for x m d
    by (simp_all add: covered_def belongs_def keys_ok_def)
  ultimately show ?thesis using erasure_invD [OF inv] p by (intro erasure_invI) auto
qed

text \<open>An obligation is verified when its generation is retired.\<close>

lemma verify_obligation_inv:
  assumes inv: "erasure_inv s" and m: "m \<in> set (ed_manifests s)" "bm_generation_id m = g" "bm_state m \<noteq> Manifest_Active"
    and f: "\<And>x. ob_deletion_id (f x) = ob_deletion_id x \<and> ob_generation_id (f x) = ob_generation_id x \<and>
      ob_state (f x) = Obligation_Verified \<and> ob_proof_digest (f x) \<noteq> None"
  shows "erasure_inv (s\<lparr>ed_obligations := update_where (\<lambda>x. ob_deletion_id x = d \<and> ob_generation_id x = g) f (ed_obligations s)\<rparr>)"
proof -
  let ?p = "\<lambda>x. ob_deletion_id x = d \<and> ob_generation_id x = g"
  let ?s = "s\<lparr>ed_obligations := update_where ?p f (ed_obligations s)\<rparr>"
  note invD = erasure_invD [OF inv]
  have u: "unique_by bm_generation_id (ed_manifests s)" using invD(1) by (simp add: keys_ok_def)
  have p: "prerequisites_complete ?s i = prerequisites_complete s i" for i by (rule prerequisites_core) simp_all
  have "lifecycle_done ?s x" if "lifecycle_done s x" for x
    using that f by (auto simp: lifecycle_done_def update_where_def)
  moreover have "covered ?s x y" if "covered s x y" for x y
  proof -
    have "\<exists>ob \<in> set (ed_obligations ?s). ob_deletion_id ob = ob_deletion_id b \<and> ob_generation_id ob = ob_generation_id b"
      if "b \<in> set (ed_obligations s)" for b
      using that f by (intro bexI [of _ "if ?p b then f b else b"]) (auto simp: update_where_def)
    with that show ?thesis unfolding covered_def by fastforce
  qed
  moreover have "bm_state x \<noteq> Manifest_Active"
    if ob: "ob \<in> set (ed_obligations ?s)" "ob_state ob = Obligation_Verified" and x: "x \<in> set (ed_manifests s)" "ob_generation_id ob = bm_generation_id x" for ob x
  proof -
    obtain b where b: "b \<in> set (ed_obligations s)" "ob = (if ?p b then f b else b)" using ob(1) by (auto simp: update_where_def)
    show ?thesis
    proof (cases "?p b")
      case True
      then have "bm_generation_id x = bm_generation_id m" using b(2) f x(2) m(2) by simp
      then show ?thesis using unique_byD [OF u x(1) m(1)] m(3) by simp
    next
      case False
      then have "ob = b" using b(2) by auto
      then show ?thesis using invD(8) [OF b(1) x(1)] ob(2) x(2) by simp
    qed
  qed
  moreover have "belongs ?s (ob_deletion_id ob)" if "ob \<in> set (ed_obligations ?s)" for ob
    using that invD(3) f by (auto simp: update_where_def belongs_def)
  moreover have "belongs ?s x = belongs s x" "keys_ok ?s = keys_ok s" for x by (simp_all add: belongs_def keys_ok_def)
  moreover have "ob_generation_id ob \<in> bm_generation_id ` set (ed_manifests ?s)" if "ob \<in> set (ed_obligations ?s)" for ob
    using that invD(9) f by (auto simp: update_where_def)
  ultimately show ?thesis using invD p by (intro erasure_invI) auto
qed

subsection \<open>The transactions of the workers\<close>

lemma requeue_released_inv: "erasure_inv s \<Longrightarrow> erasure_inv (requeue_released now s)"
  unfolding requeue_released_def update_where_def
  using requeue_not_started by (intro map_items_inv) (auto split: if_splits)

lemma claim_loop_inv:
  assumes inv: "erasure_inv s" and is_row: "set rows \<subseteq> {i \<in> set (ed_items s). item_eligible now i}"
  shows "erasure_inv (fst (claim_loop ex now token s rows))"
  using is_row
proof (induction rows)
  case (Cons i rest)
  then have i: "i \<in> set (ed_items s)" and live: "ei_state i \<noteq> E_Completed" and
    IH: "erasure_inv (fst (claim_loop ex now token s rest))" by (auto simp: item_eligible_def)
  have "erasure_inv (save_item (mark_held now h i) s)" "erasure_inv (save_item (mark_policy_held now i) s)" for h
    using i live by (auto intro!: save_item_inv [OF inv i])
  moreover have "prerequisites_complete s i \<Longrightarrow> erasure_inv (save_item (lease_item ex now token i) s)"
    using i live by (auto intro!: save_item_inv [OF inv i])
  ultimately show ?case using IH by (simp split: option.split)
qed (use inv in simp)

lemma claim_item_inv: "erasure_inv s \<Longrightarrow> erasure_inv (fst (claim_item ex now token s))"
  unfolding claim_item_def by (rule claim_loop_inv) (auto simp: claim_rows_def dest: in_set_takeD)

text \<open>A claim that was issued for an item of the table.\<close>

definition issued :: "erasure_claim \<Rightarrow> erasure_db \<Rightarrow> bool" where
  "issued cl s \<longleftrightarrow> (\<exists>i \<in> set (ed_items s). ec_id cl = ei_id i \<and> ec_deletion_id cl = ei_deletion_id i \<and>
     ec_resource_type cl = ei_resource_type i \<and> ec_resource_id cl = ei_resource_id i \<and> ec_phase cl = ei_phase i)"

lemma leased_itemD:
  assumes "leased_item cl s = Some i"
  shows "i \<in> set (ed_items s)" "ei_state i = E_Leased" "ei_id i = ec_id cl"
  using row_where_SomeD [OF assms [unfolded leased_item_def]] by auto

lemma issued_item:
  assumes inv: "erasure_inv s" and c: "issued cl s" and i: "leased_item cl s = Some i"
  shows "ec_deletion_id cl = ei_deletion_id i" "ec_resource_type cl = ei_resource_type i" "ec_phase cl = ei_phase i"
proof -
  obtain x where x: "x \<in> set (ed_items s)" "ec_id cl = ei_id x" "ec_deletion_id cl = ei_deletion_id x"
    "ec_resource_type cl = ei_resource_type x" "ec_phase cl = ei_phase x" using c by (auto simp: issued_def)
  have "unique_by ei_id (ed_items s)" using erasure_invD(1) [OF inv] by (simp add: keys_ok_def)
  then have "x = i" using unique_byD leased_itemD [OF i] x(1,2) by metis
  with x show "ec_deletion_id cl = ei_deletion_id i" "ec_resource_type cl = ei_resource_type i" "ec_phase cl = ei_phase i" by auto
qed

lemma settle_item_inv:
  assumes inv: "erasure_inv s'" and same: "ed_items s' = ed_items s" and i: "leased_item cl s = Some i"
    and c: "same_item i i'"
  shows "erasure_inv (save_item i' s')"
  using leased_itemD [OF i] same c by (intro save_item_inv [OF inv, of i]) (auto simp: started_def)

lemma fail_item_inv:
  assumes inv: "erasure_inv s"
  shows "erasure_inv (fst (fail_item ex now cl f s))"
proof (cases "leased_item cl s")
  case (Some i)
  have "erasure_inv (save_item i' s)" if "same_item i i'" for i' using settle_item_inv [OF inv refl Some that] .
  then show ?thesis by (simp add: fail_item_def Some Let_def same_item_def clear_lease_def)
qed (simp add: fail_item_def inv)

text \<open>The lifecycle of an item, as the executor reads it.\<close>

lemma item_lifecycle:
  assumes inv: "erasure_inv s" and i: "i \<in> set (ed_items s)" and l: "get_row al_id (ei_deletion_id i) (ed_lifecycles s) = Some l"
  shows "l \<in> set (ed_lifecycles s)" "al_state l \<noteq> Confirmation_Pending"
proof -
  have u: "unique_by al_id (ed_lifecycles s)" using erasure_invD(1) [OF inv] by (simp add: keys_ok_def)
  show "l \<in> set (ed_lifecycles s)" using get_row_SomeD [OF l] by simp
  obtain x where x: "x \<in> set (ed_lifecycles s)" "al_id x = ei_deletion_id i" "al_state x \<noteq> Confirmation_Pending"
    using erasure_invD(2) [OF inv i] by (auto simp: belongs_def)
  then have "l = x" using unique_byD [OF u] get_row_SomeD [OF l] by simp
  with x(3) show "al_state l \<noteq> Confirmation_Pending" by simp
qed

lemma touch_lifecycle_inv:
  assumes inv: "erasure_inv s" and l: "l \<in> set (ed_lifecycles s)" "al_state l \<noteq> Confirmation_Pending"
    and same: "al_id l' = al_id l" "al_state l' = al_state l" "al_confirmed_at l' = al_confirmed_at l" "al_live_erased_at l' = al_live_erased_at l"
    and v: "al_provider_state l' = Provider_Verified"
      "al_provider_subject l = None \<Longrightarrow> al_provider_subject l' = None" "al_provider_session l = None \<Longrightarrow> al_provider_session l' = None"
  shows "erasure_inv (save_lifecycle l' s)"
  using erasure_invD(6) [OF inv l(1)] same v by (intro save_lifecycle_inv [OF inv l(1) same(1) l(2)]) (auto simp: l lifecycle_done_def)

lemma erase_row_core: "erase_row env now i s = Inr s' \<Longrightarrow> same_core s s'"
proof -
  have drop: "same_core x (drop_row rt k x)" for rt k x by (cases rt) (simp_all add: drop_row_def same_core_def Let_def)
  have conceal: "same_core x (conceal_document k (rearm_projection now d x))" for k d x
    by (simp add: conceal_document_def rearm_projection_def same_core_def split: option.split)
  have reserve: "same_core x y" if "reserve_identifier env now i x = Inr y" for x y
    using that by (auto simp: reserve_identifier_def same_core_def split: option.splits if_splits)
  have trans: "same_core x y \<Longrightarrow> same_core y z \<Longrightarrow> same_core x z" for x y z by (simp add: same_core_def)
  assume ok: "erase_row env now i s = Inr s'"
  show ?thesis
  proof (cases "ei_resource_type i = contact_policy_t \<or> \<not> row_present s (ei_resource_type i) (ei_resource_id i)")
    case True
    then show ?thesis using ok by (auto simp: erase_row_def Let_def same_core_def split: if_splits)
  next
    case False
    then obtain s1 where s1: "reserve_identifier env now i s = Inr s1"
      "s' = drop_row (ei_resource_type i) (ei_resource_id i)
         (case (ei_resource_type i, get_row doc_id (ei_resource_id i) (documents (ed_ledger s))) of
            (Document_T, Some doc) \<Rightarrow> conceal_document (ei_resource_id i) (rearm_projection now doc s1) | _ \<Rightarrow> s1)"
      using ok unfolding erase_row_def Let_def by (auto split: if_splits)
    have "same_core s1 (case (rt, doc) of (Document_T, Some doc) \<Rightarrow> conceal_document k (rearm_projection now doc s1) | _ \<Rightarrow> s1)" for rt doc k
      using conceal by (cases rt; cases doc) (simp_all add: same_core_def)
    from trans [OF trans [OF reserve [OF s1(1)] this] drop] show ?thesis unfolding s1(2) .
  qed
qed

lemma verify_backup_inv:
  assumes inv: "erasure_inv s" and ok: "verify_backup env now i s = Inr s'"
  shows "erasure_inv s' \<and> ed_items s' = ed_items s"
proof -
  obtain m ob e p f where m: "get_row bm_id (ei_resource_id i) (ed_manifests s) = Some m"
    and ob: "row_where (\<lambda>ob. ob_deletion_id ob = ei_deletion_id i \<and> ob_generation_id ob = bm_generation_id m) (ed_obligations s) = Some ob"
    and p: "retirement_proof now e m = Some p"
    and s': "s' = s\<lparr>ed_obligations := update_where (\<lambda>x. ob_deletion_id x = ob_deletion_id ob \<and> ob_generation_id x = ob_generation_id ob)
        (\<lambda>x. x\<lparr>ob_proof_digest := Some f, ob_verified_at := Some now, ob_state := Obligation_Verified\<rparr>) (ed_obligations s)\<rparr>"
    using ok by (auto simp: verify_backup_def split: option.splits if_splits)
  have "bm_state m \<noteq> Manifest_Active" using p by (auto simp: retirement_proof_def)
  moreover have "bm_generation_id m = ob_generation_id ob" using row_where_SomeD [OF ob] by simp
  ultimately show ?thesis using get_row_SomeD [OF m] unfolding s' by (auto intro!: verify_obligation_inv [OF inv, of m])
qed

lemma execute_inv:
  assumes inv: "erasure_inv s" and i: "i \<in> set (ed_items s)" and ok: "execute env now i (s, t) = (t', Inr (s', code))"
  shows "erasure_inv s' \<and> ed_items s' = ed_items s"
proof -
  note invD = erasure_invD [OF inv]
  have by_core: "erasure_inv s' \<and> ed_items s' = ed_items s" if "same_core s s'"
    using inv_core [OF that] inv that by (simp add: same_core_def)
  have "?thesis" if "erase_file env now i (s, t) = (t', Inr s')"
    using that by (intro by_core) (auto simp: erase_file_def add_file_proof_def same_core_def split: sum.splits option.splits prod.splits if_splits)
  moreover have "?thesis" if ct: "erase_ciphertexts (ei_deletion_id i) s = Inr s'"
  proof -
    obtain l where l: "get_row al_id (ei_deletion_id i) (ed_lifecycles s) = Some l" "al_provider_state l = Provider_Verified"
      "s' = save_lifecycle (l\<lparr>al_provider_subject := None, al_provider_session := None\<rparr>) s"
      using ct by (auto simp: erase_ciphertexts_def split: option.splits if_splits)
    show ?thesis using item_lifecycle [OF inv i l(1)] l(2) unfolding l(3)
      by (auto intro!: touch_lifecycle_inv [OF inv])
  qed
  moreover have "?thesis" if "erase_row env now i s = Inr s'"
    using erase_row_core [OF that] by (rule by_core)
  moreover have "?thesis" if "verify_backup env now i s = Inr s'"
    using verify_backup_inv [OF inv that] by simp
  ultimately show ?thesis using ok inv by (auto simp: execute_def split: if_splits prod.splits)
qed

lemma attempt_item_inv:
  assumes inv: "erasure_inv s" and ok: "attempt_item env now cl (s, t) = (t', Inr (s', b))"
  shows "erasure_inv s'"
proof (cases "leased_item cl s")
  case (Some i)
  note i = leased_itemD [OF Some] and settle = settle_item_inv [OF _ _ Some]
  from ok Some consider h where "s' = save_item (mark_held now h i) s" | "s' = save_item (mark_policy_held now i) s"
    | s1 code t1 where "execute env now i (s, t) = (t1, Inr (s1, code))" "s' = save_item (complete_item now code i) s1"
    by (auto simp: attempt_item_def split: if_splits option.splits prod.splits sum.splits)
  then show ?thesis
  proof cases
    case 3
    then show ?thesis using execute_inv [OF inv i(1) 3(1)] by (auto intro: settle)
  qed (auto intro: settle inv)
qed (use ok inv in \<open>auto simp: attempt_item_def split: if_splits\<close>)

lemma network_prepare_inv:
  assumes inv: "erasure_inv s" and ok: "network_prepare env now cl s = Inr (s', r)"
  shows "erasure_inv s'"
proof (cases "leased_item cl s")
  case (Some i)
  from ok Some consider h where "s' = save_item (mark_held now h i) s" | "s' = s"
    by (auto simp: network_prepare_def split: if_splits option.splits)
  then show ?thesis using settle_item_inv [OF inv refl Some] inv by cases auto
qed (use ok inv in \<open>auto simp: network_prepare_def split: if_splits\<close>)

lemma provider_result_inv:
  assumes inv: "erasure_inv s" and i: "i \<in> set (ed_items s)" "ec_deletion_id cl = ei_deletion_id i" and ok: "provider_result cl r s = Inr s'"
  shows "erasure_inv s' \<and> ed_items s' = ed_items s"
proof -
  have "s' = s \<or> (\<exists>l. get_row al_id (ei_deletion_id i) (ed_lifecycles s) = Some l \<and>
      s' = save_lifecycle (l\<lparr>al_provider_state := Provider_Verified\<rparr>) s)"
    using ok by (simp add: provider_result_def i(2) split: option.splits provider_outcome.splits if_splits)
  then consider "s' = s" | l where "get_row al_id (ei_deletion_id i) (ed_lifecycles s) = Some l"
      "s' = save_lifecycle (l\<lparr>al_provider_state := Provider_Verified\<rparr>) s" by blast
  then show ?thesis
  proof cases
    case 2
    then show ?thesis using item_lifecycle [OF inv i(1) 2(1)] by (auto intro!: touch_lifecycle_inv [OF inv])
  qed (simp add: inv)
qed

lemma network_settle_inv:
  assumes inv: "erasure_inv s" and cl: "issued cl s" and ok: "network_settle env now cl r s = Inr (s', b)"
  shows "erasure_inv s'"
proof (cases "leased_item cl s")
  case (Some i)
  note i = leased_itemD [OF Some] and settle = settle_item_inv [OF _ _ Some]
  from ok Some consider h where "s' = save_item (mark_held now h i) s"
    | s1 where "provider_result cl (fst r) s = Inr s1" "s' = save_item (complete_item now (Some (snd r)) i) s1"
    by (auto simp: network_settle_def split: if_splits option.splits)
  then show ?thesis
  proof cases
    case 2
    then show ?thesis using provider_result_inv [OF inv i(1) issued_item(1) [OF inv cl Some] 2(1)] by (auto intro: settle)
  qed (auto intro: settle inv)
qed (use ok inv in \<open>auto simp: network_settle_def split: if_splits\<close>)

subsection \<open>Reconciliation\<close>

lemma scrub_markers_inv:
  assumes inv: "erasure_inv s" and l: "l \<in> set (ed_lifecycles s)" "al_state l = Fully_Erased"
  shows "erasure_inv (scrub_markers env now l s)"
proof -
  let ?l = "l\<lparr>al_request_hmac := None, al_confirmation_hmac := None, al_receipt_hmac := None, al_receipt_recovery_hmac := None\<rparr>"
  have "same_core (save_lifecycle ?l s) (save_lifecycle ?l (s\<lparr>ed_receipt_limits := r\<rparr>))" for r by (simp add: same_core_def save_lifecycle_def)
  moreover have "erasure_inv (save_lifecycle ?l s)"
    using erasure_invD(6) [OF inv l] l by (intro touch_lifecycle_inv [OF inv l(1)]) (auto simp: lifecycle_done_def)
  ultimately have "erasure_inv (save_lifecycle ?l (s\<lparr>ed_receipt_limits := r\<rparr>))" for r using inv_core by blast
  with inv show ?thesis by (auto simp: scrub_markers_def split: option.split sum.split)
qed

lemma finish_lifecycle_inv:
  assumes inv: "erasure_inv s" and l: "l \<in> set (ed_lifecycles s)" "al_state l \<noteq> Confirmation_Pending" "al_state l \<noteq> Fully_Erased"
    and items: "\<And>i. i \<in> set (ed_items s) \<Longrightarrow> ei_deletion_id i = al_id l \<Longrightarrow> ei_state i = E_Completed"
    and prov: "al_provider_state l = Provider_Verified" "al_provider_subject l = None" "al_provider_session l = None"
    and obs: "\<And>ob. ob \<in> set (ed_obligations s) \<Longrightarrow> ob_deletion_id ob = al_id l \<Longrightarrow> ob_state ob = Obligation_Verified \<and> ob_proof_digest ob \<noteq> None"
  shows "erasure_inv (finish_lifecycle env now (l\<lparr>al_live_erased_at := Some t\<rparr>) s)"
proof -
  let ?l = "l\<lparr>al_live_erased_at := Some t, al_backup_state := Backup_Verified, al_terminal_at := Some now, al_state := Fully_Erased,
    al_safe_failure_code := None\<rparr>"
  let ?r = "\<lparr>tr_deletion_id = al_id l, tr_policy_version = al_policy_version l, tr_phase = ''fully_erased'',
    tr_result_digest = terminal_digest env (al_id l) (al_policy_version l) now, tr_occurred_at = now\<rparr>"
  let ?s = "if exists_where (\<lambda>r. tr_deletion_id r = al_id l) (ed_terminals s) then s else s\<lparr>ed_terminals := insert_row ?r (ed_terminals s)\<rparr>"
  have inv': "erasure_inv ?s" using inv insert_terminal_inv [OF inv] by simp
  have "lifecycle_done ?s ?l" using items prov obs by (auto simp: lifecycle_done_def)
  then have "erasure_inv (save_lifecycle ?l ?s)"
    using l prov by (intro save_lifecycle_inv [OF inv', of l]) auto
  moreover have "finish_lifecycle env now (l\<lparr>al_live_erased_at := Some t\<rparr>) s = save_lifecycle ?l ?s"
    by (simp add: finish_lifecycle_def save_lifecycle_def)
  ultimately show ?thesis by simp
qed

lemma reconcile_inv:
  assumes inv: "erasure_inv s"
  shows "erasure_inv (reconcile env now d s)"
proof (cases "get_row al_id d (ed_lifecycles s)")
  case (Some l)
  then have l: "l \<in> set (ed_lifecycles s)" "al_id l = d" using get_row_SomeD by fastforce+
  show ?thesis
  proof (cases "al_state l = Confirmation_Pending \<or> al_state l = Fully_Erased")
    case True
    then show ?thesis using inv scrub_markers_inv [OF inv l(1)] by (auto simp: reconcile_def Some)
  next
    case False
    have keep: "erasure_inv (save_lifecycle l' s)" if "al_id l' = al_id l" "al_state l' \<noteq> Confirmation_Pending" "al_state l' \<noteq> Fully_Erased"
        "al_confirmed_at l' = al_confirmed_at l" "al_provider_state l' = al_provider_state l" for l'
      using that False by (intro save_lifecycle_inv [OF inv l(1)]) auto
    have "erasure_inv (reconcile_live env now l s)"
      if "\<not> (\<exists>i \<in> set (items_of s d). ei_phase i \<noteq> Backup \<and> ei_state i \<noteq> E_Completed)" "al_provider_state l = Provider_Verified"
        "al_provider_subject l = None" "al_provider_session l = None"
      using that l False
      by (auto simp: reconcile_live_def Let_def items_of_def keep intro!: finish_lifecycle_inv [OF inv] split: option.split)
    then show ?thesis using False inv by (simp add: reconcile_def Some Let_def keep)
  qed
qed (simp add: reconcile_def inv)

lemma reconcile_all_inv: "erasure_inv s \<Longrightarrow> erasure_inv (reconcile_all env now s)"
proof -
  have "erasure_inv s \<Longrightarrow> erasure_inv (fold (reconcile env now) ds s)" for ds
    by (induction ds arbitrary: s) (simp_all add: reconcile_inv)
  then show "erasure_inv s \<Longrightarrow> erasure_inv (reconcile_all env now s)" by (simp add: reconcile_all_def)
qed

subsection \<open>Backup generations\<close>

definition fresh_ids :: "(nat \<Rightarrow> string) \<Rightarrow> erasure_db \<Rightarrow> bool" where
  "fresh_ids new_id s \<longleftrightarrow> inj new_id \<and> range new_id \<inter> ei_id ` set (ed_items s) = {}"

lemma fresh_distinct:
  assumes "fresh_ids new_id s" "unique_by ei_id (ed_items s)" "distinct ns"
  shows "distinct (map ei_id (ed_items s) @ map new_id ns)"
proof -
  have "inj_on new_id (set ns)" using assms(1) inj_on_subset by (auto simp: fresh_ids_def)
  then have "distinct (map new_id ns)" using assms(3) by (simp add: distinct_map)
  moreover have "set (map ei_id (ed_items s)) \<inter> set (map new_id ns) = {}" using assms(1) unfolding fresh_ids_def set_map by blast
  ultimately show ?thesis using assms(2) by (simp only: distinct_append unique_by_def)
qed

lemma set_open_lifecycles:
  "d \<in> set (open_lifecycles s) \<longleftrightarrow> (\<exists>l \<in> set (ed_lifecycles s). al_id l = d \<and> al_confirmed_at l \<noteq> None \<and> al_state l \<noteq> Fully_Erased)"
  by (auto simp: open_lifecycles_def)

lemma ids_backup_items:
  "map ei_id (map (\<lambda>(n, d). backup_item (new_id n) now d k) (enumerate 0 ds)) = map new_id [0..<length ds]"
  by (rule nth_equalityI) (auto simp: backup_item_def nth_enumerate_eq)

lemma set_backup_items:
  "i \<in> set (map (\<lambda>(n, d). backup_item (new_id n) now d k) (enumerate 0 ds)) \<Longrightarrow>
     ei_deletion_id i \<in> set ds \<and> ei_phase i = Backup \<and> ei_resource_type i = backup_manifest_t \<and> ei_state i = E_Queued"
  by (auto simp: backup_item_def in_set_enumerate_eq)

lemma obligation_for_simps [simp]:
  "ob_deletion_id (obligation_for d m) = d" "ob_generation_id (obligation_for d m) = bm_generation_id m"
  "ob_state (obligation_for d m) = Obligation_Pending"
  by (simp_all add: obligation_for_def)

lemma lifecycle_done_items:
  assumes "lifecycle_done s l" and "\<And>i. i \<in> set (ed_items s') \<Longrightarrow> ei_deletion_id i = al_id l \<Longrightarrow> i \<in> set (ed_items s)"
    and "\<And>ob. ob \<in> set (ed_obligations s') \<Longrightarrow> ob_deletion_id ob = al_id l \<Longrightarrow> ob \<in> set (ed_obligations s)"
    and "ed_terminals s' = ed_terminals s"
  shows "lifecycle_done s' l"
  using assms by (auto simp: lifecycle_done_def)

lemma covered_mono: "covered s l m \<Longrightarrow> set (ed_obligations s) \<subseteq> set (ed_obligations s') \<Longrightarrow> covered s' l m"
  by (auto simp: covered_def)

text \<open>
  The tables grow by items that are not started and by obligations that are open, for erasures
  that are not finished.
\<close>

lemma grow_inv:
  assumes inv: "erasure_inv s" and keys: "keys_ok s'"
    and items: "set (ed_items s') \<subseteq> set (ed_items s) \<union> N" "\<And>i. i \<in> N \<Longrightarrow> \<not> started i \<and> belongs s' (ei_deletion_id i)"
    and obs: "set (ed_obligations s') \<subseteq> set (ed_obligations s) \<union> M"
      "\<And>ob. ob \<in> M \<Longrightarrow> ob_state ob = Obligation_Pending \<and> belongs s' (ob_deletion_id ob) \<and> ob_generation_id ob \<in> bm_generation_id ` set (ed_manifests s')"
    and prog: "\<And>i. i \<in> set (ed_items s) \<Longrightarrow> progress s s' (ei_deletion_id i)" and bel: "\<And>d. belongs s d \<Longrightarrow> belongs s' d"
    and terminals: "ed_terminals s' = ed_terminals s"
    and rows: "\<And>l. l \<in> set (ed_lifecycles s') \<Longrightarrow> al_state l \<noteq> Confirmation_Pending \<longleftrightarrow> al_confirmed_at l \<noteq> None"
    and closed: "\<And>l. l \<in> set (ed_lifecycles s') \<Longrightarrow> al_state l = Fully_Erased \<Longrightarrow>
      l \<in> set (ed_lifecycles s) \<and> al_id l \<notin> ei_deletion_id ` N \<and> al_id l \<notin> ob_deletion_id ` M"
    and manifests: "set (ed_manifests s) \<subseteq> set (ed_manifests s')"
      "\<And>m. m \<in> set (ed_manifests s') - set (ed_manifests s) \<Longrightarrow> bm_generation_id m \<notin> bm_generation_id ` set (ed_manifests s)"
    and cov: "\<And>l m. l \<in> set (ed_lifecycles s') \<Longrightarrow> m \<in> set (ed_manifests s') \<Longrightarrow> al_state l \<noteq> Confirmation_Pending \<Longrightarrow>
      bm_state m = Manifest_Active \<Longrightarrow> covered s' l m"
  shows "erasure_inv s'"
proof (rule erasure_invI)
  note invD = erasure_invD [OF inv]
  show "belongs s' (ei_deletion_id i)" if "i \<in> set (ed_items s')" for i using that items invD(2) bel by blast
  show "belongs s' (ob_deletion_id ob)" if "ob \<in> set (ed_obligations s')" for ob using that obs invD(3) bel by blast
  show "prerequisites_complete s' i" if "i \<in> set (ed_items s')" "started i" for i
    using that items prerequisites_mono [OF prog same_item_refl invD(4)] by blast
  show "lifecycle_done s' l" if "l \<in> set (ed_lifecycles s')" "al_state l = Fully_Erased" for l
  proof (rule lifecycle_done_items [OF invD(6)])
    show "i \<in> set (ed_items s)" if "i \<in> set (ed_items s')" "ei_deletion_id i = al_id l" for i
      using closed [OF \<open>l \<in> set (ed_lifecycles s')\<close> \<open>al_state l = Fully_Erased\<close>] items(1) that by force
    show "ob \<in> set (ed_obligations s)" if "ob \<in> set (ed_obligations s')" "ob_deletion_id ob = al_id l" for ob
      using closed [OF \<open>l \<in> set (ed_lifecycles s')\<close> \<open>al_state l = Fully_Erased\<close>] obs(1) that by force
  qed (use closed [OF that] that(2) terminals in auto)
  show "bm_state m \<noteq> Manifest_Active" if "ob \<in> set (ed_obligations s')" "m \<in> set (ed_manifests s')" "ob_state ob = Obligation_Verified"
    "ob_generation_id ob = bm_generation_id m" for ob m
  proof -
    have ob: "ob \<in> set (ed_obligations s)" using that(1,3) obs by fastforce
    then have "m \<in> set (ed_manifests s)" using invD(9) [OF ob] that(2,4) manifests(2) [of m] by auto
    then show ?thesis using invD(8) [OF ob _ that(3,4)] by blast
  qed
  show "ob_generation_id ob \<in> bm_generation_id ` set (ed_manifests s')" if "ob \<in> set (ed_obligations s')" for ob
    using that obs invD(9) manifests(1) by blast
qed (use keys rows cov in auto)

lemma attach_covered:
  assumes inv: "erasure_inv s"
    and cap: "\<And>l t. l \<in> set (ed_lifecycles s) \<Longrightarrow> al_state l = Fully_Erased \<Longrightarrow> al_live_erased_at l = Some t \<Longrightarrow> t < bm_created_at m"
    and l: "l \<in> set (ed_lifecycles s)" "al_state l \<noteq> Confirmation_Pending" and x: "bm_state x = Manifest_Active"
    and manifests: "x \<in> set (ed_manifests s) \<or> x = new_manifest m"
    and obs: "set (ed_obligations s) \<subseteq> set (ed_obligations s')" "(\<lambda>d. obligation_for d m) ` set (open_lifecycles s) \<subseteq> set (ed_obligations s')"
  shows "covered s' l x"
proof -
  note invD = erasure_invD [OF inv]
  have nm: "bm_generation_id (new_manifest m) = bm_generation_id m" "bm_created_at (new_manifest m) = bm_created_at m" by (simp_all add: new_manifest_def)
  consider "x \<in> set (ed_manifests s)" | "x = new_manifest m" "al_state l = Fully_Erased" | "x = new_manifest m" "al_state l \<noteq> Fully_Erased"
    using manifests by blast
  then show ?thesis
  proof cases
    case 1
    show ?thesis by (rule covered_mono [OF invD(7) [OF l(1) 1 l(2) x] obs(1)])
  next
    case 2
    have "al_live_erased_at l \<noteq> None" using invD(6) [OF l(1) 2(2)] by (simp add: lifecycle_done_def)
    then obtain t where "al_live_erased_at l = Some t" by blast
    then show ?thesis using cap [of l t] l(1) 2 by (simp add: covered_def nm)
  next
    case 3
    then have "al_id l \<in> set (open_lifecycles s)" using l invD(5) by (auto simp: set_open_lifecycles)
    then have "obligation_for (al_id l) m \<in> set (ed_obligations s')" using obs(2) by blast
    then show ?thesis using 3 unfolding covered_def by (intro disjI1 bexI) (simp_all add: nm)
  qed
qed

lemma attach_generation_inv:
  assumes inv: "erasure_inv s" and fresh: "fresh_ids new_id s" and id: "bm_id m \<notin> bm_id ` set (ed_manifests s)"
    and gen: "bm_generation_id m \<notin> bm_generation_id ` set (ed_manifests s)"
    and cap: "\<And>l t. l \<in> set (ed_lifecycles s) \<Longrightarrow> al_state l = Fully_Erased \<Longrightarrow> al_live_erased_at l = Some t \<Longrightarrow> t < bm_created_at m"
  shows "erasure_inv (attach_generation new_id now m (s\<lparr>ed_manifests := insert_row (new_manifest m) (ed_manifests s),
    ed_current_generation := g, ed_ledger := d\<rparr>))" (is "erasure_inv ?s")
proof -
  note invD = erasure_invD [OF inv]
  let ?open = "open_lifecycles s"
  let ?new = "map (\<lambda>(n, d). backup_item (new_id n) now d (bm_id m)) (enumerate 0 ?open)" and ?obs = "map (\<lambda>d. obligation_for d m) ?open"
  have op: "open_lifecycles (s\<lparr>ed_manifests := a, ed_current_generation := g, ed_ledger := d\<rparr>) = ?open" for a
    by (simp add: open_lifecycles_def)
  have sel: "ed_items ?s = ed_items s @ ?new" "ed_obligations ?s = ed_obligations s @ ?obs" "ed_lifecycles ?s = ed_lifecycles s"
    "ed_terminals ?s = ed_terminals s" "ed_manifests ?s = insert_row (new_manifest m) (ed_manifests s)" by (simp_all add: attach_generation_def op)
  have nm: "bm_id (new_manifest m) = bm_id m" "bm_generation_id (new_manifest m) = bm_generation_id m"
    "bm_created_at (new_manifest m) = bm_created_at m" "bm_state (new_manifest m) = Manifest_Active" by (simp_all add: new_manifest_def)
  have u: "unique_by al_id (ed_lifecycles s)" using invD(1) by (simp add: keys_ok_def)
  have closed: "al_id l \<notin> set ?open" if "l \<in> set (ed_lifecycles s)" "al_state l = Fully_Erased" for l
    using unique_byD [OF u _ that(1)] that(2) by (auto simp: set_open_lifecycles)
  have bel: "belongs ?s x = belongs s x" for x by (simp add: belongs_def sel)
  have opened: "belongs s x" if "x \<in> set ?open" for x using that invD(5) by (auto simp: set_open_lifecycles belongs_def)
  have "distinct (map ei_id (ed_items s @ ?new))"
    unfolding map_append ids_backup_items using invD(1) by (intro fresh_distinct [OF fresh]) (simp_all add: keys_ok_def)
  then have keys: "keys_ok ?s" using invD(1) id gen by (simp add: keys_ok_def unique_by_def [of ei_id] sel nm)
  have "incomplete_items ?s x p = incomplete_items s x p" if "local_filter p" for x p
  proof -
    have "\<not> p i" if "i \<in> set ?new" for i using \<open>local_filter p\<close> set_backup_items [OF that] by (simp add: local_filter_def)
    then show ?thesis unfolding incomplete_items_def exists_where_iff sel(1) set_append by blast
  qed
  then have prog: "progress s ?s x" for x by (simp add: progress_def sel(3))
  have cov: "covered ?s l x" if "l \<in> set (ed_lifecycles s)" "x \<in> set (ed_manifests ?s)" "al_state l \<noteq> Confirmation_Pending" "bm_state x = Manifest_Active" for l x
    by (rule attach_covered [where m = m, OF inv _ that(1,3,4)]) (use that(2) cap in \<open>auto simp: sel\<close>)
  show ?thesis
  proof (rule grow_inv [OF inv keys, of "set ?new" "set ?obs"])
    show "\<not> started i \<and> belongs ?s (ei_deletion_id i)" if "i \<in> set ?new" for i
      using set_backup_items [OF that] opened by (simp add: bel started_def)
    show "l \<in> set (ed_lifecycles s) \<and> al_id l \<notin> ei_deletion_id ` set ?new \<and> al_id l \<notin> ob_deletion_id ` set ?obs"
      if "l \<in> set (ed_lifecycles ?s)" "al_state l = Fully_Erased" for l
      using that closed [of l] set_backup_items by (force simp: sel)
  qed (use invD(5) prog cov opened gen in \<open>auto simp: sel bel nm\<close>)
qed

lemma register_inv:
  assumes inv: "erasure_inv s" and fresh: "fresh_ids new_id s" and id: "bm_id m \<notin> bm_id ` set (ed_manifests s)"
  shows "erasure_inv (fst (register_backup_generation new_id now m s))"
proof (cases "row_where (\<lambda>x. bm_generation_id x = bm_generation_id m) (ed_manifests s)")
  case None
  have "erasure_inv (attach_generation new_id now m (s\<lparr>ed_manifests := insert_row (new_manifest m) (ed_manifests s), ed_current_generation := g, ed_ledger := d\<rparr>))"
    if cap: "\<not> (\<exists>l \<in> set (ed_lifecycles s). al_state l = Fully_Erased \<and> (case al_live_erased_at l of None \<Rightarrow> False | Some t \<Rightarrow> bm_created_at m \<le> t))" for g d
  proof (rule attach_generation_inv [OF inv fresh id])
    show "bm_generation_id m \<notin> bm_generation_id ` set (ed_manifests s)" using None by (auto simp: row_where_None)
    show "t < bm_created_at m" if "l \<in> set (ed_lifecycles s)" "al_state l = Fully_Erased" "al_live_erased_at l = Some t" for l t
      using cap that by (metis linorder_not_le option.simps(5))
  qed
  then show ?thesis using inv by (simp add: register_backup_generation_def None)
qed (simp add: register_backup_generation_def inv)

lemma retire_inv:
  assumes inv: "erasure_inv s" and m: "m \<in> set (ed_manifests s)" "bm_id m' = bm_id m" "bm_generation_id m' = bm_generation_id m" "bm_state m' \<noteq> Manifest_Active"
  shows "erasure_inv (s\<lparr>ed_manifests := save_row bm_id m' (ed_manifests s)\<rparr>)" (is "erasure_inv ?s")
proof -
  note invD = erasure_invD [OF inv]
  have u: "unique_by bm_id (ed_manifests s)" using invD(1) by (simp add: keys_ok_def)
  have gens: "map bm_generation_id (save_row bm_id m' (ed_manifests s)) = map bm_generation_id (ed_manifests s)"
    using m by (intro map_save_row [OF u m(1)]) auto
  then have keys: "keys_ok ?s" using invD(1) by (simp add: keys_ok_def unique_by_def [of bm_generation_id])
  have same: "belongs ?s x = belongs s x" "lifecycle_done ?s l = lifecycle_done s l" "covered ?s l k = covered s l k"
    for x l k by (simp_all add: belongs_def lifecycle_done_def covered_def)
  have same_p: "prerequisites_complete ?s i = prerequisites_complete s i" for i by (rule prerequisites_core) simp_all
  have active: "k \<in> set (ed_manifests s)" if "k \<in> set (ed_manifests ?s)" "bm_state k = Manifest_Active" for k
    using that m(4) by (auto simp: set_save_row)
  show ?thesis
  proof (rule erasure_invI)
    show "ob_generation_id ob \<in> bm_generation_id ` set (ed_manifests ?s)" if "ob \<in> set (ed_obligations ?s)" for ob
      using that invD(9) arg_cong [OF gens, of set] by simp
    show "bm_state k \<noteq> Manifest_Active" if "ob \<in> set (ed_obligations ?s)" "k \<in> set (ed_manifests ?s)" "ob_state ob = Obligation_Verified"
      "ob_generation_id ob = bm_generation_id k" for ob k
      using that(1) invD(8) [OF _ active [OF that(2)] that(3,4)] by auto
    show "covered ?s l k" if "l \<in> set (ed_lifecycles ?s)" "k \<in> set (ed_manifests ?s)" "al_state l \<noteq> Confirmation_Pending" "bm_state k = Manifest_Active" for l k
      using that(1) invD(7) [OF _ active [OF that(2,4)] that(3,4)] same(3) by simp
  qed (use keys invD(2-6) same(1,2) same_p in simp_all)
qed

lemma transition_inv:
  assumes inv: "erasure_inv s"
  shows "erasure_inv (fst (transition_backup_generation now expire g proof_digest s))"
proof -
  have "erasure_inv (s\<lparr>ed_manifests := save_row bm_id m' (ed_manifests s)\<rparr>)"
    if "m \<in> set (ed_manifests s)" "bm_id m' = bm_id m" "bm_generation_id m' = bm_generation_id m" "bm_state m' \<noteq> Manifest_Active" for m m'
    using retire_inv [OF inv that] .
  then show ?thesis
    using inv by (auto simp: transition_backup_generation_def retire_manifest_def split: option.split dest!: row_where_SomeD)
qed

subsection \<open>Requests and confirmations\<close>

lemma set_insert_items: "set t \<subseteq> set (fold insert_item is t)" "set (fold insert_item is t) \<subseteq> set t \<union> set is"
proof -
  have "set t \<subseteq> set (fold insert_item is t) \<and> set (fold insert_item is t) \<subseteq> set t \<union> set is"
  proof (induction "is" arbitrary: t)
    case (Cons i rest)
    have "set t \<subseteq> set (insert_item i t)" "set (insert_item i t) \<subseteq> insert i (set t)" by (auto simp: insert_item_def)
    with Cons.IH [of "insert_item i t"] show ?case by auto
  qed simp
  then show "set t \<subseteq> set (fold insert_item is t)" "set (fold insert_item is t) \<subseteq> set t \<union> set is" by auto
qed

lemma distinct_insert_items: "distinct (map ei_id t @ map ei_id is) \<Longrightarrow> distinct (map ei_id (fold insert_item is t))"
proof (induction "is" arbitrary: t)
  case (Cons i rest)
  then have "distinct (map ei_id (insert_item i t) @ map ei_id rest)" by (auto simp: insert_item_def insert_row_def)
  then show ?case using Cons.IH by simp
qed simp

lemma set_insert_obligations:
  "set t \<subseteq> set (fold insert_obligation obs t) \<and> set (fold insert_obligation obs t) \<subseteq> set t \<union> set obs \<and>
   (\<forall>ob \<in> set obs. \<exists>x \<in> set (fold insert_obligation obs t). ob_deletion_id x = ob_deletion_id ob \<and> ob_generation_id x = ob_generation_id ob)"
proof (induction obs arbitrary: t)
  case (Cons ob rest)
  have step: "set t \<subseteq> set (insert_obligation ob t)" "set (insert_obligation ob t) \<subseteq> insert ob (set t)"
    "\<exists>x \<in> set (insert_obligation ob t). ob_deletion_id x = ob_deletion_id ob \<and> ob_generation_id x = ob_generation_id ob"
    by (auto simp: insert_obligation_def)
  with Cons.IH [of "insert_obligation ob t"] show ?case by (simp, blast)
qed simp

text \<open>The inventory comes with new identifiers; its items are queued, or held by policy.\<close>

definition planned_ok :: "(nat \<Rightarrow> string) \<Rightarrow> string \<Rightarrow> account_item list \<Rightarrow> erasure_db \<Rightarrow> bool" where
  "planned_ok new_id d planned s \<longleftrightarrow> fresh_ids new_id s \<and> distinct (map ei_id planned) \<and>
     (\<forall>i \<in> set planned. ei_deletion_id i = d \<and> (ei_state i = E_Queued \<or> ei_state i = E_Held) \<and> ei_id i \<notin> range new_id \<and>
       ei_id i \<notin> ei_id ` set (ed_items s))"

lemma closing_ids: "map ei_id (closing_items new_id now d ms) = map new_id ([4..<4 + length ms] @ [0, 1, 2, 3])"
proof -
  have "map ei_id (map (\<lambda>(n, m). planned_item (new_id (n + 4)) now d backup_manifest_t (bm_id m) Backup Do_Hold) (enumerate 0 ms)) =
      map new_id [4..<4 + length ms]"
    by (rule nth_equalityI) (auto simp: planned_item_def nth_enumerate_eq add.commute)
  then show ?thesis by (simp add: closing_items_def planned_item_def)
qed

lemma closing_set: "i \<in> set (closing_items new_id now d ms) \<Longrightarrow> ei_deletion_id i = d \<and> ei_state i = E_Queued"
  by (auto simp: closing_items_def planned_item_def)

lemma planned_distinct:
  assumes p: "planned_ok new_id d planned s" and u: "unique_by ei_id (ed_items s)"
  shows "distinct (map ei_id (ed_items s) @ map ei_id (planned @ closing_items new_id now d ms))"
proof -
  let ?ns = "[4..<4 + length ms] @ [0, 1, 2, 3]"
  have "distinct (map ei_id (ed_items s) @ map new_id ?ns)"
    using p u by (intro fresh_distinct) (auto simp: planned_ok_def)
  moreover have "set (map ei_id planned) \<inter> (set (map ei_id (ed_items s)) \<union> set (map new_id ?ns)) = {}" "distinct (map ei_id planned)"
    using p unfolding planned_ok_def set_map by blast+
  ultimately show ?thesis unfolding map_append [of ei_id planned] closing_ids distinct_append set_append by blast
qed

text \<open>A pending lifecycle has no items and no obligations.\<close>

lemma pending_empty:
  assumes inv: "erasure_inv s" and l: "l \<in> set (ed_lifecycles s)" "al_state l = Confirmation_Pending"
  shows "\<not> belongs s (al_id l)" "i \<in> set (ed_items s) \<Longrightarrow> ei_deletion_id i \<noteq> al_id l" "ob \<in> set (ed_obligations s) \<Longrightarrow> ob_deletion_id ob \<noteq> al_id l"
proof -
  have u: "unique_by al_id (ed_lifecycles s)" using erasure_invD(1) [OF inv] by (simp add: keys_ok_def)
  show no: "\<not> belongs s (al_id l)" using unique_byD [OF u _ l(1)] l(2) by (auto simp: belongs_def)
  show "i \<in> set (ed_items s) \<Longrightarrow> ei_deletion_id i \<noteq> al_id l" "ob \<in> set (ed_obligations s) \<Longrightarrow> ob_deletion_id ob \<noteq> al_id l"
    using no erasure_invD(2,3) [OF inv] by metis+
qed

lemma admit_covered:
  assumes inv: "erasure_inv s" and x: "x = l' \<or> x \<in> set (ed_lifecycles s)" and m: "m \<in> set (ed_manifests s)"
    and "al_state x \<noteq> Confirmation_Pending" "bm_state m = Manifest_Active" and l': "al_id l' = al_id l" and active: "m \<in> set active"
    and obs: "ed_obligations s' = fold insert_obligation (map (obligation_for (al_id l)) active) (ed_obligations s)"
  shows "covered s' x m"
proof (cases "x = l'")
  case True
  have "obligation_for (al_id l) m \<in> set (map (obligation_for (al_id l)) active)" using active by simp
  then show ?thesis
    using set_insert_obligations [of "ed_obligations s" "map (obligation_for (al_id l)) active"] l' True unfolding covered_def obs by fastforce
next
  case False
  then have "covered s x m" using x m assms(4,5) erasure_invD(7) [OF inv] by blast
  then show ?thesis
    by (rule covered_mono) (use set_insert_obligations [of "ed_obligations s" "map (obligation_for (al_id l)) active"] in \<open>simp add: obs\<close>)
qed

lemma admit_inv:
  assumes inv: "erasure_inv s" and l: "l \<in> set (ed_lifecycles s)" "al_state l = Confirmation_Pending"
    and p: "planned_ok new_id (al_id l) planned s" and l': "al_id l' = al_id l" "al_state l' = Concealed" "al_confirmed_at l' \<noteq> None"
  defines "active \<equiv> rows_where (\<lambda>m. bm_state m = Manifest_Active) (ed_manifests s)"
  shows "erasure_inv (admit_deletion cf t l' (store_inventory new_id now (al_id l) planned active s))" (is "erasure_inv ?s")
proof -
  note invD = erasure_invD [OF inv] and pend = pending_empty [OF inv l]
  let ?new = "planned @ closing_items new_id now (al_id l) active" and ?obs = "map (obligation_for (al_id l)) active"
  have items: "ed_items ?s = fold insert_item ?new (ed_items s)" and obs: "ed_obligations ?s = fold insert_obligation ?obs (ed_obligations s)"
    and sel: "ed_terminals ?s = ed_terminals s" "ed_manifests ?s = ed_manifests s"
    and ls: "ed_lifecycles ?s = save_row al_id l' (ed_lifecycles s)"
    by (simp_all add: admit_deletion_def store_inventory_def save_lifecycle_def)
  have rows: "x \<in> set (ed_lifecycles ?s) \<longleftrightarrow> x = l' \<or> x \<in> set (ed_lifecycles s) \<and> al_id x \<noteq> al_id l" for x
    using l(1) l'(1) by (auto simp: ls set_save_row)
  have new: "ei_deletion_id i = al_id l \<and> \<not> started i" if "i \<in> set ?new" for i
    using that p closing_set by (auto simp: planned_ok_def started_def)
  have here: "belongs ?s (al_id l)" unfolding belongs_def using rows l' by (intro bexI [of _ l']) auto
  have bel: "belongs ?s d" if "belongs s d" for d
    using that pend(1) rows unfolding belongs_def by (metis (no_types, lifting))
  have "unique_by ei_id (ed_items ?s)" unfolding unique_by_def items
    using planned_distinct [OF p] invD(1) by (intro distinct_insert_items) (simp add: keys_ok_def)
  then have keys: "keys_ok ?s" using invD(1) by (simp add: keys_ok_def sel ls)
  have prog: "progress s ?s d" if "d \<noteq> al_id l" for d
  proof -
    have "incomplete_items s d q" if "incomplete_items ?s d q" for q
      using that \<open>d \<noteq> al_id l\<close> set_insert_items(2) [of ?new "ed_items s"] new unfolding incomplete_items_def items exists_where_iff by blast
    then show ?thesis using that l'(1) by (simp add: progress_def ls get_row_save)
  qed
  have cov: "covered ?s x m" if "x \<in> set (ed_lifecycles ?s)" "m \<in> set (ed_manifests s)" "al_state x \<noteq> Confirmation_Pending" "bm_state m = Manifest_Active" for x m
    by (rule admit_covered [OF inv _ that(2,3,4) l'(1) _ obs]) (use that rows in \<open>auto simp: active_def\<close>)
  show ?thesis
  proof (rule grow_inv [OF inv keys])
    show "set (ed_items ?s) \<subseteq> set (ed_items s) \<union> set ?new" unfolding items by (rule set_insert_items)
    show "set (ed_obligations ?s) \<subseteq> set (ed_obligations s) \<union> set ?obs" unfolding obs using set_insert_obligations by blast
    show "x \<in> set (ed_lifecycles s) \<and> al_id x \<notin> ei_deletion_id ` set ?new \<and> al_id x \<notin> ob_deletion_id ` set ?obs"
      if "x \<in> set (ed_lifecycles ?s)" "al_state x = Fully_Erased" for x
      using that rows [of x] l'(2) new by (auto simp del: set_append)
    show "al_state x \<noteq> Confirmation_Pending \<longleftrightarrow> al_confirmed_at x \<noteq> None" if "x \<in> set (ed_lifecycles ?s)" for x
      using that rows [of x] l' invD(5) by auto
    show "\<not> started i \<and> belongs ?s (ei_deletion_id i)" if "i \<in> set ?new" for i using new [OF that] here by simp
    show "progress s ?s (ei_deletion_id i)" if "i \<in> set (ed_items s)" for i using prog pend(2) [OF that] .
    show "ob_state ob = Obligation_Pending \<and> belongs ?s (ob_deletion_id ob) \<and> ob_generation_id ob \<in> bm_generation_id ` set (ed_manifests ?s)"
      if "ob \<in> set ?obs" for ob using that here unfolding sel by (auto simp: active_def)
    show "covered ?s x m" if "x \<in> set (ed_lifecycles ?s)" "m \<in> set (ed_manifests ?s)" "al_state x \<noteq> Confirmation_Pending" "bm_state m = Manifest_Active" for x m
      using cov [OF that(1) that(2) [unfolded sel] that(3,4)] .
    show "belongs ?s d" if "belongs s d" for d using bel [OF that] .
  qed (simp_all only: sel subset_refl Diff_cancel empty_iff)
qed

lemma confirmableD:
  assumes "confirmable cf s = Inr (l, active, current)"
  shows "l \<in> set (ed_lifecycles s)" "al_id l = cf_deletion_id cf" "al_subject_hmac l = cf_subject_hmac cf" "al_state l = Confirmation_Pending"
    "active = rows_where (\<lambda>m. bm_state m = Manifest_Active) (ed_manifests s)" "al_confirmation_hmac l = None"
  using assms by (auto simp: confirmable_def Let_def split: option.splits if_splits dest: row_where_SomeD)

lemma confirm_cases:
  assumes "confirm_deletion env new_id now cf planned j (s, fs) = ((s', fs'), status)"
  obtains "s' = s" "status \<noteq> 202"
  | "s' = s" "confirmable cf s = Inl status"
  | l active current subject_ct session_ct c where "confirmable cf s = Inr (l, active, current)" "status = 202"
      "append_commitment j (cf_nonce_journal cf) (deletion_request_of cf l current now) fs = (fs', Inr c)"
      "s' = admit_deletion cf (cm_committed_at c) (confirmed_lifecycle cf (cm_committed_at c) subject_ct session_ct l)
         (store_inventory new_id now (al_id l) planned active s)"
  using assms by (auto simp: confirm_deletion_def split: sum.splits if_splits prod.splits)

lemma confirm_inv:
  assumes inv: "erasure_inv s" and p: "planned_ok new_id (cf_deletion_id cf) planned s"
    and c: "confirm_deletion env new_id now cf planned j (s, fs) = ((s', fs'), status)"
  shows "erasure_inv s'"
  using c
proof (cases rule: confirm_cases)
  case (3 l active current subject_ct session_ct c)
  note l = confirmableD [OF 3(1)]
  show ?thesis unfolding 3(4) l(5)
    using l by (intro admit_inv [OF inv l(1,4)]) (auto simp: p confirmed_lifecycle_def)
qed (use inv in auto)

text \<open>Pending lifecycles come and go, and change; nothing depends on them.\<close>

lemma pending_inv:
  assumes inv: "erasure_inv s" and ls: "unique_by al_id (ed_lifecycles s')"
    and same: "ed_items s' = ed_items s" "ed_obligations s' = ed_obligations s" "ed_manifests s' = ed_manifests s" "ed_terminals s' = ed_terminals s"
    and keep: "\<And>l. al_state l \<noteq> Confirmation_Pending \<Longrightarrow> l \<in> set (ed_lifecycles s') \<longleftrightarrow> l \<in> set (ed_lifecycles s)"
    and pend: "\<And>l. l \<in> set (ed_lifecycles s') \<Longrightarrow> al_state l = Confirmation_Pending \<Longrightarrow> al_confirmed_at l = None"
  shows "erasure_inv s'"
proof -
  note invD = erasure_invD [OF inv]
  have bel: "belongs s' d = belongs s d" for d using keep by (auto simp: belongs_def)
  have dn: "lifecycle_done s' l = lifecycle_done s l" and cov: "covered s' l m = covered s l m" for l m
    by (simp_all add: lifecycle_done_def covered_def same)
  have prog: "progress s s' d" if b: "belongs s d" for d
  proof -
    obtain x where x: "x \<in> set (ed_lifecycles s)" "al_id x = d" "al_state x \<noteq> Confirmation_Pending" using b by (auto simp: belongs_def)
    have "get_row al_id d (ed_lifecycles s') = Some x" "get_row al_id d (ed_lifecycles s) = Some x"
      using x keep [OF x(3)] ls invD(1) by (auto simp: keys_ok_def get_row_iff)
    then show ?thesis by (simp add: progress_def incomplete_items_def same)
  qed
  show ?thesis
  proof (rule erasure_invI)
    show "keys_ok s'" using invD(1) ls by (simp add: keys_ok_def same)
    show "prerequisites_complete s' i" if "i \<in> set (ed_items s')" "started i" for i
      using that prerequisites_mono [OF prog same_item_refl invD(4)] invD(2) by (simp add: same)
    show "al_state l \<noteq> Confirmation_Pending \<longleftrightarrow> al_confirmed_at l \<noteq> None" if "l \<in> set (ed_lifecycles s')" for l
      using that pend [of l] invD(5) [of l] keep [of l] by (cases "al_state l = Confirmation_Pending") auto
    show "lifecycle_done s' l" if "l \<in> set (ed_lifecycles s')" "al_state l = Fully_Erased" for l
      using that keep [of l] invD(6) by (simp add: dn)
    show "covered s' l m" if "l \<in> set (ed_lifecycles s')" "m \<in> set (ed_manifests s')" "al_state l \<noteq> Confirmation_Pending" "bm_state m = Manifest_Active" for l m
      using that keep [of l] invD(7) by (simp add: cov same)
  qed (use invD(2,3,8,9) in \<open>simp_all add: bel same\<close>)
qed

lemma pending_unconfirmed:
  "erasure_inv s \<Longrightarrow> l \<in> set (ed_lifecycles s) \<Longrightarrow> al_state l = Confirmation_Pending \<Longrightarrow> al_confirmed_at l = None"
  using erasure_invD(5) by blast

lemma cancel_inv:
  assumes inv: "erasure_inv s"
  shows "erasure_inv (fst (cancel_deletion d h s))"
proof -
  have "unique_by al_id (ed_lifecycles s)" using erasure_invD(1) [OF inv] by (simp add: keys_ok_def)
  then have "erasure_inv (s\<lparr>ed_receipt_limits := r,
      ed_lifecycles := delete_where (\<lambda>l. al_id l = d \<and> al_subject_hmac l = h \<and> al_state l = Confirmation_Pending) (ed_lifecycles s)\<rparr>)" for r
    using pending_unconfirmed [OF inv]
    by (intro pending_inv [OF inv]) (auto simp: unique_by_def delete_where_def distinct_map_filter)
  then show ?thesis using inv by (simp add: cancel_deletion_def Let_def)
qed

lemma create_inv:
  assumes inv: "erasure_inv s" and i: "i \<notin> al_id ` set (ed_lifecycles s)"
  shows "erasure_inv (fst (create_deletion_request env i policy q s))"
proof -
  have u: "unique_by al_id (ed_lifecycles s)" using erasure_invD(1) [OF inv] by (simp add: keys_ok_def)
  have "erasure_inv (s\<lparr>ed_lifecycles := insert_row (pending_lifecycle i policy q c) (ed_lifecycles s), ed_reverifications := r\<rparr>)" for c r
    using pending_unconfirmed [OF inv] u i by (intro pending_inv [OF inv]) (auto simp: pending_lifecycle_def)
  then show ?thesis using inv by (simp add: create_deletion_request_def split: option.split sum.split)
qed

lemma recover_inv:
  assumes inv: "erasure_inv s"
  shows "erasure_inv (fst (recover_receipt env q s))"
proof -
  have u: "unique_by al_id (ed_lifecycles s)" using erasure_invD(1) [OF inv] by (simp add: keys_ok_def)
  have "erasure_inv ((save_lifecycle l' s)\<lparr>ed_reverifications := r\<rparr>)"
    if l: "l \<in> set (ed_lifecycles s)" "al_state l = Confirmation_Pending" "al_id l' = al_id l" "al_state l' = al_state l" "al_confirmed_at l' = al_confirmed_at l" for l l' r
  proof (rule pending_inv [OF inv])
    show "x \<in> set (ed_lifecycles ((save_lifecycle l' s)\<lparr>ed_reverifications := r\<rparr>)) \<longleftrightarrow> x \<in> set (ed_lifecycles s)" if "al_state x \<noteq> Confirmation_Pending" for x
      using unique_byD [OF u _ l(1)] l that by (auto simp: save_lifecycle_def set_save_row)
  qed (use u l pending_unconfirmed [OF inv] in \<open>auto simp: save_lifecycle_def set_save_row\<close>)
  then show ?thesis using inv by (auto simp: recover_receipt_def split: option.split sum.split dest!: row_where_SomeD)
qed

end
