(* ===== verification/DeletionMirror.thy ===== *)
theory DeletionMirror
  imports ErasureSafety JournalGuarantees RetentionSafety
begin

text \<open>
  The journal and the database of a confirmation (\<open>main.py\<close>, \<open>services/deletion_journal.py\<close>):
  the commitment is written outside of the database before the transaction commits, and
  \<open>verify_live_deletion_mirror\<close> compares the two.  A confirmation that is answered keeps them equal,
  one whose commit is lost makes them differ, and repeating it makes them equal again.
\<close>

subsection \<open>The comparison of journal and database\<close>

definition mirrors :: "erasure_db \<Rightarrow> commitment \<Rightarrow> bool" where
  "mirrors s c \<longleftrightarrow>
     (case (row_where (\<lambda>l. al_state l \<noteq> Confirmation_Pending \<and> lit (al_id l) = cm_deletion_id c) (ed_lifecycles s),
            row_where (\<lambda>d. lit (ad_deletion_id d) = cm_deletion_id c) (ed_denies s)) of
        (Some l, Some d) \<Rightarrow>
          al_subject_hmac l = cm_subject_hmac c \<and> al_policy_version l = cm_policy_version c \<and>
          al_confirmed_at l = Some (cm_committed_at c) \<and> al_concealed_at l = Some (cm_committed_at c) \<and>
          ad_subject_hmac d = cm_subject_hmac c \<and> ad_denied_at d = cm_committed_at c
      | _ \<Rightarrow> False)"

definition confirmed_ids :: "erasure_db \<Rightarrow> pystr set" where
  "confirmed_ids s = (lit \<circ> al_id) ` {l \<in> set (ed_lifecycles s). al_state l \<noteq> Confirmation_Pending}"

definition denied_ids :: "erasure_db \<Rightarrow> pystr set" where
  "denied_ids s = (lit \<circ> ad_deletion_id) ` set (ed_denies s)"

lemma find_filter: "find p (filter q t) = find (\<lambda>x. q x \<and> p x) t"
  by (induction t) auto

lemma mirror_iff:
  "verify_live_deletion_mirror j fs s = Inr n \<longleftrightarrow>
     (\<exists>cs. verify j fs = Inr cs \<and> cm_deletion_id ` set cs = confirmed_ids s \<and> cm_deletion_id ` set cs = denied_ids s \<and>
       (\<forall>c \<in> set cs. mirrors s c) \<and> n = length cs)"
proof -
  have "row_where p (rows_where q t) = row_where (\<lambda>x. q x \<and> p x) t" for p q and t :: "lifecycle_row list"
    by (simp add: row_where_def rows_where_def find_filter)
  then show ?thesis
    by (auto simp: verify_live_deletion_mirror_def Let_def mirrors_def confirmed_ids_def denied_ids_def list_all_iff)
qed

lemma pending_not_confirmed:
  assumes "erasure_inv s" "l \<in> set (ed_lifecycles s)" "al_state l = Confirmation_Pending"
  shows "lit (al_id l) \<notin> confirmed_ids s"
  using pending_empty(1) [OF assms] by (auto simp: confirmed_ids_def belongs_def)

text \<open>One more confirmed deletion, with its deny row.\<close>

lemma mirror_extends:
  assumes inv: "erasure_inv s" and l: "l \<in> set (ed_lifecycles s)" "al_state l = Confirmation_Pending" "al_id l' = al_id l" "al_state l' \<noteq> Confirmation_Pending"
    and rows: "ed_lifecycles s' = save_row al_id l' (ed_lifecycles s)" "ed_denies s' = insert_row d (ed_denies s)" "ad_deletion_id d = al_id l"
    and cs: "cm_deletion_id ` set cs = confirmed_ids s" "cm_deletion_id ` set cs = denied_ids s" "\<forall>c \<in> set cs. mirrors s c"
    and c: "cm_deletion_id c = lit (al_id l)" "al_subject_hmac l' = cm_subject_hmac c" "al_policy_version l' = cm_policy_version c"
      "al_confirmed_at l' = Some (cm_committed_at c)" "al_concealed_at l' = Some (cm_committed_at c)"
      "ad_subject_hmac d = cm_subject_hmac c" "ad_denied_at d = cm_committed_at c"
  shows "cm_deletion_id ` set (cs @ [c]) = confirmed_ids s' \<and> cm_deletion_id ` set (cs @ [c]) = denied_ids s' \<and> (\<forall>x \<in> set (cs @ [c]). mirrors s' x)"
proof -
  have u: "unique_by al_id (ed_lifecycles s)" using erasure_invD(1) [OF inv] by (simp add: keys_ok_def)
  have only: "x = l" if "x \<in> set (ed_lifecycles s)" "al_id x = al_id l" for x using unique_byD [OF u that(1) l(1) that(2)] .
  note new = pending_not_confirmed [OF inv l(1,2)]
  let ?p = "\<lambda>k x. al_state x \<noteq> Confirmation_Pending \<and> lit (al_id x) = k"
  have old: "mirrors s' x" if x: "x \<in> set cs" for x
  proof -
    have k: "cm_deletion_id x \<noteq> lit (al_id l)" using x cs(1) new by (metis imageI)
    have "row_where (?p (cm_deletion_id x)) (save_row al_id l' (ed_lifecycles s)) =
        map_option (\<lambda>y. if al_id y = al_id l' then l' else y) (row_where (?p (cm_deletion_id x)) (ed_lifecycles s))"
      using k l(3) by (intro row_where_save) auto
    moreover have "map_option (\<lambda>y. if al_id y = al_id l' then l' else y) (row_where (?p (cm_deletion_id x)) (ed_lifecycles s)) =
        row_where (?p (cm_deletion_id x)) (ed_lifecycles s)"
      using k l(3) by (cases "row_where (?p (cm_deletion_id x)) (ed_lifecycles s)") (auto dest: row_where_SomeD)
    ultimately have ls: "row_where (?p (cm_deletion_id x)) (ed_lifecycles s') = row_where (?p (cm_deletion_id x)) (ed_lifecycles s)"
      by (simp add: rows(1))
    have ds: "row_where (\<lambda>d. lit (ad_deletion_id d) = cm_deletion_id x) (ed_denies s') = row_where (\<lambda>d. lit (ad_deletion_id d) = cm_deletion_id x) (ed_denies s)"
      using k rows(3) by (simp add: rows(2) row_where_insert split: option.split)
    from cs(3) x have "mirrors s x" by blast
    then show ?thesis unfolding mirrors_def ls ds .
  qed
  have "row_where (?p (lit (al_id l))) (ed_lifecycles s') = Some l'"
    using u l by (intro row_where_unique [of al_id]) (auto simp: rows(1) set_save_row)
  moreover have "row_where (\<lambda>d. lit (ad_deletion_id d) = lit (al_id l)) (ed_denies s') = Some d"
  proof -
    have "lit (al_id l) \<notin> denied_ids s" using new cs(1,2) by simp
    then have "row_where (\<lambda>d. lit (ad_deletion_id d) = lit (al_id l)) (ed_denies s) = None" by (auto simp: row_where_None denied_ids_def image_iff)
    then show ?thesis by (simp add: rows(2,3) row_where_insert)
  qed
  ultimately have "mirrors s' c" using c by (simp add: mirrors_def)
  moreover have "confirmed_ids s' = insert (lit (al_id l)) (confirmed_ids s)"
  proof -
    have "x \<in> set (ed_lifecycles s') \<longleftrightarrow> x = l' \<or> x \<in> set (ed_lifecycles s) \<and> al_id x \<noteq> al_id l" for x
      using l(1,3) by (auto simp: rows(1) set_save_row)
    then have "{x \<in> set (ed_lifecycles s'). al_state x \<noteq> Confirmation_Pending} = insert l' {x \<in> set (ed_lifecycles s). al_state x \<noteq> Confirmation_Pending}"
      using l(2,4) only by blast
    then show ?thesis by (simp add: confirmed_ids_def l(3))
  qed
  moreover have "denied_ids s' = insert (lit (al_id l)) (denied_ids s)" by (simp add: denied_ids_def rows(2,3))
  ultimately show ?thesis using cs old c(1) by auto
qed

subsection \<open>Confirmations\<close>

text \<open>What a confirmation needs to get through: the keys, an unused step-up, a database that accepts the rows, and room in the journal.\<close>

definition ready_to_confirm :: "erasure_env \<Rightarrow> time \<Rightarrow> confirmation \<Rightarrow> journal \<Rightarrow> lifecycle_row \<Rightarrow> manifest_row \<Rightarrow> erasure_db \<Rightarrow> bool" where
  "ready_to_confirm env now cf j l current s \<longleftrightarrow>
     cf_reverification_hmac cf \<notin> set (ed_reverifications s) \<and> \<not> ee_refused env \<and>
     (\<exists>ct. encrypt_lifecycle_provider_subject (ee_crypto env) (ee_aead env) (ee_settings env) (cf_nonce_subject cf) (lit (al_id l)) (cf_subject cf) = Inr ct) \<and>
     (\<exists>ct. encrypt_lifecycle_provider_value (ee_crypto env) (ee_aead env) (ee_settings env) (cf_nonce_session cf) (lit (al_id l)) ''session'' (cf_session cf) = Inr ct) \<and>
     acceptable j (cf_nonce_journal cf) (deletion_request_of cf l current now)"

lemma confirm_appends:
  assumes conf: "confirmable cf s = Inr (l, active, current)" and ready: "ready_to_confirm env now cf j l current s"
    and app: "append_commitment j (cf_nonce_journal cf) (deletion_request_of cf l current now) fs = (fs', Inr c)"
  obtains a b where "confirm_deletion env new_id now cf planned j (s, fs) =
    ((admit_deletion cf (cm_committed_at c) (confirmed_lifecycle cf (cm_committed_at c) a b l) (store_inventory new_id now (al_id l) planned active s), fs'), 202)"
proof -
  obtain a b where
    "encrypt_lifecycle_provider_subject (ee_crypto env) (ee_aead env) (ee_settings env) (cf_nonce_subject cf) (lit (al_id l)) (cf_subject cf) = Inr a"
    "encrypt_lifecycle_provider_value (ee_crypto env) (ee_aead env) (ee_settings env) (cf_nonce_session cf) (lit (al_id l)) ''session'' (cf_session cf) = Inr b"
    using ready by (auto simp: ready_to_confirm_def)
  then show thesis using that [of a b] conf app ready by (simp add: confirm_deletion_def ready_to_confirm_def)
qed

lemma admit_rows:
  "ed_lifecycles (admit_deletion cf t l (store_inventory new_id now d planned active s)) = save_row al_id l (ed_lifecycles s)"
  "ed_denies (admit_deletion cf t l (store_inventory new_id now d planned active s)) =
     insert_row \<lparr>ad_subject_hmac = cf_subject_hmac cf, ad_deletion_id = al_id l, ad_denied_at = t\<rparr> (ed_denies s)"
  by (simp_all add: admit_deletion_def store_inventory_def save_lifecycle_def)

lemma confirm_mirrors:
  assumes inv: "erasure_inv s" and conf: "confirmable cf s = Inr (l, active, current)" and ready: "ready_to_confirm env now cf j l current s"
    and app: "append_commitment j (cf_nonce_journal cf) (deletion_request_of cf l current now) fs = (fs', Inr c)"
    and v: "verify j fs' = Inr (cs @ [c])"
    and cs: "cm_deletion_id ` set cs = confirmed_ids s" "cm_deletion_id ` set cs = denied_ids s" "\<forall>c \<in> set cs. mirrors s c"
    and c: "cm_deletion_id c = lit (al_id l)" "cm_subject_hmac c = al_subject_hmac l" "cm_policy_version c = al_policy_version l"
  obtains s' where "confirm_deletion env new_id now cf planned j (s, fs) = ((s', fs'), 202)"
    "verify_live_deletion_mirror j fs' s' = Inr (Suc (length cs))"
proof -
  note l = confirmableD [OF conf]
  obtain a b where cd: "confirm_deletion env new_id now cf planned j (s, fs) =
      ((admit_deletion cf (cm_committed_at c) (confirmed_lifecycle cf (cm_committed_at c) a b l) (store_inventory new_id now (al_id l) planned active s), fs'), 202)"
    by (rule confirm_appends [OF conf ready app])
  let ?l = "confirmed_lifecycle cf (cm_committed_at c) a b l"
  let ?s = "admit_deletion cf (cm_committed_at c) ?l (store_inventory new_id now (al_id l) planned active s)"
  have l': "al_id ?l = al_id l" "al_state ?l \<noteq> Confirmation_Pending" "al_subject_hmac ?l = al_subject_hmac l" "al_policy_version ?l = al_policy_version l"
    "al_confirmed_at ?l = Some (cm_committed_at c)" "al_concealed_at ?l = Some (cm_committed_at c)" by (simp_all add: confirmed_lifecycle_def)
  have "cm_deletion_id ` set (cs @ [c]) = confirmed_ids ?s \<and> cm_deletion_id ` set (cs @ [c]) = denied_ids ?s \<and> (\<forall>x \<in> set (cs @ [c]). mirrors ?s x)"
    by (rule mirror_extends [OF inv l(1,4) l'(1,2) admit_rows _ cs c(1)]) (use l' c l(3) in auto)
  then have "verify_live_deletion_mirror j fs' ?s = Inr (Suc (length cs))" using v unfolding mirror_iff by (metis length_append_singleton)
  with cd that show thesis by blast
qed

lemma confirm_dates:
  assumes "confirmable cf s = Inr (l, active, current)" "ready_to_confirm env now cf j l current s"
    "append_commitment j (cf_nonce_journal cf) (deletion_request_of cf l current now) fs = (fs', Inr c)"
    "confirm_deletion env new_id now cf planned j (s, fs) = ((s', fs''), status)"
  shows "\<exists>x \<in> set (ed_lifecycles s'). al_id x = al_id l \<and> al_confirmed_at x = Some (cm_committed_at c)"
proof -
  obtain a b where "confirm_deletion env new_id now cf planned j (s, fs) =
      ((admit_deletion cf (cm_committed_at c) (confirmed_lifecycle cf (cm_committed_at c) a b l) (store_inventory new_id now (al_id l) planned active s), fs'), 202)"
    by (rule confirm_appends [OF assms(1-3)])
  with assms(4) have "ed_lifecycles s' = save_row al_id (confirmed_lifecycle cf (cm_committed_at c) a b l) (ed_lifecycles s)"
    by (auto simp: admit_rows)
  then show ?thesis using confirmableD(1) [OF assms(1)]
    by (intro bexI [of _ "confirmed_lifecycle cf (cm_committed_at c) a b l"]) (auto simp: set_save_row confirmed_lifecycle_def)
qed


subsection \<open>A sample deletion\<close>

definition empty_erasure :: erasure_db where
  "empty_erasure = \<lparr>ed_ledger = empty_db, ed_items = [], ed_lifecycles = [], ed_denies = [], ed_manifests = [], ed_current_generation = [],
     ed_obligations = [], ed_proofs = [], ed_reservations = [], ed_terminals = [], ed_receipt_limits = [], ed_reverifications = [],
     ed_tasks = [], ed_taxonomy = [], ed_exact_search = [], ed_api_keys = [], ed_proposals = [], ed_contact_policies = [],
     ed_organizations = [], ed_identity_handles = [], ed_job_slugs = [], ed_post_files = []\<rparr>"

definition sample_erasure_env :: erasure_env where
  "sample_erasure_env = \<lparr>ee_files = sample_env, ee_crypto = sample_crypto, ee_aead = sample_aead, ee_settings = sample_lifecycle,
     ee_casefold = id, ee_search = Raises, ee_provider = Raises, ee_journal = None, ee_refused = False, ee_residue = (\<lambda>s x. None)\<rparr>"

definition sample_new_id :: "nat \<Rightarrow> string" where
  "sample_new_id n = replicate (Suc n) CHR ''x''"

definition sample_manifest :: manifest_row where
  "sample_manifest = \<lparr>bm_id = ''b1'', bm_generation_id = ''g1'', bm_created_at = 0, bm_expires_at = 9, bm_state = Manifest_Active,
     bm_db_digest = replicate 64 CHR ''a'', bm_markdown_digest = replicate 64 CHR ''b'', bm_expired_proof = None, bm_expired_at = None,
     bm_destroyed_proof = None, bm_destroyed_at = None\<rparr>"

definition sample_ask :: deletion_ask where
  "sample_ask = \<lparr>da_subject_hmac = hexdigest (replicate 32 9), da_key_hmac = lit ''k'', da_reverification_hmac = lit ''v1'',
     da_receipt = lit ''r'', da_receipt_hmac = lit ''h'', da_nonce = replicate 12 7\<rparr>"

definition sample_registered :: erasure_db where
  "sample_registered = fst (register_backup_generation sample_new_id 0 sample_manifest empty_erasure)"

definition sample_pending :: erasure_db where
  "sample_pending = fst (create_deletion_request sample_erasure_env ''d1'' (lit ''p1'') sample_ask sample_registered)"

definition sample_confirmation :: "pystr \<Rightarrow> confirmation" where
  "sample_confirmation v = \<lparr>cf_deletion_id = ''d1'', cf_subject = lit ''u'', cf_session = lit ''s'', cf_subject_hmac = hexdigest (replicate 32 9),
     cf_confirmation_hmac = lit ''c'', cf_reverification_hmac = v, cf_replay_status = 202, cf_nonce_subject = replicate 12 7,
     cf_nonce_session = replicate 12 7, cf_nonce_journal = replicate 12 7\<rparr>"

definition sample_receipt_ct :: pystr where
  "sample_receipt_ct = (case new_receipt sample_erasure_env sample_ask ''d1'' of Inl _ \<Rightarrow> [] | Inr c \<Rightarrow> c)"

definition sample_pending_row :: lifecycle_row where
  "sample_pending_row = pending_lifecycle ''d1'' (lit ''p1'') sample_ask sample_receipt_ct"

lemma sample_fresh: "fresh_ids sample_new_id empty_erasure" "bm_id sample_manifest \<notin> bm_id ` set (ed_manifests empty_erasure)"
  by (auto simp: fresh_ids_def empty_erasure_def sample_new_id_def inj_def simp del: replicate_Suc)

lemma sample_registered_rows:
  "ed_lifecycles sample_registered = []" "ed_manifests sample_registered = [sample_manifest]" "ed_denies sample_registered = []"
  "ed_reverifications sample_registered = []" "ed_items sample_registered = []" "ed_current_generation sample_registered = ''g1''"
  "backup_authority (ed_ledger sample_registered) = [account_backup_authority_id]"
proof -
  have "backup_digest_ok (bm_db_digest sample_manifest)" "backup_digest_ok (bm_markdown_digest sample_manifest)" "generation_id_ok (bm_generation_id sample_manifest)"
    by code_simp+
  moreover have "new_manifest sample_manifest = sample_manifest" by (simp add: new_manifest_def sample_manifest_def)
  ultimately show "ed_lifecycles sample_registered = []" "ed_manifests sample_registered = [sample_manifest]" "ed_denies sample_registered = []"
    "ed_reverifications sample_registered = []" "ed_items sample_registered = []" "ed_current_generation sample_registered = ''g1''"
    "backup_authority (ed_ledger sample_registered) = [account_backup_authority_id]"
    by (simp_all add: sample_registered_def register_backup_generation_def attach_generation_def open_lifecycles_def empty_erasure_def empty_db_def
        row_where_def rows_where_def insert_row_def enumerate_eq_zip) (simp_all add: sample_manifest_def)
qed

lemma sample_receipt: "new_receipt sample_erasure_env sample_ask ''d1'' = Inr sample_receipt_ct"
  by code_simp

lemma sample_pending_rows:
  "ed_lifecycles sample_registered = []" "ed_lifecycles sample_pending = [sample_pending_row]" "ed_manifests sample_pending = [sample_manifest]"
  "ed_denies sample_pending = []" "ed_reverifications sample_pending = [lit ''v1'']" "ed_items sample_pending = []"
  "ed_current_generation sample_pending = ''g1''" "backup_authority (ed_ledger sample_pending) = [account_backup_authority_id]"
proof -
  have "\<not> ee_refused sample_erasure_env" "da_reverification_hmac sample_ask = lit ''v1''" by (simp_all add: sample_erasure_env_def sample_ask_def)
  then show "ed_lifecycles sample_registered = []" "ed_lifecycles sample_pending = [sample_pending_row]" "ed_manifests sample_pending = [sample_manifest]"
    "ed_denies sample_pending = []" "ed_reverifications sample_pending = [lit ''v1'']" "ed_items sample_pending = []"
    "ed_current_generation sample_pending = ''g1''" "backup_authority (ed_ledger sample_pending) = [account_backup_authority_id]"
    by (simp_all add: sample_pending_def create_deletion_request_def sample_registered_rows sample_receipt row_where_def insert_row_def sample_pending_row_def)
qed

lemma sample_pending_row_fields:
  "al_id sample_pending_row = ''d1''" "al_subject_hmac sample_pending_row = hexdigest (replicate 32 9)"
  "al_state sample_pending_row = Confirmation_Pending" "al_confirmation_hmac sample_pending_row = None"
  "al_policy_version sample_pending_row = lit ''p1''"
  by (simp_all add: sample_pending_row_def pending_lifecycle_def sample_ask_def)

lemma empty_erasure_inv: "erasure_inv empty_erasure"
  by (simp add: empty_erasure_def erasure_inv_def keys_ok_def unique_by_def)

lemma sample_pending_inv: "erasure_inv sample_pending"
  unfolding sample_pending_def
proof (rule create_inv)
  show "erasure_inv sample_registered" unfolding sample_registered_def by (rule register_inv [OF empty_erasure_inv sample_fresh])
qed (simp add: sample_pending_rows)

lemma sample_confirmable: "confirmable (sample_confirmation v) sample_pending = Inr (sample_pending_row, [sample_manifest], sample_manifest)"
  by (simp add: confirmable_def Let_def sample_pending_rows sample_pending_row_fields sample_confirmation_def row_where_def rows_where_def
      sample_manifest_def)

lemma sample_ready:
  assumes "v \<noteq> lit ''v1''"
  shows "ready_to_confirm sample_erasure_env 0 (sample_confirmation v) sample_journal sample_pending_row sample_manifest sample_pending"
proof -
  note row = sample_pending_row_fields
  have rq: "deletion_request_of (sample_confirmation v) sample_pending_row sample_manifest 0 = sample_deletion"
    by (simp add: deletion_request_of_def sample_confirmation_def sample_manifest_def sample_deletion_def row)
  have enc: "case encrypt_lifecycle_provider_subject sample_crypto sample_aead sample_lifecycle (replicate 12 7) (lit ''d1'') (lit ''u'') of Inl e \<Rightarrow> False | Inr c \<Rightarrow> True"
    "case encrypt_lifecycle_provider_value sample_crypto sample_aead sample_lifecycle (replicate 12 7) (lit ''d1'') ''session'' (lit ''s'') of Inl e \<Rightarrow> False | Inr c \<Rightarrow> True"
    by code_simp+
  show ?thesis using assms enc sample_acceptable
    by (auto simp: ready_to_confirm_def rq [unfolded sample_confirmation_def] row sample_pending_rows sample_erasure_env_def sample_confirmation_def
        split: sum.splits)
qed


end
