(* ===== verification/ErasureGuarantees.thy ===== *)
theory ErasureGuarantees
  imports DeletionMirror
begin

text \<open>
  The guarantees of account erasure, over every interleaving of transactions: workers, requests,
  confirmations, backup generations, and anything else that changes the ledger or the files.
\<close>

subsection \<open>The transactions as a step relation\<close>

text \<open>
  \<open>other\<close> stands for the rest of the system: it may do anything to the ledger, the projection tasks
  and the files, but it writes no table of erasure, and nothing deletes a reserved name.
\<close>

inductive erasure_step :: "erasure_world \<Rightarrow> erasure_world \<Rightarrow> bool" where
  requeue: "erasure_step (s, t) (requeue_released now s, t)"
| claim: "erasure_step (s, t) (fst (claim_item ex now token s), t)"
| attempt: "attempt_item env now cl (s, t) = (t', Inr (s', b)) \<Longrightarrow> erasure_step (s, t) (s', t')"
| abort: "attempt_item env now cl (s, t) = (t', Inl f) \<Longrightarrow> erasure_step (s, t) (s, t')"
| record_failure: "erasure_step (s, t) (fst (fail_item ex now cl f s), t)"
| prepare: "network_prepare env now cl s = Inr (s', p) \<Longrightarrow> erasure_step (s, t) (s', t)"
| settle: "issued cl s \<Longrightarrow> network_settle env now cl r s = Inr (s', p) \<Longrightarrow> erasure_step (s, t) (s', t)"
| reconciliation: "erasure_step (s, t) (reconcile env now d s, t)"
| registration: "fresh_ids new_id s \<Longrightarrow> bm_id m \<notin> bm_id ` set (ed_manifests s) \<Longrightarrow>
    erasure_step (s, t) (fst (register_backup_generation new_id now m s), t)"
| retirement: "erasure_step (s, t) (fst (transition_backup_generation now expire g proof_digest s), t)"
| request: "i \<notin> al_id ` set (ed_lifecycles s) \<Longrightarrow> erasure_step (s, t) (fst (create_deletion_request env i policy q s), t)"
| recovery: "erasure_step (s, t) (fst (recover_receipt env q s), t)"
| cancellation: "erasure_step (s, t) (fst (cancel_deletion d h s), t)"
| confirmation: "planned_ok new_id (cf_deletion_id cf) planned s \<Longrightarrow>
    confirm_deletion env new_id now cf planned j (s, fs) = ((s', fs'), status) \<Longrightarrow> erasure_step (s, t) (s', t)"
| other: "same_core s s' \<Longrightarrow> set (ed_reservations s) \<subseteq> set (ed_reservations s') \<Longrightarrow> erasure_step (s, t) (s', t')"

text \<open>A database in which nobody has asked for a deletion and no backup generation is registered.\<close>

definition erasure_init :: "erasure_db \<Rightarrow> bool" where
  "erasure_init s \<longleftrightarrow> ed_items s = [] \<and> ed_lifecycles s = [] \<and> ed_manifests s = [] \<and> ed_obligations s = []"

lemma init_inv: "erasure_init s \<Longrightarrow> erasure_inv s"
  by (simp add: erasure_init_def erasure_inv_def keys_ok_def unique_by_def)

lemma step_inv: "erasure_step w w' \<Longrightarrow> erasure_inv (fst w) \<Longrightarrow> erasure_inv (fst w')"
proof (induction rule: erasure_step.induct)
  case (attempt env now cl s t t' s' b)
  then show ?case using attempt_item_inv by simp
next
  case (prepare env now cl s s' p t)
  then show ?case using network_prepare_inv by simp
next
  case (settle cl s env now r s' p t)
  then show ?case using network_settle_inv by simp
next
  case (confirmation new_id cf planned s env now j fs s' fs' status t)
  then show ?case using confirm_inv by simp
next
  case (other s s' t t')
  then show ?case using inv_core by simp
qed (simp_all add: requeue_released_inv claim_item_inv fail_item_inv reconcile_inv register_inv transition_inv create_inv recover_inv cancel_inv)

lemma steps_inv: "erasure_step\<^sup>*\<^sup>* w w' \<Longrightarrow> erasure_inv (fst w) \<Longrightarrow> erasure_inv (fst w')"
  by (induction rule: rtranclp_induct) (simp_all add: step_inv)

lemma reachable_inv: "erasure_inv s0 \<Longrightarrow> erasure_step\<^sup>*\<^sup>* (s0, t0) (s, t) \<Longrightarrow> erasure_inv s"
  using steps_inv [of "(s0, t0)" "(s, t)"] by simp

subsection \<open>A run of the worker is a sequence of transactions\<close>

lemma claim_loop_issued:
  assumes rows: "set rows \<subseteq> set (ed_items s)"
    and c: "claim_loop ex now token s rows = (s', Some cl, None)"
  shows "issued cl s'"
  using rows c
proof (induction rows)
  case (Cons i rest)
  then have i: "i \<in> set (ed_items s)" by simp
  then have "lease_item ex now token i \<in> set (ed_items (save_item (lease_item ex now token i) s))"
    by (auto simp: save_item_def set_save_row lease_item_def)
  then have "issued \<lparr>ec_id = ei_id i, ec_deletion_id = ei_deletion_id i, ec_resource_type = ei_resource_type i,
      ec_resource_id = ei_resource_id i, ec_phase = ei_phase i, ec_claim_token = token, ec_attempts = ei_attempts i + 1\<rparr>
      (save_item (lease_item ex now token i) s)"
    unfolding issued_def by (rule bexI [rotated]) (simp add: lease_item_def)
  with Cons show ?case by (auto split: option.splits if_splits)
qed simp

lemma claim_issued: "claim_item ex now token s = (s', Some cl, None) \<Longrightarrow> issued cl s'"
  unfolding claim_item_def by (rule claim_loop_issued [rotated]) (auto simp: claim_rows_def dest: in_set_takeD)

lemmas step_rtrancl = r_into_rtranclp [of erasure_step]

lemma fail_claim_steps: "fail_claim ex env now cl f s = (s', r) \<Longrightarrow> erasure_step\<^sup>*\<^sup>* (s, t) (s', t)"
proof -
  assume c: "fail_claim ex env now cl f s = (s', r)"
  have 1: "erasure_step\<^sup>*\<^sup>* (s, t) (fst (fail_item ex now cl f s), t)" by (rule step_rtrancl, rule record_failure)
  have 2: "erasure_step\<^sup>*\<^sup>* (fst (fail_item ex now cl f s), t) (reconcile env now (ec_deletion_id cl) (fst (fail_item ex now cl f s)), t)"
    by (rule step_rtrancl, rule reconciliation)
  show ?thesis using c 1 rtranclp_trans [OF 1 2] by (auto simp: fail_claim_def split: prod.splits if_splits)
qed

lemma reconcile_after: "erasure_step\<^sup>*\<^sup>* w (s, t) \<Longrightarrow> erasure_step\<^sup>*\<^sup>* w (reconcile env now d s, t)"
  using rtranclp.rtrancl_into_rtrancl reconciliation by metis

lemma process_local_steps: "process_local ex env now cl (s, t) = ((s', t'), r) \<Longrightarrow> erasure_step\<^sup>*\<^sup>* (s, t) (s', t')"
proof -
  assume p: "process_local ex env now cl (s, t) = ((s', t'), r)"
  obtain t1 q where a: "attempt_item env now cl (s, t) = (t1, q)" by fastforce
  show ?thesis
  proof (cases q)
    case (Inl f)
    then have 1: "erasure_step\<^sup>*\<^sup>* (s, t) (s, t1)" using abort a by (intro step_rtrancl) blast
    from p obtain r' where "fail_claim ex env now cl f s = (s', r')" "t' = t1" by (auto simp: process_local_def a Inl split: prod.splits)
    with rtranclp_trans [OF 1 fail_claim_steps] show ?thesis by blast
  next
    case (Inr y)
    obtain s1 b where y: "y = (s1, b)" by (cases y)
    then have 1: "erasure_step\<^sup>*\<^sup>* (s, t) (s1, t1)" using attempt a Inr by (intro step_rtrancl) blast
    from p 1 reconcile_after [OF 1] show ?thesis by (auto simp: process_local_def a Inr y split: bool.splits)
  qed
qed

lemma network_ready: "network_prepare env now cl s = Inr (s', Ready) \<Longrightarrow> s' = s"
  by (auto simp: network_prepare_def split: if_splits option.splits)

lemma network_lost: "network_settle env now cl r s = Inr (s', Claim_Lost) \<Longrightarrow> s' = s"
  by (auto simp: network_settle_def split: if_splits option.splits)

lemma process_network_steps:
  assumes "issued cl s" and p: "process_network ex env env' now cl s = (s', r)"
  shows "erasure_step\<^sup>*\<^sup>* (s, t) (s', t)"
proof (cases "network_prepare env now cl s")
  case (Inl f)
  then show ?thesis using p fail_claim_steps by (auto simp: process_network_def)
next
  case (Inr y)
  obtain s1 q where y: "network_prepare env now cl s = Inr (s1, q)" using Inr by (cases y) auto
  have 1: "erasure_step\<^sup>*\<^sup>* (s, t) (s1, t)" using prepare [OF y] by (rule step_rtrancl)
  have 2: "erasure_step\<^sup>*\<^sup>* (s, t) (s2, t)" if "network_settle env' now cl c s1 = Inr (s2, q')" "q = Ready" for c s2 q'
  proof -
    have "s1 = s" using network_ready y that(2) by blast
    then show ?thesis using settle [OF assms(1)] that(1) by (intro step_rtrancl) blast
  qed
  show ?thesis
  proof (cases q)
    case Ready
    show ?thesis
    proof (cases "network_call env cl")
      case (Inl f)
      then show ?thesis using p rtranclp_trans [OF 1 fail_claim_steps] by (auto simp: process_network_def y Ready)
    next
      case (Inr c)
      show ?thesis
      proof (cases "network_settle env' now cl c s1")
        case (Inl f)
        then show ?thesis using p rtranclp_trans [OF 1 fail_claim_steps] Inr by (auto simp: process_network_def y Ready)
      next
        case (Inr z)
        then obtain s2 q' where z: "network_settle env' now cl c s1 = Inr (s2, q')" by (cases z) auto
        show ?thesis using p 2 [OF z Ready] reconcile_after [OF 2 [OF z Ready]] \<open>network_call env cl = Inr c\<close>
          by (auto simp: process_network_def y Ready z split: prepared.splits)
      qed
    qed
  qed (use p 1 reconcile_after [OF 1] in \<open>auto simp: process_network_def y\<close>)
qed

lemma process_item_steps:
  assumes "issued cl s" "process_item ex env env' now cl (s, t) = (w', r)"
  shows "erasure_step\<^sup>*\<^sup>* (s, t) w'"
  using assms process_network_steps [OF assms(1)] process_local_steps
  by (cases w') (auto simp: process_item_def split: if_splits prod.splits)

lemma erasure_turns_steps: "erasure_turns ex envs tokens now n (s, t) r = (w', r') \<Longrightarrow> erasure_step\<^sup>*\<^sup>* (s, t) w'"
proof (induction n arbitrary: s t r)
  case (Suc n)
  obtain s1 cl held where c: "claim_item ex now (tokens n) s = (s1, cl, held)" by (metis prod_cases3)
  then have 1: "erasure_step\<^sup>*\<^sup>* (s, t) (s1, t)" using claim [of s t ex now "tokens n"] by (intro step_rtrancl) simp
  show ?case
  proof (cases held)
    case (Some i)
    then have "erasure_turns ex envs tokens now n (reconcile (envs n) now (ei_deletion_id i) s1, t) (r\<lparr>er_held := er_held r + 1\<rparr>) = (w', r')"
      using Suc.prems c by (simp split: option.splits)
    from rtranclp_trans [OF reconcile_after [OF 1] Suc.IH [OF this]] show ?thesis .
  next
    case None
    show ?thesis
    proof (cases cl)
      case (Some k)
      obtain s2 t2 q where q: "process_item ex (envs n) (envs n) now k (s1, t) = ((s2, t2), q)" by (metis prod.collapse)
      have "erasure_step\<^sup>*\<^sup>* (s, t) (s2, t2)"
        using rtranclp_trans [OF 1 process_item_steps [OF claim_issued q]] c Some None by simp
      moreover have "erasure_turns ex envs tokens now n (s2, t2) (erasure_tally q r) = (w', r')" using Suc.prems c Some None q by simp
      ultimately show ?thesis using rtranclp_trans Suc.IH by metis
    qed (use Suc.prems c None 1 in auto)
  qed
qed simp

lemma reconcile_all_steps: "erasure_step\<^sup>*\<^sup>* (s, t) (reconcile_all env now s, t)"
proof -
  have "erasure_step\<^sup>*\<^sup>* (s, t) (fold (reconcile env now) ds s, t)" for ds
    by (induction ds rule: rev_induct) (simp_all add: reconcile_after)
  then show ?thesis by (simp add: reconcile_all_def)
qed


subsection \<open>Erasure in order\<close>

text \<open>
  The order of the work on one deletion, as a specification: the provider's sessions are revoked
  before anything else; files and search entries of a row go before the row, child rows before
  their parents; the final check comes after all of that, the provider's account after the check,
  and the identifiers that are kept encrypted for the provider last.
\<close>

definition before :: "account_item \<Rightarrow> account_item \<Rightarrow> bool" where
  "before x i \<longleftrightarrow> ei_deletion_id x = ei_deletion_id i \<and> ei_phase i \<noteq> Backup \<and> ei_resource_type i \<noteq> provider_session_t \<and>
     (ei_phase x = Provider \<and> ei_resource_type x = provider_session_t \<or>
      ei_phase i = Postcheck \<and> ei_phase x \<notin> {Postcheck, Provider, Backup} \<and> ei_resource_type x \<noteq> provider_ciphertext_t \<or>
      ei_phase i = Provider \<and> ei_phase x = Postcheck \<or>
      ei_phase i \<notin> {Postcheck, Provider} \<and> ei_resource_type i = provider_ciphertext_t \<and> ei_phase x = Provider \<and> ei_resource_type x = provider_user_t \<or>
      ei_phase i = Delete_Row \<and> ei_resource_type i \<noteq> provider_ciphertext_t \<and>
        ((ei_resource_type x, ei_resource_id x) = (ei_resource_type i, ei_resource_id i) \<and>
           (ei_phase x = Delete_File \<and> ei_resource_type i \<in> {Document_Version_T, Post_Version_T, Verification_Evidence_T, Application_T} \<or>
            ei_phase x = Unindex \<and> ei_resource_type i \<in> {Document_T, Post_T}) \<or>
         ei_resource_type x \<in> set (child_types (ei_resource_type i))))"

lemma prerequisites_before:
  assumes c: "prerequisites_complete s i" and x: "x \<in> set (ed_items s)" and b: "before x i"
  shows "ei_state x = E_Completed"
proof -
  have all: "ei_state x = E_Completed" if "\<not> incomplete_items s (ei_deletion_id i) p" "p x" for p
    using that x b by (auto simp: incomplete_items_def before_def)
  have i: "ei_phase i \<noteq> Backup" "ei_resource_type i \<noteq> provider_session_t" using b by (simp_all add: before_def)
  consider "ei_phase i = Postcheck" | "ei_phase i = Provider"
    | "ei_phase i \<notin> {Backup, Postcheck, Provider}" "ei_resource_type i = provider_ciphertext_t"
    | "ei_phase i \<notin> {Backup, Postcheck, Provider}" "ei_resource_type i \<notin> {provider_ciphertext_t, provider_session_t}" using i by blast
  then show ?thesis
  proof cases
    case 1
    from c [unfolded prerequisites_cases(3) [OF 1 i(2)]] show ?thesis using b 1 all by (auto simp: before_def)
  next
    case 2
    from c [unfolded prerequisites_cases(4) [OF 2 i(2)]] show ?thesis using b 2 all by (auto simp: before_def)
  next
    case 3
    from c [unfolded prerequisites_cases(5) [OF 3]] show ?thesis using b 3 all by (auto simp: before_def)
  next
    case 4
    show ?thesis using b 4 all c [unfolded prerequisites_cases(6) [OF 4]] by (auto simp: before_def)
  qed
qed



subsection \<open>Held resources\<close>

lemma erasure_hold_covers:
  assumes "h \<in> set (retention_holds (ed_ledger s))" "hold_released_at h = None" "hold_covers_item s h i"
  shows "erasure_hold s i \<noteq> None"
proof (cases "(hold_resource_type h, hold_resource_id h) = (ei_resource_type i, ei_resource_id i)")
  case True
  then show ?thesis using assms(1,2) by (auto simp: erasure_hold_def Let_def row_where_None split: option.split)
next
  case False
  then show ?thesis using assms by (auto simp: erasure_hold_def hold_covers_item_def Let_def split: option.split intro!: row_where_ex)
qed

text \<open>What reconciliation and bookkeeping leave alone: the ledger, the reservations, the proofs and the projection tasks.\<close>

definition same_content :: "erasure_db \<Rightarrow> erasure_db \<Rightarrow> bool" where
  "same_content s s' \<longleftrightarrow> ed_ledger s' = ed_ledger s \<and> ed_reservations s' = ed_reservations s \<and> ed_proofs s' = ed_proofs s \<and>
     ed_tasks s' = ed_tasks s"

lemma same_content_refl [simp]: "same_content s s"
  by (simp add: same_content_def)

lemma same_content_save [simp]: "same_content s (save_item i s)" "same_content s (save_lifecycle l s)"
  by (simp_all add: same_content_def save_item_def save_lifecycle_def)

lemma same_content_trans: "same_content s s' \<Longrightarrow> same_content s' s'' \<Longrightarrow> same_content s s''"
  by (simp add: same_content_def)

lemma same_content_reconcile: "same_content s (reconcile env now d s)"
proof -
  have scrub: "same_content s (scrub_markers env now l s)" for l
    by (auto simp: scrub_markers_def same_content_def save_lifecycle_def split: option.split sum.split)
  have "same_content s (finish_lifecycle env now l s)" for l
    by (simp add: finish_lifecycle_def Let_def same_content_def save_lifecycle_def)
  then have "same_content s (reconcile_live env now l s)" for l by (simp add: reconcile_live_def Let_def)
  with scrub show ?thesis by (simp add: reconcile_def Let_def split: option.split)
qed

lemma same_content_fail: "same_content s (fst (fail_claim ex env now cl f s))"
proof -
  have "same_content s (fst (fail_item ex now cl f s))" by (simp add: fail_item_def Let_def split: option.split)
  then show ?thesis using same_content_reconcile same_content_trans by (fastforce simp: fail_claim_def split: prod.split)
qed

lemma held_attempt:
  assumes "leased_item cl s = Some i" "erasure_hold s i = Some h"
  shows "\<exists>r. attempt_item env now cl (s, t) = (t, r) \<and> (case r of Inl f \<Rightarrow> True | Inr (s', b) \<Rightarrow> same_content s s' \<and> \<not> b)"
  using assms by (auto simp: attempt_item_def)

lemma held_prepare:
  assumes "leased_item cl s = Some i" "erasure_hold s i = Some h" "ei_phase i \<noteq> Unindex"
  shows "case network_prepare env now cl s of Inl f \<Rightarrow> True | Inr (s', p) \<Rightarrow> same_content s s' \<and> p = Now_Held"
  using assms by (auto simp: network_prepare_def)


subsection \<open>Reserved names\<close>

text \<open>Nothing of the erasure removes a reservation.\<close>

abbreviation reservations_kept :: "erasure_db \<Rightarrow> erasure_db \<Rightarrow> bool" where
  "reservations_kept s s' \<equiv> set (ed_reservations s) \<subseteq> set (ed_reservations s')"

lemma reserve_kept: "reserve_identifier env now i s = Inr s' \<Longrightarrow> reservations_kept s s'"
  by (auto simp: reserve_identifier_def split: option.splits if_splits)

lemma drop_reservations:
  "ed_reservations (drop_row rt k s) = ed_reservations s" "ed_reservations (conceal_document k s) = ed_reservations s"
  "ed_reservations (rearm_projection now d s) = ed_reservations s"
  by (cases rt) (simp_all add: drop_row_def Let_def conceal_document_def rearm_projection_def split: option.split)

lemma erase_row_reservations:
  assumes "erase_row env now i s = Inr s'" "ei_resource_type i \<noteq> contact_policy_t" "row_present s (ei_resource_type i) (ei_resource_id i)"
  shows "\<exists>s1. reserve_identifier env now i s = Inr s1 \<and> ed_reservations s' = ed_reservations s1"
proof -
  obtain s1 where s1: "reserve_identifier env now i s = Inr s1"
    "s' = drop_row (ei_resource_type i) (ei_resource_id i)
       (case (ei_resource_type i, get_row doc_id (ei_resource_id i) (documents (ed_ledger s))) of
          (Document_T, Some doc) \<Rightarrow> conceal_document (ei_resource_id i) (rearm_projection now doc s1) | _ \<Rightarrow> s1)"
    using assms unfolding erase_row_def Let_def by (auto split: if_splits)
  have "ed_reservations (case (rt, doc) of (Document_T, Some doc) \<Rightarrow> conceal_document k (rearm_projection now doc s1) | _ \<Rightarrow> s1) = ed_reservations s1"
    for rt doc k by (cases rt; cases doc) (simp_all add: drop_reservations)
  with s1 show ?thesis by (simp only: drop_reservations) blast
qed

lemma execute_reservations: "execute env now i (s, t) = (t', Inr (s', code)) \<Longrightarrow> reservations_kept s s'"
proof -
  have row: "reservations_kept s x" if "erase_row env now i s = Inr x" for x
  proof (cases "ei_resource_type i = contact_policy_t \<or> \<not> row_present s (ei_resource_type i) (ei_resource_id i)")
    case True
    then show ?thesis using that by (auto simp: erase_row_def Let_def split: if_splits)
  next
    case False
    then show ?thesis using erase_row_reservations [OF that] reserve_kept by fastforce
  qed
  have ct: "ed_reservations x = ed_reservations s" if "erase_ciphertexts d s = Inr x" for d x
    using that by (auto simp: erase_ciphertexts_def save_lifecycle_def split: option.splits if_splits)
  have bk: "ed_reservations x = ed_reservations s" if "verify_backup env now i s = Inr x" for x
    using that by (auto simp: verify_backup_def split: option.splits if_splits)
  have fl: "ed_reservations x = ed_reservations s" if "erase_file env now i (s, t) = (t', Inr x)" for x
    using that by (auto simp: erase_file_def add_file_proof_def split: option.splits sum.splits prod.splits if_splits)
  assume "execute env now i (s, t) = (t', Inr (s', code))"
  then show ?thesis by (auto simp: execute_def split: if_splits prod.splits dest: row ct bk fl)
qed

lemma attempt_reservations:
  assumes "attempt_item env now cl (s, t) = (t', Inr (s', b))"
  shows "reservations_kept s s'"
  using assms execute_reservations [of env now _ s t]
  by (fastforce simp: attempt_item_def save_item_def split: if_splits option.splits prod.splits sum.splits)

lemma claim_reservations: "ed_reservations (fst (claim_loop ex now token s rows)) = ed_reservations s"
  by (induction rows) (auto simp: save_item_def split: option.split)

lemma step_reservations: "erasure_step w w' \<Longrightarrow> reservations_kept (fst w) (fst w')"
proof (induction rule: erasure_step.induct)
  case (attempt env now cl s t t' s' b)
  then show ?case using attempt_reservations by simp
next
  case (settle cl s env now r s' p t)
  then show ?case
    by (auto simp: network_settle_def provider_result_def save_item_def save_lifecycle_def split: if_splits option.splits provider_outcome.splits)
next
  case (prepare env now cl s s' p t)
  then show ?case by (auto simp: network_prepare_def save_item_def split: if_splits option.splits)
next
  case (reconciliation s t env now d)
  then show ?case using same_content_reconcile by (simp add: same_content_def)
next
  case (confirmation new_id cf planned s env now j fs s' fs' status t)
  from confirmation(2) show ?case
    by (cases rule: confirm_cases) (auto simp: admit_deletion_def store_inventory_def save_lifecycle_def)
qed (auto simp: requeue_released_def claim_item_def claim_reservations fail_item_def Let_def save_item_def register_backup_generation_def
  attach_generation_def transition_backup_generation_def create_deletion_request_def recover_receipt_def save_lifecycle_def cancel_deletion_def
  split: option.split sum.split)

lemma steps_reservations: "erasure_step\<^sup>*\<^sup>* w w' \<Longrightarrow> reservations_kept (fst w) (fst w')"
  by (induction rule: rtranclp_induct) (use step_reservations in fastforce)+

lemma reserve_reserves:
  assumes "reserve_identifier env now i s = Inr s1" "reserved_name s (ei_resource_type i) (ei_resource_id i) = Some (namespace, name)"
  obtains digest where "identifier_reservation_hmac env namespace name = Inr digest"
    "exists_where (\<lambda>r. rs_namespace r = namespace \<and> rs_identifier_hmac r = digest) (ed_reservations s1)"
proof -
  obtain digest where d: "identifier_reservation_hmac env namespace name = Inr digest"
    using assms by (cases "identifier_reservation_hmac env namespace name") (auto simp: reserve_identifier_def)
  have "exists_where (\<lambda>r. rs_namespace r = namespace \<and> rs_identifier_hmac r = digest) (ed_reservations s1)"
    using assms d by (cases "exists_where (\<lambda>r. rs_namespace r = namespace \<and> rs_identifier_hmac r = digest) (ed_reservations s)")
      (auto simp: reserve_identifier_def split: if_splits)
  with d that show thesis by blast
qed


subsection \<open>The current backup generation\<close>

text \<open>
  The current generation cannot be retired, and a generation that replaces it is attached to every
  open erasure.
\<close>

definition current_active :: "erasure_db \<Rightarrow> bool" where
  "current_active s \<longleftrightarrow> (\<exists>m \<in> set (ed_manifests s). bm_generation_id m = ed_current_generation s \<and> bm_state m = Manifest_Active)"

definition unfinished :: "erasure_db \<Rightarrow> bool" where
  "unfinished s \<longleftrightarrow> (\<forall>l \<in> set (ed_lifecycles s). al_state l \<noteq> Fully_Erased \<and> (al_state l \<noteq> Confirmation_Pending \<longrightarrow> current_active s))"

lemma unfinished_same:
  assumes u: "unfinished s" and same: "ed_manifests s' = ed_manifests s" "ed_current_generation s' = ed_current_generation s"
    and ls: "\<And>x. x \<in> set (ed_lifecycles s') \<Longrightarrow> al_state x = Confirmation_Pending \<or> x \<in> set (ed_lifecycles s)"
  shows "unfinished s'"
proof -
  have c: "current_active s' = current_active s" by (simp add: current_active_def same)
  show ?thesis unfolding unfinished_def c
  proof
    fix x assume "x \<in> set (ed_lifecycles s')"
    from ls [OF this] u show "al_state x \<noteq> Fully_Erased \<and> (al_state x \<noteq> Confirmation_Pending \<longrightarrow> current_active s)"
      by (auto simp: unfinished_def)
  qed
qed

lemma unfinished_save:
  assumes u: "unfinished s" and l: "al_state l \<noteq> Fully_Erased" "al_state l \<noteq> Confirmation_Pending \<Longrightarrow> current_active s"
  shows "unfinished (save_lifecycle l s)"
proof -
  have c: "current_active (save_lifecycle l s) = current_active s" by (simp add: current_active_def save_lifecycle_def)
  show ?thesis using u l unfolding unfinished_def c by (auto simp: save_lifecycle_def set_save_row)
qed

lemma unfinished_touch:
  "unfinished s \<Longrightarrow> get_row al_id d (ed_lifecycles s) = Some l \<Longrightarrow> al_state l' = al_state l \<Longrightarrow> unfinished (save_lifecycle l' s)"
  by (rule unfinished_save) (auto simp: unfinished_def dest: get_row_SomeD)

lemma reconcile_unfinished:
  assumes inv: "erasure_inv s" and u: "unfinished s"
  shows "unfinished (reconcile env now d s)"
proof (cases "get_row al_id d (ed_lifecycles s)")
  case (Some l)
  note l = get_row_SomeD [OF Some]
  have nf: "al_state l \<noteq> Fully_Erased" using l u by (auto simp: unfinished_def)
  show ?thesis
  proof (cases "al_state l = Confirmation_Pending")
    case False
    then have act: "current_active s" using l u by (auto simp: unfinished_def)
    then obtain m where m: "m \<in> set (ed_manifests s)" "bm_state m = Manifest_Active" by (auto simp: current_active_def)
    then obtain ob where ob: "ob \<in> set (ed_obligations s)" "ob_deletion_id ob = al_id l" "ob_generation_id ob = bm_generation_id m"
      using erasure_invD(7) [OF inv _ m(1) False m(2)] l nf by (auto simp: covered_def)
    have "ob_state ob \<noteq> Obligation_Verified" using erasure_invD(8) [OF inv ob(1) m(1) _ ob(3)] m(2) by blast
    then have pending: "\<exists>ob \<in> set (ed_obligations s). ob_deletion_id ob = al_id l \<and> (ob_state ob \<noteq> Obligation_Verified \<or> ob_proof_digest ob = None)"
      using ob by blast
    have save: "unfinished (save_lifecycle x s)" if "al_state x \<noteq> Fully_Erased" for x using unfinished_save [OF u that] act by blast
    have "unfinished (reconcile_live env now l s)"
      unfolding reconcile_live_def Let_def using pending by (auto intro!: save)
    then show ?thesis using u False nf by (auto simp: reconcile_def Some Let_def intro!: save)
  qed (use u in \<open>simp add: reconcile_def Some\<close>)
qed (use u in \<open>simp add: reconcile_def\<close>)

lemma execute_unfinished:
  assumes u: "unfinished s" and ok: "execute env now i (s, t) = (t', Inr (s', code))"
  shows "unfinished s'"
proof -
  have core: "unfinished x" if "same_core s x" for x using that by (intro unfinished_same [OF u]) (auto simp: same_core_def)
  have row: "unfinished x" if "erase_row env now i s = Inr x" for x using core [OF erase_row_core [OF that]] .
  have ct: "unfinished x" if "erase_ciphertexts d s = Inr x" for d x
    using that by (auto simp: erase_ciphertexts_def split: option.splits if_splits intro: unfinished_touch [OF u])
  have bk: "unfinished x" if "verify_backup env now i s = Inr x" for x
    using that by (intro unfinished_same [OF u]) (auto simp: verify_backup_def split: option.splits if_splits)
  have fl: "unfinished x" if "erase_file env now i (s, t) = (t', Inr x)" for x
    using that by (intro unfinished_same [OF u]) (auto simp: erase_file_def add_file_proof_def split: option.splits sum.splits prod.splits if_splits)
  show ?thesis using ok u by (auto simp: execute_def split: if_splits prod.splits dest: row ct bk fl)
qed

lemma item_unfinished: "unfinished s \<Longrightarrow> unfinished (save_item i s)"
  by (erule unfinished_same) (auto simp: save_item_def)

lemma claim_unfinished: "unfinished s \<Longrightarrow> unfinished (fst (claim_loop ex now token s rows))"
  by (induction rows) (auto split: option.split simp: item_unfinished)

lemma provider_unfinished: "unfinished s \<Longrightarrow> provider_result cl r s = Inr s' \<Longrightarrow> unfinished s'"
  by (auto simp: provider_result_def split: option.splits provider_outcome.splits if_splits intro: unfinished_touch)

lemma register_unfinished:
  assumes u: "unfinished s"
  shows "unfinished (fst (register_backup_generation new_id now m s))"
proof -
  let ?s = "\<lambda>d. attach_generation new_id now m (s\<lparr>ed_manifests := insert_row (new_manifest m) (ed_manifests s),
    ed_current_generation := bm_generation_id m, ed_ledger := d\<rparr>)"
  have "current_active (?s d)" for d by (simp add: current_active_def attach_generation_def new_manifest_def)
  moreover have "ed_lifecycles (?s d) = ed_lifecycles s" for d by (simp add: attach_generation_def)
  ultimately have new: "unfinished (?s d)" for d using u by (simp add: unfinished_def)
  with u new [of "ed_ledger s"] show ?thesis by (simp add: register_backup_generation_def split: option.split)
qed

lemma transition_unfinished:
  assumes inv: "erasure_inv s" and u: "unfinished s"
  shows "unfinished (fst (transition_backup_generation now expire g proof_digest s))"
proof -
  have ids: "unique_by bm_id (ed_manifests s)" using erasure_invD(1) [OF inv] by (simp add: keys_ok_def)
  have "unfinished (s\<lparr>ed_manifests := save_row bm_id m' (ed_manifests s)\<rparr>)"
    if m: "m \<in> set (ed_manifests s)" "bm_id m' = bm_id m" "bm_generation_id m \<noteq> ed_current_generation s" for m m'
  proof -
    have "current_active s \<Longrightarrow> current_active (s\<lparr>ed_manifests := save_row bm_id m' (ed_manifests s)\<rparr>)"
      using m unique_byD [OF ids m(1)] by (force simp: current_active_def set_save_row)
    with u show ?thesis by (auto simp: unfinished_def)
  qed
  then show ?thesis using u by (auto simp: transition_backup_generation_def retire_manifest_def split: option.split dest!: row_where_SomeD)
qed

lemma confirmable_current: "confirmable cf s = Inr (l, active, current) \<Longrightarrow> current_active s"
  by (auto simp: confirmable_def Let_def current_active_def find_Some_iff in_set_conv_nth rows_where_def split: option.splits if_splits
      dest!: nth_mem)

lemma confirm_unfinished:
  assumes u: "unfinished s" and c: "confirm_deletion env new_id now cf planned j (s, fs) = ((s', fs'), status)"
  shows "unfinished s'"
  using c
proof (cases rule: confirm_cases)
  case (3 l active current a b c)
  have "unfinished (save_lifecycle (confirmed_lifecycle cf (cm_committed_at c) a b l) s)"
    using confirmable_current [OF 3(1)] by (intro unfinished_save [OF u]) (simp_all add: confirmed_lifecycle_def)
  then show ?thesis unfolding 3(4)
    by (rule unfinished_same) (simp_all add: admit_deletion_def store_inventory_def save_lifecycle_def)
qed (use u in auto)

lemma request_unfinished:
  assumes u: "unfinished s"
  shows "unfinished (fst (create_deletion_request env i policy q s))" "unfinished (fst (recover_receipt env q s))"
proof -
  have "unfinished (s\<lparr>ed_lifecycles := insert_row (pending_lifecycle i policy q c) (ed_lifecycles s), ed_reverifications := r\<rparr>)" for c r
    by (rule unfinished_same [OF u]) (auto simp: pending_lifecycle_def)
  then show "unfinished (fst (create_deletion_request env i policy q s))"
    using u by (simp add: create_deletion_request_def split: option.split sum.split)
  have "unfinished ((save_lifecycle l s)\<lparr>ed_reverifications := r\<rparr>)" if "al_state l = Confirmation_Pending" for l r
    using that by (intro unfinished_same [OF u]) (auto simp: save_lifecycle_def set_save_row)
  then show "unfinished (fst (recover_receipt env q s))"
    using u by (auto simp: recover_receipt_def split: option.split sum.split dest!: row_where_SomeD)
qed

lemma step_unfinished: "erasure_step w w' \<Longrightarrow> erasure_inv (fst w) \<Longrightarrow> unfinished (fst w) \<Longrightarrow> unfinished (fst w')"
proof (induction rule: erasure_step.induct)
  case (attempt env now cl s t t' s' b)
  then show ?case using execute_unfinished [of s env now _ t]
    by (fastforce simp: attempt_item_def item_unfinished split: if_splits option.splits prod.splits sum.splits)
next
  case (prepare env now cl s s' p t)
  then show ?case by (auto simp: network_prepare_def item_unfinished split: if_splits option.splits)
next
  case (settle cl s env now r s' p t)
  then show ?case by (auto simp: network_settle_def split: if_splits option.splits intro!: item_unfinished intro: provider_unfinished)
next
  case (confirmation new_id cf planned s env now j fs s' fs' status t)
  then show ?case using confirm_unfinished by simp
next
  case (other s s' t t')
  then show ?case by (auto simp: same_core_def intro!: unfinished_same [of s])
qed (auto simp: requeue_released_def claim_item_def claim_unfinished reconcile_unfinished register_unfinished
  transition_unfinished request_unfinished fail_item_def Let_def item_unfinished cancel_deletion_def
  split: option.split intro: unfinished_same)


subsection \<open>Sample erasures\<close>

definition sample_erasure_executor :: erasure_executor where
  "sample_erasure_executor = \<lparr>ex_erasure_worker = ''w'', ex_erasure_max_attempts = 5, ex_erasure_lease_seconds = 60\<rparr>"

definition sample_row :: "lifecycle_state \<Rightarrow> lifecycle_row" where
  "sample_row st = (pending_lifecycle ''d1'' (lit ''p1'') sample_ask [])\<lparr>al_state := st, al_confirmed_at := Some 0, al_concealed_at := Some 0,
     al_provider_state := Provider_Verified\<rparr>"

definition sample_document :: document_row where
  "sample_document = \<lparr>doc_id = ''o1'', doc_kind = ''profile'', doc_owner_id = ''u'', doc_public_identifier = ''ada'', doc_visibility = ''public'',
     doc_current_version = 1, doc_updated_at = 0\<rparr>"

definition sample_session_item :: account_item where
  "sample_session_item = complete_item 1 None (planned_item ''i1'' 0 ''d1'' provider_session_t ''d1'' Provider Do_Delete)"

definition sample_document_item :: account_item where
  "sample_document_item = planned_item ''i2'' 0 ''d1'' Document_T ''o1'' Delete_Row Do_Delete"

definition sample_erasing :: erasure_db where
  "sample_erasing = empty_erasure\<lparr>ed_ledger := empty_db\<lparr>documents := [sample_document], backup_authority := [account_backup_authority_id]\<rparr>,
     ed_lifecycles := [sample_row Erasing], ed_items := [sample_session_item, sample_document_item]\<rparr>"

lemma sample_erasing_inv: "erasure_inv sample_erasing"
proof -
  have "prerequisites_complete sample_erasing sample_session_item"
    by (rule prerequisites_cases(2)) (simp add: sample_session_item_def complete_item_def clear_lease_def planned_item_def)
  then show ?thesis
    by (simp add: erasure_inv_def keys_ok_def unique_by_def belongs_def started_def sample_erasing_def empty_erasure_def sample_session_item_def
        sample_document_item_def planned_item_def complete_item_def clear_lease_def sample_row_def pending_lifecycle_def)
qed

definition sample_leased_document :: account_item where
  "sample_leased_document = lease_item sample_erasure_executor 2 ''k'' sample_document_item"

lemma sample_claimed:
  "fst (claim_item sample_erasure_executor 2 ''k'' sample_erasing) = sample_erasing\<lparr>ed_items := [sample_session_item, sample_leased_document]\<rparr>"
  by code_simp


text \<open>An erasure whose only generation was destroyed, and a generation captured afterwards.\<close>

definition sample_retired :: erasure_db where
  "sample_retired = empty_erasure\<lparr>ed_ledger := empty_db\<lparr>backup_authority := [account_backup_authority_id]\<rparr>,
     ed_lifecycles := [(sample_row Backup_Expiry_Pending)\<lparr>al_live_erased_at := Some 5\<rparr>], ed_items := [sample_session_item],
     ed_manifests := [sample_manifest\<lparr>bm_state := Manifest_Crypto_Destroyed\<rparr>],
     ed_obligations := [(obligation_for ''d1'' sample_manifest)\<lparr>ob_state := Obligation_Verified, ob_proof_digest := Some []\<rparr>]\<rparr>"

lemma sample_retired_inv: "erasure_inv sample_retired"
proof -
  have "prerequisites_complete sample_retired sample_session_item"
    by (rule prerequisites_cases(2)) (simp add: sample_session_item_def complete_item_def clear_lease_def planned_item_def)
  then show ?thesis
    by (simp add: erasure_inv_def keys_ok_def unique_by_def belongs_def started_def sample_retired_def empty_erasure_def sample_session_item_def
        planned_item_def complete_item_def clear_lease_def sample_row_def pending_lifecycle_def sample_manifest_def obligation_for_def)
qed

definition sample_later :: manifest_row where
  "sample_later = sample_manifest\<lparr>bm_id := ''b2'', bm_generation_id := ''g2'', bm_created_at := 7\<rparr>"

definition sample_finished :: erasure_db where
  "sample_finished = reconcile sample_erasure_env 6 ''d1'' sample_retired"

definition sample_finished_row :: lifecycle_row where
  "sample_finished_row = (sample_row Fully_Erased)\<lparr>al_live_erased_at := Some 5, al_backup_state := Backup_Verified, al_terminal_at := Some 6\<rparr>"

definition sample_restorable :: erasure_db where
  "sample_restorable = fst (register_backup_generation sample_new_id 8 sample_later sample_finished)"

lemma sample_finished_rows:
  "ed_lifecycles sample_finished = [sample_finished_row]" "ed_items sample_finished = [sample_session_item]"
  "ed_manifests sample_finished = [sample_manifest\<lparr>bm_state := Manifest_Crypto_Destroyed\<rparr>]"
proof -
  have i: "ei_state sample_session_item = E_Completed" "ei_phase sample_session_item = Provider" "ei_resource_type sample_session_item \<noteq> Document_T"
    "ei_deletion_id sample_session_item = ''d1''"
    by (simp_all add: sample_session_item_def complete_item_def clear_lease_def planned_item_def provider_session_t_def)
  show "ed_lifecycles sample_finished = [sample_finished_row]" "ed_items sample_finished = [sample_session_item]"
    "ed_manifests sample_finished = [sample_manifest\<lparr>bm_state := Manifest_Crypto_Destroyed\<rparr>]"
    by (simp_all add: sample_finished_def reconcile_def reconcile_live_def finish_lifecycle_def Let_def sample_retired_def empty_erasure_def
        sample_row_def pending_lifecycle_def get_row_def items_of_def rows_where_def i obligation_for_def save_lifecycle_def save_row_def
        sample_finished_row_def)
qed

lemma sample_restorable_rows:
  "sample_finished_row \<in> set (ed_lifecycles sample_restorable)" "sample_later \<in> set (ed_manifests sample_restorable)"
proof -
  have "backup_digest_ok (bm_db_digest sample_later)" "backup_digest_ok (bm_markdown_digest sample_later)" "generation_id_ok (bm_generation_id sample_later)"
    by code_simp+
  moreover have "new_manifest sample_later = sample_later" "bm_created_at sample_later = 7" "bm_expires_at sample_later = 9"
    "bm_generation_id sample_later = ''g2''" by (simp_all add: new_manifest_def sample_later_def sample_manifest_def)
  moreover have "al_live_erased_at sample_finished_row = Some 5" by (simp add: sample_finished_row_def)
  ultimately show "sample_finished_row \<in> set (ed_lifecycles sample_restorable)" "sample_later \<in> set (ed_manifests sample_restorable)"
    by (simp_all add: sample_restorable_def register_backup_generation_def sample_finished_rows attach_generation_def row_where_def sample_manifest_def)
qed


text \<open>A leased item whose message is in a conversation on hold.\<close>

definition sample_held :: erasure_db where
  "sample_held = empty_erasure\<lparr>ed_ledger := sample_queue\<lparr>retention_holds := [sample_hold]\<rparr>,
     ed_items := [lease_item sample_erasure_executor 2 ''k'' (planned_item ''i3'' 0 ''d1'' Message_T ''m1'' Delete_Row Do_Delete)]\<rparr>"

definition claim_for :: "string \<Rightarrow> account_item \<Rightarrow> erasure_claim" where
  "claim_for token i = \<lparr>ec_id = ei_id i, ec_deletion_id = ei_deletion_id i, ec_resource_type = ei_resource_type i,
     ec_resource_id = ei_resource_id i, ec_phase = ei_phase i, ec_claim_token = token, ec_attempts = ei_attempts i\<rparr>"


lemma sample_normalized:
  "normalize_identifier (ee_casefold sample_erasure_env) (lit ''ada'') = Some [97, 100, 97]"
  "normalize_identifier (ee_casefold sample_erasure_env) (lit '' ada'') = Some [97, 100, 97]"
  by (simp_all add: normalize_identifier_def sample_erasure_env_def strip_by_def py_space_def lit_def)

lemma sample_attempt:
  obtains t1 s1 where "attempt_item sample_erasure_env 3 (claim_for ''k'' sample_leased_document)
    (sample_erasing\<lparr>ed_items := [sample_session_item, sample_leased_document]\<rparr>, []) = (t1, Inr (s1, True))"
proof -
  let ?s = "sample_erasing\<lparr>ed_items := [sample_session_item, sample_leased_document]\<rparr>" and ?i = sample_leased_document
  have i: "leased_item (claim_for ''k'' ?i) ?s = Some ?i" by code_simp
  have "lifecycle_hmac sample_crypto sample_lifecycle ''identifier-reservation'' (lit ''document:profile'' @ lit '':'' @ [97, 100, 97]) = Inr (hexdigest (replicate 32 9))"
    by code_simp
  then have hmac: "identifier_reservation_hmac sample_erasure_env (lit ''document:profile'') (lit ''ada'') = Inr (hexdigest (replicate 32 9))"
    using sample_normalized(1) by (simp add: identifier_reservation_hmac_def map_failure_def) (simp add: sample_erasure_env_def)
  have fields: "ei_phase ?i = Delete_Row" "ei_resource_type ?i = Document_T" "ei_resource_id ?i = ''o1''" "ei_state ?i = E_Leased" "ei_state sample_session_item = E_Completed"
    by (simp_all add: sample_leased_document_def sample_document_item_def lease_item_def planned_item_def sample_session_item_def)
  have led: "ed_ledger ?s = empty_db\<lparr>documents := [sample_document], backup_authority := [account_backup_authority_id]\<rparr>" "ed_reservations ?s = []"
    by (simp_all add: sample_erasing_def empty_erasure_def)
  have "retention_holds (ed_ledger ?s) = []" by (simp add: led empty_db_def)
  then have free: "erasure_hold ?s ?i = None" "\<not> active_policy_ancestor ?s ?i"
    by (simp_all add: erasure_hold_def Let_def row_where_def active_policy_ancestor_def fields)
  have "doc_id sample_document = ''o1''" "doc_kind sample_document = ''profile''" "doc_public_identifier sample_document = ''ada''" by (simp_all add: sample_document_def)
  then have doc: "get_row doc_id ''o1'' (documents (ed_ledger ?s)) = Some sample_document" "reserved_name ?s Document_T ''o1'' = Some (lit ''document:profile'', lit ''ada'')"
    by (simp_all add: led get_row_def reserved_name_def)
  have "\<exists>s1. erase_row sample_erasure_env 3 ?i ?s = Inr s1"
    using doc hmac fields by (simp add: erase_row_def Let_def contact_policy_t_def erasable_def row_present_def reserve_identifier_def led(2))
  then have "\<exists>s1. execute sample_erasure_env 3 ?i (?s, []) = ([], Inr (s1, None))"
    using fields by (auto simp: execute_def provider_ciphertext_t_def)
  moreover have "account_backup_authority_id \<in> set (backup_authority (ed_ledger ?s))" "\<not> ee_refused sample_erasure_env"
    by (simp_all add: led sample_erasure_env_def)
  ultimately show thesis using that i free by (auto simp: attempt_item_def)
qed


lemma sample_confirmed:
  obtains s3 l3 fs' where "confirm_deletion sample_erasure_env sample_new_id 0 (sample_confirmation (lit ''v2'')) [] sample_journal (sample_pending, sample_open_journal)
      = ((s3, fs'), 202)" "l3 \<in> set (ed_lifecycles s3)" "al_state l3 = Concealed"
proof -
  let ?cf = "sample_confirmation (lit ''v2'')"
  let ?rq = "deletion_request_of ?cf sample_pending_row sample_manifest 0"
  obtain state where at: "journal_at sample_journal sample_open_journal state []" by (rule sample_initialized)
  have ready: "ready_to_confirm sample_erasure_env 0 ?cf sample_journal sample_pending_row sample_manifest sample_pending" by (rule sample_ready) simp
  then have acc: "acceptable sample_journal (cf_nonce_journal ?cf) ?rq" by (simp add: ready_to_confirm_def)
  have len: "Suc (length ([] :: commitment list)) < 10 ^ 20" by simp
  obtain c where c: "snd (log_append sample_journal (cf_nonce_journal ?cf) ?rq []) = Inr c" by (simp add: log_append_def Let_def)
  obtain fs' where app: "append_commitment sample_journal (cf_nonce_journal ?cf) ?rq sample_open_journal = (fs', Inr c)"
    using append_step [OF sample_journal_ok at acc len] unfolding c by blast
  obtain a b where "confirm_deletion sample_erasure_env sample_new_id 0 ?cf [] sample_journal (sample_pending, sample_open_journal) =
      ((admit_deletion ?cf (cm_committed_at c) (confirmed_lifecycle ?cf (cm_committed_at c) a b sample_pending_row)
          (store_inventory sample_new_id 0 (al_id sample_pending_row) [] [sample_manifest] sample_pending), fs'), 202)"
    by (rule confirm_appends [OF sample_confirmable ready app])
  then show thesis
    by (rule that [of _ _ "confirmed_lifecycle ?cf (cm_committed_at c) a b sample_pending_row"])
      (simp_all add: admit_rows sample_pending_rows save_row_def confirmed_lifecycle_def)
qed


end
