(* ===== verification/ClerkProvider.thy ===== *)
theory ClerkProvider
  imports AccountErasure
begin

text \<open>
  The adapter to the identity provider (\<open>HttpClerkLifecycleProvider\<close> in
  \<open>services/account_erasure.py\<close>) with the settings it checks (\<open>config.py\<close>): the paginated listing
  of sessions, their revocation, and the deletion of the account.  The provider itself is the
  parameter \<open>serve\<close>: it answers a request in some state of the world and may change that state.
  Every exchange is logged, so that the lemmas can speak about what was asked and answered.
\<close>

subsection \<open>Settings\<close>

text \<open>The parts of a parsed \<open>HttpUrl\<close>; \<open>cu_text\<close> is its \<open>str\<close>.\<close>

record clerk_url =
  cu_text :: pystr
  cu_scheme :: pystr
  cu_username :: "pystr option"
  cu_password :: "pystr option"
  cu_host :: "pystr option"
  cu_port :: "nat option"
  cu_path :: "pystr option"
  cu_query :: "pystr option"
  cu_fragment :: "pystr option"

text \<open>\<open>cs_lower\<close> is \<open>str.lower\<close>, whose Unicode tables stay a parameter.\<close>

record clerk_settings =
  cs_lower :: "pystr \<Rightarrow> pystr"
  cs_environment :: pystr
  cs_backend_secret :: "pystr option"
  cs_backend_base_url :: "clerk_url option"

definition rstrip_char :: "nat \<Rightarrow> pystr \<Rightarrow> pystr" where
  "rstrip_char x s = rev (dropWhile (\<lambda>y. y = x) (rev s))"

definition starts_with :: "pystr \<Rightarrow> pystr \<Rightarrow> bool" where
  "starts_with s prefix \<longleftrightarrow> take (length prefix) s = prefix"

definition is_placeholder :: "(pystr \<Rightarrow> pystr) \<Rightarrow> pystr \<Rightarrow> bool" where
  "is_placeholder lower v =
     list_ex (\<lambda>prefix. starts_with (lower (strip v)) (lit prefix)) [''change-this'', ''replace-me'', ''example'']"

definition is_production :: "clerk_settings \<Rightarrow> bool" where
  "is_production st \<longleftrightarrow> cs_lower st (cs_environment st) = lit ''production''"

definition is_allowed_clerk_backend_origin :: "(pystr \<Rightarrow> pystr) \<Rightarrow> clerk_url \<Rightarrow> bool \<Rightarrow> bool" where
  "is_allowed_clerk_backend_origin lower url production =
     (let host = rstrip_char 46 (lower (case cu_host url of None \<Rightarrow> [] | Some h \<Rightarrow> h)) in
      if cu_scheme url \<noteq> lit ''https'' \<or> cu_username url \<noteq> None \<or> cu_password url \<noteq> None \<or>
         cu_port url \<notin> {None, Some 443} \<or> cu_path url \<notin> {None, Some [], Some (lit ''/'')} \<or>
         cu_query url \<noteq> None \<or> cu_fragment url \<noteq> None
      then False
      else if host = lit ''api.clerk.com'' then True
      else \<not> production \<and> host = lit ''clerk.example.test'')"

text \<open>
  \<open>require_clerk_backend_configuration\<close> raises \<open>ValueError\<close> when it fails.  So does encoding a
  secret with a lone surrogate, and \<open>_is_configured\<close> catches both.
\<close>

definition require_clerk_backend_configuration :: "clerk_settings \<Rightarrow> unit + unit" where
  "require_clerk_backend_configuration st =
     (case cs_backend_secret st of
        None \<Rightarrow> Inl ()
      | Some secret \<Rightarrow>
          (case utf8_encode secret of
             None \<Rightarrow> Inl ()
           | Some bytes \<Rightarrow>
               and_then (require (\<not> (length bytes < 32 \<or> is_placeholder (cs_lower st) secret)) ()) (\<lambda>_.
               require (case cs_backend_base_url st of
                          None \<Rightarrow> False
                        | Some url \<Rightarrow> is_allowed_clerk_backend_origin (cs_lower st) url (is_production st)) ())))"

definition is_configured :: "clerk_settings \<Rightarrow> bool" where
  "is_configured st \<longleftrightarrow> require_clerk_backend_configuration st = Inr ()"

subsection \<open>Requests and answers\<close>

text \<open>
  A request has its method, its URL, the bearer token and the query parameters.  A call raises
  \<open>httpx.HTTPError\<close>, a \<open>ValueError\<close> or something else, or gives a status and what
  \<open>response.json()\<close> gives.
\<close>

datatype verb = GET | POST | DELETE

record clerk_request =
  rq_verb :: verb
  rq_url :: pystr
  rq_bearer :: pystr
  rq_params :: "(string \<times> json) list"

datatype clerk_answer =
    Http_Error
  | Call_Value_Error
  | Call_Other_Error
  | Response nat "json_error + json"

type_synonym 'w clerk = "clerk_request \<Rightarrow> 'w \<Rightarrow> clerk_answer \<times> 'w"
type_synonym exchange = "clerk_request \<times> clerk_answer"
type_synonym 'w conversation = "'w \<times> exchange list"

definition ask :: "'w clerk \<Rightarrow> clerk_request \<Rightarrow> 'w conversation \<Rightarrow> clerk_answer \<times> 'w conversation" where
  "ask serve q c = (case serve q (fst c) of (a, w) \<Rightarrow> (a, (w, snd c @ [(q, a)])))"

definition is_success :: "nat \<Rightarrow> bool" where
  "is_success status \<longleftrightarrow> 200 \<le> status \<and> status \<le> 299"

text \<open>\<open>urllib.parse.quote(s, safe="")\<close>; a lone surrogate raises \<open>UnicodeEncodeError\<close>, a \<open>ValueError\<close>.\<close>

definition always_safe :: "nat \<Rightarrow> bool" where
  "always_safe b \<longleftrightarrow> lower_alnum b \<or> (65 \<le> b \<and> b \<le> 90) \<or> b \<in> set (lit ''_.-~'')"

definition percent :: "nat \<Rightarrow> pystr" where
  "percent b = (let h = (\<lambda>d. if d < 10 then 48 + d else 55 + d) in [37, h (b div 16), h (b mod 16)])"

definition quote :: "pystr \<Rightarrow> pystr option" where
  "quote s = map_option (\<lambda>bs. concat (map (\<lambda>b. if always_safe b then [b] else percent b) bs)) (utf8_encode s)"

definition headers :: "clerk_settings \<Rightarrow> pystr" where
  "headers st = (case cs_backend_secret st of None \<Rightarrow> [] | Some secret \<Rightarrow> lit ''Bearer '' @ secret)"

definition url_of :: "clerk_settings \<Rightarrow> pystr \<Rightarrow> pystr" where
  "url_of st suffix = (case cs_backend_base_url st of None \<Rightarrow> [] | Some url \<Rightarrow> rstrip_char 47 (cu_text url)) @ suffix"

definition sessions_request :: "clerk_settings \<Rightarrow> pystr \<Rightarrow> nat \<Rightarrow> clerk_request" where
  "sessions_request st subject offset =
     \<lparr>rq_verb = GET, rq_url = url_of st (lit ''/v1/sessions''), rq_bearer = headers st,
      rq_params = [(''user_id'', JStr subject), (''limit'', JInt 100), (''offset'', JInt (int offset))]\<rparr>"

definition revoke_request :: "clerk_settings \<Rightarrow> pystr \<Rightarrow> clerk_request" where
  "revoke_request st quoted_id =
     \<lparr>rq_verb = POST, rq_url = url_of st (lit ''/v1/sessions/'' @ quoted_id @ lit ''/revoke''),
      rq_bearer = headers st, rq_params = []\<rparr>"

definition user_request :: "clerk_settings \<Rightarrow> verb \<Rightarrow> pystr \<Rightarrow> clerk_request" where
  "user_request st v quoted_subject =
     \<lparr>rq_verb = v, rq_url = url_of st (lit ''/v1/users/'' @ quoted_subject), rq_bearer = headers st, rq_params = []\<rparr>"

definition ready_request :: "clerk_settings \<Rightarrow> clerk_request" where
  "ready_request st = \<lparr>rq_verb = GET, rq_url = url_of st (lit ''/v1/users''), rq_bearer = headers st, rq_params = [(''limit'', JInt 1)]\<rparr>"

subsection \<open>The adapter\<close>

text \<open>
  \<open>check_ready\<close>: \<open>raise_for_status\<close> raises an \<open>HTTPStatusError\<close>, which is an \<open>HTTPError\<close>, for
  every status that is not a success.  An exception it does not catch is the outer \<open>Raises\<close>.
\<close>

definition check_ready :: "clerk_settings \<Rightarrow> 'w clerk \<Rightarrow> 'w conversation \<Rightarrow> (auth_error + unit) answer \<times> 'w conversation" where
  "check_ready st serve c =
     (if \<not> is_configured st then (Answers (Inl Authentication_Unavailable), c)
      else
        (case ask serve (ready_request st) c of
           (Http_Error, c') \<Rightarrow> (Answers (Inl Authentication_Unavailable), c')
         | (Call_Value_Error, c') \<Rightarrow> (Raises, c')
         | (Call_Other_Error, c') \<Rightarrow> (Raises, c')
         | (Response status _, c') \<Rightarrow> (Answers (require (is_success status) Authentication_Unavailable), c')))"

definition outcome :: "nat \<Rightarrow> provider_outcome" where
  "outcome status_code = (if status_code \<in> {401, 403, 404, 422} then Provider_Permanent_Unsupported else Provider_Retryable)"

text \<open>One page of sessions: the identifiers, or what \<open>revoke_sessions\<close> returns at once.\<close>

definition row_id :: "json \<Rightarrow> pystr option" where
  "row_id row =
     (case row of
        JObj kvs \<Rightarrow>
          (case map_of kvs (lit ''id'') of
             Some (JStr session_id) \<Rightarrow> if 1 \<le> length session_id \<and> length session_id \<le> 255 then Some session_id else None
           | _ \<Rightarrow> None)
      | _ \<Rightarrow> None)"

primrec row_ids :: "json list \<Rightarrow> pystr list option" where
  "row_ids [] = Some []"
| "row_ids (row # rows) =
     (case row_id row of None \<Rightarrow> None | Some session_id \<Rightarrow> map_option (\<lambda>ids. session_id # ids) (row_ids rows))"

definition payload_rows :: "json \<Rightarrow> json list option" where
  "payload_rows payload =
     (case payload of
        JObj kvs \<Rightarrow> (case map_of kvs (lit ''data'') of Some (JArr rows) \<Rightarrow> Some rows | _ \<Rightarrow> None)
      | _ \<Rightarrow> None)"

definition read_page :: "clerk_answer \<Rightarrow> provider_outcome answer + pystr list" where
  "read_page a =
     (case a of
        Http_Error \<Rightarrow> Inl (Answers Provider_Retryable)
      | Call_Value_Error \<Rightarrow> Inl (Answers Provider_Retryable)
      | Call_Other_Error \<Rightarrow> Inl Raises
      | Response status body \<Rightarrow>
          if \<not> is_success status then Inl (Answers (outcome status))
          else
            (case body of
               Inl Json_Invalid \<Rightarrow> Inl (Answers Provider_Retryable)
             | Inl Json_Recursion \<Rightarrow> Inl Raises
             | Inr payload \<Rightarrow>
                 (case payload_rows payload of
                    None \<Rightarrow> Inl (Answers Provider_Retryable)
                  | Some rows \<Rightarrow>
                      (case row_ids rows of None \<Rightarrow> Inl (Answers Provider_Retryable) | Some ids \<Rightarrow> Inr ids))))"

text \<open>The \<open>while True\<close> loop: the offset grows by at least 100 and is at most 10000.\<close>

function list_sessions ::
    "clerk_settings \<Rightarrow> 'w clerk \<Rightarrow> pystr \<Rightarrow> nat \<Rightarrow> pystr list \<Rightarrow> 'w conversation \<Rightarrow>
     (provider_outcome answer + pystr list) \<times> 'w conversation" where
  "list_sessions st serve subject offset ids c =
     (case ask serve (sessions_request st subject offset) c of
        (a, c') \<Rightarrow>
          (case read_page a of
             Inl r \<Rightarrow> (Inl r, c')
           | Inr page \<Rightarrow>
               if length page < 100 then (Inr (ids @ page), c')
               else if 10000 < offset + length page then (Inl (Answers Provider_Retryable), c')
               else list_sessions st serve subject (offset + length page) (ids @ page) c'))"
  by pat_completeness auto
termination
  by (relation "measure (\<lambda>(st, serve, subject, offset, ids, c). 10001 - offset)") auto

declare list_sessions.simps [simp del]

primrec revoke_each :: "clerk_settings \<Rightarrow> 'w clerk \<Rightarrow> pystr list \<Rightarrow> 'w conversation \<Rightarrow> provider_outcome answer \<times> 'w conversation" where
  "revoke_each st serve [] c = (Answers Provider_Deleted, c)"
| "revoke_each st serve (session_id # ids) c =
     (case quote session_id of
        None \<Rightarrow> (Answers Provider_Retryable, c)
      | Some q \<Rightarrow>
          (case ask serve (revoke_request st q) c of
             (Http_Error, c') \<Rightarrow> (Answers Provider_Retryable, c')
           | (Call_Value_Error, c') \<Rightarrow> (Answers Provider_Retryable, c')
           | (Call_Other_Error, c') \<Rightarrow> (Raises, c')
           | (Response status _, c') \<Rightarrow>
               if \<not> is_success status \<and> status \<noteq> 404 then (Answers (outcome status), c')
               else revoke_each st serve ids c'))"

definition revoke_sessions ::
    "clerk_settings \<Rightarrow> 'w clerk \<Rightarrow> pystr \<Rightarrow> pystr \<Rightarrow> 'w conversation \<Rightarrow> provider_outcome answer \<times> 'w conversation" where
  "revoke_sessions st serve subject current_session_id c =
     (if \<not> is_configured st then (Answers Provider_Permanent_Unsupported, c)
      else
        (case list_sessions st serve subject 0 [current_session_id] c of
           (Inl r, c') \<Rightarrow> (r, c')
         | (Inr session_ids, c') \<Rightarrow> revoke_each st serve (sort (remdups session_ids)) c'))"

text \<open>\<open>delete_user\<close> quotes the subject before its \<open>try\<close>, and catches \<open>HTTPError\<close> only.\<close>

definition delete_user :: "clerk_settings \<Rightarrow> 'w clerk \<Rightarrow> pystr \<Rightarrow> 'w conversation \<Rightarrow> provider_outcome answer \<times> 'w conversation" where
  "delete_user st serve subject c =
     (if \<not> is_configured st then (Answers Provider_Permanent_Unsupported, c)
      else
        (case quote subject of
           None \<Rightarrow> (Raises, c)
         | Some q \<Rightarrow>
             (case ask serve (user_request st DELETE q) c of
                (Http_Error, c1) \<Rightarrow> (Answers Provider_Retryable, c1)
              | (Call_Value_Error, c1) \<Rightarrow> (Raises, c1)
              | (Call_Other_Error, c1) \<Rightarrow> (Raises, c1)
              | (Response deleted _, c1) \<Rightarrow>
                  if deleted = 404 then (Answers Provider_Already_Absent, c1)
                  else if \<not> is_success deleted then (Answers (outcome deleted), c1)
                  else
                    (case ask serve (user_request st GET q) c1 of
                       (Http_Error, c2) \<Rightarrow> (Answers Provider_Retryable, c2)
                     | (Call_Value_Error, c2) \<Rightarrow> (Raises, c2)
                     | (Call_Other_Error, c2) \<Rightarrow> (Raises, c2)
                     | (Response absence _, c2) \<Rightarrow>
                         (Answers (if absence = 404 then Provider_Deleted else Provider_Retryable), c2)))))"

text \<open>The call \<open>_process_network_action\<close> makes for a provider item, with the decrypted values.\<close>

definition provider_call ::
    "clerk_settings \<Rightarrow> 'w clerk \<Rightarrow> erasure_claim \<Rightarrow> pystr \<Rightarrow> pystr \<Rightarrow> 'w conversation \<Rightarrow> provider_outcome answer \<times> 'w conversation" where
  "provider_call st serve cl subject session_id c =
     (if ec_resource_type cl = provider_session_t then revoke_sessions st serve subject session_id c
      else delete_user st serve subject c)"

subsection \<open>What is asked and answered\<close>

text \<open>The sessions the provider named in a log, and the answers that say a session is gone.\<close>

definition asked :: "verb \<Rightarrow> exchange list \<Rightarrow> exchange list" where
  "asked v log = filter (\<lambda>x. rq_verb (fst x) = v) log"

definition listed_sessions :: "exchange list \<Rightarrow> pystr list" where
  "listed_sessions log =
     concat (map (\<lambda>x. case read_page (snd x) of Inr page \<Rightarrow> page | Inl _ \<Rightarrow> []) (asked GET log))"

definition session_gone :: "clerk_answer \<Rightarrow> bool" where
  "session_gone a = (case a of Response status _ \<Rightarrow> is_success status \<or> status = 404 | _ \<Rightarrow> False)"

definition absent :: "clerk_answer \<Rightarrow> bool" where
  "absent a = (case a of Response status _ \<Rightarrow> status = 404 | _ \<Rightarrow> False)"

definition revoked_in :: "clerk_settings \<Rightarrow> exchange list \<Rightarrow> pystr \<Rightarrow> bool" where
  "revoked_in st log session_id \<longleftrightarrow>
     (case quote session_id of
        None \<Rightarrow> False
      | Some q \<Rightarrow> list_ex (\<lambda>x. fst x = revoke_request st q \<and> session_gone (snd x)) log)"

lemma asked_simps [simp]:
  "asked v [] = []" "asked v (x # log) = (if rq_verb (fst x) = v then x # asked v log else asked v log)"
  "asked v (log @ log') = asked v log @ asked v log'"
  by (simp_all add: asked_def)

lemma asked_all [simp]: "list_all (\<lambda>x. rq_verb (fst x) = v) log \<Longrightarrow> asked v log = log"
  by (simp add: asked_def list_all_iff)

lemma asked_none [simp]: "list_all (\<lambda>x. rq_verb (fst x) = v) log \<Longrightarrow> v \<noteq> v' \<Longrightarrow> asked v' log = []"
  by (auto simp: asked_def list_all_iff filter_empty_conv)

lemma listed_sessions_append [simp]: "listed_sessions (log @ log') = listed_sessions log @ listed_sessions log'"
  by (simp add: listed_sessions_def)

lemma listed_sessions_none [simp]: "asked GET log = [] \<Longrightarrow> listed_sessions log = []"
  by (simp add: listed_sessions_def)

lemma request_verbs [simp]:
  "rq_verb (sessions_request st subject offset) = GET" "rq_verb (revoke_request st q) = POST"
  "rq_verb (user_request st v q) = v"
  by (simp_all add: sessions_request_def revoke_request_def user_request_def)

lemma outcome_cases: "outcome status \<in> {Provider_Permanent_Unsupported, Provider_Retryable}"
  by (simp add: outcome_def)

lemma outcome_not [simp]: "outcome status \<noteq> Provider_Deleted" "outcome status \<noteq> Provider_Already_Absent"
  using outcome_cases [of status] by auto

lemma read_page_refusal: "read_page a = Inl r \<Longrightarrow> r \<notin> {Answers Provider_Deleted, Answers Provider_Already_Absent}"
  by (auto simp: read_page_def split: clerk_answer.splits if_splits sum.splits json_error.splits option.splits)

lemma revoked_in_append [simp]: "revoked_in st (log @ log') i \<longleftrightarrow> revoked_in st log i \<or> revoked_in st log' i"
  by (auto simp: revoked_in_def split: option.splits)

text \<open>
  The listing asks for pages only.  The bound on the number of requests is the one the measure of
  the loop suggests; a listing that succeeds returns exactly what the pages named.
\<close>

lemma list_sessions_log:
  assumes "list_sessions st serve subject offset ids (w, log) = (r, (w', log'))" and "offset \<le> 10000"
  obtains pages where "log' = log @ pages" "list_all (\<lambda>x. rq_verb (fst x) = GET) pages"
    "100 * length pages + offset \<le> 10100"
    "case r of Inl e \<Rightarrow> e \<notin> {Answers Provider_Deleted, Answers Provider_Already_Absent} | Inr all \<Rightarrow> all = ids @ listed_sessions pages"
proof -
  have "\<exists>pages. log' = log @ pages \<and> list_all (\<lambda>x. rq_verb (fst x) = GET) pages \<and> 100 * length pages + offset \<le> 10100 \<and>
      (case r of Inl e \<Rightarrow> e \<notin> {Answers Provider_Deleted, Answers Provider_Already_Absent} | Inr all \<Rightarrow> all = ids @ listed_sessions pages)"
    using assms
  proof (induction st serve subject offset ids "(w, log)" arbitrary: w log rule: list_sessions.induct)
    case (1 st serve subject offset ids w log)
    let ?q = "sessions_request st subject offset"
    obtain a w1 where a: "serve ?q w = (a, w1)" by fastforce
    have asked: "ask serve ?q (w, log) = (a, (w1, log @ [(?q, a)]))" by (simp add: ask_def a)
    note unfolded = 1(2) [unfolded list_sessions.simps [of st serve subject offset ids "(w, log)"] asked]
    show ?case
    proof (cases "read_page a")
      case (Inl e)
      then show ?thesis using unfolded 1(3) read_page_refusal [OF Inl]
        by (intro exI [of _ "[(?q, a)]"]) (auto split: sum.splits)
    next
      case (Inr page)
      then have named: "listed_sessions [(?q, a)] = page" by (simp add: listed_sessions_def)
      show ?thesis
      proof (cases "length page < 100 \<or> 10000 < offset + length page")
        case True
        then show ?thesis using unfolded 1(3) Inr named
          by (intro exI [of _ "[(?q, a)]"]) (auto split: if_splits)
      next
        case False
        then have rec: "list_sessions st serve subject (offset + length page) (ids @ page) (w1, log @ [(?q, a)]) = (r, (w', log'))"
          using unfolded Inr by simp
        obtain pages where "log' = (log @ [(?q, a)]) @ pages" "list_all (\<lambda>x. rq_verb (fst x) = GET) pages"
          "100 * length pages + (offset + length page) \<le> 10100"
          "case r of Inl e \<Rightarrow> e \<notin> {Answers Provider_Deleted, Answers Provider_Already_Absent} | Inr all \<Rightarrow> all = (ids @ page) @ listed_sessions pages"
          using 1(1) [OF asked [symmetric] Inr _ _ rec] False by auto
        then show ?thesis using False named
          by (intro exI [of _ "(?q, a) # pages"]) (auto simp: listed_sessions_def split: sum.splits)
      qed
    qed
  qed
  then show ?thesis using that by blast
qed

lemma revoke_each_log:
  assumes "revoke_each st serve ids (w, log) = (r, (w', log'))"
  obtains posts where "log' = log @ posts" "list_all (\<lambda>x. rq_verb (fst x) = POST) posts" "length posts \<le> length ids"
    "r \<noteq> Answers Provider_Already_Absent" "r = Answers Provider_Deleted \<Longrightarrow> list_all (revoked_in st posts) ids"
proof -
  have "\<exists>posts. log' = log @ posts \<and> list_all (\<lambda>x. rq_verb (fst x) = POST) posts \<and> length posts \<le> length ids \<and>
      r \<noteq> Answers Provider_Already_Absent \<and> (r = Answers Provider_Deleted \<longrightarrow> list_all (revoked_in st posts) ids)"
    using assms
  proof (induction ids arbitrary: w log)
    case (Cons i ids)
    show ?case
    proof (cases "quote i")
      case None
      then show ?thesis using Cons.prems by auto
    next
      case (Some q)
      let ?q = "revoke_request st q"
      obtain a w1 where a: "serve ?q w = (a, w1)" by fastforce
      have asked: "ask serve ?q (w, log) = (a, (w1, log @ [(?q, a)]))" by (simp add: ask_def a)
      show ?thesis
      proof (cases "session_gone a")
        case False
        then show ?thesis using Cons.prems Some
          by (intro exI [of _ "[(?q, a)]"]) (auto simp: asked session_gone_def split: clerk_answer.splits if_splits)
      next
        case True
        then have "revoke_each st serve ids (w1, log @ [(?q, a)]) = (r, (w', log'))"
          using Cons.prems Some by (auto simp: asked session_gone_def split: clerk_answer.splits if_splits)
        from Cons.IH [OF this] obtain posts where posts: "log' = (log @ [(?q, a)]) @ posts"
          "list_all (\<lambda>x. rq_verb (fst x) = POST) posts" "length posts \<le> length ids" "r \<noteq> Answers Provider_Already_Absent"
          "r = Answers Provider_Deleted \<longrightarrow> list_all (revoked_in st posts) ids" by blast
        have "list_all (revoked_in st ((?q, a) # posts)) (i # ids)" if "r = Answers Provider_Deleted"
          using posts(5) that True Some by (auto simp: revoked_in_def list_all_iff split: option.splits)
        then show ?thesis using posts
          by (intro exI [of _ "(?q, a) # posts"]) auto
      qed
    qed
  qed auto
  then show ?thesis using that by blast
qed

lemma revoke_sessions_log:
  assumes "revoke_sessions st serve subject current (w, []) = (r, (w', log))"
  shows "length (asked GET log) \<le> 101" "length (asked POST log) \<le> 1 + length (listed_sessions log)"
    "asked GET log @ asked POST log = log" "r \<noteq> Answers Provider_Already_Absent"
    "r = Answers Provider_Deleted \<Longrightarrow> list_all (revoked_in st log) (current # listed_sessions log)"
proof -
  have goal: "length (asked GET log) \<le> 101 \<and> length (asked POST log) \<le> 1 + length (listed_sessions log) \<and>
    asked GET log @ asked POST log = log \<and> r \<noteq> Answers Provider_Already_Absent \<and>
    (r = Answers Provider_Deleted \<longrightarrow> list_all (revoked_in st log) (current # listed_sessions log))"
  proof (cases "is_configured st")
    case False
    then show ?thesis using assms by (auto simp: revoke_sessions_def)
  next
    case True
    obtain r1 w1 log1 where listing: "list_sessions st serve subject 0 [current] (w, []) = (r1, (w1, log1))"
      by (metis surj_pair)
    obtain pages where pages: "log1 = pages" "list_all (\<lambda>x. rq_verb (fst x) = GET) pages" "100 * length pages \<le> 10100"
      "case r1 of Inl e \<Rightarrow> e \<notin> {Answers Provider_Deleted, Answers Provider_Already_Absent} | Inr all \<Rightarrow> all = [current] @ listed_sessions pages"
      using list_sessions_log [OF listing] by auto
    show ?thesis
    proof (cases r1)
      case (Inl e)
      then show ?thesis using assms pages True listing by (auto simp: revoke_sessions_def)
    next
      case (Inr all)
      then have "revoke_each st serve (sort (remdups all)) (w1, log1) = (r, (w', log))"
        using assms True listing by (simp add: revoke_sessions_def)
      from revoke_each_log [OF this] obtain posts where posts: "log = log1 @ posts"
        "list_all (\<lambda>x. rq_verb (fst x) = POST) posts" "length posts \<le> length (sort (remdups all))" "r \<noteq> Answers Provider_Already_Absent"
        "r = Answers Provider_Deleted \<Longrightarrow> list_all (revoked_in st posts) (sort (remdups all))" by blast
      have all: "all = current # listed_sessions pages" using pages(4) Inr by simp
      have "length posts \<le> length all" using posts(3) length_remdups_leq [of all] by (simp del: length_remdups_leq)
      moreover have "list_all (revoked_in st log) all" if "r = Answers Provider_Deleted"
        using posts(5) [OF that] posts(1) by (auto simp: list_all_iff)
      ultimately show ?thesis using posts(1,2,4) pages(1-3) all by simp
    qed
  qed
  show "length (asked GET log) \<le> 101" "length (asked POST log) \<le> 1 + length (listed_sessions log)"
    "asked GET log @ asked POST log = log" "r \<noteq> Answers Provider_Already_Absent" using goal by blast+
  show "r = Answers Provider_Deleted \<Longrightarrow> list_all (revoked_in st log) (current # listed_sessions log)" using goal by blast
qed

text \<open>
  A provider that pages as its documentation says: the page at an offset is the next hundred of its
  sessions, and listing changes nothing.
\<close>

definition sessions_page :: "pystr list \<Rightarrow> clerk_answer" where
  "sessions_page ids = Response 200 (Inr (JObj [(lit ''data'', JArr (map (\<lambda>i. JObj [(lit ''id'', JStr i)]) ids))]))"

lemma read_page_sessions_page:
  "list_all (\<lambda>i. 1 \<le> length i \<and> length i \<le> 255) ids \<Longrightarrow> read_page (sessions_page ids) = Inr ids"
proof -
  assume "list_all (\<lambda>i. 1 \<le> length i \<and> length i \<le> 255) ids"
  then have "row_ids (map (\<lambda>i. JObj [(lit ''id'', JStr i)]) ids) = Some ids"
    by (induction ids) (auto simp: row_id_def)
  then show ?thesis by (simp add: read_page_def sessions_page_def is_success_def payload_rows_def)
qed

lemma drop_take_more: "drop n xs = take k (drop n xs) @ drop (n + k) xs"
  by (metis append_take_drop_id drop_drop add.commute)

lemma list_sessions_paging:
  assumes paging: "\<And>off v. serve (sessions_request st subject off) v = (sessions_page (take 100 (drop off sessions)), v)"
    and valid: "list_all (\<lambda>i. 1 \<le> length i \<and> length i \<le> 255) sessions"
    and "100 * k \<le> length sessions" and "k \<le> 100"
  shows "\<exists>log'. list_sessions st serve subject (100 * k) ids (w, log) =
    (if length sessions < 10100 then Inr (ids @ drop (100 * k) sessions) else Inl (Answers Provider_Retryable), (w, log'))"
  using assms(3-)
proof (induction "100 - k" arbitrary: k ids log rule: less_induct)
  case less
  let ?page = "take 100 (drop (100 * k) sessions)" and ?q = "sessions_request st subject (100 * k)"
  have "list_all (\<lambda>i. 1 \<le> length i \<and> length i \<le> 255) ?page"
    using valid by (auto simp: list_all_iff dest!: in_set_takeD in_set_dropD)
  note page = read_page_sessions_page [OF this]
  have step: "list_sessions st serve subject (100 * k) ids (w, log) =
      (if length ?page < 100 then (Inr (ids @ ?page), (w, log @ [(?q, sessions_page ?page)]))
       else if 10000 < 100 * k + length ?page then (Inl (Answers Provider_Retryable), (w, log @ [(?q, sessions_page ?page)]))
       else list_sessions st serve subject (100 * k + length ?page) (ids @ ?page) (w, log @ [(?q, sessions_page ?page)]))"
    by (simp add: list_sessions.simps [of st serve subject "100 * k"] ask_def paging page)
  consider (last) "length sessions < 100 * k + 100" | (full) "100 * k + 100 \<le> length sessions" "k = 100"
    | (next_page) "100 * k + 100 \<le> length sessions" "k < 100"
    using less.prems by linarith
  then show ?case
  proof cases
    case last
    then have "length sessions - 100 * k < 100" using less.prems by linarith
    then show ?thesis using last less.prems by (simp add: step)
  next
    case full
    then show ?thesis unfolding step by simp
  next
    case next_page
    then have "length ?page = 100" by simp
    then have rec: "list_sessions st serve subject (100 * k) ids (w, log) =
        list_sessions st serve subject (100 * Suc k) (ids @ ?page) (w, log @ [(?q, sessions_page ?page)])"
      using next_page(2) unfolding step by (simp add: algebra_simps)
    have all: "ids @ drop (100 * k) sessions = (ids @ ?page) @ drop (100 * Suc k) sessions"
      using drop_take_more [of "100 * k" sessions 100] by (simp add: algebra_simps)
    show ?thesis unfolding rec all
      using next_page by (intro less.hyps) simp_all
  qed
qed

lemma revoke_each_accepted:
  assumes "\<And>q v. session_gone (fst (serve (revoke_request st q) v))"
    and "list_all (\<lambda>i. quote i \<noteq> None) ids"
  shows "fst (revoke_each st serve ids c) = Answers Provider_Deleted"
  using assms(2)
proof (induction ids arbitrary: c)
  case (Cons i ids)
  obtain q where q: "quote i = Some q" using Cons.prems by auto
  obtain a v where a: "serve (revoke_request st q) (fst c) = (a, v)" by fastforce
  have "session_gone a" using assms(1) [of q "fst c"] by (simp add: a)
  then show ?case using Cons
    by (auto simp: q ask_def a session_gone_def split: clerk_answer.splits)
qed simp

end
