(* ===== verification/Spec2Isabelle.thy ===== *)
theory Spec2Isabelle
  imports RetentionSafety SearchProjection PostModerationSafety SocialSafety JournalGuarantees ErasureGuarantees ProviderGuarantees
begin

text \<open>
  \<^bold>\<open>A verification development for the connect.md API\<close> (\<open>src/apps/api/app\<close>).

  connect.md publishes profiles, documents, posts and jobs as Markdown and lets people and their
  agents reach each other.  The API is one FastAPI application (\<open>main.py\<close>) over a relational
  database (\<open>models.py\<close>), services that own one concern each (\<open>services/\<close>), files on disk for
  document versions and evidence, a search service, and workers that run beside the application.
  Modelled are the parts where a mistake cannot be taken back or is visible to others: what may be
  deleted and when, what may be shown or indexed, who may reach whom, and which external text the
  server accepts as its own.

  \<^bold>\<open>How the program is modelled.\<close>  The database is a record of tables, a table is a list of rows, a
  row is a record with the columns the modelled code reads or writes (theory \<open>Schema\<close>, from
  \<open>models.py\<close>).  One database transaction is one function from the state to the state; an operation
  that raises returns its error and the state it leaves behind.  Clocks, fresh identifiers, random
  nonces and answers of other systems are arguments.  A request handler reads the clock once; the
  code reads it a few times within one transaction, microseconds apart.  Hash functions, HMAC,
  AES-GCM, the text of floating-point numbers and the search service are parameters whose documented
  laws (\<open>crypto_ok\<close>, \<open>aead_ok\<close>, \<open>service_ok\<close>) are named hypotheses; every such theorem has a
  witness with concrete functions.  Locks make the locked block one step.

  \<^bold>\<open>Theories and the code they model.\<close>
  \<^item> \<open>Prelude\<close>: tables, keys, the error monad, and the locale \<open>keyed_table\<close>; \<open>WorkQueue\<close>: leases of work
    rows as a locale that both workers interpret.
  \<^item> \<open>PyText\<close>, \<open>PyData\<close>, \<open>PyCodec\<close>, \<open>PyJson\<close>, \<open>PyTime\<close>: what the code uses of Python: strings as
    lists of code points, UTF-8, \<open>str.strip\<close>, JSON writing and reading (with duplicate keys,
    surrogates and the recursion limit), base64, UTC time stamps.
  \<^item> \<open>HoldLineage\<close>: \<open>services/hold_lineage.py\<close>.  The upward and the downward walk agree.
  \<^item> \<open>Storage\<close>: the verified reads and exact deletion of \<open>services/storage.py\<close>.
  \<^item> \<open>Retention\<close>, \<open>RetentionSafety\<close>: \<open>services/retention.py\<close>.  Holds protect a whole lineage, a reported
    disposal happened, leases exclude each other, references are never orphaned, failures back off
    within bounds, scheduling is round-robin.
  \<^item> \<open>SearchProjection\<close>: \<open>services/search_projection.py\<close> and its calls in \<open>services/search.py\<close>.  The index holds
    only what a public current version projects to, and converges.
  \<^item> \<open>Requests\<close>: scopes, idempotency receipts, preconditions and quotas of \<open>main.py\<close>.
  \<^item> \<open>PostModeration\<close>, \<open>PostModerationSafety\<close>: \<open>services/post_moderation.py\<close> and the reporting, appeal and
    withdrawal routes of \<open>main.py\<close>.
  \<^item> \<open>SocialGraph\<close>, \<open>SocialSafety\<close>: connection requests, connections, blocks, conversations, messages and
    notifications of \<open>main.py\<close>.
  \<^item> \<open>Cursors\<close>: \<open>services/cursors.py\<close>, the cursor helpers of \<open>main.py\<close> and \<open>services/taxonomy.py\<close>.
  \<^item> \<open>Lifecycle\<close>: keyed digests and envelopes of provider values in \<open>auth.py\<close>.
  \<^item> \<open>DeletionJournal\<close>, \<open>DeletionJournalSafety\<close>, \<open>JournalGuarantees\<close>: \<open>services/deletion_journal.py\<close>.  The journal refines
    an append-only list, interrupted writes are noticed, retries answer alike, and the witness
    directory pins the history up to a hash collision.

  \<^item> \<open>AccountErasure\<close>, \<open>ErasureAdmission\<close>: \<open>services/account_erasure.py\<close>, \<open>services/reservations.py\<close>,
    \<open>services/backup_authority.py\<close> and the account lifecycle routes of \<open>main.py\<close>, one function per transaction.
  \<^item> \<open>ErasureSafety\<close>: the invariant of the erasure tables and that every transaction keeps it; \<open>ErasureGuarantees\<close>:
    the step relation over the transactions, and what holds in every interleaving: erasure proceeds in order,
    a finished erasure is complete, held rows are left alone, names stay reserved, and, as the
    operations are, no erasure ever finishes; \<open>DeletionMirror\<close>: journal and database of a confirmation.
  \<^item> \<open>ClerkProvider\<close>, \<open>ProviderGuarantees\<close>: the HTTP adapter to the identity provider in
    \<open>services/account_erasure.py\<close> and the settings of \<open>config.py\<close> it checks.  Whatever the provider
    answers, the listing of sessions ends after at most 101 pages; a provider item of an erasure is
    completed only on the provider's confirmation; and 10099 is the largest number of sessions that
    can be revoked, since a longer list asks for a retry each time.

  \<^bold>\<open>Bounds.\<close>  Loops of the code are recursive functions with termination proofs; none has fuel.  The JSON
  reader is bounded by the interpreter's nesting limit, which is a parameter; where a theorem needs
  it, the limit is a hypothesis (1538 nested containers suffice for every cursor of 2048
  characters).  Journal sequence numbers are below ten to the twentieth, the width of their file
  names.  The loop over the pages of sessions has the distance of its offset to 10001 as its measure.

  \<^bold>\<open>Not modelled.\<close>  Parsing of Markdown, PDF and DOCX and the search query language rest on third-party
  code.  Token verification, most of the configuration, logging, process supervision and SQL grants are
  input and output.  The scan of the last check of an erasure over a list of columns is a parameter,
  and the inventory of an account is an argument of its confirmation.  The routes for contacts, organizations, jobs, applications and agents, the
  document writer and the taxonomy beyond its cursors are not modelled.
\<close>

end
